(* ===== verification/Prelude.thy ===== *)
theory Prelude imports Complex_Main begin

text \<open>
  What every component of the development shares: the outcome of a call that may
  throw, the collections the components register their lemmas in, and a few
  generic lemmas on lists and integers.
\<close>

section \<open>Lemma collections\<close>

named_theorems js_num \<open>arithmetic of Numbers on safe integers\<close>

named_theorems iso_simps \<open>rewriting of ISO calendar functions\<close>

section \<open>Outcomes of calls\<close>

text \<open>
  JavaScript errors are values. \<open>RangeError\<close> and \<open>TypeError\<close> are the classes the code
  throws; \<open>SyntaxError\<close> is thrown by \<^verbatim>\<open>BigInt\<close> of a string; \<open>AssertError\<close> is \<^verbatim>\<open>throw new Error("assert not reached")\<close> and its kin;
  \<open>NoReturn\<close> is a call that never returns (a loop that does not end); \<open>InvalidArgument\<close> is the
  OCaml exception the runtime of the stubs raises; \<open>OutsideModel\<close> is an execution the model does not
  follow further. The message
  text of an error is not modelled.
\<close>

datatype error = RangeError | TypeError | AssertError | SyntaxError | NoReturn | InvalidArgument | OutsideModel

type_synonym 'a result = "error + 'a"

definition bindE :: "'a result \<Rightarrow> ('a \<Rightarrow> 'b result) \<Rightarrow> 'b result" where
  "bindE r f = (case r of Inl e \<Rightarrow> Inl e | Inr x \<Rightarrow> f x)"

text \<open>\<^verbatim>\<open>if (b) throw e;\<close>\<close>

definition throwIf :: "bool \<Rightarrow> error \<Rightarrow> unit result" where
  "throwIf b e = (if b then Inl e else Inr ())"

text \<open>A loop that may not end is an option; not ending is the outcome \<open>NoReturn\<close>.\<close>

definition returned :: "'a option \<Rightarrow> 'a result" where
  "returned r = (case r of None \<Rightarrow> Inl NoReturn | Some x \<Rightarrow> Inr x)"

lemma bindE_Inl [simp]: "bindE (Inl e) f = Inl e"
  by (simp add: bindE_def)

lemma bindE_Inr [simp]: "bindE (Inr x) f = f x"
  by (simp add: bindE_def)

lemma bindE_eq_Inr_iff: "bindE r f = Inr y \<longleftrightarrow> (\<exists>x. r = Inr x \<and> f x = Inr y)"
  by (cases r) auto

lemma bindE_eq_Inl_iff:
  "bindE r f = Inl e \<longleftrightarrow> r = Inl e \<or> (\<exists>x. r = Inr x \<and> f x = Inl e)"
  by (cases r) auto

lemma bindE_assoc: "bindE (bindE r f) g = bindE r (\<lambda>x. bindE (f x) g)"
  by (cases r) auto

lemma bindE_return [simp]: "bindE r Inr = r"
  by (cases r) auto

lemma bindE_cong [fundef_cong]:
  "r = r' \<Longrightarrow> (\<And>x. r' = Inr x \<Longrightarrow> f x = f' x) \<Longrightarrow> bindE r f = bindE r' f'"
  by (cases r') auto

lemma throwIf_simps [simp]:
  "throwIf True e = Inl e" "throwIf False e = Inr ()"
  by (simp_all add: throwIf_def)

lemma throwIf_eq_Inr_iff [simp]: "throwIf b e = Inr u \<longleftrightarrow> \<not> b"
  by (simp add: throwIf_def)

lemma throwIf_eq_Inl_iff [simp]: "throwIf b e = Inl e' \<longleftrightarrow> b \<and> e = e'"
  by (auto simp: throwIf_def)

lemma returned_simps [simp]:
  "returned None = Inl NoReturn" "returned (Some x) = Inr x"
  by (simp_all add: returned_def)

section \<open>Integers\<close>

lemma sgn_int_cases:
  fixes x :: int
  obtains "x < 0" "sgn x = -1" | "x = 0" "sgn x = 0" | "0 < x" "sgn x = 1"
  by (cases x "0::int" rule: linorder_cases) auto

lemma int_interval_induct_up [consumes 1, case_names base step]:
  fixes a b :: int
  assumes "a \<le> b" and "P a" and "\<And>k. a \<le> k \<Longrightarrow> k < b \<Longrightarrow> P k \<Longrightarrow> P (k + 1)"
  shows "P b"
proof -
  have "P k" if "a \<le> k" "k \<le> b" for k
    using that
  proof (induction k rule: int_ge_induct)
    case base
    show ?case by (rule assms(2))
  next
    case (step i)
    then show ?case using assms(3) by simp
  qed
  with assms(1) show ?thesis by simp
qed

lemma div_add_1:
  fixes a k :: int
  assumes k: "0 < k"
  shows "(a + 1) div k = a div k + (if k dvd a + 1 then 1 else 0)"
proof (cases "k dvd a + 1")
  case True
  then obtain m where m: "a + 1 = k * m" by (rule dvdE)
  have "a div k = m - 1"
    using m k by (intro int_div_pos_eq [where r = "k - 1"]) (auto simp: algebra_simps)
  then show ?thesis using m k by simp
next
  case False
  have r: "0 \<le> a mod k" "a mod k < k" using k by simp_all
  have "a mod k + 1 \<noteq> k"
  proof
    assume "a mod k + 1 = k"
    then have "a + 1 = k * (a div k + 1)"
      using mult_div_mod_eq [of k a] by (simp only: distrib_left)
    then show False using False by simp
  qed
  then have "(a + 1) div k = a div k"
    using r mult_div_mod_eq [of k a] by (intro int_div_pos_eq [where r = "a mod k + 1"]) auto
  then show ?thesis using False by simp
qed

lemma dvd_diff_const_iff:
  fixes k c y :: int
  shows "k dvd c \<Longrightarrow> k dvd y - c \<longleftrightarrow> k dvd y"
  using dvd_add_left_iff [of k c "y - c"] by simp

lemma div_shift:
  fixes a k m :: int
  shows "0 < k \<Longrightarrow> (a + k * m) div k = a div k + m"
  by simp

lemma div_bounds:
  fixes a k :: int
  assumes "0 < k"
  shows "k * (a div k) \<le> a" "a < k * (a div k) + k"
  using assms pos_mod_sign [of k a] pos_mod_bound [of k a] mult_div_mod_eq [of k a] by linarith+

end
