(* ===== verification/Js_Number.thy ===== *)
theory Js_Number
  imports Prelude "HOL-Library.Log_Nat" "HOL-Library.Signed_Division"
begin

text \<open>
  JavaScript numbers. A BigInt is an \<open>int\<close>; its division and remainder truncate. An
  integer-valued Number is an \<open>int\<close> too, but its arithmetic rounds to the nearest value
  with a 53-bit significand, ties to even; a magnitude of at least \<open>2 ^ 1024\<close> stands for
  an infinity, so \<open>Number.isFinite\<close> is a comparison. A fractional Number is the \<open>rat\<close>
  it denotes. NaN, the sign of zero and subnormal fractions do not arise in the
  modelled code and are not represented.
\<close>

section \<open>BigInt division\<close>

text \<open>\<^verbatim>\<open>t / r\<close> and \<^verbatim>\<open>t % r\<close> truncate towards zero, on BigInts and (the
  remainder, which is exact) on Numbers.\<close>

definition tdiv :: "int \<Rightarrow> int \<Rightarrow> int" where
  "tdiv a b = a sdiv b"

definition tmod :: "int \<Rightarrow> int \<Rightarrow> int" where
  "tmod a b = a smod b"

lemma tdiv_tmod: "tdiv a b * b + tmod a b = a"
  by (simp add: tdiv_def tmod_def sdiv_mult_smod_eq)

lemma tdiv_pos [simp]: "0 \<le> a \<Longrightarrow> 0 \<le> b \<Longrightarrow> tdiv a b = a div b"
  by (cases "a = 0"; cases "b = 0") (simp_all add: tdiv_def signed_divide_int_def)

lemma tdiv_neg: "a < 0 \<Longrightarrow> 0 < b \<Longrightarrow> tdiv a b = - ((- a) div b)"
  by (simp add: tdiv_def signed_divide_int_def)

lemma tmod_pos [simp]: "0 \<le> a \<Longrightarrow> 0 \<le> b \<Longrightarrow> tmod a b = a mod b"
  using tdiv_tmod [of a b] by (simp add: minus_div_mult_eq_mod [symmetric])

lemma tmod_neg: "a < 0 \<Longrightarrow> 0 < b \<Longrightarrow> tmod a b = - ((- a) mod b)"
  using tdiv_tmod [of a b] by (simp add: tdiv_neg minus_div_mult_eq_mod [symmetric])

lemma tmod_eq_0_iff: "0 < b \<Longrightarrow> tmod a b = 0 \<longleftrightarrow> b dvd a"
  by (cases "0 \<le> a") (auto simp: tmod_neg mod_eq_0_iff_dvd)

lemma tmod_bounds:
  assumes b: "0 < b"
  shows "- b < tmod a b" "tmod a b < b" "0 \<le> a \<Longrightarrow> 0 \<le> tmod a b" "a \<le> 0 \<Longrightarrow> tmod a b \<le> 0"
proof -
  have m: "0 \<le> c mod b" "c mod b < b" for c
    using b by simp_all
  show "- b < tmod a b" "tmod a b < b"
    using m [of a] m [of "- a"] b tmod_pos [of a b] tmod_neg [of a b] by linarith+
  show "0 \<le> tmod a b" if "0 \<le> a"
    using m [of a] b tmod_pos [of a b] that by linarith
  show "tmod a b \<le> 0" if "a \<le> 0"
    using m [of "- a"] m [of a] b tmod_pos [of a b] tmod_neg [of a b] that
    by (cases "a = 0") auto
qed

text \<open>The floor division in terms of the truncating one.\<close>

lemma div_via_tdiv:
  assumes "0 < b"
  shows "a div b = (if tmod a b < 0 then tdiv a b - 1 else tdiv a b)"
    and "a mod b = (if tmod a b < 0 then tmod a b + b else tmod a b)"
proof -
  let ?q = "if tmod a b < 0 then tdiv a b - 1 else tdiv a b"
  let ?r = "if tmod a b < 0 then tmod a b + b else tmod a b"
  have eq: "a = b * ?q + ?r"
    using tdiv_tmod [of a b] by (auto simp: algebra_simps)
  have b: "0 \<le> ?r" "?r < b"
    using tmod_bounds [OF assms, of a] by auto
  show "a div b = ?q" using int_div_pos_eq [OF eq b] .
  show "a mod b = ?r" using int_mod_pos_eq [OF eq b] .
qed

section \<open>Rounding to a 53-bit significand\<close>

text \<open>\<open>log2floor q\<close> is the exponent of the leading bit of \<open>q > 0\<close>.\<close>

definition log2floor :: "rat \<Rightarrow> int" where
  "log2floor q =
     (case quotient_of q of (n, d) \<Rightarrow>
        let k = bitlen n - bitlen d in if 2 powi k \<le> q then k else k - 1)"

text \<open>Nearest integer, ties to even.\<close>

definition rne :: "rat \<Rightarrow> int" where
  "rne q =
     (let f = \<lfloor>q\<rfloor>; r = q - of_int f
      in if r < 1 / 2 \<or> (r = 1 / 2 \<and> even f) then f else f + 1)"

definition fl :: "rat \<Rightarrow> rat" where
  "fl q =
     (if q = 0 then 0
      else let u = 2 powi (log2floor \<bar>q\<bar> - 52) in of_int (rne (q / u)) * u)"

lemma log2floor_bounds:
  assumes "0 < q"
  shows "2 powi (log2floor q) \<le> q" "q < 2 powi (log2floor q + 1)"
proof -
  obtain n d where nd: "quotient_of q = (n, d)" by fastforce
  have d: "0 < d" using quotient_of_denom_pos [OF nd] .
  have q: "q = of_int n / of_int d" using quotient_of_div [OF nd] .
  have n: "0 < n"
    using assms d by (simp add: q zero_less_divide_iff)
  have pow: "(2::rat) ^ nat k = 2 powi k" if "0 \<le> k" for k
    using that by (simp add: power_int_def)
  have bits: "2 powi (bitlen x - 1) \<le> (of_int x :: rat)" "(of_int x :: rat) < 2 powi bitlen x"
    if x: "0 < x" for x
  proof -
    have b: "1 \<le> bitlen x" using x bitlen_le_iff_power [of x 0] by simp
    have 1: "2 ^ nat (bitlen x - 1) \<le> x" and 2: "x < 2 ^ nat (bitlen x)"
      using bitlen_bounds [OF x] by auto
    have "(of_int (2 ^ nat (bitlen x - 1)) :: rat) \<le> of_int x" using 1 by (simp only: of_int_le_iff)
    then show "2 powi (bitlen x - 1) \<le> (of_int x :: rat)" using b by (simp add: pow)
    have "(of_int x :: rat) < of_int (2 ^ nat (bitlen x))" using 2 by (simp only: of_int_less_iff)
    then show "(of_int x :: rat) < 2 powi bitlen x" using b by (simp add: pow)
  qed
  let ?k = "bitlen n - bitlen d"
  have "q < 2 powi bitlen n / 2 powi (bitlen d - 1)"
    unfolding q using bits [OF n] bits [OF d] d n
    by (intro frac_less) auto
  then have up: "q < 2 powi (?k + 1)"
    by (simp add: power_int_diff [symmetric] algebra_simps)
  have "2 powi (bitlen n - 1) / 2 powi bitlen d < q"
    unfolding q using bits [OF n] bits [OF d] d n
    by (intro frac_less2) auto
  then have lo: "2 powi (?k - 1) \<le> q"
    by (simp add: power_int_diff [symmetric] algebra_simps)
  have k: "log2floor q = (if 2 powi ?k \<le> q then ?k else ?k - 1)"
    by (simp add: log2floor_def nd Let_def)
  show "2 powi (log2floor q) \<le> q" using lo k by auto
  show "q < 2 powi (log2floor q + 1)" using up k by auto
qed

lemma rne_error: "\<bar>of_int (rne q) - q\<bar> \<le> 1 / 2"
proof -
  have "of_int \<lfloor>q\<rfloor> \<le> q" "q < of_int \<lfloor>q\<rfloor> + 1"
    by linarith+
  then show ?thesis by (auto simp: rne_def Let_def abs_le_iff)
qed

lemma rne_of_int [simp]: "rne (of_int n) = n"
  by (simp add: rne_def)

lemma fl_0 [simp]: "fl 0 = 0"
  by (simp add: fl_def)

text \<open>The relative error of a rounding is at most \<open>2 ^ -53\<close>.\<close>

lemma fl_error: "\<bar>fl q - q\<bar> \<le> \<bar>q\<bar> / 2 ^ 53"
proof (cases "q = 0")
  case False
  define u :: rat where "u = 2 powi (log2floor \<bar>q\<bar> - 52)"
  have u: "0 < u" by (simp add: u_def)
  have "2 powi (log2floor \<bar>q\<bar>) \<le> \<bar>q\<bar>"
    using log2floor_bounds [of "\<bar>q\<bar>"] False by simp
  then have uq: "u \<le> \<bar>q\<bar> / 2 ^ 52"
    by (simp add: u_def power_int_diff field_simps)
  have "fl q - q = (of_int (rne (q / u)) - q / u) * u"
    using False u by (simp add: fl_def u_def [symmetric] Let_def field_simps)
  then have "\<bar>fl q - q\<bar> = \<bar>of_int (rne (q / u)) - q / u\<bar> * u"
    using u by (simp add: abs_mult)
  also have "\<dots> \<le> 1 / 2 * u"
    using rne_error [of "q / u"] u by (intro mult_right_mono) auto
  also have "\<dots> \<le> \<bar>q\<bar> / 2 ^ 53" using uq by simp
  finally show ?thesis .
qed simp

text \<open>A value with a 53-bit significand is not changed.\<close>

lemma fl_representable:
  assumes "\<bar>m\<bar> < 2 ^ 53"
  shows "fl (of_int m * 2 powi e) = of_int m * 2 powi e"
proof (cases "m = 0")
  case False
  let ?q = "of_int m * 2 powi e :: rat"
  let ?k = "log2floor \<bar>?q\<bar>"
  have q: "?q \<noteq> 0" using False by simp
  have "(of_int \<bar>m\<bar> :: rat) < of_int (2 ^ 53)"
    using assms by (simp only: of_int_less_iff)
  then have "\<bar>?q\<bar> < 2 ^ 53 * 2 powi e"
    by (simp add: abs_mult)
  also have "\<dots> = 2 powi (53 + e)"
    by (simp add: power_int_add)
  finally have "2 powi ?k < (2 powi (53 + e) :: rat)"
    using log2floor_bounds(1) [of "\<bar>?q\<bar>"] q by simp
  then have "?k < 53 + e"
    using power_int_increasing [of "53 + e" ?k "2::rat"] by (meson linorder_not_le one_le_numeral)
  then have j: "0 \<le> e - (?k - 52)" by simp
  have "?q / 2 powi (?k - 52) = of_int m * 2 powi (e - (?k - 52))"
    by (simp add: power_int_diff)
  also have "\<dots> = of_int (m * 2 ^ nat (e - (?k - 52)))"
    using j by (simp add: power_int_def)
  finally have "rne (?q / 2 powi (?k - 52)) = m * 2 ^ nat (e - (?k - 52))"
    by (simp only: rne_of_int)
  then have "fl ?q = of_int (m * 2 ^ nat (e - (?k - 52))) * 2 powi (?k - 52)"
    using q by (simp add: fl_def Let_def)
  also have "\<dots> = of_int m * (2 powi (e - (?k - 52)) * 2 powi (?k - 52))"
    using j by (simp add: power_int_def)
  also have "\<dots> = ?q"
    by (simp add: power_int_add [symmetric])
  finally show ?thesis .
qed simp

lemma fl_of_int:
  assumes "\<bar>n\<bar> \<le> 2 ^ 53"
  shows "fl (of_int n) = of_int n"
proof (cases "\<bar>n\<bar> = 2 ^ 53")
  case True
  have "fl (of_int (sgn n) * 2 powi 53) = of_int (sgn n) * 2 powi 53"
    by (rule fl_representable) (auto simp: sgn_if)
  moreover have "of_int n = (of_int (sgn n) * 2 powi 53 :: rat)"
  proof -
    have "n = sgn n * 2 ^ 53" using True by (metis sgn_mult_abs)
    then have "(of_int n :: rat) = of_int (sgn n * 2 ^ 53)" by (rule arg_cong)
    then show ?thesis by simp
  qed
  ultimately show ?thesis by simp
next
  case False
  then show ?thesis using assms fl_representable [of n 0] by simp
qed

section \<open>Floor and truncation of a quotient\<close>

text \<open>\<^verbatim>\<open>Math.floor(x / y)\<close> and \<^verbatim>\<open>Math.trunc(x / y)\<close> of integer-valued Numbers.\<close>

definition floorQuot :: "int \<Rightarrow> int \<Rightarrow> int" where
  "floorQuot x y = \<lfloor>fl (of_int x / of_int y)\<rfloor>"

definition truncRat :: "rat \<Rightarrow> int" where
  "truncRat q = (if q < 0 then - \<lfloor>- q\<rfloor> else \<lfloor>q\<rfloor>)"

definition truncQuot :: "int \<Rightarrow> int \<Rightarrow> int" where
  "truncQuot x y = truncRat (fl (of_int x / of_int y))"

text \<open>
  For safe integers the rounding of the quotient is never seen: the error is smaller
  than the distance \<open>1 / y\<close> to the next integer.
\<close>

lemma fl_quot_between:
  assumes x: "\<bar>x\<bar> < 2 ^ 53" and y: "0 < y"
  shows "of_int (x div y) \<le> fl (of_int x / of_int y)"
    and "fl (of_int x / of_int y) < of_int (x div y) + 1"
    and "y dvd x \<Longrightarrow> fl (of_int x / of_int y) = of_int (x div y)"
    and "\<not> y dvd x \<Longrightarrow> of_int (x div y) < fl (of_int x / of_int y)"
proof -
  let ?q = "of_int x / of_int y :: rat"
  have exact: "fl ?q = of_int (x div y)" if "y dvd x"
  proof -
    from that obtain k where k: "x = y * k" by (rule dvdE)
    have "\<bar>k\<bar> \<le> \<bar>x\<bar>" using y unfolding k abs_mult by (simp add: mult_le_cancel_right1)
    then have "fl (of_int k) = of_int k" using x by (intro fl_of_int) linarith
    then show ?thesis using y by (simp add: k)
  qed
  have "(of_int \<bar>x\<bar> :: rat) < of_int (2 ^ 53)"
    using x by (simp only: of_int_less_iff)
  then have "\<bar>?q\<bar> / 2 ^ 53 < 1 / of_int y"
    using y by (simp add: abs_divide field_simps)
  then have err: "\<bar>fl ?q - ?q\<bar> < 1 / of_int y"
    using fl_error [of ?q] by linarith
  have split: "?q = of_int (x div y) + of_int (x mod y) / of_int y"
  proof -
    have "(of_int x :: rat) = of_int y * of_int (x div y) + of_int (x mod y)"
      by (simp only: of_int_mult [symmetric] of_int_add [symmetric] mult_div_mod_eq)
    then show ?thesis using y by (simp add: field_simps)
  qed
  have "x mod y \<le> y - 1" using y by (simp add: zle_diff1_eq)
  then have "(of_int (x mod y) :: rat) \<le> of_int (y - 1)" by (simp only: of_int_le_iff)
  then have hi: "of_int (x mod y) / of_int y + 1 / of_int y \<le> (1::rat)"
    using y by (simp add: field_simps)
  show "fl ?q < of_int (x div y) + 1"
    using err split hi by (simp only: abs_less_iff) linarith
  have ndvd: "of_int (x div y) < fl ?q" if "\<not> y dvd x"
  proof -
    have "x mod y \<noteq> 0" using that by (simp add: dvd_eq_mod_eq_0)
    then have "1 \<le> x mod y" using pos_mod_sign [OF y, of x] by linarith
    then have "(of_int 1 :: rat) \<le> of_int (x mod y)" by (simp only: of_int_le_iff)
    then have "1 / of_int y \<le> (of_int (x mod y) / of_int y :: rat)"
      using y by (simp add: field_simps)
    then show ?thesis using err split by (simp only: abs_less_iff) linarith
  qed
  show "of_int (x div y) \<le> fl ?q"
    using exact ndvd by (cases "y dvd x") auto
  show "fl ?q = of_int (x div y)" if "y dvd x" using exact that .
  show "of_int (x div y) < fl ?q" if "\<not> y dvd x" using ndvd that .
qed

lemma floorQuot_safe [js_num]:
  "\<bar>x\<bar> < 2 ^ 53 \<Longrightarrow> 0 < y \<Longrightarrow> floorQuot x y = x div y"
  unfolding floorQuot_def using fl_quot_between [of x y] by (intro floor_unique) auto

lemma truncQuot_safe [js_num]:
  assumes x: "\<bar>x\<bar> < 2 ^ 53" and y: "0 < y"
  shows "truncQuot x y = tdiv x y"
proof -
  let ?f = "fl (of_int x / of_int y)"
  note b = fl_quot_between [OF x y]
  show ?thesis
  proof (cases "0 \<le> x")
    case True
    then have "0 \<le> x div y" using y by (simp add: pos_imp_zdiv_nonneg_iff)
    then have "(0::rat) \<le> of_int (x div y)" by simp
    then have "\<not> ?f < 0" using b(1) by linarith
    then show ?thesis
      using True y floorQuot_safe [OF x y] by (simp add: truncQuot_def truncRat_def floorQuot_def)
  next
    case False
    then have neg: "x div y < 0" using y by (simp add: pos_imp_zdiv_neg_iff)
    show ?thesis
    proof (cases "y dvd x")
      case True
      then have "?f = of_int (x div y)" using b(3) by simp
      moreover have "tdiv x y = x div y"
        using div_via_tdiv(1) [OF y, of x] tmod_eq_0_iff [OF y, of x] True by simp
      ultimately show ?thesis using neg by (simp add: truncQuot_def truncRat_def)
    next
      case ndvd: False
      have t: "tdiv x y = x div y + 1"
        using div_via_tdiv(1) [OF y, of x] tmod_eq_0_iff [OF y, of x] ndvd False
          tmod_bounds(4) [OF y, of x] by (simp split: if_splits)
      have f1: "of_int (x div y) < ?f" and f2: "?f < of_int (x div y) + 1"
        using b(2,4) ndvd by auto
      have f3: "?f < 0"
      proof -
        have "of_int (x div y + 1) \<le> (of_int 0 :: rat)"
          using neg by (intro of_int_le_iff [THEN iffD2]) linarith
        then show ?thesis using b(2) by simp
      qed
      have "\<lfloor>- ?f\<rfloor> = - (x div y) - 1"
      proof (rule floor_unique)
        show "of_int (- (x div y) - 1) \<le> - ?f"
          using f2 by simp
        show "- ?f < of_int (- (x div y) - 1) + 1"
          using f1 by simp
      qed
      then show ?thesis using t f3 by (simp add: truncQuot_def truncRat_def)
    qed
  qed
qed

section \<open>Integer-valued Numbers\<close>

text \<open>\<^verbatim>\<open>Number(n)\<close> of a BigInt \<open>n\<close>: the nearest integer-valued double.\<close>

definition toNumber :: "int \<Rightarrow> int" where
  "toNumber n = \<lfloor>fl (of_int n)\<rfloor>"

text \<open>\<^verbatim>\<open>Number.isFinite\<close>\<close>

definition isFinite :: "int \<Rightarrow> bool" where
  "isFinite n \<longleftrightarrow> \<bar>n\<bar> < 2 ^ 1024"

definition nadd :: "int \<Rightarrow> int \<Rightarrow> int" where
  "nadd a b = toNumber (a + b)"

definition nsub :: "int \<Rightarrow> int \<Rightarrow> int" where
  "nsub a b = toNumber (a - b)"

definition nmul :: "int \<Rightarrow> int \<Rightarrow> int" where
  "nmul a b = toNumber (a * b)"

lemma toNumber_safe [js_num]: "\<bar>n\<bar> \<le> 2 ^ 53 \<Longrightarrow> toNumber n = n"
  by (simp add: toNumber_def fl_of_int)

lemma nadd_safe [js_num]: "\<bar>a + b\<bar> \<le> 2 ^ 53 \<Longrightarrow> nadd a b = a + b"
  by (simp add: nadd_def toNumber_safe)

lemma nsub_safe [js_num]: "\<bar>a - b\<bar> \<le> 2 ^ 53 \<Longrightarrow> nsub a b = a - b"
  by (simp add: nsub_def toNumber_safe)

lemma nmul_safe [js_num]: "\<bar>a * b\<bar> \<le> 2 ^ 53 \<Longrightarrow> nmul a b = a * b"
  by (simp add: nmul_def toNumber_safe)

lemma isFinite_safe [js_num]: "\<bar>n\<bar> \<le> 2 ^ 53 \<Longrightarrow> isFinite n"
  by (simp add: isFinite_def)

text \<open>Rounding an integer gives an integer, so \<open>toNumber\<close> loses nothing of \<open>fl\<close>.\<close>

lemma fl_of_int_integral: "fl (of_int n) = of_int (toNumber n)"
proof (cases "\<bar>n\<bar> \<le> 2 ^ 53")
  case True
  then show ?thesis by (simp add: fl_of_int toNumber_safe)
next
  case False
  let ?k = "log2floor (of_int \<bar>n\<bar>)"
  have "(of_int (2 ^ 53) :: rat) < of_int \<bar>n\<bar>" using False by (simp only: of_int_less_iff)
  moreover have "of_int \<bar>n\<bar> < (2::rat) powi (?k + 1)"
    using log2floor_bounds(2) [of "of_int \<bar>n\<bar>"] False by (cases "n = 0") auto
  ultimately have "2 powi 53 < (2::rat) powi (?k + 1)"
    by simp
  then have "52 \<le> ?k"
    using power_int_increasing [of "?k + 1" 53 "2::rat"] by (cases "?k + 1 \<le> 53") (auto simp: not_le)
  then have u: "2 powi (?k - 52) = (of_int (2 ^ nat (?k - 52)) :: rat)"
    by (simp add: power_int_def)
  have "fl (of_int n) = of_int (rne (of_int n / 2 powi (?k - 52))) * 2 powi (?k - 52)"
    using False by (cases "n = 0") (simp_all add: fl_def Let_def)
  also have "\<dots> = of_int (rne (of_int n / 2 powi (?k - 52)) * 2 ^ nat (?k - 52))"
    by (simp only: u of_int_mult)
  finally have "\<exists>m. fl (of_int n) = of_int m" ..
  then show ?thesis by (auto simp: toNumber_def)
qed

end
