(* ===== verification/Js_Date.thy ===== *)
theory Js_Date imports Js_Number begin

text \<open>
  The part of ECMAScript's \<open>Date\<close> the code uses, after the abstract operations of the
  standard: \<open>MakeDay\<close>, \<open>MakeTime\<close>, \<open>MakeDate\<close>, \<open>TimeClip\<close>, the UTC setters and the UTC
  getters. A time value is a number of milliseconds since 1970-01-01T00:00Z, or NaN
  (\<open>None\<close>). The day number of \<open>MakeDay\<close> is also the reference the ISO calendar
  functions are proved against.
\<close>

section \<open>Day numbers\<close>

definition InLeapYear :: "int \<Rightarrow> bool" where
  "InLeapYear y \<longleftrightarrow> 4 dvd y \<and> (\<not> 100 dvd y \<or> 400 dvd y)"

definition DaysInYear :: "int \<Rightarrow> int" where
  "DaysInYear y = (if InLeapYear y then 366 else 365)"

definition DayFromYear :: "int \<Rightarrow> int" where
  "DayFromYear y =
     365 * (y - 1970) + (y - 1969) div 4 - (y - 1901) div 100 + (y - 1601) div 400"

text \<open>Day within the year of the first day of month \<open>m\<close>, January being 0.\<close>

definition MonthStart :: "bool \<Rightarrow> int \<Rightarrow> int" where
  "MonthStart leap m =
     [0, 31, 59, 90, 120, 151, 181, 212, 243, 273, 304, 334] ! nat m
       + (if leap \<and> 2 \<le> m then 1 else 0)"

definition MakeDay :: "int \<Rightarrow> int \<Rightarrow> int \<Rightarrow> int" where
  "MakeDay y m dt =
     (let ym = y + m div 12; mn = m mod 12
      in DayFromYear ym + MonthStart (InLeapYear ym) mn + dt - 1)"

text \<open>The year, month (from 0) and date of a day number.\<close>

definition YearFromDay :: "int \<Rightarrow> int" where
  "YearFromDay d =
     (let y = 1970 + (400 * d) div 146097
      in if DayFromYear (y + 1) \<le> d then y + 1 else if DayFromYear y \<le> d then y else y - 1)"

definition MonthOfYearDay :: "bool \<Rightarrow> int \<Rightarrow> int" where
  "MonthOfYearDay leap n =
     (let l = (if leap then 1 else 0)
      in if n < 31 then 0 else if n < 59 + l then 1 else if n < 90 + l then 2
         else if n < 120 + l then 3 else if n < 151 + l then 4 else if n < 181 + l then 5
         else if n < 212 + l then 6 else if n < 243 + l then 7 else if n < 273 + l then 8
         else if n < 304 + l then 9 else if n < 334 + l then 10 else 11)"

definition MonthFromDay :: "int \<Rightarrow> int" where
  "MonthFromDay d =
     (let y = YearFromDay d in MonthOfYearDay (InLeapYear y) (d - DayFromYear y))"

definition DateFromDay :: "int \<Rightarrow> int" where
  "DateFromDay d =
     (let y = YearFromDay d
      in d - DayFromYear y - MonthStart (InLeapYear y) (MonthFromDay d) + 1)"

lemma DayFromYear_Suc: "DayFromYear (y + 1) = DayFromYear y + DaysInYear y"
proof -
  define a b c where "a = (y - 1969) div 4" and "b = (y - 1901) div 100" and "c = (y - 1601) div 400"
  have d: "4 dvd y + 1 - 1969 \<longleftrightarrow> 4 dvd y" "100 dvd y + 1 - 1901 \<longleftrightarrow> 100 dvd y"
    "400 dvd y + 1 - 1601 \<longleftrightarrow> 400 dvd y"
    using dvd_diff_const_iff [of 4 1968 y] dvd_diff_const_iff [of 100 1900 y]
      dvd_diff_const_iff [of 400 1600 y] by simp_all
  have "(y + 1 - 1969) div 4 = a + (if 4 dvd y then 1 else 0)"
    "(y + 1 - 1901) div 100 = b + (if 100 dvd y then 1 else 0)"
    "(y + 1 - 1601) div 400 = c + (if 400 dvd y then 1 else 0)"
    using div_add_1 [of 4 "y - 1969"] div_add_1 [of 100 "y - 1901"] div_add_1 [of 400 "y - 1601"]
    unfolding a_def b_def c_def by (simp_all only: d zero_less_numeral simp_thms diff_add_eq)
  then have "DayFromYear (y + 1) = 365 * (y + 1 - 1970) + (a + (if 4 dvd y then 1 else 0))
      - (b + (if 100 dvd y then 1 else 0)) + (c + (if 400 dvd y then 1 else 0))"
    by (simp only: DayFromYear_def)
  moreover have "DayFromYear y = 365 * (y - 1970) + a - b + c"
    by (simp only: DayFromYear_def a_def b_def c_def)
  moreover have "400 dvd y \<Longrightarrow> 100 dvd y" "100 dvd y \<Longrightarrow> 4 dvd y"
    using dvd_trans [of 100 400 y] dvd_trans [of 4 100 y] by simp_all
  ultimately show ?thesis
    by (cases "4 dvd y"; cases "100 dvd y"; cases "400 dvd y")
      (simp_all add: DaysInYear_def InLeapYear_def)
qed

lemma DaysInYear_range: "365 \<le> DaysInYear y" "DaysInYear y \<le> 366"
  by (simp_all add: DaysInYear_def)

lemma DayFromYear_add_400: "DayFromYear (y + 400) = DayFromYear y + 146097"
proof -
  define a b c where "a = (y - 1969) div 4" and "b = (y - 1901) div 100" and "c = (y - 1601) div 400"
  have "y + 400 - 1969 = (y - 1969) + 4 * 100" "y + 400 - 1901 = (y - 1901) + 100 * 4"
    "y + 400 - 1601 = (y - 1601) + 400 * 1"
    by simp_all
  then have "(y + 400 - 1969) div 4 = a + 100" "(y + 400 - 1901) div 100 = b + 4"
    "(y + 400 - 1601) div 400 = c + 1"
    by (simp_all only: a_def b_def c_def div_shift zero_less_numeral)
  moreover have "DayFromYear y = 365 * (y - 1970) + a - b + c"
    by (simp only: DayFromYear_def a_def b_def c_def)
  ultimately show ?thesis by (simp only: DayFromYear_def) simp
qed

lemma InLeapYear_add_400: "InLeapYear (y + 400 * k) = InLeapYear y"
  by (simp add: InLeapYear_def dvd_add_left_iff)

lemma DayFromYear_add_400_mult: "DayFromYear (y + 400 * k) = DayFromYear y + 146097 * k"
proof (induction k rule: int_induct [where k = 0])
  case (step1 i)
  then show ?case using DayFromYear_add_400 [of "y + 400 * i"] by (simp add: algebra_simps)
next
  case (step2 i)
  then show ?case using DayFromYear_add_400 [of "y + 400 * (i - 1)"] by (simp add: algebra_simps)
qed simp

lemma DayFromYear_strict_mono: "y < z \<Longrightarrow> DayFromYear y < DayFromYear z"
proof (induction z rule: int_gr_induct)
  case base
  show ?case using DayFromYear_Suc [of y] DaysInYear_range [of y] by simp
next
  case (step i)
  then show ?case using DayFromYear_Suc [of i] DaysInYear_range [of i] by simp
qed

lemma DayFromYear_less_iff [simp]: "DayFromYear y < DayFromYear z \<longleftrightarrow> y < z"
  by (metis DayFromYear_strict_mono linorder_neqE order_less_asym)

lemma DayFromYear_le_iff [simp]: "DayFromYear y \<le> DayFromYear z \<longleftrightarrow> y \<le> z"
  by (simp add: linorder_not_less [symmetric])

text \<open>\<open>DayFromYear\<close> stays within two days of 365.2425 days per year.\<close>

lemma DayFromYear_bounds:
  "146097 * (y - 1970) - 800 \<le> 400 * DayFromYear y"
  "400 * DayFromYear y \<le> 146097 * (y - 1970) + 800"
proof -
  define a b c where "a = (y - 1969) div 4" and "b = (y - 1901) div 100" and "c = (y - 1601) div 400"
  have "4 * a \<le> y - 1969" "y - 1969 < 4 * a + 4" "100 * b \<le> y - 1901" "y - 1901 < 100 * b + 100"
    "400 * c \<le> y - 1601" "y - 1601 < 400 * c + 400"
    unfolding a_def b_def c_def by (rule div_bounds; simp)+
  moreover have "DayFromYear y = 365 * (y - 1970) + a - b + c"
    by (simp add: DayFromYear_def a_def b_def c_def)
  ultimately show "146097 * (y - 1970) - 800 \<le> 400 * DayFromYear y"
    and "400 * DayFromYear y \<le> 146097 * (y - 1970) + 800"
    by (simp_all add: algebra_simps)
qed

lemma YearFromDay_bounds:
  "DayFromYear (YearFromDay d) \<le> d" "d < DayFromYear (YearFromDay d + 1)"
proof -
  define q where "q = (400 * d) div 146097"
  have q: "146097 * q \<le> 400 * d" "400 * d < 146097 * q + 146097"
    unfolding q_def by (rule div_bounds; simp)+
  have "DayFromYear (1970 + q - 1) \<le> d" "d < DayFromYear (1970 + q + 2)"
    using q DayFromYear_bounds(2) [of "1970 + q - 1"] DayFromYear_bounds(1) [of "1970 + q + 2"]
    by simp_all
  then show "DayFromYear (YearFromDay d) \<le> d" "d < DayFromYear (YearFromDay d + 1)"
    by (auto simp: YearFromDay_def Let_def add.assoc q_def [symmetric])
qed

lemma YearFromDay_unique:
  assumes "DayFromYear y \<le> d" "d < DayFromYear (y + 1)"
  shows "YearFromDay d = y"
proof -
  have "DayFromYear y < DayFromYear (YearFromDay d + 1)" "DayFromYear (YearFromDay d) < DayFromYear (y + 1)"
    using assms YearFromDay_bounds [of d] by linarith+
  then show ?thesis by simp
qed

section \<open>Months\<close>

definition MonthLength :: "bool \<Rightarrow> int \<Rightarrow> int" where
  "MonthLength leap m =
     (if leap \<and> m = 1 then 29 else [31, 28, 31, 30, 31, 30, 31, 31, 30, 31, 30, 31] ! nat m)"

lemma month_cases:
  fixes m :: int
  assumes "0 \<le> m" "m < 12"
  obtains "m = 0" | "m = 1" | "m = 2" | "m = 3" | "m = 4" | "m = 5"
    | "m = 6" | "m = 7" | "m = 8" | "m = 9" | "m = 10" | "m = 11"
proof -
  have "m = 0 \<or> m = 1 \<or> m = 2 \<or> m = 3 \<or> m = 4 \<or> m = 5 \<or> m = 6 \<or> m = 7 \<or> m = 8
      \<or> m = 9 \<or> m = 10 \<or> m = 11"
    using assms by arith
  then show ?thesis using that by blast
qed

lemma MonthStart_0 [simp]: "MonthStart leap 0 = 0"
  by (simp add: MonthStart_def)

lemma MonthStart_Suc:
  assumes "0 \<le> m" "m < 11"
  shows "MonthStart leap (m + 1) = MonthStart leap m + MonthLength leap m"
proof -
  have "m < 12" using assms by simp
  with assms(1) show ?thesis
    by (cases m rule: month_cases) (use assms in \<open>auto simp: MonthStart_def MonthLength_def\<close>)
qed

lemma MonthStart_11: "MonthStart leap 11 + MonthLength leap 11 = (if leap then 366 else 365)"
  by (simp add: MonthStart_def MonthLength_def)

lemma MonthLength_range:
  assumes "0 \<le> m" "m < 12"
  shows "28 \<le> MonthLength leap m" "MonthLength leap m \<le> 31"
  using assms by (cases m rule: month_cases; auto simp: MonthLength_def)+

lemma MonthOfYearDay_range:
  "0 \<le> MonthOfYearDay leap n" "MonthOfYearDay leap n < 12"
  by (simp_all add: MonthOfYearDay_def Let_def)

lemma MonthOfYearDay_cases:
  fixes l :: int
  assumes "l = (if leap then 1 else 0)"
  shows "n < 31 \<and> MonthOfYearDay leap n = 0 \<or>
    31 \<le> n \<and> n < 59 + l \<and> MonthOfYearDay leap n = 1 \<or>
    59 + l \<le> n \<and> n < 90 + l \<and> MonthOfYearDay leap n = 2 \<or>
    90 + l \<le> n \<and> n < 120 + l \<and> MonthOfYearDay leap n = 3 \<or>
    120 + l \<le> n \<and> n < 151 + l \<and> MonthOfYearDay leap n = 4 \<or>
    151 + l \<le> n \<and> n < 181 + l \<and> MonthOfYearDay leap n = 5 \<or>
    181 + l \<le> n \<and> n < 212 + l \<and> MonthOfYearDay leap n = 6 \<or>
    212 + l \<le> n \<and> n < 243 + l \<and> MonthOfYearDay leap n = 7 \<or>
    243 + l \<le> n \<and> n < 273 + l \<and> MonthOfYearDay leap n = 8 \<or>
    273 + l \<le> n \<and> n < 304 + l \<and> MonthOfYearDay leap n = 9 \<or>
    304 + l \<le> n \<and> n < 334 + l \<and> MonthOfYearDay leap n = 10 \<or>
    334 + l \<le> n \<and> MonthOfYearDay leap n = 11"
  unfolding MonthOfYearDay_def Let_def assms [symmetric] by (simp add: not_less)

lemma MonthOfYearDay_bounds:
  assumes n: "0 \<le> n" "n < (if leap then 366 else 365)"
  defines "m \<equiv> MonthOfYearDay leap n"
  shows "MonthStart leap m \<le> n \<and> n < MonthStart leap m + MonthLength leap m"
proof (cases leap)
  case True
  have "n < 366" using n True by simp
  moreover have l: "1 = (if leap then 1 else (0::int))" using True by simp
  ultimately show ?thesis
    using MonthOfYearDay_cases [OF l, of n] n(1) True
    unfolding m_def by (elim disjE conjE) (simp_all add: MonthStart_def MonthLength_def)
next
  case False
  have "n < 365" using n False by simp
  moreover have l: "0 = (if leap then 1 else (0::int))" using False by simp
  ultimately show ?thesis
    using MonthOfYearDay_cases [OF l, of n] n(1) False
    unfolding m_def by (elim disjE conjE) (simp_all add: MonthStart_def MonthLength_def)
qed

lemma MonthOfYearDay_unique:
  assumes "0 \<le> m" "m < 12" "MonthStart leap m \<le> n" "n < MonthStart leap m + MonthLength leap m"
  shows "MonthOfYearDay leap n = m"
  using assms
  by (cases m rule: month_cases; cases leap)
    (simp_all add: MonthOfYearDay_def MonthStart_def MonthLength_def)

lemma MonthStart_range:
  assumes "0 \<le> m" "m < 12"
  shows "0 \<le> MonthStart leap m"
    and "MonthStart leap m + MonthLength leap m \<le> (if leap then 366 else 365)"
  using assms by (cases m rule: month_cases; cases leap; simp add: MonthStart_def MonthLength_def)+

lemma MonthStart_mono:
  assumes "0 \<le> m" "m < n" "n < 12"
  shows "MonthStart leap m + MonthLength leap m \<le> MonthStart leap n"
  using assms(2,3)
proof (induction n rule: int_gr_induct)
  case base
  then show ?case using MonthStart_Suc [of m leap] assms(1) by simp
next
  case (step i)
  then show ?case
    using MonthStart_Suc [of i leap] MonthLength_range [of i leap] assms(1) by simp
qed

section \<open>Days and dates\<close>

lemma MakeDay_month: "0 \<le> m \<Longrightarrow> m < 12 \<Longrightarrow>
    MakeDay y m d = DayFromYear y + MonthStart (InLeapYear y) m + d - 1"
  by (simp add: MakeDay_def Let_def)

lemma MakeDay_add_day: "MakeDay y m (d + k) = MakeDay y m d + k"
  by (simp add: MakeDay_def Let_def)

lemma MakeDay_carry: "MakeDay y (m + 12 * k) d = MakeDay (y + k) m d"
  by (simp add: MakeDay_def Let_def algebra_simps)

lemma MakeDay_normal: "MakeDay y m d = MakeDay (y + m div 12) (m mod 12) d"
  by (simp add: MakeDay_def Let_def)

lemma MakeDay_next_month:
  "MakeDay y (m + 1) 1 = MakeDay y m 1 + MonthLength (InLeapYear (y + m div 12)) (m mod 12)"
proof -
  define q r where "q = m div 12" and "r = m mod 12"
  have m: "m = r + 12 * q" and r: "0 \<le> r" "r < 12"
    by (simp_all add: q_def r_def)
  have "MakeDay (y + q) (r + 1) 1 = MakeDay (y + q) r 1 + MonthLength (InLeapYear (y + q)) r"
  proof (cases "r = 11")
    case True
    then show ?thesis
      using DayFromYear_Suc [of "y + q"] MonthStart_11 [of "InLeapYear (y + q)"]
      by (simp add: MakeDay_def Let_def DaysInYear_def add.assoc)
  next
    case False
    then show ?thesis using r MonthStart_Suc [of r "InLeapYear (y + q)"] by (simp add: MakeDay_month)
  qed
  moreover have "MakeDay y (m + 1) 1 = MakeDay (y + q) (r + 1) 1" "MakeDay y m 1 = MakeDay (y + q) r 1"
    using MakeDay_carry [of y "r + 1" q 1] MakeDay_carry [of y r q 1] by (simp_all add: m algebra_simps)
  ultimately show ?thesis by (simp add: q_def r_def)
qed

text \<open>The getters invert \<open>MakeDay\<close> on existing dates.\<close>

lemma date_of_MakeDay:
  assumes m: "0 \<le> m" "m < 12" and d: "1 \<le> d" "d \<le> MonthLength (InLeapYear y) m"
  shows "YearFromDay (MakeDay y m d) = y"
    and "MonthFromDay (MakeDay y m d) = m"
    and "DateFromDay (MakeDay y m d) = d"
proof -
  let ?n = "MakeDay y m d"
  have n: "?n = DayFromYear y + MonthStart (InLeapYear y) m + d - 1"
    using m by (simp add: MakeDay_month)
  show y: "YearFromDay ?n = y"
    using n d MonthStart_range [OF m, of "InLeapYear y"] DayFromYear_Suc [of y]
    by (intro YearFromDay_unique) (auto simp: DaysInYear_def)
  show mo: "MonthFromDay ?n = m"
    unfolding MonthFromDay_def Let_def y using n d m by (intro MonthOfYearDay_unique) auto
  show "DateFromDay ?n = d"
    unfolding DateFromDay_def Let_def y mo using n by simp
qed

lemma date_of_day:
  "0 \<le> MonthFromDay n" "MonthFromDay n < 12"
  "1 \<le> DateFromDay n" "DateFromDay n \<le> MonthLength (InLeapYear (YearFromDay n)) (MonthFromDay n)"
  "MakeDay (YearFromDay n) (MonthFromDay n) (DateFromDay n) = n"
proof -
  let ?y = "YearFromDay n"
  have yd: "0 \<le> n - DayFromYear ?y" "n - DayFromYear ?y < (if InLeapYear ?y then 366 else 365)"
    using YearFromDay_bounds [of n] DayFromYear_Suc [of ?y] by (simp_all add: DaysInYear_def)
  show m: "0 \<le> MonthFromDay n" "MonthFromDay n < 12"
    by (simp_all add: MonthFromDay_def Let_def MonthOfYearDay_range)
  show "1 \<le> DateFromDay n" "DateFromDay n \<le> MonthLength (InLeapYear ?y) (MonthFromDay n)"
    using MonthOfYearDay_bounds [OF yd] by (simp_all add: DateFromDay_def MonthFromDay_def Let_def)
  show "MakeDay ?y (MonthFromDay n) (DateFromDay n) = n"
    using m by (simp add: MakeDay_month DateFromDay_def Let_def)
qed

section \<open>Time values\<close>

definition msPerDay :: int where "msPerDay = 86400000"

definition MakeTime :: "int \<Rightarrow> int \<Rightarrow> int \<Rightarrow> int \<Rightarrow> int" where
  "MakeTime h mi s ms = ((h * 60 + mi) * 60 + s) * 1000 + ms"

definition MakeDate :: "int \<Rightarrow> int \<Rightarrow> int" where
  "MakeDate dy time = dy * msPerDay + time"

definition TimeClip :: "int \<Rightarrow> int option" where
  "TimeClip t = (if \<bar>t\<bar> > 8640000000000000 then None else Some t)"

definition setUTCHours :: "int option \<Rightarrow> int \<Rightarrow> int \<Rightarrow> int \<Rightarrow> int \<Rightarrow> int option" where
  "setUTCHours t h mi s ms =
     Option.bind t (\<lambda>t. TimeClip (MakeDate (t div msPerDay) (MakeTime h mi s ms)))"

text \<open>\<open>setUTCFullYear\<close> of an invalid date starts from time 0.\<close>

definition setUTCFullYear :: "int option \<Rightarrow> int \<Rightarrow> int \<Rightarrow> int \<Rightarrow> int option" where
  "setUTCFullYear t y m d =
     (let t = (case t of None \<Rightarrow> 0 | Some t \<Rightarrow> t)
      in TimeClip (MakeDate (MakeDay y m d) (t mod msPerDay)))"

definition getUTCFullYear :: "int \<Rightarrow> int" where
  "getUTCFullYear t = YearFromDay (t div msPerDay)"

definition getUTCMonth :: "int \<Rightarrow> int" where
  "getUTCMonth t = MonthFromDay (t div msPerDay)"

definition getUTCDate :: "int \<Rightarrow> int" where
  "getUTCDate t = DateFromDay (t div msPerDay)"

definition getUTCHours :: "int \<Rightarrow> int" where
  "getUTCHours t = t div 3600000 mod 24"

definition getUTCMinutes :: "int \<Rightarrow> int" where
  "getUTCMinutes t = t div 60000 mod 60"

definition getUTCSeconds :: "int \<Rightarrow> int" where
  "getUTCSeconds t = t div 1000 mod 60"

definition getUTCMilliseconds :: "int \<Rightarrow> int" where
  "getUTCMilliseconds t = t mod 1000"

end
