(* ===== verification/Iso_Date.thy ===== *)
theory Iso_Date imports Js_Date begin

text \<open>
  The ISO 8601 calendar functions of \<^verbatim>\<open>temporal-polyfill.js\<close> that take the fields of one
  or two dates: leap years, month lengths, the day of the year, the day of the week, the
  ISO week, the comparison of dates and the checks and clamps applied to fields. The
  reference is the day number \<open>MakeDay\<close> of ECMAScript's \<open>Date\<close>.

  The fields of a date are safe integers (every constructor rejects years outside
  -271821..275760), so the additions here are exact; divisions and fractional
  constants go through \<open>fl\<close>.
\<close>

section \<open>Data\<close>

record iso_date =
  year :: int
  month :: int
  day :: int

record iso_week =
  week :: int
  week_year :: int

datatype overflow = Constrain | Reject

section \<open>Years and months\<close>

text \<open>The argument of \<open>LeapYear\<close> may be undefined.\<close>

definition LeapYear :: "int option \<Rightarrow> bool" where
  "LeapYear e = (case e of None \<Rightarrow> False
     | Some e \<Rightarrow> tmod e 4 = 0 \<and> (\<not> tmod e 100 = 0 \<or> tmod e 400 = 0))"

text \<open>
  A month outside 1..12 indexes past the table, which is \<open>undefined\<close> in JavaScript. No
  caller passes an integer of this kind, for which the model gives 0; the fractional months of
  the ISO calendar are treated apart in \<open>Iso8601_Calendar\<close>.
\<close>

definition ISODaysInMonth :: "int \<Rightarrow> int \<Rightarrow> int" where
  "ISODaysInMonth e t =
     (let table = (if LeapYear (Some e)
                   then [31, 29, 31, 30, 31, 30, 31, 31, 30, 31, 30, 31]
                   else [31, 28, 31, 30, 31, 30, 31, 31, 30, 31, 30, 31])
      in if 1 \<le> t \<and> t \<le> 12 then table ! nat (t - 1) else 0)"

function DayOfYear_loop :: "int \<Rightarrow> int \<Rightarrow> int \<Rightarrow> int" where
  "DayOfYear_loop e k acc =
     (if k > 0 then DayOfYear_loop e (k - 1) (acc + ISODaysInMonth e k) else acc)"
  by pat_completeness auto
termination
  by (relation "measure (\<lambda>(e, k, acc). nat k)") auto

definition DayOfYear :: "int \<Rightarrow> int \<Rightarrow> int \<Rightarrow> int" where
  "DayOfYear e t r = DayOfYear_loop e (t - 1) r"

text \<open>Zeller's congruence; \<open>13/5\<close> and \<open>1/5\<close> are the literals \<^verbatim>\<open>2.6\<close> and \<^verbatim>\<open>.2\<close>.\<close>

definition zellerMonth :: "int \<Rightarrow> int" where
  "zellerMonth mo = \<lfloor>fl (fl (fl (13 / 5) * of_int mo) - fl (1 / 5))\<rfloor>"

definition DayOfWeek :: "int \<Rightarrow> int \<Rightarrow> int \<Rightarrow> int" where
  "DayOfWeek e t r =
     (let mo = t + (if t < 3 then 10 else -2);
          n = e - (if t < 3 then 1 else 0);
          a = floorQuot n 100;
          i = n - 100 * a;
          s = tmod (r + zellerMonth mo + (i + floorQuot i 4)
                      + (floorQuot a 4 - 2 * a)) 7
      in s + (if s \<le> 0 then 7 else 0))"

definition WeekOfYear :: "int \<Rightarrow> int \<Rightarrow> int \<Rightarrow> iso_week" where
  "WeekOfYear e t r =
     (let yd = DayOfYear e t r;
          wd = DayOfWeek e t r;
          n = (if wd = 0 then 7 else wd);
          a = DayOfWeek e 1 1;
          i = floorQuot (yd - n + 10) 7
      in if i < 1 then
           (if a = 5 \<or> (a = 6 \<and> LeapYear (Some (e - 1)))
            then \<lparr>week = 53, week_year = e - 1\<rparr> else \<lparr>week = 52, week_year = e - 1\<rparr>)
         else if i = 53 \<and> (if LeapYear (Some e) then 366 else 365) - yd < 4 - n
         then \<lparr>week = 1, week_year = e + 1\<rparr>
         else \<lparr>week = i, week_year = e\<rparr>)"

section \<open>Comparison, checks and clamps\<close>

definition ComparisonResult :: "int \<Rightarrow> int" where
  "ComparisonResult e = (if e < 0 then -1 else if e > 0 then 1 else e)"

definition CompareISODate :: "int \<Rightarrow> int \<Rightarrow> int \<Rightarrow> int \<Rightarrow> int \<Rightarrow> int \<Rightarrow> int" where
  "CompareISODate e t r y m d =
     (if e \<noteq> y then ComparisonResult (e - y)
      else if t \<noteq> m then ComparisonResult (t - m)
      else if r \<noteq> d then ComparisonResult (r - d) else 0)"

definition ConstrainToRange :: "int \<Rightarrow> int \<Rightarrow> int \<Rightarrow> int" where
  "ConstrainToRange e t r = min r (max t e)"

definition ConstrainISODate :: "int \<Rightarrow> int \<Rightarrow> int \<Rightarrow> iso_date" where
  "ConstrainISODate e t r =
     (let mo = ConstrainToRange t 1 12
      in \<lparr>year = e, month = mo, day = ConstrainToRange r 1 (ISODaysInMonth e mo)\<rparr>)"

definition RejectToRange :: "int \<Rightarrow> int \<Rightarrow> int \<Rightarrow> unit result" where
  "RejectToRange e t r = throwIf (e < t \<or> e > r) RangeError"

definition RejectISODate :: "int \<Rightarrow> int \<Rightarrow> int \<Rightarrow> unit result" where
  "RejectISODate e t r =
     bindE (RejectToRange t 1 12) (\<lambda>_. RejectToRange r 1 (ISODaysInMonth e t))"

definition RegulateISODate :: "int \<Rightarrow> int \<Rightarrow> int \<Rightarrow> overflow \<Rightarrow> iso_date result" where
  "RegulateISODate e t r ov =
     (case ov of
        Reject \<Rightarrow> bindE (RejectISODate e t r) (\<lambda>_. Inr \<lparr>year = e, month = t, day = r\<rparr>)
      | Constrain \<Rightarrow> Inr (ConstrainISODate e t r))"

section \<open>Existing dates and their day number\<close>

definition validDate :: "iso_date \<Rightarrow> bool" where
  "validDate x \<longleftrightarrow> 1 \<le> month x \<and> month x \<le> 12 \<and> 1 \<le> day x \<and> day x \<le> ISODaysInMonth (year x) (month x)"

definition epochDay :: "iso_date \<Rightarrow> int" where
  "epochDay x = MakeDay (year x) (month x - 1) (day x)"

definition dateOfDay :: "int \<Rightarrow> iso_date" where
  "dateOfDay n = \<lparr>year = YearFromDay n, month = MonthFromDay n + 1, day = DateFromDay n\<rparr>"

lemma LeapYear_iff [iso_simps]: "LeapYear (Some y) = InLeapYear y"
  by (simp add: LeapYear_def InLeapYear_def tmod_eq_0_iff)

lemma ISODaysInMonth_eq [iso_simps]:
  assumes "1 \<le> m" "m \<le> 12"
  shows "ISODaysInMonth y m = MonthLength (InLeapYear y) (m - 1)"
proof -
  have "0 \<le> m - 1" "m - 1 < 12" using assms by simp_all
  then show ?thesis
    by (cases "m - 1" rule: month_cases)
      (simp_all add: ISODaysInMonth_def MonthLength_def LeapYear_iff Let_def)
qed

lemma ISODaysInMonth_range:
  assumes "1 \<le> m" "m \<le> 12"
  shows "28 \<le> ISODaysInMonth y m" "ISODaysInMonth y m \<le> 31"
  using assms MonthLength_range [of "m - 1" "InLeapYear y"] by (simp_all add: ISODaysInMonth_eq)

lemma validDate_epochDay:
  assumes "validDate x"
  shows "epochDay x = DayFromYear (year x) + MonthStart (InLeapYear (year x)) (month x - 1) + day x - 1"
  using assms by (simp add: validDate_def epochDay_def MakeDay_month)

lemma validDate_MonthLength:
  "validDate x \<Longrightarrow> day x \<le> MonthLength (InLeapYear (year x)) (month x - 1)"
  by (auto simp: validDate_def ISODaysInMonth_eq)

lemma dateOfDay_epochDay [simp]:
  assumes "validDate x"
  shows "dateOfDay (epochDay x) = x"
proof -
  have "0 \<le> month x - 1" "month x - 1 < 12" "1 \<le> day x"
    using assms by (simp_all add: validDate_def)
  then show ?thesis
    using date_of_MakeDay [of "month x - 1" "day x" "year x"] validDate_MonthLength [OF assms]
    by (simp add: dateOfDay_def epochDay_def)
qed

lemma validDate_dateOfDay [simp]: "validDate (dateOfDay n)"
  using date_of_day [of n] by (simp add: validDate_def dateOfDay_def ISODaysInMonth_eq)

lemma epochDay_dateOfDay [simp]: "epochDay (dateOfDay n) = n"
  using date_of_day [of n] by (simp add: epochDay_def dateOfDay_def)

lemma epochDay_inject: "validDate x \<Longrightarrow> validDate y \<Longrightarrow> epochDay x = epochDay y \<longleftrightarrow> x = y"
  by (metis dateOfDay_epochDay)

lemma validDate_year_bounds:
  assumes "validDate x"
  shows "DayFromYear (year x) \<le> epochDay x" "epochDay x < DayFromYear (year x + 1)"
proof -
  have m: "0 \<le> month x - 1" "month x - 1 < 12" and d: "1 \<le> day x"
    using assms by (simp_all add: validDate_def)
  show "DayFromYear (year x) \<le> epochDay x" "epochDay x < DayFromYear (year x + 1)"
    using MonthStart_range [OF m, of "InLeapYear (year x)"] validDate_MonthLength [OF assms] d
    by (simp_all add: validDate_epochDay [OF assms] DayFromYear_Suc DaysInYear_def)
qed

text \<open>The order of day numbers is the lexicographic order of dates.\<close>

lemma epochDay_less:
  assumes x: "validDate x" and y: "validDate y"
    and less: "year x < year y \<or> year x = year y \<and> (month x < month y \<or> month x = month y \<and> day x < day y)"
  shows "epochDay x < epochDay y"
  using less
proof (elim disjE conjE)
  assume "year x < year y"
  then have "DayFromYear (year x + 1) \<le> DayFromYear (year y)" by simp
  then show ?thesis using validDate_year_bounds [OF x] validDate_year_bounds [OF y] by linarith
next
  assume eq: "year x = year y" and m: "month x < month y"
  have "MonthStart (InLeapYear (year x)) (month x - 1) + MonthLength (InLeapYear (year x)) (month x - 1)
      \<le> MonthStart (InLeapYear (year x)) (month y - 1)"
    using x y m by (intro MonthStart_mono) (auto simp: validDate_def)
  then show ?thesis
    using validDate_MonthLength [OF x] y eq
    by (simp add: validDate_epochDay [OF x] validDate_epochDay [OF y] validDate_def)
next
  assume "year x = year y" "month x = month y" "day x < day y"
  then show ?thesis by (simp add: validDate_epochDay [OF x] validDate_epochDay [OF y])
qed

lemma CompareISODate_epochDay:
  assumes x: "validDate x" and y: "validDate y"
  shows "CompareISODate (year x) (month x) (day x) (year y) (month y) (day y) = sgn (epochDay x - epochDay y)"
proof -
  consider "x = y"
    | "year x < year y \<or> year x = year y \<and> (month x < month y \<or> month x = month y \<and> day x < day y)"
    | "year y < year x \<or> year y = year x \<and> (month y < month x \<or> month y = month x \<and> day y < day x)"
    by (cases x; cases y) force
  then show ?thesis
  proof cases
    case 1
    then show ?thesis by (simp add: CompareISODate_def)
  next
    case 2
    then have "epochDay x < epochDay y" by (rule epochDay_less [OF x y])
    then show ?thesis using 2 by (auto simp: CompareISODate_def ComparisonResult_def)
  next
    case 3
    then have "epochDay y < epochDay x" by (rule epochDay_less [OF y x])
    then show ?thesis using 3 by (auto simp: CompareISODate_def ComparisonResult_def)
  qed
qed

section \<open>Day of the year\<close>

declare DayOfYear_loop.simps [simp del]

lemma DayOfYear_loop_eq:
  assumes "0 \<le> k" "k \<le> 11"
  shows "DayOfYear_loop e k acc = acc + MonthStart (InLeapYear e) k"
  using assms
proof (induction k arbitrary: acc rule: int_ge_induct)
  case base
  then show ?case by (simp add: DayOfYear_loop.simps)
next
  case (step i)
  then show ?case
    by (simp add: DayOfYear_loop.simps [of e "i + 1"] MonthStart_Suc ISODaysInMonth_eq)
qed

lemma DayOfYear_eq:
  "1 \<le> t \<Longrightarrow> t \<le> 12 \<Longrightarrow> DayOfYear e t r = MonthStart (InLeapYear e) (t - 1) + r"
  by (simp add: DayOfYear_def DayOfYear_loop_eq)

lemma DayOfYear_epochDay:
  "validDate x \<Longrightarrow> DayOfYear (year x) (month x) (day x) = epochDay x - DayFromYear (year x) + 1"
  using validDate_def [of x] by (simp add: DayOfYear_eq validDate_epochDay)

section \<open>Day of the week\<close>

text \<open>Monday is 1; the day number 0 is a Thursday.\<close>

definition weekday :: "int \<Rightarrow> int" where
  "weekday n = (n + 3) mod 7 + 1"

lemma weekday_range: "1 \<le> weekday n" "weekday n \<le> 7"
  by (simp_all add: weekday_def zle_add1_eq_le [symmetric] del: zle_add1_eq_le)

text \<open>The rounded products of Zeller's rule, evaluated.\<close>

lemma fl_literals:
  "fl (13 / 5) = 5854679515581645 / 2251799813685248"
  "fl (1 / 5) = 3602879701896397 / 18014398509481984"
  by code_simp+

text \<open>Only where \<^verbatim>\<open>2.6 * mo - 0.2\<close> is an integer does the rounding matter.\<close>

lemma zellerMonth_inexact:
  assumes mo: "1 \<le> mo" "mo \<le> 12" and k: "5 * k < 13 * mo - 1" "13 * mo - 1 < 5 * (k + 1)"
  shows "zellerMonth mo = k"
proof -
  define m :: rat where "m = of_int mo"
  have m: "1 \<le> m" "m \<le> 12" using mo by (simp_all add: m_def)
  define p where "p = fl (5854679515581645 / 2251799813685248 * m)"
  define d where "d = fl (p - 3602879701896397 / 18014398509481984)"
  have e1: "\<bar>p - 5854679515581645 / 2251799813685248 * m\<bar> \<le> 1 / 2 ^ 40"
    using fl_error [of "5854679515581645 / 2251799813685248 * m"] m by (simp add: p_def)
  have pb: "\<bar>p - 3602879701896397 / 18014398509481984\<bar> \<le> 40"
    using e1 m unfolding abs_le_iff by (simp add: field_simps)
  have e2: "\<bar>d - (p - 3602879701896397 / 18014398509481984)\<bar> \<le> 1 / 2 ^ 40"
    using fl_error [of "p - 3602879701896397 / 18014398509481984"] pb by (simp add: d_def)
  have "\<bar>d - (13 * m - 1) / 5\<bar> \<le> 1 / 10"
    using e1 e2 m unfolding abs_le_iff by (simp add: field_simps)
  moreover have "5 * of_int k + 1 \<le> (13 * m - 1 :: rat)" "13 * m - 1 \<le> 5 * of_int k + 4"
  proof -
    have "5 * k + 1 \<le> 13 * mo - 1" "13 * mo - 1 \<le> 5 * k + 4" using k by simp_all
    then have "(of_int (5 * k + 1) :: rat) \<le> of_int (13 * mo - 1)" "(of_int (13 * mo - 1) :: rat) \<le> of_int (5 * k + 4)"
      by (simp_all only: of_int_le_iff)
    then show "5 * of_int k + 1 \<le> (13 * m - 1 :: rat)" "13 * m - 1 \<le> 5 * of_int k + 4"
      by (simp_all add: m_def)
  qed
  ultimately have "of_int k \<le> d" "d < of_int k + 1"
    unfolding abs_le_iff by (simp_all add: field_simps)
  then have "\<lfloor>d\<rfloor> = k" by (intro floor_unique) simp_all
  then show ?thesis by (simp add: zellerMonth_def fl_literals d_def p_def m_def)
qed

lemma zellerMonth_exact:
  "zellerMonth 2 = 5" "zellerMonth 7 = 18" "zellerMonth 12 = 31"
  unfolding zellerMonth_def fl_literals by code_simp+

lemma zellerMonth_other:
  "zellerMonth 1 = 2" "zellerMonth 3 = 7" "zellerMonth 4 = 10" "zellerMonth 5 = 12" "zellerMonth 6 = 15"
  "zellerMonth 8 = 20" "zellerMonth 9 = 23" "zellerMonth 10 = 25" "zellerMonth 11 = 28"
  by (rule zellerMonth_inexact; simp)+

lemmas zellerMonth_table = zellerMonth_exact zellerMonth_other

lemma zellerMonth_MonthStart:
  assumes "0 \<le> m" "m < 12"
  shows "7 dvd zellerMonth (m + 1 + (if m < 2 then 10 else -2))
      - (MonthStart False m - (if m < 2 then 0 else 365))"
  using assms
  by (cases m rule: month_cases) (simp_all add: zellerMonth_table MonthStart_def)

lemma weekday_via_tmod:
  fixes S n :: int
  assumes "7 dvd n - S - 3"
  shows "tmod S 7 + (if tmod S 7 \<le> 0 then 7 else 0) = weekday n"
proof -
  define t where "t = tmod S 7"
  obtain q where q: "S = 7 * q + t"
    using tdiv_tmod [of S 7] by (metis t_def mult.commute)
  obtain k where k: "n - S - 3 = 7 * k" using assms by (rule dvdE)
  have "n + 3 = t + 6 + 7 * (q + k)" using q k by simp
  then have w: "weekday n = (t + 6) mod 7 + 1"
    unfolding weekday_def by (simp only: mod_mult_self2)
  have t: "-7 < t" "t < 7" using tmod_bounds [of 7 S] by (simp_all add: t_def)
  show ?thesis
  proof (cases "t \<le> 0")
    case True
    then have "(t + 6) mod 7 = t + 6" using t by (intro mod_pos_pos_trivial) auto
    then show ?thesis using True w by (simp add: t_def)
  next
    case False
    have "(t - 1 + 7) mod 7 = (t - 1) mod 7" by (rule mod_add_self2)
    also have "\<dots> = t - 1" using False t by (intro mod_pos_pos_trivial) auto
    finally show ?thesis using False w by (simp add: t_def add.commute)
  qed
qed

lemma DayFromYear_century:
  assumes n: "n = 100 * a + i" and i: "0 \<le> i" "i < 100" and p: "i div 4 = p" and r: "a div 4 = r"
  shows "DayFromYear (n + 1) = 365 * n + 24 * a + p + r - 719162"
proof -
  have "n div 100 = a" using n i by simp
  moreover have "n div 4 = 25 * a + p"
    using div_shift [of 4 i "25 * a"] n p by (simp add: add.commute)
  moreover have "n div 400 = r"
    using zdiv_zmult2_eq [of 4 n 100] \<open>n div 100 = a\<close> r by simp
  ultimately have "(n + 1 - 1969) div 4 = 25 * a + p - 492" "(n + 1 - 1901) div 100 = a - 19"
    "(n + 1 - 1601) div 400 = r - 4"
  proof -
    have "n + 1 - 1969 = n + 4 * - 492" "n + 1 - 1901 = n + 100 * - 19" "n + 1 - 1601 = n + 400 * - 4"
      by simp_all
    then show "(n + 1 - 1969) div 4 = 25 * a + p - 492" "(n + 1 - 1901) div 100 = a - 19"
      "(n + 1 - 1601) div 400 = r - 4"
      using \<open>n div 100 = a\<close> \<open>n div 4 = 25 * a + p\<close> \<open>n div 400 = r\<close>
      by (simp_all only: div_shift zero_less_numeral)
  qed
  then have "DayFromYear (n + 1) = 365 * (n + 1 - 1970) + (25 * a + p - 492) - (a - 19) + (r - 4)"
    by (simp only: DayFromYear_def)
  then show ?thesis by simp
qed

lemma DayOfWeek_correct:
  assumes x: "validDate x" and y: "\<bar>year x\<bar> \<le> 2 ^ 50"
  shows "DayOfWeek (year x) (month x) (day x) = weekday (epochDay x)"
proof -
  define m where "m = month x - 1"
  define n where "n = year x - (if m < 2 then 1 else 0)"
  define a i where "a = n div 100" and "i = n mod 100"
  define p r where "p = i div 4" and "r = a div 4"
  define Z where "Z = zellerMonth (m + 1 + (if m < 2 then 10 else -2))"
  have m: "0 \<le> m" "m < 12" using x by (simp_all add: m_def validDate_def)
  have n: "n = 100 * a + i" "0 \<le> i" "i < 100" by (simp_all add: a_def i_def)
  have nb: "\<bar>n\<bar> < 2 ^ 53" using y by (auto simp: n_def)
  have ab: "\<bar>a\<bar> < 2 ^ 53" using n nb by simp
  have ib: "\<bar>i\<bar> < 2 ^ 53" using n(2,3) by simp
  have q: "floorQuot n 100 = a" "floorQuot i 4 = p" "floorQuot a 4 = r"
    unfolding a_def p_def r_def
    using floorQuot_safe [OF nb, of 100] floorQuot_safe [OF ib, of 4] floorQuot_safe [OF ab, of 4]
    by (simp_all only: a_def zero_less_numeral simp_thms)
  define S where "S = day x + Z + (i + p) + (r - 2 * a)"
  have "DayOfWeek (year x) (month x) (day x) = tmod S 7 + (if tmod S 7 \<le> 0 then 7 else 0)"
  proof -
    have "month x + (if month x < 3 then 10 else - 2) = m + 1 + (if m < 2 then 10 else -2)"
      "year x - (if month x < 3 then 1 else 0) = n" "n - 100 * a = i"
      using n(1) by (simp_all add: m_def n_def)
    then show ?thesis
      unfolding DayOfWeek_def Let_def S_def Z_def by (simp only: q)
  qed
  moreover have "7 dvd epochDay x - S - 3"
  proof -
    obtain k where k: "Z = MonthStart False m - (if m < 2 then 0 else 365) + 7 * k"
      using zellerMonth_MonthStart [OF m] unfolding Z_def by (auto elim!: dvdE simp: algebra_simps)
    have "epochDay x = DayFromYear (n + 1) + (MonthStart False m - (if m < 2 then 0 else 365)) + day x - 1"
      using m DayFromYear_Suc [of n] validDate_epochDay [OF x]
      by (cases "m < 2") (auto simp: n_def m_def MonthStart_def DaysInYear_def)
    also have "DayFromYear (n + 1) = 365 * n + 24 * a + p + r - 719162"
      by (rule DayFromYear_century [OF n p_def [symmetric] r_def [symmetric]])
    finally have "epochDay x - S - 3 = 7 * (5218 * a + 52 * i - k - 102738)"
      unfolding S_def k n(1) by (simp add: algebra_simps)
    then show ?thesis by (rule dvdI)
  qed
  ultimately show ?thesis using weekday_via_tmod by metis
qed

section \<open>ISO weeks\<close>

text \<open>
  ISO 8601: a week belongs to the year that holds its Thursday, and weeks are numbered
  within that year.
\<close>

definition thursday :: "int \<Rightarrow> int" where
  "thursday n = n - weekday n + 4"

definition isoWeekOfDay :: "int \<Rightarrow> iso_week" where
  "isoWeekOfDay n =
     (let t = thursday n; y = YearFromDay t
      in \<lparr>week = (t - DayFromYear y) div 7 + 1, week_year = y\<rparr>)"

lemma isoWeekOfDay_eq:
  assumes "DayFromYear y \<le> thursday n" "thursday n < DayFromYear (y + 1)"
  shows "isoWeekOfDay n = \<lparr>week = (thursday n - DayFromYear y) div 7 + 1, week_year = y\<rparr>"
  using YearFromDay_unique [OF assms] by (simp add: isoWeekOfDay_def Let_def)

lemma weekday_add:
  "weekday (n + k) = (weekday n - 1 + k) mod 7 + 1"
  unfolding weekday_def by (simp add: mod_simps algebra_simps)

text \<open>Before the first Thursday of the year: the week of the last Thursday of the year before.\<close>

lemma last_week_cases:
  fixes o' n j L :: int
  assumes n: "n = weekday (F + (o' - 1))" and a: "a = weekday F" and o': "1 \<le> o'"
    and j: "j = o' - n + 3" "j < 0" and L: "L = 365 \<or> L = 366"
  shows "-3 \<le> j" "(L + j) div 7 + 1 = (if a = 5 \<or> a = 6 \<and> L = 366 then 53 else 52)"
proof -
  note r = weekday_range [of F, folded a] weekday_range [of "F + (o' - 1)", folded n]
  show j3: "-3 \<le> j" using r j o' by linarith
  have o3: "o' \<le> 3" using r j by linarith
  have "n = (a - 1 + (o' - 1)) mod 7 + 1" using weekday_add [of F "o' - 1"] n a by simp
  moreover have "(a - 1 + (o' - 1)) mod 7 = (if a + o' - 2 < 7 then a + o' - 2 else a + o' - 9)"
  proof (cases "a + o' - 2 < 7")
    case True
    then show ?thesis using r o' by (simp add: algebra_simps mod_pos_pos_trivial)
  next
    case False
    have "(a + o' - 9 + 7) mod 7 = (a + o' - 9) mod 7" by (rule mod_add_self2)
    also have "\<dots> = a + o' - 9" using False r o3 by (intro mod_pos_pos_trivial) auto
    finally show ?thesis using False by (simp add: algebra_simps)
  qed
  ultimately have aj: "a = 4 - j" using j r o3 o' by (auto split: if_splits)
  have "j = -3 \<or> j = -2 \<or> j = -1" using j3 j(2) by linarith
  then show "(L + j) div 7 + 1 = (if a = 5 \<or> a = 6 \<and> L = 366 then 53 else 52)"
    using L aj by (elim disjE) simp_all
qed

lemma WeekOfYear_correct:
  assumes x: "validDate x" and y: "\<bar>year x\<bar> \<le> 2 ^ 50"
  shows "WeekOfYear (year x) (month x) (day x) = isoWeekOfDay (epochDay x)"
proof -
  define e F where "e = year x" and "F = DayFromYear e"
  define yd n a j where "yd = DayOfYear e (month x) (day x)"
    and "n = weekday (epochDay x)" and "a = weekday F" and "j = yd - n + 3"
  have E: "epochDay x = F + (yd - 1)"
    using DayOfYear_epochDay [OF x] by (simp add: yd_def F_def e_def)
  have ydb: "1 \<le> yd" "yd \<le> DaysInYear e"
    using validDate_year_bounds [OF x] DayFromYear_Suc [of e] E by (simp_all add: F_def e_def)
  have wd: "DayOfWeek e (month x) (day x) = n"
    using DayOfWeek_correct [OF x y] by (simp add: e_def n_def)
  have "validDate \<lparr>year = e, month = 1, day = 1\<rparr>"
    using ISODaysInMonth_range [of 1 e] by (simp add: validDate_def)
  from DayOfWeek_correct [OF this] have wa: "DayOfWeek e 1 1 = a"
    using y by (simp add: e_def a_def F_def epochDay_def MakeDay_month)
  have r: "1 \<le> n" "n \<le> 7" by (simp_all add: n_def weekday_range)
  have th: "thursday (epochDay x) = F + j" by (simp add: thursday_def E j_def n_def)
  have "\<bar>j + 7\<bar> < 2 ^ 53" using ydb r DaysInYear_range [of e] by (simp add: j_def)
  then have i: "floorQuot (yd - n + 10) 7 = j div 7 + 1"
    using floorQuot_safe [of "j + 7" 7] by (simp add: j_def algebra_simps)
  have W: "WeekOfYear e (month x) (day x) =
      (if j div 7 + 1 < 1 then
         (if a = 5 \<or> (a = 6 \<and> LeapYear (Some (e - 1)))
          then \<lparr>week = 53, week_year = e - 1\<rparr> else \<lparr>week = 52, week_year = e - 1\<rparr>)
       else if j div 7 + 1 = 53 \<and> DaysInYear e - yd < 4 - n
       then \<lparr>week = 1, week_year = e + 1\<rparr>
       else \<lparr>week = j div 7 + 1, week_year = e\<rparr>)"
    using r by (simp add: WeekOfYear_def Let_def yd_def [symmetric] wd wa i LeapYear_iff DaysInYear_def)
  consider "j < 0" | "0 \<le> j" "j < DaysInYear e" | "DaysInYear e \<le> j" by linarith
  then show ?thesis
  proof cases
    case 1
    have L: "DaysInYear (e - 1) = 365 \<or> DaysInYear (e - 1) = 366"
      by (simp add: DaysInYear_def)
    note c = last_week_cases [of n F yd a j "DaysInYear (e - 1)", OF _ a_def ydb(1) j_def 1 L]
    have b: "-3 \<le> j" "(DaysInYear (e - 1) + j) div 7 + 1
        = (if a = 5 \<or> a = 6 \<and> DaysInYear (e - 1) = 366 then 53 else 52)"
      using c E by (simp_all add: n_def)
    have F': "F = DayFromYear (e - 1) + DaysInYear (e - 1)"
      using DayFromYear_Suc [of "e - 1"] by (simp add: F_def)
    have "isoWeekOfDay (epochDay x)
        = \<lparr>week = (DaysInYear (e - 1) + j) div 7 + 1, week_year = e - 1\<rparr>"
      using isoWeekOfDay_eq [of "e - 1" "epochDay x"] F' b(1) 1 DaysInYear_range [of "e - 1"] th
      by (simp add: F_def [symmetric] algebra_simps)
    moreover have "j div 7 + 1 < 1" using 1 by (simp add: pos_imp_zdiv_neg_iff)
    moreover have "LeapYear (Some (e - 1)) \<longleftrightarrow> DaysInYear (e - 1) = 366"
      by (simp add: LeapYear_iff DaysInYear_def)
    ultimately show ?thesis using W b(2) by (simp add: e_def [symmetric] del: div_pos_pos_trivial)
  next
    case 2
    have "isoWeekOfDay (epochDay x) = \<lparr>week = j div 7 + 1, week_year = e\<rparr>"
      using isoWeekOfDay_eq [of e "epochDay x"] th 2 DayFromYear_Suc [of e]
      by (simp add: F_def [symmetric])
    moreover have "\<not> j div 7 + 1 < 1" using 2 by (simp add: pos_imp_zdiv_nonneg_iff not_less)
    moreover have "\<not> DaysInYear e - yd < 4 - n" using 2 by (simp add: j_def)
    ultimately show ?thesis using W by (simp add: e_def [symmetric])
  next
    case 3
    have le: "j \<le> DaysInYear e + 2" using ydb r by (simp add: j_def)
    have "j = 365 \<or> j = 366 \<or> j = 367 \<or> j = 368" using 3 le DaysInYear_range [of e] by linarith
    then have "j div 7 = 52" by (elim disjE) simp_all
    moreover have "DaysInYear e - yd < 4 - n" using 3 by (simp add: j_def)
    moreover have "isoWeekOfDay (epochDay x) = \<lparr>week = (j - DaysInYear e) div 7 + 1, week_year = e + 1\<rparr>"
      using isoWeekOfDay_eq [of "e + 1" "epochDay x"] th 3 le DayFromYear_Suc [of e]
        DayFromYear_Suc [of "e + 1"] DaysInYear_range [of "e + 1"]
      by (simp add: F_def [symmetric])
    moreover have "(j - DaysInYear e) div 7 = 0" using 3 le by (simp add: div_pos_pos_trivial)
    ultimately show ?thesis using W by (simp add: e_def [symmetric])
  qed
qed

end
