(* ===== verification/Iso_Balance.thy ===== *)
theory Iso_Balance imports Iso_Date begin

text \<open>
  Date arithmetic of \<^verbatim>\<open>temporal-polyfill.js\<close>: carrying months into years, carrying days
  into months and years, adding a date duration to a date, and the difference of two
  dates. Day counts come from durations and are not bounded by the code, so the
  arithmetic here is that of Numbers, with its rounding; \<open>BalanceISODate\<close> has four loops,
  each a partial function whose value \<open>None\<close> is a loop that does not end.
\<close>

section \<open>Balancing\<close>

record iso_year_month =
  ymYear :: int
  ymMonth :: int

definition BalanceISOYearMonth :: "int \<Rightarrow> int \<Rightarrow> iso_year_month result" where
  "BalanceISOYearMonth e t =
     bindE (throwIf (\<not> isFinite e \<or> \<not> isFinite t) RangeError) (\<lambda>_.
       let m = nsub t 1;
           y = nadd e (floorQuot m 12);
           m = tmod m 12;
           m = (if m < 0 then nadd m 12 else m)
       in Inr \<lparr>ymYear = y, ymMonth = nadd m 1\<rparr>)"

text \<open>The loops of \<open>BalanceISODate\<close>, in the order they run.\<close>

partial_function (option) yearsDown :: "int \<Rightarrow> int \<Rightarrow> int \<Rightarrow> (int \<times> int \<times> int) option" where
  [code]: "yearsDown y l a =
     (let s = (if LeapYear (Some l) then 366 else 365)
      in if a < - s then yearsDown (nsub y 1) (nsub l 1) (nadd a s) else Some (y, l, a))"

partial_function (option) yearsUp :: "int \<Rightarrow> int \<Rightarrow> int \<Rightarrow> (int \<times> int \<times> int) option" where
  [code]: "yearsUp y l a =
     (let s = (if LeapYear (Some l) then 366 else 365)
      in if a > s then yearsUp (nadd y 1) (nadd l 1) (nsub a s) else Some (y, l, a))"

partial_function (option) monthsDown :: "int \<Rightarrow> int \<Rightarrow> int \<Rightarrow> (int \<times> int \<times> int) result option" where
  [code]: "monthsDown y n a =
     (if a < 1 then
        (case BalanceISOYearMonth y (nsub n 1) of
           Inl e \<Rightarrow> Some (Inl e)
         | Inr r \<Rightarrow> monthsDown (ymYear r) (ymMonth r) (nadd a (ISODaysInMonth (ymYear r) (ymMonth r))))
      else Some (Inr (y, n, a)))"

partial_function (option) monthsUp :: "int \<Rightarrow> int \<Rightarrow> int \<Rightarrow> (int \<times> int \<times> int) result option" where
  [code]: "monthsUp y n a =
     (if a > ISODaysInMonth y n then
        (let a = nsub a (ISODaysInMonth y n)
         in case BalanceISOYearMonth y (nadd n 1) of
              Inl e \<Rightarrow> Some (Inl e)
            | Inr r \<Rightarrow> monthsUp (ymYear r) (ymMonth r) a)
      else Some (Inr (y, n, a)))"

definition loopResult :: "'a result option \<Rightarrow> 'a result" where
  "loopResult r = bindE (returned r) (\<lambda>x. x)"

definition BalanceISODate :: "int \<Rightarrow> int \<Rightarrow> int \<Rightarrow> iso_date result" where
  "BalanceISODate e t r =
     bindE (throwIf (\<not> isFinite r) RangeError) (\<lambda>_.
     bindE (BalanceISOYearMonth e t) (\<lambda>ym.
       let n = ymMonth ym;
           i = 146097;
           k = truncQuot r i;
           (y, a) = (if \<bar>r\<bar> > i then (nadd (ymYear ym) (nmul 400 k), nsub r (nmul k i))
                     else (ymYear ym, r));
           l = (if n > 2 then y else nsub y 1)
       in bindE (returned (yearsDown y l a)) (\<lambda>(y, l, a).
          bindE (returned (yearsUp y (nadd l 1) a)) (\<lambda>(y, l, a).
          bindE (loopResult (monthsDown y n a)) (\<lambda>(y, n, a).
          bindE (loopResult (monthsUp y n a)) (\<lambda>(y, n, a).
            Inr \<lparr>year = y, month = n, day = a\<rparr>))))))"

lemma loopResult_simps [simp]:
  "loopResult None = Inl NoReturn" "loopResult (Some r) = r"
  by (simp_all add: loopResult_def)

section \<open>The loops on safe integers\<close>

definition lead :: "int \<Rightarrow> int \<Rightarrow> int" where
  "lead y n = (if n > 2 then y else y - 1)"

lemma MakeDay_year_back:
  assumes "0 \<le> m" "m < 12"
  shows "MakeDay (y - 1) m (a + DaysInYear (if m \<ge> 2 then y else y - 1)) = MakeDay y m a"
  using assms DayFromYear_Suc [of "y - 1"]
  by (auto simp: MakeDay_month DaysInYear_def MonthStart_def)

lemma MakeDay_lead_back:
  assumes "1 \<le> n" "n \<le> 12"
  shows "MakeDay (y - 1) (n - 1) (a + DaysInYear (lead y n)) = MakeDay y (n - 1) a"
  using MakeDay_year_back [of "n - 1" y a] assms by (auto simp: lead_def split: if_splits)

lemma yearLength [iso_simps]: "(if LeapYear (Some l) then 366 else 365) = DaysInYear l"
  by (simp add: LeapYear_iff DaysInYear_def)

lemma yearsDown_eq:
  assumes n: "1 \<le> n" "n \<le> 12" and y: "- (2 ^ 52) \<le> y + min a 0" "y \<le> 2 ^ 52" and a: "\<bar>a\<bar> \<le> 2 ^ 20"
  shows "\<exists>y' a'. yearsDown y (lead y n) a = Some (y', lead y' n, a')
    \<and> MakeDay y' (n - 1) a' = MakeDay y (n - 1) a \<and> - 366 \<le> a' \<and> a' \<le> max a 0
    \<and> y + min a 0 \<le> y' \<and> y' \<le> y"
  using y a
proof (induction "nat (- a)" arbitrary: y a rule: less_induct)
  case less
  define s where "s = DaysInYear (lead y n)"
  have s: "365 \<le> s" "s \<le> 366" using DaysInYear_range by (simp_all add: s_def)
  have unfold: "yearsDown y (lead y n) a = (if a < - s
      then yearsDown (nsub y 1) (nsub (lead y n) 1) (nadd a s) else Some (y, lead y n, a))"
    by (subst yearsDown.simps) (simp add: Let_def yearLength s_def)
  show ?case
  proof (cases "a < - s")
    case True
    have y': "nsub y 1 = y - 1" "nsub (lead y n) 1 = lead (y - 1) n" "nadd a s = a + s"
      using less.prems s True by (auto simp: lead_def nsub_safe nadd_safe)
    have "\<exists>y' a'. yearsDown (y - 1) (lead (y - 1) n) (a + s) = Some (y', lead y' n, a')
        \<and> MakeDay y' (n - 1) a' = MakeDay (y - 1) (n - 1) (a + s) \<and> - 366 \<le> a'
        \<and> a' \<le> max (a + s) 0 \<and> y - 1 + min (a + s) 0 \<le> y' \<and> y' \<le> y - 1"
      using less.prems s True by (intro less.hyps) auto
    then show ?thesis
      using unfold y' True MakeDay_lead_back [OF n, of y a] s by (fastforce simp: s_def [symmetric])
  next
    case False
    then show ?thesis using unfold less.prems s by auto
  qed
qed

lemma yearsUp_eq:
  assumes n: "1 \<le> n" "n \<le> 12" and y: "- (2 ^ 52) \<le> y" "y + max a 0 \<le> 2 ^ 52" and a: "\<bar>a\<bar> \<le> 2 ^ 20"
  shows "\<exists>y' a'. yearsUp y (lead (y + 1) n) a = Some (y', lead (y' + 1) n, a')
    \<and> MakeDay y' (n - 1) a' = MakeDay y (n - 1) a \<and> a' \<le> 366 \<and> min a 0 \<le> a'
    \<and> y \<le> y' \<and> y' \<le> y + max a 0"
  using y a
proof (induction "nat a" arbitrary: y a rule: less_induct)
  case less
  define s where "s = DaysInYear (lead (y + 1) n)"
  have s: "365 \<le> s" "s \<le> 366" using DaysInYear_range by (simp_all add: s_def)
  have unfold: "yearsUp y (lead (y + 1) n) a = (if a > s
      then yearsUp (nadd y 1) (nadd (lead (y + 1) n) 1) (nsub a s) else Some (y, lead (y + 1) n, a))"
    by (subst yearsUp.simps) (simp add: Let_def yearLength s_def)
  show ?case
  proof (cases "a > s")
    case True
    have y': "nadd y 1 = y + 1" "nadd (lead (y + 1) n) 1 = lead (y + 1 + 1) n" "nsub a s = a - s"
      using less.prems s True by (auto simp: lead_def nsub_safe nadd_safe)
    have "\<exists>y' a'. yearsUp (y + 1) (lead (y + 1 + 1) n) (a - s) = Some (y', lead (y' + 1) n, a')
        \<and> MakeDay y' (n - 1) a' = MakeDay (y + 1) (n - 1) (a - s) \<and> a' \<le> 366
        \<and> min (a - s) 0 \<le> a' \<and> y + 1 \<le> y' \<and> y' \<le> y + 1 + max (a - s) 0"
      using less.prems s True by (intro less.hyps) auto
    moreover have "MakeDay (y + 1) (n - 1) (a - s) = MakeDay y (n - 1) a"
      using MakeDay_lead_back [OF n, of "y + 1" "a - s"] by (simp add: s_def)
    ultimately show ?thesis
      using unfold y' True s by fastforce
  next
    case False
    then show ?thesis using unfold less.prems s by auto
  qed
qed

lemma BalanceISOYearMonth_safe:
  assumes "\<bar>e\<bar> \<le> 2 ^ 52" "\<bar>t\<bar> \<le> 2 ^ 52"
  shows "BalanceISOYearMonth e t
    = Inr \<lparr>ymYear = e + (t - 1) div 12, ymMonth = (t - 1) mod 12 + 1\<rparr>"
proof -
  have m: "\<bar>t - 1\<bar> < 2 ^ 53" using assms by auto
  define q where "q = (t - 1) div 12"
  have q: "12 * q \<le> t - 1" "t - 1 < 12 * q + 12" unfolding q_def by (rule div_bounds; simp)+
  have "nadd e q = e + q" using assms q by (intro nadd_safe) auto
  moreover have "nadd (tmod (t - 1) 12) 12 = tmod (t - 1) 12 + 12"
  proof -
    have "- 12 < tmod (t - 1) 12" "tmod (t - 1) 12 < 12" by (rule tmod_bounds; simp)+
    then show ?thesis by (intro nadd_safe) simp
  qed
  then have "(if tmod (t - 1) 12 < 0 then nadd (tmod (t - 1) 12) 12 else tmod (t - 1) 12) = (t - 1) mod 12"
    using div_via_tdiv(2) [of 12 "t - 1"] by (simp only: zero_less_numeral simp_thms)
  moreover have "nadd ((t - 1) mod 12) 1 = (t - 1) mod 12 + 1"
    using pos_mod_bound [of 12 "t - 1"] pos_mod_sign [of 12 "t - 1"] by (intro nadd_safe) auto
  moreover have "nsub t 1 = t - 1" using assms by (intro nsub_safe) auto
  moreover have "floorQuot (t - 1) 12 = q" using floorQuot_safe [OF m, of 12] by (simp add: q_def)
  moreover have "isFinite e" "isFinite t" using assms by (auto intro: isFinite_safe)
  ultimately show ?thesis by (simp add: BalanceISOYearMonth_def Let_def q_def [symmetric])
qed

text \<open>The previous and the next month.\<close>

lemma prev_month:
  assumes "1 \<le> n" "n \<le> 12" "\<bar>y\<bar> < 2 ^ 52"
  obtains y' n' where "BalanceISOYearMonth y (nsub n 1) = Inr \<lparr>ymYear = y', ymMonth = n'\<rparr>"
    "1 \<le> n'" "n' \<le> 12" "y - 1 \<le> y'" "y' \<le> y"
    "\<And>a. MakeDay y' (n' - 1) (a + ISODaysInMonth y' n') = MakeDay y (n - 1) a"
proof -
  define m where "m = n - 2"
  have b: "BalanceISOYearMonth y (nsub n 1) = Inr \<lparr>ymYear = y + m div 12, ymMonth = m mod 12 + 1\<rparr>"
    using assms BalanceISOYearMonth_safe [of y "n - 1"] by (simp add: nsub_safe m_def)
  have r: "0 \<le> m mod 12" "m mod 12 < 12" by simp_all
  have q: "-1 \<le> m div 12" "m div 12 \<le> 0"
    using assms div_bounds [of 12 m] by (simp_all add: m_def)
  have "MakeDay (y + m div 12) (m mod 12) (a + ISODaysInMonth (y + m div 12) (m mod 12 + 1))
      = MakeDay y (n - 1) a" for a
    using MakeDay_next_month [of y m] MakeDay_normal [of y m] MakeDay_add_day [of y "m + 1" 1 "a - 1"]
      MakeDay_add_day [of "y + m div 12" "m mod 12" 1] r
    by (simp add: ISODaysInMonth_eq m_def MakeDay_def Let_def)
  then show ?thesis using that [OF b] r q by auto
qed

lemma next_month:
  assumes "1 \<le> n" "n \<le> 12" "\<bar>y\<bar> < 2 ^ 52"
  obtains y' n' where "BalanceISOYearMonth y (nadd n 1) = Inr \<lparr>ymYear = y', ymMonth = n'\<rparr>"
    "1 \<le> n'" "n' \<le> 12" "y \<le> y'" "y' \<le> y + 1"
    "\<And>a. MakeDay y' (n' - 1) (a - ISODaysInMonth y n) = MakeDay y (n - 1) a"
proof -
  have b: "BalanceISOYearMonth y (nadd n 1) = Inr \<lparr>ymYear = y + n div 12, ymMonth = n mod 12 + 1\<rparr>"
    using assms BalanceISOYearMonth_safe [of y "n + 1"] by (simp add: nadd_safe)
  have r: "0 \<le> n mod 12" "n mod 12 < 12" by simp_all
  have q: "0 \<le> n div 12" "n div 12 \<le> 1"
    using assms div_bounds [of 12 n] by linarith+
  have "MakeDay (y + n div 12) (n mod 12) (a - ISODaysInMonth y n) = MakeDay y (n - 1) a" for a
    using MakeDay_next_month [of y "n - 1"] assms
    by (simp add: ISODaysInMonth_eq MakeDay_def Let_def)
  then show ?thesis using that [OF b] r q by auto
qed

lemma monthsDown_eq:
  assumes "1 \<le> n" "n \<le> 12" "\<bar>y\<bar> + \<bar>a\<bar> < 2 ^ 52" "\<bar>a\<bar> \<le> 2 ^ 20"
  shows "\<exists>y' n' a'. monthsDown y n a = Some (Inr (y', n', a'))
    \<and> MakeDay y' (n' - 1) a' = MakeDay y (n - 1) a \<and> 1 \<le> n' \<and> n' \<le> 12 \<and> 1 \<le> a' \<and> a' \<le> max a 31
    \<and> \<bar>y'\<bar> \<le> \<bar>y\<bar> + \<bar>a\<bar> + 1"
  using assms
proof (induction "nat (1 - a)" arbitrary: y n a rule: less_induct)
  case less
  show ?case
  proof (cases "a < 1")
    case True
    obtain y' n' where step: "BalanceISOYearMonth y (nsub n 1) = Inr \<lparr>ymYear = y', ymMonth = n'\<rparr>"
      and n': "1 \<le> n'" "n' \<le> 12" and y': "y - 1 \<le> y'" "y' \<le> y"
      and md: "MakeDay y' (n' - 1) (a + ISODaysInMonth y' n') = MakeDay y (n - 1) a"
      using less.prems by (elim prev_month [of n y]) auto
    define s where "s = ISODaysInMonth y' n'"
    have s: "28 \<le> s" "s \<le> 31" using ISODaysInMonth_range [OF n'] by (simp_all add: s_def)
    have unfold: "monthsDown y n a = monthsDown y' n' (a + s)"
      using True less.prems s by (subst monthsDown.simps) (simp add: step nadd_safe s_def [symmetric])
    show ?thesis
    proof (cases "a + s < 1")
      case True
      then show ?thesis
        using less.hyps [of "a + s" n' y'] less.prems s n' y' md unfold by (fastforce simp: s_def [symmetric])
    next
      case False
      then have "monthsDown y' n' (a + s) = Some (Inr (y', n', a + s))"
        by (subst monthsDown.simps) simp
      then show ?thesis using unfold less.prems s n' y' md False \<open>a < 1\<close> by (auto simp: s_def [symmetric])
    qed
  next
    case False
    then show ?thesis using less.prems by (subst monthsDown.simps) auto
  qed
qed

lemma monthsUp_eq:
  assumes "1 \<le> n" "n \<le> 12" "\<bar>y\<bar> + \<bar>a\<bar> < 2 ^ 52" "1 \<le> a" "a \<le> 2 ^ 20"
  shows "\<exists>x. monthsUp y n a = Some (Inr (year x, month x, day x))
    \<and> validDate x \<and> epochDay x = MakeDay y (n - 1) a"
  using assms
proof (induction "nat a" arbitrary: y n a rule: less_induct)
  case less
  define s where "s = ISODaysInMonth y n"
  have s: "28 \<le> s" "s \<le> 31" using ISODaysInMonth_range less.prems by (simp_all add: s_def)
  show ?case
  proof (cases "a > s")
    case True
    obtain y' n' where step: "BalanceISOYearMonth y (nadd n 1) = Inr \<lparr>ymYear = y', ymMonth = n'\<rparr>"
      and n': "1 \<le> n'" "n' \<le> 12" and y': "y \<le> y'" "y' \<le> y + 1"
      and md: "MakeDay y' (n' - 1) (a - s) = MakeDay y (n - 1) a"
      using less.prems unfolding s_def by (elim next_month [of n y]) auto
    have unfold: "monthsUp y n a = monthsUp y' n' (a - s)"
      using True less.prems s
      by (subst monthsUp.simps) (simp add: step nsub_safe s_def [symmetric] Let_def)
    then show ?thesis using less.hyps [of "a - s" n' y'] less.prems s n' y' md True by auto
  next
    case False
    have "monthsUp y n a = Some (Inr (y, n, a))"
      using False by (subst monthsUp.simps) (simp add: s_def)
    moreover have "validDate \<lparr>year = y, month = n, day = a\<rparr>"
      using less.prems False by (simp add: validDate_def s_def)
    ultimately show ?thesis
      by (intro exI [of _ "\<lparr>year = y, month = n, day = a\<rparr>"]) (simp add: epochDay_def)
  qed
qed

section \<open>\<open>BalanceISODate\<close> and \<open>AddISODate\<close>\<close>

text \<open>Whole 400-year cycles are removed first.\<close>

lemma cycles_removed:
  assumes "\<bar>y\<bar> \<le> 2 ^ 51" "\<bar>r\<bar> \<le> 2 ^ 51"
  defines "k \<equiv> truncQuot r 146097"
  defines "y' \<equiv> if \<bar>r\<bar> > 146097 then nadd y (nmul 400 k) else y"
    and "a' \<equiv> if \<bar>r\<bar> > 146097 then nsub r (nmul k 146097) else r"
  shows "\<bar>y'\<bar> \<le> 2 ^ 51 + 2 ^ 43" "\<bar>a'\<bar> \<le> 146097" "MakeDay y' m a' = MakeDay y m r"
proof -
  have kt: "k = tdiv r 146097" using assms by (simp add: k_def truncQuot_safe)
  have sum: "k * 146097 + tmod r 146097 = r" unfolding kt by (rule tdiv_tmod)
  have tm: "- 146097 < tmod r 146097" "tmod r 146097 < 146097" by (rule tmod_bounds; simp)+
  have kb: "\<bar>k\<bar> \<le> 2 ^ 34" using sum tm assms(2) by (simp add: abs_le_iff)
  have n: "nmul 400 k = 400 * k" "nmul k 146097 = k * 146097"
    using kb sum tm assms(2) by (auto intro!: nmul_safe)
  have n': "nadd y (400 * k) = y + 400 * k" "nsub r (k * 146097) = tmod r 146097"
    using kb sum tm assms(1) by (subst nadd_safe nsub_safe; simp)+
  have md: "MakeDay (y + 400 * k) m a = MakeDay y m (a + 146097 * k)" for a
    by (simp add: MakeDay_def Let_def DayFromYear_add_400_mult InLeapYear_add_400
        add.assoc [symmetric] add.commute [of _ "m div 12"])
  show "\<bar>y'\<bar> \<le> 2 ^ 51 + 2 ^ 43" "\<bar>a'\<bar> \<le> 146097"
    using kb assms(1) tm by (auto simp: y'_def a'_def n n')
  show "MakeDay y' m a' = MakeDay y m r"
  proof -
    have "tmod r 146097 + 146097 * k = r" using sum by simp
    then have "MakeDay (y + 400 * k) m (tmod r 146097) = MakeDay y m r"
      using md [of "tmod r 146097"] by (simp only:)
    then show ?thesis by (simp add: y'_def a'_def n n')
  qed
qed

lemma BalanceISODate_safe:
  assumes e: "\<bar>e\<bar> \<le> 2 ^ 50" and t: "\<bar>t\<bar> \<le> 2 ^ 50" and r: "\<bar>r\<bar> \<le> 2 ^ 51"
  shows "BalanceISODate e t r = Inr (dateOfDay (MakeDay e (t - 1) r))"
proof -
  define Y n where "Y = e + (t - 1) div 12" and "n = (t - 1) mod 12 + 1"
  have n: "1 \<le> n" "n \<le> 12"
    using pos_mod_bound [of 12 "t - 1"] pos_mod_sign [of 12 "t - 1"] by (simp_all add: n_def)
  have "12 * ((t - 1) div 12) \<le> t - 1" "t - 1 < 12 * ((t - 1) div 12) + 12"
    by (rule div_bounds; simp)+
  then have Y: "\<bar>Y\<bar> \<le> 2 ^ 51" using e t by (simp add: Y_def abs_le_iff)
  have ym: "BalanceISOYearMonth e t = Inr \<lparr>ymYear = Y, ymMonth = n\<rparr>"
    using e t BalanceISOYearMonth_safe [of e t] by (simp add: Y_def n_def)
  have md: "MakeDay e (t - 1) r = MakeDay Y (n - 1) r"
    using MakeDay_normal [of e "t - 1" r] by (simp add: Y_def n_def)
  define k where "k = truncQuot r 146097"
  define Y1 where "Y1 = (if \<bar>r\<bar> > 146097 then nadd Y (nmul 400 k) else Y)"
  define a1 where "a1 = (if \<bar>r\<bar> > 146097 then nsub r (nmul k 146097) else r)"
  note c = cycles_removed [OF Y r, folded k_def, folded Y1_def a1_def]
  have pair: "(if \<bar>r\<bar> > 146097 then (nadd Y (nmul 400 k), nsub r (nmul k 146097)) else (Y, r)) = (Y1, a1)"
    by (simp add: Y1_def a1_def)
  have l1: "(if n > 2 then Y1 else nsub Y1 1) = lead Y1 n"
    using c(1) by (auto simp: lead_def nsub_safe)
  have "- (2 ^ 52) \<le> Y1 + min a1 0" "Y1 \<le> 2 ^ 52" "\<bar>a1\<bar> \<le> 2 ^ 20"
    using c(1,2) by auto
  from yearsDown_eq [OF n this] obtain Y2 a2 where d: "yearsDown Y1 (lead Y1 n) a1 = Some (Y2, lead Y2 n, a2)"
    and d': "MakeDay Y2 (n - 1) a2 = MakeDay Y1 (n - 1) a1" "- 366 \<le> a2" "a2 \<le> max a1 0"
      "Y1 + min a1 0 \<le> Y2" "Y2 \<le> Y1"
    by blast
  have l2: "nadd (lead Y2 n) 1 = lead (Y2 + 1) n"
    using c(1,2) d'(4,5) by (auto simp: lead_def nadd_safe)
  have "- (2 ^ 52) \<le> Y2" "Y2 + max a2 0 \<le> 2 ^ 52" "\<bar>a2\<bar> \<le> 2 ^ 20"
    using c(1,2) d' by auto
  from yearsUp_eq [OF n this] obtain Y3 a3 where u: "yearsUp Y2 (lead (Y2 + 1) n) a2 = Some (Y3, lead (Y3 + 1) n, a3)"
    and u': "MakeDay Y3 (n - 1) a3 = MakeDay Y2 (n - 1) a2" "a3 \<le> 366" "min a2 0 \<le> a3"
      "Y2 \<le> Y3" "Y3 \<le> Y2 + max a2 0"
    by blast
  have B: "\<bar>Y1\<bar> \<le> 2260595906707456" "\<bar>a1\<bar> \<le> 146097"
    using c(1,2) by simp_all
  have "\<bar>Y3\<bar> + \<bar>a3\<bar> \<le> 2260595907000016" "\<bar>a3\<bar> \<le> 366"
    using B d'(2-5) u'(2-5) by linarith+
  then have "\<bar>Y3\<bar> + \<bar>a3\<bar> < 2 ^ 52" "\<bar>a3\<bar> \<le> 2 ^ 20"
    by simp_all
  from monthsDown_eq [OF n this] obtain Y4 n4 a4 where md: "monthsDown Y3 n a3 = Some (Inr (Y4, n4, a4))"
    and md': "MakeDay Y4 (n4 - 1) a4 = MakeDay Y3 (n - 1) a3" "1 \<le> n4" "n4 \<le> 12" "1 \<le> a4"
      "a4 \<le> max a3 31" "\<bar>Y4\<bar> \<le> \<bar>Y3\<bar> + \<bar>a3\<bar> + 1"
    by blast
  have "\<bar>Y4\<bar> + \<bar>a4\<bar> \<le> 2260595908000000" "a4 \<le> 366"
    using \<open>\<bar>Y3\<bar> + \<bar>a3\<bar> \<le> 2260595907000016\<close> \<open>\<bar>a3\<bar> \<le> 366\<close> md'(4-6) by linarith+
  then have "\<bar>Y4\<bar> + \<bar>a4\<bar> < 2 ^ 52" "a4 \<le> 2 ^ 20"
    by simp_all
  from monthsUp_eq [OF md'(2,3) this(1) md'(4) this(2)] obtain x where
    mu: "monthsUp Y4 n4 a4 = Some (Inr (year x, month x, day x))"
    and x: "validDate x" "epochDay x = MakeDay Y4 (n4 - 1) a4"
    by blast
  have "x = dateOfDay (MakeDay e (t - 1) r)"
    using x dateOfDay_epochDay [OF x(1)] md'(1) u'(1) d'(1) c(3) MakeDay_normal [of e "t - 1" r]
    by (simp add: Y_def n_def)
  moreover have "BalanceISODate e t r = Inr \<lparr>year = year x, month = month x, day = day x\<rparr>"
  proof -
    have f: "isFinite r" using r by (intro isFinite_safe) simp
    show ?thesis
      unfolding BalanceISODate_def ym
      by (simp only: f not_True_eq_False throwIf_simps bindE_Inr Let_def iso_year_month.simps
          k_def [symmetric] pair prod.case l1 d l2 u md mu returned_simps loopResult_simps)
  qed
  ultimately show ?thesis by simp
qed

end
