(* ===== verification/Units.thy ===== *)
theory Units imports Js_Number begin

text \<open>
  The ten units of a duration, in the order of the table \<^verbatim>\<open>Ue\<close> of
  \<^verbatim>\<open>temporal-polyfill.js\<close>, and the record of a duration. The date part is a record of
  its own, which the full duration extends, because the date functions take and return
  only that part.
\<close>

datatype tunit = Year | Month | Week | Day | Hour | Minute | Second
  | Millisecond | Microsecond | Nanosecond

record date_duration =
  years :: int
  months :: int
  weeks :: int
  days :: int

record duration = date_duration +
  hours :: int
  minutes :: int
  seconds :: int
  milliseconds :: int
  microseconds :: int
  nanoseconds :: int

text \<open>\<^verbatim>\<open>xe\<close>: the singular names in order.\<close>

definition unitNames :: "tunit list" where
  "unitNames = [Year, Month, Week, Day, Hour, Minute, Second, Millisecond, Microsecond, Nanosecond]"

text \<open>\<^verbatim>\<open>Array.prototype.indexOf\<close>, which is -1 for an absent element.\<close>

fun indexOf :: "'a list \<Rightarrow> 'a \<Rightarrow> int" where
  "indexOf [] x = -1"
| "indexOf (y # ys) x = (if y = x then 0 else let k = indexOf ys x in if k < 0 then -1 else k + 1)"

definition LargerOfTwoTemporalUnits :: "tunit \<Rightarrow> tunit \<Rightarrow> tunit" where
  "LargerOfTwoTemporalUnits e t = (if indexOf unitNames e > indexOf unitNames t then t else e)"

text \<open>The first field that is not 0 decides.\<close>

fun signOfList :: "int list \<Rightarrow> int" where
  "signOfList [] = 0"
| "signOfList (m # ms) = (if m \<noteq> 0 then (if m < 0 then -1 else 1) else signOfList ms)"

definition DurationSign ::
  "int \<Rightarrow> int \<Rightarrow> int \<Rightarrow> int \<Rightarrow> int \<Rightarrow> int \<Rightarrow> int \<Rightarrow> int \<Rightarrow> int \<Rightarrow> int \<Rightarrow> int" where
  "DurationSign e t r n a i s l d c = signOfList [e, t, r, n, a, i, s, l, d, c]"

fun firstUnit :: "(tunit \<times> int) list \<Rightarrow> tunit" where
  "firstUnit [] = Nanosecond"
| "firstUnit ((u, x) # ps) = (if x \<noteq> 0 then u else firstUnit ps)"

definition DefaultTemporalLargestUnit ::
  "int \<Rightarrow> int \<Rightarrow> int \<Rightarrow> int \<Rightarrow> int \<Rightarrow> int \<Rightarrow> int \<Rightarrow> int \<Rightarrow> int \<Rightarrow> int \<Rightarrow> tunit" where
  "DefaultTemporalLargestUnit e t r n a i s l d c =
     firstUnit [(Year, e), (Month, t), (Week, r), (Day, n), (Hour, a), (Minute, i), (Second, s),
       (Millisecond, l), (Microsecond, d), (Nanosecond, c)]"

fun rejectMixed :: "int \<Rightarrow> int list \<Rightarrow> unit result" where
  "rejectMixed m [] = Inr ()"
| "rejectMixed m (c # cs) =
     bindE (throwIf (\<not> isFinite c) RangeError) (\<lambda>_.
     bindE (throwIf (sgn c \<noteq> 0 \<and> sgn c \<noteq> m) RangeError) (\<lambda>_. rejectMixed m cs))"

definition RejectDuration ::
  "int \<Rightarrow> int \<Rightarrow> int \<Rightarrow> int \<Rightarrow> int \<Rightarrow> int \<Rightarrow> int \<Rightarrow> int \<Rightarrow> int \<Rightarrow> int \<Rightarrow> unit result" where
  "RejectDuration e t r n a i s l d c =
     rejectMixed (DurationSign e t r n a i s l d c) [e, t, r, n, a, i, s, l, d, c]"

section \<open>Properties\<close>

instantiation tunit :: linorder
begin

text \<open>The larger unit is the smaller one in this order, as in the table.\<close>

definition less_eq_tunit :: "tunit \<Rightarrow> tunit \<Rightarrow> bool" where
  "less_eq_tunit u v = (indexOf unitNames u \<le> indexOf unitNames v)"

definition less_tunit :: "tunit \<Rightarrow> tunit \<Rightarrow> bool" where
  "less_tunit u v = (indexOf unitNames u < indexOf unitNames v)"

instance
proof
  fix u v w :: tunit
  show "(u < v) = (u \<le> v \<and> \<not> v \<le> u)"
    by (auto simp: less_tunit_def less_eq_tunit_def)
  show "u \<le> u" by (simp add: less_eq_tunit_def)
  show "u \<le> v \<Longrightarrow> v \<le> w \<Longrightarrow> u \<le> w" by (simp add: less_eq_tunit_def)
  show "u \<le> v \<or> v \<le> u" by (simp add: less_eq_tunit_def linear)
  show "u \<le> v \<Longrightarrow> v \<le> u \<Longrightarrow> u = v"
    by (cases u; cases v) (simp_all add: less_eq_tunit_def unitNames_def)
qed

end

lemma LargerOfTwoTemporalUnits_min: "LargerOfTwoTemporalUnits u v = min u v"
  by (auto simp: LargerOfTwoTemporalUnits_def min_def less_eq_tunit_def)

lemma signOfList_in: "signOfList ms \<in> {-1, 0, 1}"
  by (induction ms) auto

text \<open>A list passes exactly when its entries are finite and share one sign.\<close>

lemma rejectMixed_iff:
  "rejectMixed m cs = Inr () \<longleftrightarrow> (\<forall>c \<in> set cs. isFinite c \<and> (c = 0 \<or> sgn c = m))"
  by (induction cs) (auto simp: bindE_eq_Inr_iff sgn_eq_0_iff)

lemma rejectMixed_error: "rejectMixed m cs = Inl e \<Longrightarrow> e = RangeError"
  by (induction cs) (auto simp: bindE_eq_Inl_iff)

lemma signOfList_same_sign:
  "(\<forall>c \<in> set cs. c = 0 \<or> sgn c = signOfList cs) \<longleftrightarrow>
    (\<forall>c \<in> set cs. 0 \<le> c) \<or> (\<forall>c \<in> set cs. c \<le> 0)"
proof -
  have pos: "signOfList cs = 1 \<or> signOfList cs = 0" if "\<forall>c \<in> set cs. 0 \<le> c" for cs
    using that by (induction cs) auto
  have neg: "signOfList cs = -1 \<or> signOfList cs = 0" if "\<forall>c \<in> set cs. c \<le> 0" for cs
    using that by (induction cs) auto
  have zero: "signOfList cs = 0 \<longleftrightarrow> (\<forall>c \<in> set cs. c = 0)" for cs
    by (induction cs) auto
  have same: "(c = 0 \<or> sgn c = 1) = (0 \<le> c)" "(c = 0 \<or> sgn c = -1) = (c \<le> 0)" for c :: int
    by (auto simp: sgn_if)
  consider "signOfList cs = 1" | "signOfList cs = -1" | "signOfList cs = 0"
    using signOfList_in [of cs] by auto
  then show ?thesis
  proof cases
    case 1
    then show ?thesis using neg [of cs] by (auto simp: same)
  next
    case 2
    then show ?thesis using pos [of cs] by (auto simp: same)
  next
    case 3
    then have "\<forall>c \<in> set cs. c = 0" using zero [of cs] by simp
    then show ?thesis by (auto simp: 3 sgn_0_0)
  qed
qed

end
