(* ===== verification/Rounding.thy ===== *)
theory Rounding imports Js_Number begin

text \<open>
  Division and rounding of BigInts in \<^verbatim>\<open>temporal-polyfill.js\<close>: \<^verbatim>\<open>divmod\<close>, \<^verbatim>\<open>NonNegativeBigIntDivmod\<close>,
  \<^verbatim>\<open>BigIntFloorDiv\<close>, \<^verbatim>\<open>BigIntDivideToNumber\<close> and \<^verbatim>\<open>RoundNumberToIncrement\<close> with its nine modes. A
  BigInt is an \<open>int\<close>; its division truncates. No caller divides by zero, which would throw.
\<close>

section \<open>Definitions\<close>

definition isNegativeJSBI :: "int \<Rightarrow> bool" where
  "isNegativeJSBI t = (t < 0)"

definition signJSBI :: "int \<Rightarrow> int" where
  "signJSBI e = (if e = 0 then 0 else if isNegativeJSBI e then -1 else 1)"

definition absBI :: "int \<Rightarrow> int" where
  "absBI t = (if t < 0 then t * (-1) else t)"

definition divmodBI :: "int \<Rightarrow> int \<Rightarrow> int \<times> int" where
  "divmodBI t r = (tdiv t r, tmod t r)"

definition NonNegativeBigIntDivmod :: "int \<Rightarrow> int \<Rightarrow> int \<times> int" where
  "NonNegativeBigIntDivmod t r =
     (let (q, n) = divmodBI t r in if n < 0 then (q - 1, n + r) else (q, n))"

definition BigIntFloorDiv :: "int \<Rightarrow> int \<Rightarrow> int" where
  "BigIntFloorDiv t r =
     (let (q, n) = divmodBI t r
      in if n = 0 \<or> (\<not> isNegativeJSBI t) = (\<not> isNegativeJSBI r) then q else q - 1)"

text \<open>A quotient as a Number: the one division here whose result is a fraction.\<close>

definition BigIntDivideToNumber :: "int \<Rightarrow> int \<Rightarrow> rat" where
  "BigIntDivideToNumber t r =
     (let (q, n) = divmodBI t r
      in fl (of_int (toNumber q) + fl (of_int (toNumber n) / of_int (toNumber r))))"

datatype rounding_mode = Ceil | Floor | Expand | Trunc | HalfCeil | HalfFloor | HalfExpand | HalfTrunc | HalfEven

definition RoundNumberToIncrement :: "int \<Rightarrow> int \<Rightarrow> rounding_mode \<Rightarrow> int" where
  "RoundNumberToIncrement t r md =
     (if r = 1 then t else
      let (n, a) = divmodBI t r
      in if a = 0 then t else
      let i = (if a < 0 then -1 else 1);
          s = absBI (a * 2);
          l = (s = r);
          d = (s > r);
          n = (case md of
                 Ceil \<Rightarrow> (if i > 0 then n + i else n)
               | Floor \<Rightarrow> (if i < 0 then n + i else n)
               | Expand \<Rightarrow> n + i
               | Trunc \<Rightarrow> n
               | HalfCeil \<Rightarrow> (if d \<or> l \<and> i > 0 then n + i else n)
               | HalfFloor \<Rightarrow> (if d \<or> l \<and> i < 0 then n + i else n)
               | HalfExpand \<Rightarrow> (if d \<or> l then n + i else n)
               | HalfTrunc \<Rightarrow> (if d then n + i else n)
               | HalfEven \<Rightarrow> (if d \<or> l \<and> toNumber (tmod (absBI n) 2) = 1 then n + i else n))
      in n * r)"

section \<open>Division\<close>

lemma signJSBI_sgn [simp]: "signJSBI e = sgn e"
  by (simp add: signJSBI_def isNegativeJSBI_def sgn_if)

lemma absBI_abs [simp]: "absBI t = \<bar>t\<bar>"
  by (simp add: absBI_def)

lemma tdiv_tmod_div_mod:
  assumes "0 < r"
  shows "tmod t r < 0 \<Longrightarrow> tdiv t r - 1 = t div r \<and> tmod t r + r = t mod r"
    and "0 \<le> tmod t r \<Longrightarrow> tdiv t r = t div r \<and> tmod t r = t mod r"
proof -
  have e: "tdiv t r * r + tmod t r = t" by (rule tdiv_tmod)
  have b: "- r < tmod t r" "tmod t r < r" using assms by (simp_all add: tmod_bounds)
  show "tmod t r < 0 \<Longrightarrow> tdiv t r - 1 = t div r \<and> tmod t r + r = t mod r"
  proof -
    assume n: "tmod t r < 0"
    have t: "t = r * (tdiv t r - 1) + (tmod t r + r)" using e by (simp add: algebra_simps)
    have "t div r = tdiv t r - 1" using t b n by (intro int_div_pos_eq [where r = "tmod t r + r"]) auto
    moreover have "t mod r = tmod t r + r" using t b n by (intro int_mod_pos_eq [where q = "tdiv t r - 1"]) auto
    ultimately show ?thesis by simp
  qed
  show "0 \<le> tmod t r \<Longrightarrow> tdiv t r = t div r \<and> tmod t r = t mod r"
  proof -
    assume n: "0 \<le> tmod t r"
    have t: "t = r * tdiv t r + tmod t r" using e by (simp add: algebra_simps)
    have "t div r = tdiv t r" using t b n by (intro int_div_pos_eq [where r = "tmod t r"]) auto
    moreover have "t mod r = tmod t r" using t b n by (intro int_mod_pos_eq [where q = "tdiv t r"]) auto
    ultimately show ?thesis by simp
  qed
qed

lemma NonNegativeBigIntDivmod_eq: "0 < r \<Longrightarrow> NonNegativeBigIntDivmod t r = (t div r, t mod r)"
  using tdiv_tmod_div_mod [of r t] by (auto simp: NonNegativeBigIntDivmod_def divmodBI_def Let_def)

lemma tmod_sign:
  assumes "0 < r"
  shows "tmod t r < 0 \<Longrightarrow> t < 0" and "0 < tmod t r \<Longrightarrow> 0 < t"
proof -
  show "tmod t r < 0 \<Longrightarrow> t < 0"
  proof (rule ccontr)
    assume "tmod t r < 0" "\<not> t < 0"
    then have "t mod r < 0" using assms by simp
    moreover have "0 \<le> t mod r" using assms by simp
    ultimately show False by simp
  qed
  show "0 < tmod t r \<Longrightarrow> 0 < t"
  proof -
    assume p: "0 < tmod t r"
    have "\<not> t < 0"
    proof
      assume "t < 0"
      then have "tmod t r \<le> 0" using assms by (simp add: tmod_neg)
      then show False using p by simp
    qed
    moreover have "t \<noteq> 0" using p by (auto simp: tmod_def)
    ultimately show ?thesis by simp
  qed
qed

lemma BigIntFloorDiv_eq: "0 < r \<Longrightarrow> BigIntFloorDiv t r = t div r"
  using tdiv_tmod_div_mod [of r t] tmod_sign [of r t]
  by (cases "tmod t r" "0::int" rule: linorder_cases)
    (simp_all add: BigIntFloorDiv_def divmodBI_def isNegativeJSBI_def)

section \<open>Rounding\<close>

text \<open>
  The rounding modes as arithmetic on the floor of quotients. The half modes round to the
  nearest multiple and differ in what they do with a tie.
\<close>

fun roundSpec :: "rounding_mode \<Rightarrow> int \<Rightarrow> int \<Rightarrow> int" where
  "roundSpec Floor t r = t div r * r"
| "roundSpec Ceil t r = - ((- t) div r) * r"
| "roundSpec Trunc t r = sgn t * (\<bar>t\<bar> div r * r)"
| "roundSpec Expand t r = sgn t * (- ((- \<bar>t\<bar>) div r) * r)"
| "roundSpec HalfCeil t r = (2 * t + r) div (2 * r) * r"
| "roundSpec HalfFloor t r = - ((r - 2 * t) div (2 * r)) * r"
| "roundSpec HalfExpand t r = sgn t * ((2 * \<bar>t\<bar> + r) div (2 * r) * r)"
| "roundSpec HalfTrunc t r = sgn t * (- ((r - 2 * \<bar>t\<bar>) div (2 * r)) * r)"
| "roundSpec HalfEven t r =
     (if 2 * (t mod r) < r \<or> 2 * (t mod r) = r \<and> even (t div r) then t div r * r else (t div r + 1) * r)"

lemma div_witness: "0 < r \<Longrightarrow> r * q \<le> a \<Longrightarrow> a < r * q + r \<Longrightarrow> a div r = (q::int)"
  by (rule int_div_pos_eq [where r = "a - r * q"]) auto

text \<open>The two signs of an inexact quotient \<open>n\<close> with remainder \<open>a\<close>.\<close>

lemma quotients_pos:
  fixes r n a :: int
  assumes "0 < a" "a < r" and t: "t = n * r + a"
  shows "t div r = n" "t mod r = a" "(- t) div r = - n - 1"
    "(2 * t + r) div (2 * r) = (if 2 * a < r then n else n + 1)"
    "(r - 2 * t) div (2 * r) = (if 2 * a \<le> r then - n else - n - 1)"
proof -
  show "t div r = n" "(- t) div r = - n - 1"
    using assms by (intro div_witness; simp add: algebra_simps)+
  show "t mod r = a" using assms by simp
  show "(2 * t + r) div (2 * r) = (if 2 * a < r then n else n + 1)"
    "(r - 2 * t) div (2 * r) = (if 2 * a \<le> r then - n else - n - 1)"
    using assms by (intro div_witness; auto simp: algebra_simps)+
qed

lemma quotients_neg:
  fixes r n a :: int
  assumes "0 < a" "a < r" and t: "t = n * r - a"
  shows "t div r = n - 1" "t mod r = r - a" "(- t) div r = - n"
    "(2 * t + r) div (2 * r) = (if 2 * a \<le> r then n else n - 1)"
    "(r - 2 * t) div (2 * r) = (if 2 * a < r then - n else - n + 1)"
proof -
  show "t div r = n - 1" and "(- t) div r = - n"
    using assms by (intro div_witness; simp add: algebra_simps)+
  show "t mod r = r - a" using assms by (intro int_mod_pos_eq [where q = "n - 1"]) (auto simp: algebra_simps)
  show "(2 * t + r) div (2 * r) = (if 2 * a \<le> r then n else n - 1)"
    "(r - 2 * t) div (2 * r) = (if 2 * a < r then - n else - n + 1)"
    using assms by (intro div_witness; auto simp: algebra_simps)+
qed

lemma quotients_exact:
  fixes r n :: int
  assumes "0 < r"
  shows "(2 * (n * r) + r) div (2 * r) = n" "(r - 2 * (n * r)) div (2 * r) = - n"
    "(- (n * r)) div r = - n"
  using assms by (intro div_witness; simp add: algebra_simps)+

lemma toNumber_parity [simp]: "toNumber (tmod \<bar>n\<bar> 2) = 1 \<longleftrightarrow> odd n"
proof -
  have "toNumber (\<bar>n\<bar> mod 2) = \<bar>n\<bar> mod 2" by (intro toNumber_safe) simp
  then show ?thesis by (simp add: odd_iff_mod_2_eq_one [symmetric])
qed

lemma RoundNumberToIncrement_roundSpec:
  assumes r: "0 < r"
  shows "RoundNumberToIncrement t r md = roundSpec md t r"
proof -
  define n a where "n = tdiv t r" and "a = tmod t r"
  have e: "t = n * r + a" using tdiv_tmod [of t r] by (simp add: n_def a_def)
  have dm: "divmodBI t r = (n, a)" by (simp add: divmodBI_def n_def a_def)
  have b: "- r < a" "a < r" using r by (simp_all add: a_def tmod_bounds)
  consider "a = 0" | "0 < a" "0 < t" | "a < 0" "t < 0"
    using tmod_sign [OF r, of t] by (cases a "0::int" rule: linorder_cases) (auto simp: a_def)
  then show ?thesis
  proof cases
    case 1
    then have t: "t = n * r" using e by simp
    have "RoundNumberToIncrement t r md = t"
      using 1 by (simp add: RoundNumberToIncrement_def dm)
    moreover have "roundSpec md t r = t"
    proof -
      have a: "\<bar>n * r\<bar> = \<bar>n\<bar> * r" "sgn (n * r) = sgn n" "sgn n * (\<bar>n\<bar> * r) = n * r" for n
        using r by (simp_all add: abs_mult sgn_mult mult.assoc [symmetric] sgn_mult_abs)
      have m: "- (\<bar>n\<bar> * r) div r = - \<bar>n\<bar>" using quotients_exact(3) [OF r, of "\<bar>n\<bar>"] by simp
      show ?thesis
        using r by (cases md; simp only: roundSpec.simps t a m quotients_exact [OF r]; simp add: a)
    qed
    ultimately show ?thesis by simp
  next
    case 2
    note q = quotients_pos [OF 2(1) b(2) e]
    have "\<bar>t\<bar> = t" "sgn t = 1" "r \<noteq> 1" using 2 b by auto
    then show ?thesis
      using 2 by (cases md; simp only: RoundNumberToIncrement_def dm q roundSpec.simps Let_def prod.case
          rounding_mode.case absBI_abs toNumber_parity; auto simp: algebra_simps)
  next
    case 3
    have t: "t = n * r - (- a)" "0 < - a" "- a < r" using e 3 b by simp_all
    note q = quotients_neg [OF t(2,3,1)]
    have t': "- t = (- n) * r + (- a)" using t(1) by simp
    note p = quotients_pos [OF t(2,3) t']
    have "\<bar>t\<bar> = - t" "sgn t = - 1" "r \<noteq> 1" using 3 b by auto
    then show ?thesis
      using 3 by (cases md; simp only: RoundNumberToIncrement_def dm q p roundSpec.simps Let_def prod.case
          rounding_mode.case absBI_abs toNumber_parity; auto simp: algebra_simps)
  qed
qed

section \<open>The contract of rounding\<close>

text \<open>
  What the callers of a rounding function rely on, whatever the mode: the result is a
  multiple of the increment and less than an increment away.
\<close>

locale increment_rounding =
  fixes rnd :: "int \<Rightarrow> int \<Rightarrow> int"
  assumes rnd_dvd: "0 < r \<Longrightarrow> r dvd rnd t r"
    and rnd_near: "0 < r \<Longrightarrow> \<bar>rnd t r - t\<bar> < r"
begin

lemma rnd_ge:
  assumes "0 < r" "r dvd a" "a \<le> t"
  shows "a \<le> rnd t r"
proof (rule ccontr)
  assume "\<not> a \<le> rnd t r"
  moreover have "r dvd a - rnd t r" using assms rnd_dvd by simp
  ultimately have "r \<le> a - rnd t r" by (intro zdvd_imp_le) auto
  then show False using rnd_near [of r t] assms by linarith
qed

lemma rnd_le:
  assumes "0 < r" "r dvd a" "t \<le> a"
  shows "rnd t r \<le> a"
proof (rule ccontr)
  assume "\<not> rnd t r \<le> a"
  moreover have "r dvd rnd t r - a" using assms rnd_dvd by simp
  ultimately have "r \<le> rnd t r - a" by (intro zdvd_imp_le) auto
  then show False using rnd_near [of r t] assms by linarith
qed

lemma rnd_exact: "0 < r \<Longrightarrow> r dvd t \<Longrightarrow> rnd t r = t"
  using rnd_ge [of r t t] rnd_le [of r t t] by simp

lemma rnd_idem: "0 < r \<Longrightarrow> rnd (rnd t r) r = rnd t r"
  by (intro rnd_exact rnd_dvd)

lemma rnd_nonneg: "0 < r \<Longrightarrow> 0 \<le> t \<Longrightarrow> 0 \<le> rnd t r"
  by (rule rnd_ge) simp_all

lemma rnd_nonpos: "0 < r \<Longrightarrow> t \<le> 0 \<Longrightarrow> rnd t r \<le> 0"
  by (rule rnd_le) simp_all

end

lemma div_near:
  fixes t r :: int
  assumes "0 < r"
  shows "\<bar>t div r * r - t\<bar> < r" "\<bar>- ((- t) div r) * r - t\<bar> < r"
    "\<bar>(2 * t + r) div (2 * r) * r - t\<bar> < r" "\<bar>- ((r - 2 * t) div (2 * r)) * r - t\<bar> < r"
proof -
  have q: "\<bar>q * r - t\<bar> < r" if "t - r < r * q" "r * q < t + r" for q
    using that by (simp add: abs_less_iff mult.commute)
  define a b c d where "a = t div r" and "b = (- t) div r" and "c = (2 * t + r) div (2 * r)"
    and "d = (r - 2 * t) div (2 * r)"
  have "r * a \<le> t" "t < r * a + r" "r * b \<le> - t" "- t < r * b + r"
    "2 * r * c \<le> 2 * t + r" "2 * t + r < 2 * r * c + 2 * r" "2 * r * d \<le> r - 2 * t" "r - 2 * t < 2 * r * d + 2 * r"
    unfolding a_def b_def c_def d_def using assms by (simp_all only: div_bounds zero_less_mult_iff zero_less_numeral simp_thms)
  then have "t - r < r * a" "r * a < t + r" "t - r < r * (- b)" "r * (- b) < t + r"
    "t - r < r * c" "r * c < t + r" "t - r < r * (- d)" "r * (- d) < t + r"
    using assms by (simp_all only: mult.assoc mult_minus_right)
  then show "\<bar>t div r * r - t\<bar> < r" "\<bar>- ((- t) div r) * r - t\<bar> < r"
    "\<bar>(2 * t + r) div (2 * r) * r - t\<bar> < r" "\<bar>- ((r - 2 * t) div (2 * r)) * r - t\<bar> < r"
    unfolding a_def [symmetric] b_def [symmetric] c_def [symmetric] d_def [symmetric]
    by (blast intro: q)+
qed

lemma even_near:
  fixes t r :: int
  assumes "0 < r" "r \<le> 2 * (t mod r)"
  shows "\<bar>(t div r + 1) * r - t\<bar> < r"
proof -
  have "(t div r + 1) * r - t = r - t mod r"
    using div_mult_mod_eq [of t r] by (simp only: distrib_right mult_1_left)
  then show ?thesis using assms pos_mod_bound [OF assms(1), of t] by linarith
qed

lemma sgn_near: "0 < r \<Longrightarrow> \<bar>y - \<bar>t\<bar>\<bar> < r \<Longrightarrow> \<bar>sgn t * y - t\<bar> < (r::int)"
  by (cases t "0::int" rule: linorder_cases) auto

lemma roundSpec_near:
  assumes r: "0 < r"
  shows "\<bar>roundSpec md t r - t\<bar> < r"
proof (cases md)
  case HalfEven
  then show ?thesis using div_near(1) [OF r, of t] even_near [OF r, of t] by simp
next
  case Expand
  then show ?thesis using sgn_near [OF r div_near(2) [OF r, of "\<bar>t\<bar>"]] by simp
next
  case HalfTrunc
  then show ?thesis using sgn_near [OF r div_near(4) [OF r, of "\<bar>t\<bar>"]] by simp
next
  case HalfExpand
  then show ?thesis using sgn_near [OF r div_near(3) [OF r, of "\<bar>t\<bar>"]] by simp
next
  case Trunc
  then show ?thesis using sgn_near [OF r div_near(1) [OF r, of "\<bar>t\<bar>"]] by simp
qed (use div_near [OF r, of t] in simp_all)

lemma roundSpec_dvd: "r dvd roundSpec md t r"
  by (cases md) auto

interpretation rni: increment_rounding "\<lambda>t r. RoundNumberToIncrement t r md" for md
  by unfold_locales (simp_all add: RoundNumberToIncrement_roundSpec roundSpec_near roundSpec_dvd)

section \<open>The property of rounding\<close>

lemma half_near:
  assumes r: "0 < r" and md: "md \<in> {HalfCeil, HalfFloor, HalfExpand, HalfTrunc, HalfEven}"
  shows "2 * \<bar>roundSpec md t r - t\<bar> \<le> r"
proof -
  have c: "2 * \<bar>(2 * t + r) div (2 * r) * r - t\<bar> \<le> r" "2 * \<bar>- ((r - 2 * t) div (2 * r)) * r - t\<bar> \<le> r" for t
  proof -
    define c d where "c = (2 * t + r) div (2 * r)" and "d = (r - 2 * t) div (2 * r)"
    have "2 * r * c \<le> 2 * t + r" "2 * t + r < 2 * r * c + 2 * r" "2 * r * d \<le> r - 2 * t" "r - 2 * t < 2 * r * d + 2 * r"
      unfolding c_def d_def using r by (simp_all only: div_bounds zero_less_mult_iff zero_less_numeral simp_thms)
    then show "2 * \<bar>(2 * t + r) div (2 * r) * r - t\<bar> \<le> r" "2 * \<bar>- ((r - 2 * t) div (2 * r)) * r - t\<bar> \<le> r"
      unfolding c_def [symmetric] d_def [symmetric] mult.assoc mult.commute [of r] mult_minus_left
      by (simp_all add: abs_if)
  qed
  have s: "2 * \<bar>y - \<bar>t\<bar>\<bar> \<le> r \<Longrightarrow> 2 * \<bar>sgn t * y - t\<bar> \<le> r" for y
    using r by (cases t "0::int" rule: linorder_cases) (auto simp: abs_if split: if_splits)
  have e: "t div r * r - t = - (t mod r)" "(t div r + 1) * r - t = r - t mod r"
    using div_mult_mod_eq [of t r] by (simp_all only: distrib_right mult_1_left)
  have m: "0 \<le> t mod r" "t mod r < r" using r by simp_all
  note c' = s [OF c(1) [of "\<bar>t\<bar>"]] s [OF c(2) [of "\<bar>t\<bar>"]]
  consider "md = HalfCeil" | "md = HalfFloor" | "md = HalfExpand" | "md = HalfTrunc" | "md = HalfEven"
    using md by blast
  then show ?thesis
  proof cases
    case 1
    show ?thesis unfolding 1 roundSpec.simps by (rule c)
  next
    case 2
    show ?thesis unfolding 2 roundSpec.simps by (rule c)
  next
    case 3
    show ?thesis unfolding 3 roundSpec.simps by (rule c')
  next
    case 4
    show ?thesis unfolding 4 roundSpec.simps by (rule c')
  next
    case 5
    have f: "\<bar>t div r * r - t\<bar> = t mod r" "\<bar>(t div r + 1) * r - t\<bar> = r - t mod r"
      unfolding e using m by (simp_all only: abs_minus_cancel abs_of_nonneg diff_ge_0_iff_ge less_imp_le)
    show ?thesis
    proof (cases "2 * (t mod r) < r \<or> 2 * (t mod r) = r \<and> even (t div r)")
      case True
      then have "2 * (t mod r) \<le> r" by (elim disjE conjE) simp_all
      then show ?thesis unfolding 5 roundSpec.simps if_P [OF True] f .
    next
      case False
      then have "r \<le> 2 * (t mod r)" by (simp only: de_Morgan_disj not_less)
      then have "2 * (r - t mod r) \<le> r" by (simp only: right_diff_distrib)
      then show ?thesis unfolding 5 roundSpec.simps if_not_P [OF False] f .
    qed
  qed
qed

text \<open>C11: \<open>RoundNumberToIncrement\<close> is, in each of its nine modes, the rounding that the mode
  names: it gives a multiple of the increment less than one increment away, and the half
  modes a nearest one.\<close>

theorem RoundNumberToIncrement_correct:
  assumes "0 < r"
  shows "RoundNumberToIncrement t r md = roundSpec md t r
    \<and> r dvd RoundNumberToIncrement t r md \<and> \<bar>RoundNumberToIncrement t r md - t\<bar> < r
    \<and> (md \<in> {HalfCeil, HalfFloor, HalfExpand, HalfTrunc, HalfEven} \<longrightarrow>
      2 * \<bar>RoundNumberToIncrement t r md - t\<bar> \<le> r)"
  using assms half_near [OF assms, of md t]
  by (simp add: RoundNumberToIncrement_roundSpec roundSpec_near roundSpec_dvd)

theorem RoundNumberToIncrement_correct_witness:
  "RoundNumberToIncrement (-25) 10 HalfEven = -20 \<and> 2 * \<bar>RoundNumberToIncrement (-25) 10 HalfEven - (-25)\<bar> \<le> 10"
  using RoundNumberToIncrement_correct [where r = 10 and t = "-25" and md = HalfEven] by simp

end
