(* ===== verification/Iso_Time.thy ===== *)
theory Iso_Time imports Iso_Balance Units Rounding begin

text \<open>
  Time-of-day arithmetic of \<^verbatim>\<open>temporal-polyfill.js\<close>: the checks and clamps of the six fields,
  carrying (\<^verbatim>\<open>BalanceTime\<close>), addition, difference and rounding. The reference is the number of
  nanoseconds since midnight.
\<close>

section \<open>Data\<close>

record iso_time =
  hour :: int
  minute :: int
  second :: int
  millisecond :: int
  microsecond :: int
  nanosecond :: int

record balanced_time = iso_time +
  deltaDays :: int

text \<open>The object \<open>DifferenceTime\<close> returns.\<close>

record time_duration =
  tdHours :: int
  tdMinutes :: int
  tdSeconds :: int
  tdMilliseconds :: int
  tdMicroseconds :: int
  tdNanoseconds :: int

text \<open>The table \<^verbatim>\<open>_e\<close> of unit lengths, and the default day length \<^verbatim>\<open>864e11\<close>.\<close>

definition unitNs :: "tunit \<Rightarrow> int option" where
  "unitNs u = (case u of Hour \<Rightarrow> Some 3600000000000 | Minute \<Rightarrow> Some 60000000000 | Second \<Rightarrow> Some 1000000000
     | Millisecond \<Rightarrow> Some 1000000 | Microsecond \<Rightarrow> Some 1000 | Nanosecond \<Rightarrow> Some 1 | _ \<Rightarrow> None)"

definition nsPerDay :: int where "nsPerDay = 86400000000000"

section \<open>Checks and clamps\<close>

definition RejectTime :: "int \<Rightarrow> int \<Rightarrow> int \<Rightarrow> int \<Rightarrow> int \<Rightarrow> int \<Rightarrow> unit result" where
  "RejectTime e t r o1 n a =
     bindE (RejectToRange e 0 23) (\<lambda>_. bindE (RejectToRange t 0 59) (\<lambda>_. bindE (RejectToRange r 0 59) (\<lambda>_.
     bindE (RejectToRange o1 0 999) (\<lambda>_. bindE (RejectToRange n 0 999) (\<lambda>_. RejectToRange a 0 999)))))"

definition RejectDateTime ::
  "int \<Rightarrow> int \<Rightarrow> int \<Rightarrow> int \<Rightarrow> int \<Rightarrow> int \<Rightarrow> int \<Rightarrow> int \<Rightarrow> int \<Rightarrow> unit result" where
  "RejectDateTime e t r o1 n a i s l = bindE (RejectISODate e t r) (\<lambda>_. RejectTime o1 n a i s l)"

definition ConstrainTime :: "int \<Rightarrow> int \<Rightarrow> int \<Rightarrow> int \<Rightarrow> int \<Rightarrow> int \<Rightarrow> iso_time" where
  "ConstrainTime e t r o1 n a =
     \<lparr>hour = ConstrainToRange e 0 23, minute = ConstrainToRange t 0 59, second = ConstrainToRange r 0 59,
      millisecond = ConstrainToRange o1 0 999, microsecond = ConstrainToRange n 0 999,
      nanosecond = ConstrainToRange a 0 999\<rparr>"

definition RegulateTime :: "int \<Rightarrow> int \<Rightarrow> int \<Rightarrow> int \<Rightarrow> int \<Rightarrow> int \<Rightarrow> overflow \<Rightarrow> iso_time result" where
  "RegulateTime e t r o1 n a i =
     (case i of
        Reject \<Rightarrow> bindE (RejectTime e t r o1 n a)
          (\<lambda>_. Inr \<lparr>hour = e, minute = t, second = r, millisecond = o1, microsecond = n, nanosecond = a\<rparr>)
      | Constrain \<Rightarrow> Inr (ConstrainTime e t r o1 n a))"

section \<open>Carrying, addition, difference, rounding\<close>

text \<open>The arguments are Numbers or BigInts; the carries are BigInts, the results Numbers.\<close>

definition BalanceTime :: "int \<Rightarrow> int \<Rightarrow> int \<Rightarrow> int \<Rightarrow> int \<Rightarrow> int \<Rightarrow> balanced_time" where
  "BalanceTime t r o1 n a i =
     (let (s, u) = NonNegativeBigIntDivmod i 1000;
          (s, h) = NonNegativeBigIntDivmod (a + s) 1000;
          (s, c) = NonNegativeBigIntDivmod (n + s) 1000;
          (s, m) = NonNegativeBigIntDivmod (o1 + s) 60;
          (s, d) = NonNegativeBigIntDivmod (r + s) 60;
          (s, l) = NonNegativeBigIntDivmod (t + s) 24
      in \<lparr>hour = toNumber l, minute = toNumber d, second = toNumber m, millisecond = toNumber c,
          microsecond = toNumber h, nanosecond = toNumber u, deltaDays = toNumber s\<rparr>)"

definition AddTime ::
  "int \<Rightarrow> int \<Rightarrow> int \<Rightarrow> int \<Rightarrow> int \<Rightarrow> int \<Rightarrow> int \<Rightarrow> int \<Rightarrow> int \<Rightarrow> int \<Rightarrow> int \<Rightarrow> int \<Rightarrow> balanced_time" where
  "AddTime e t r o1 n a i s l d m c =
     BalanceTime (nadd e i) (nadd t s) (nadd r l) (nadd o1 d) (nadd n m) (nadd a c)"

definition DifferenceTime ::
  "int \<Rightarrow> int \<Rightarrow> int \<Rightarrow> int \<Rightarrow> int \<Rightarrow> int \<Rightarrow> int \<Rightarrow> int \<Rightarrow> int \<Rightarrow> int \<Rightarrow> int \<Rightarrow> int \<Rightarrow> time_duration result" where
  "DifferenceTime e t r o1 n a i s l d m c =
     (let h = i - e; u = s - t; T = l - r; p = d - o1; f = m - n; y = c - a;
          I = DurationSign 0 0 0 0 h u T p f y;
          b = BalanceTime (h * I) (u * I) (T * I) (p * I) (f * I) (y * I)
      in bindE (throwIf (deltaDays b \<noteq> 0) AssertError) (\<lambda>_.
         Inr \<lparr>tdHours = hour b * I, tdMinutes = minute b * I, tdSeconds = second b * I,
              tdMilliseconds = millisecond b * I, tdMicroseconds = microsecond b * I,
              tdNanoseconds = nanosecond b * I\<rparr>))"

text \<open>
  The switch of \<open>RoundTime\<close> falls through. A unit without a length (year, month, week)
  gives \<open>NaN\<close>, which \<^verbatim>\<open>BigInt\<close> rejects with a RangeError; \<open>m\<close> is the length of a day.
\<close>

definition RoundTime ::
  "int \<Rightarrow> int \<Rightarrow> int \<Rightarrow> int \<Rightarrow> int \<Rightarrow> int \<Rightarrow> int \<Rightarrow> tunit \<Rightarrow> rounding_mode \<Rightarrow> int \<Rightarrow> balanced_time result" where
  "RoundTime t r o1 n a i s l d m =
     (let c = 0;
          c = (if l \<in> {Day, Hour} then t else c);
          c = (if l \<in> {Day, Hour, Minute} then c * 60 + r else c);
          c = (if l \<in> {Day, Hour, Minute, Second} then c * 60 + o1 else c);
          c = (if l \<in> {Day, Hour, Minute, Second, Millisecond} then c * 1000 + n else c);
          c = (if l \<in> {Day, Hour, Minute, Second, Millisecond, Microsecond} then c * 1000 + a else c);
          c = (if l \<in> {Day, Hour, Minute, Second, Millisecond, Microsecond, Nanosecond} then c * 1000 + i else c)
      in case (if l = Day then Some m else unitNs l) of
           None \<Rightarrow> Inl RangeError
         | Some h \<Rightarrow>
             let u = RoundNumberToIncrement c (nmul h s) d;
                 T = toNumber (tdiv u h)
             in (case l of
                   Day \<Rightarrow> Inr \<lparr>hour = 0, minute = 0, second = 0, millisecond = 0, microsecond = 0,
                                nanosecond = 0, deltaDays = T\<rparr>
                 | Hour \<Rightarrow> Inr (BalanceTime T 0 0 0 0 0)
                 | Minute \<Rightarrow> Inr (BalanceTime t T 0 0 0 0)
                 | Second \<Rightarrow> Inr (BalanceTime t r T 0 0 0)
                 | Millisecond \<Rightarrow> Inr (BalanceTime t r o1 T 0 0)
                 | Microsecond \<Rightarrow> Inr (BalanceTime t r o1 n T 0)
                 | Nanosecond \<Rightarrow> Inr (BalanceTime t r o1 n a T)
                 | _ \<Rightarrow> Inl AssertError))"

section \<open>Nanoseconds since midnight\<close>

definition fieldsNs :: "int \<Rightarrow> int \<Rightarrow> int \<Rightarrow> int \<Rightarrow> int \<Rightarrow> int \<Rightarrow> int" where
  "fieldsNs h mi s ms us ns = ((((h * 60 + mi) * 60 + s) * 1000 + ms) * 1000 + us) * 1000 + ns"

definition timeNs :: "'a iso_time_scheme \<Rightarrow> int" where
  "timeNs x = fieldsNs (hour x) (minute x) (second x) (millisecond x) (microsecond x) (nanosecond x)"

definition validTime :: "'a iso_time_scheme \<Rightarrow> bool" where
  "validTime x \<longleftrightarrow> 0 \<le> hour x \<and> hour x \<le> 23 \<and> 0 \<le> minute x \<and> minute x \<le> 59 \<and> 0 \<le> second x \<and> second x \<le> 59
    \<and> 0 \<le> millisecond x \<and> millisecond x \<le> 999 \<and> 0 \<le> microsecond x \<and> microsecond x \<le> 999
    \<and> 0 \<le> nanosecond x \<and> nanosecond x \<le> 999"

definition timeOfNs :: "int \<Rightarrow> iso_time" where
  "timeOfNs n = \<lparr>hour = n div 3600000000000 mod 24, minute = n div 60000000000 mod 60,
     second = n div 1000000000 mod 60, millisecond = n div 1000000 mod 1000,
     microsecond = n div 1000 mod 1000, nanosecond = n mod 1000\<rparr>"

lemma mod_upper [simp]: "0 < k \<Longrightarrow> k \<le> b + 1 \<Longrightarrow> a mod k \<le> (b::int)"
  using pos_mod_bound [of k a] by linarith

lemma validTime_timeOfNs [simp]: "validTime (timeOfNs n)"
  by (simp add: validTime_def timeOfNs_def)

lemma digits:
  fixes n k m :: int
  assumes "0 < m" "0 < k"
  shows "(n div k) div m = n div (k * m)" "n div (k * m) * m + n div k mod m = n div k"
proof -
  show e: "(n div k) div m = n div (k * m)" using assms by (simp add: zdiv_zmult2_eq)
  show "n div (k * m) * m + n div k mod m = n div k"
    unfolding e [symmetric] by (rule div_mult_mod_eq)
qed

lemma timeNs_timeOfNs: "0 \<le> n \<Longrightarrow> n < nsPerDay \<Longrightarrow> timeNs (timeOfNs n) = n"
proof -
  assume n: "0 \<le> n" "n < nsPerDay"
  have h: "n div 3600000000000 mod 24 = n div 3600000000000"
    using n div_bounds [of 3600000000000 n] by (intro mod_pos_pos_trivial) (auto simp: nsPerDay_def)
  note d = digits(2) [of 60 60000000000 n, simplified] digits(2) [of 60 1000000000 n, simplified]
    digits(2) [of 1000 1000000 n, simplified] digits(2) [of 1000 1000 n, simplified] div_mult_mod_eq
  show ?thesis
    by (simp only: timeNs_def fieldsNs_def timeOfNs_def iso_time.simps h d)
qed

lemma timeNs_range:
  assumes "validTime x"
  shows "0 \<le> timeNs x" "timeNs x < nsPerDay"
  using assms by (simp_all add: validTime_def timeNs_def fieldsNs_def nsPerDay_def)

lemma BalanceTime_carry:
  fixes h mi s ms us ns :: int
  defines "n \<equiv> fieldsNs h mi s ms us ns"
  shows BalanceTime_digits: "BalanceTime h mi s ms us ns =
    \<lparr>hour = n div 3600000000000 mod 24, minute = n div 60000000000 mod 60, second = n div 1000000000 mod 60,
     millisecond = n div 1000000 mod 1000, microsecond = n div 1000 mod 1000, nanosecond = n mod 1000,
     deltaDays = toNumber (n div nsPerDay)\<rparr>"
    and timeNs_BalanceTime: "timeNs (BalanceTime h mi s ms us ns) = n mod nsPerDay"
proof -
  have t: "toNumber (a mod k) = a mod k" if "0 < k" "k \<le> 1000" for a k
  proof -
    have "0 \<le> a mod k" "a mod k \<le> 999" using that by simp_all
    then show ?thesis by (intro toNumber_safe) simp
  qed
  define s1 u where "s1 = ns div 1000" and "u = ns mod 1000"
  define s2 c1 where "s2 = (us + s1) div 1000" and "c1 = (us + s1) mod 1000"
  define s3 c2 where "s3 = (ms + s2) div 1000" and "c2 = (ms + s2) mod 1000"
  define s4 c3 where "s4 = (s + s3) div 60" and "c3 = (s + s3) mod 60"
  define s5 c4 where "s5 = (mi + s4) div 60" and "c4 = (mi + s4) mod 60"
  define s6 c5 where "s6 = (h + s5) div 24" and "c5 = (h + s5) mod 24"
  have B: "BalanceTime h mi s ms us ns = \<lparr>hour = c5, minute = c4, second = c3, millisecond = c2,
      microsecond = c1, nanosecond = u, deltaDays = toNumber s6\<rparr>"
    by (simp add: BalanceTime_def NonNegativeBigIntDivmod_eq t s1_def [symmetric] u_def [symmetric]
        s2_def [symmetric] c1_def [symmetric] s3_def [symmetric] c2_def [symmetric] s4_def [symmetric]
        c3_def [symmetric] s5_def [symmetric] c4_def [symmetric] s6_def [symmetric] c5_def [symmetric]) 
      (simp add: u_def c1_def c2_def c3_def c4_def c5_def t)
  have r: "0 \<le> u" "u \<le> 999" "0 \<le> c1" "c1 \<le> 999" "0 \<le> c2" "c2 \<le> 999" "0 \<le> c3" "c3 \<le> 59"
    "0 \<le> c4" "c4 \<le> 59" "0 \<le> c5" "c5 \<le> 23"
    by (simp_all add: u_def c1_def c2_def c3_def c4_def c5_def)
  have e: "ns = s1 * 1000 + u" "us + s1 = s2 * 1000 + c1" "ms + s2 = s3 * 1000 + c2" "s + s3 = s4 * 60 + c3"
    "mi + s4 = s5 * 60 + c4" "h + s5 = s6 * 24 + c5"
    unfolding s1_def s2_def s3_def s4_def s5_def s6_def u_def c1_def c2_def c3_def c4_def c5_def
    by (rule div_mult_mod_eq [symmetric])+
  have n: "n = ((((s6 * 24 + c5) * 60 + c4) * 60 + c3) * 1000 + c2) * 1000000 + c1 * 1000 + u"
    using e unfolding n_def fieldsNs_def by algebra
  have d: "n div 1000 = ((((s6 * 24 + c5) * 60 + c4) * 60 + c3) * 1000 + c2) * 1000 + c1"
    "n div 1000000 = (((s6 * 24 + c5) * 60 + c4) * 60 + c3) * 1000 + c2"
    "n div 1000000000 = ((s6 * 24 + c5) * 60 + c4) * 60 + c3"
    "n div 60000000000 = (s6 * 24 + c5) * 60 + c4" "n div 3600000000000 = s6 * 24 + c5"
    "n div nsPerDay = s6"
    using r unfolding nsPerDay_def by (intro div_witness; simp add: n)+
  have m: "n mod 1000 = u"
    using r by (intro int_mod_pos_eq [where q = "((((s6 * 24 + c5) * 60 + c4) * 60 + c3) * 1000 + c2) * 1000 + c1"])
      (simp_all add: n)
  have mm: "(a * k + b) mod k = b" if "0 \<le> b" "b < k" for a b k :: int using that by simp
  have M: "(a * 1000 + c1) mod 1000 = c1" "(a * 1000 + c2) mod 1000 = c2" "(a * 60 + c3) mod 60 = c3"
    "(a * 60 + c4) mod 60 = c4" "(a * 24 + c5) mod 24 = c5" for a
    by (rule mm; use r in simp)+
  show "BalanceTime h mi s ms us ns =
    \<lparr>hour = n div 3600000000000 mod 24, minute = n div 60000000000 mod 60, second = n div 1000000000 mod 60,
     millisecond = n div 1000000 mod 1000, microsecond = n div 1000 mod 1000, nanosecond = n mod 1000,
     deltaDays = toNumber (n div nsPerDay)\<rparr>"
    by (simp only: B d m M)
  have "n mod nsPerDay = fieldsNs c5 c4 c3 c2 c1 u"
    using r by (intro int_mod_pos_eq [where q = s6]) (simp_all add: n fieldsNs_def nsPerDay_def)
  then show "timeNs (BalanceTime h mi s ms us ns) = n mod nsPerDay"
    by (simp add: B timeNs_def)
qed

lemma BalanceTime_eq:
  "iso_time.truncate (BalanceTime h mi s ms us ns) = timeOfNs (fieldsNs h mi s ms us ns)"
  "deltaDays (BalanceTime h mi s ms us ns) = toNumber (fieldsNs h mi s ms us ns div nsPerDay)"
  by (simp_all add: BalanceTime_digits timeOfNs_def iso_time.truncate_def)

lemma truncate_simps [simp]:
  "hour (iso_time.truncate x) = hour x" "minute (iso_time.truncate x) = minute x"
  "second (iso_time.truncate x) = second x" "millisecond (iso_time.truncate x) = millisecond x"
  "microsecond (iso_time.truncate x) = microsecond x" "nanosecond (iso_time.truncate x) = nanosecond x"
  "timeNs (iso_time.truncate x) = timeNs x" "validTime (iso_time.truncate x) = validTime x"
  by (simp_all add: iso_time.truncate_def timeNs_def validTime_def)

lemma validTime_BalanceTime [simp]: "validTime (BalanceTime h mi s ms us ns)"
  using BalanceTime_eq(1) [of h mi s ms us ns] validTime_timeOfNs by (metis truncate_simps(8))

lemma BalanceTime_valid:
  assumes "validTime x"
  shows "BalanceTime (hour x) (minute x) (second x) (millisecond x) (microsecond x) (nanosecond x)
    = \<lparr>hour = hour x, minute = minute x, second = second x, millisecond = millisecond x,
       microsecond = microsecond x, nanosecond = nanosecond x, deltaDays = 0\<rparr>"
proof -
  have d: "NonNegativeBigIntDivmod a k = (0, a)" if "0 \<le> a" "a < k" for a k
    using that by (simp add: NonNegativeBigIntDivmod_eq)
  have n: "toNumber a = a" if "0 \<le> a" "a < 1000" for a
    using that by (intro toNumber_safe) simp
  show ?thesis
    using assms by (simp add: validTime_def BalanceTime_def d n)
qed

lemma timeOfNs_timeNs: "validTime x \<Longrightarrow> timeOfNs (timeNs x) = iso_time.truncate x"
  by (simp only: timeNs_def BalanceTime_eq(1) [symmetric] BalanceTime_valid iso_time.truncate_def iso_time.simps)

section \<open>Difference\<close>

lemma signOfFields:
  assumes "\<bar>u\<bar> \<le> 59" "\<bar>T\<bar> \<le> 59" "\<bar>p\<bar> \<le> 999" "\<bar>f\<bar> \<le> 999" "\<bar>y\<bar> \<le> 999"
  shows "DurationSign 0 0 0 0 h u T p f y = sgn (fieldsNs h u T p f y)"
proof -
  have s: "signOfList (a # l) = sgn n" if "signOfList l = sgn m" "n = a * k + m" "\<bar>m\<bar> < k" for a l m n k
  proof (cases a "0::int" rule: linorder_cases)
    case less
    then have "a * k \<le> -1 * k" using that(3) by (intro mult_right_mono) auto
    then show ?thesis using that less by simp
  next
    case greater
    then have "1 * k \<le> a * k" using that(3) by (intro mult_right_mono) auto
    then show ?thesis using that greater by simp
  qed (use that in simp)
  have y: "signOfList [y] = sgn y" by (simp add: sgn_if)
  have f: "signOfList [f, y] = sgn (f * 1000 + y)"
    using assms by (intro s [OF y, where k = 1000]) auto
  have p: "signOfList [p, f, y] = sgn (p * 1000000 + (f * 1000 + y))"
    using assms by (intro s [OF f, where k = 1000000]) auto
  have T: "signOfList [T, p, f, y] = sgn (T * 1000000000 + (p * 1000000 + (f * 1000 + y)))"
    using assms by (intro s [OF p, where k = 1000000000]) auto
  have u: "signOfList [u, T, p, f, y] = sgn (u * 60000000000 + (T * 1000000000 + (p * 1000000 + (f * 1000 + y))))"
    using assms by (intro s [OF T, where k = 60000000000]) auto
  have "signOfList [h, u, T, p, f, y] = sgn (fieldsNs h u T p f y)"
    using assms by (intro s [OF u, where k = 3600000000000]) (auto simp: fieldsNs_def)
  then show ?thesis by (simp add: DurationSign_def)
qed

lemma DifferenceTime_eq:
  assumes x: "validTime x" and y: "validTime y"
  defines "d \<equiv> timeNs y - timeNs x"
  shows "DifferenceTime (hour x) (minute x) (second x) (millisecond x) (microsecond x) (nanosecond x)
      (hour y) (minute y) (second y) (millisecond y) (microsecond y) (nanosecond y) =
    Inr \<lparr>tdHours = hour (timeOfNs \<bar>d\<bar>) * sgn d, tdMinutes = minute (timeOfNs \<bar>d\<bar>) * sgn d,
         tdSeconds = second (timeOfNs \<bar>d\<bar>) * sgn d, tdMilliseconds = millisecond (timeOfNs \<bar>d\<bar>) * sgn d,
         tdMicroseconds = microsecond (timeOfNs \<bar>d\<bar>) * sgn d, tdNanoseconds = nanosecond (timeOfNs \<bar>d\<bar>) * sgn d\<rparr>"
proof -
  define h u T p f v where "h = hour y - hour x" and "u = minute y - minute x" and "T = second y - second x"
    and "p = millisecond y - millisecond x" and "f = microsecond y - microsecond x"
    and "v = nanosecond y - nanosecond x"
  have d: "d = fieldsNs h u T p f v"
    by (simp add: d_def timeNs_def fieldsNs_def h_def u_def T_def p_def f_def v_def)
  have I: "DurationSign 0 0 0 0 h u T p f v = sgn d"
    unfolding d using x y
    by (intro signOfFields) (simp_all add: validTime_def u_def T_def p_def f_def v_def abs_le_iff)
  have F: "fieldsNs (h * sgn d) (u * sgn d) (T * sgn d) (p * sgn d) (f * sgn d) (v * sgn d) = \<bar>d\<bar>"
  proof -
    have "fieldsNs (h * sgn d) (u * sgn d) (T * sgn d) (p * sgn d) (f * sgn d) (v * sgn d) = d * sgn d"
      unfolding d by (simp add: fieldsNs_def algebra_simps)
    then show ?thesis by (simp only: abs_sgn)
  qed
  have r: "\<bar>d\<bar> < nsPerDay"
    using timeNs_range [OF x] timeNs_range [OF y] by (simp add: d_def abs_less_iff)
  define b where "b = BalanceTime (h * sgn d) (u * sgn d) (T * sgn d) (p * sgn d) (f * sgn d) (v * sgn d)"
  have b: "iso_time.truncate b = timeOfNs \<bar>d\<bar>" "deltaDays b = 0"
    using BalanceTime_eq [of "h * sgn d" "u * sgn d" "T * sgn d" "p * sgn d" "f * sgn d" "v * sgn d"] r
    by (simp_all add: b_def F toNumber_safe)
  then have "hour b = hour (timeOfNs \<bar>d\<bar>)" "minute b = minute (timeOfNs \<bar>d\<bar>)" "second b = second (timeOfNs \<bar>d\<bar>)"
    "millisecond b = millisecond (timeOfNs \<bar>d\<bar>)" "microsecond b = microsecond (timeOfNs \<bar>d\<bar>)"
    "nanosecond b = nanosecond (timeOfNs \<bar>d\<bar>)"
    by (metis truncate_simps)+
  then show ?thesis
    by (simp add: DifferenceTime_def Let_def h_def [symmetric] u_def [symmetric] T_def [symmetric]
        p_def [symmetric] f_def [symmetric] v_def [symmetric] I b_def [symmetric] b(2))
qed

section \<open>Checks\<close>

lemma RejectToRange_iff [simp]: "RejectToRange e t r = Inr u \<longleftrightarrow> t \<le> e \<and> e \<le> r"
  by (auto simp: RejectToRange_def)

lemma RejectToRange_error: "RejectToRange e t r = Inl x \<Longrightarrow> x = RangeError"
  by (simp add: RejectToRange_def)

lemma RejectTime_iff:
  "RejectTime e t r o1 n a = Inr () \<longleftrightarrow>
    validTime \<lparr>hour = e, minute = t, second = r, millisecond = o1, microsecond = n, nanosecond = a\<rparr>"
  by (auto simp: RejectTime_def bindE_eq_Inr_iff validTime_def)

lemma RejectTime_error: "RejectTime e t r o1 n a = Inl x \<Longrightarrow> x = RangeError"
  by (auto simp: RejectTime_def bindE_eq_Inl_iff dest: RejectToRange_error)

lemma validTime_ConstrainTime [simp]: "validTime (ConstrainTime e t r o1 n a)"
  by (simp add: validTime_def ConstrainTime_def ConstrainToRange_def)

lemma ConstrainTime_valid:
  "validTime x \<Longrightarrow> ConstrainTime (hour x) (minute x) (second x) (millisecond x) (microsecond x) (nanosecond x)
    = iso_time.truncate x"
  by (simp add: validTime_def ConstrainTime_def ConstrainToRange_def iso_time.truncate_def)

section \<open>Rounding\<close>

text \<open>The length of the next larger unit, and the part of a time that rounding looks at.\<close>

definition parentNs :: "tunit \<Rightarrow> int" where
  "parentNs u = (case u of Hour \<Rightarrow> nsPerDay | Minute \<Rightarrow> 3600000000000 | Second \<Rightarrow> 60000000000
     | Millisecond \<Rightarrow> 1000000000 | Microsecond \<Rightarrow> 1000000 | Nanosecond \<Rightarrow> 1000 | _ \<Rightarrow> 0)"

lemma rest_fields:
  assumes "validTime x"
  shows "timeNs x mod parentNs Hour = fieldsNs (hour x) (minute x) (second x) (millisecond x) (microsecond x) (nanosecond x)"
    "timeNs x mod parentNs Minute = fieldsNs 0 (minute x) (second x) (millisecond x) (microsecond x) (nanosecond x)"
    "timeNs x mod parentNs Second = fieldsNs 0 0 (second x) (millisecond x) (microsecond x) (nanosecond x)"
    "timeNs x mod parentNs Millisecond = fieldsNs 0 0 0 (millisecond x) (microsecond x) (nanosecond x)"
    "timeNs x mod parentNs Microsecond = fieldsNs 0 0 0 0 (microsecond x) (nanosecond x)"
    "timeNs x mod parentNs Nanosecond = fieldsNs 0 0 0 0 0 (nanosecond x)"
proof -
  have v: "0 \<le> hour x" "hour x \<le> 23" "0 \<le> minute x" "minute x \<le> 59" "0 \<le> second x" "second x \<le> 59"
    "0 \<le> millisecond x" "millisecond x \<le> 999" "0 \<le> microsecond x" "microsecond x \<le> 999"
    "0 \<le> nanosecond x" "nanosecond x \<le> 999"
    using assms by (simp_all add: validTime_def)
  show "timeNs x mod parentNs Hour = fieldsNs (hour x) (minute x) (second x) (millisecond x) (microsecond x) (nanosecond x)"
    using timeNs_range [OF assms] by (simp add: parentNs_def timeNs_def [symmetric])
  show "timeNs x mod parentNs Minute = fieldsNs 0 (minute x) (second x) (millisecond x) (microsecond x) (nanosecond x)"
    using v by (intro int_mod_pos_eq [where q = "hour x"]) (simp_all add: timeNs_def fieldsNs_def parentNs_def)
  show "timeNs x mod parentNs Second = fieldsNs 0 0 (second x) (millisecond x) (microsecond x) (nanosecond x)"
    using v by (intro int_mod_pos_eq [where q = "hour x * 60 + minute x"]) (simp_all add: timeNs_def fieldsNs_def parentNs_def)
  show "timeNs x mod parentNs Millisecond = fieldsNs 0 0 0 (millisecond x) (microsecond x) (nanosecond x)"
    using v by (intro int_mod_pos_eq [where q = "(hour x * 60 + minute x) * 60 + second x"])
      (simp_all add: timeNs_def fieldsNs_def parentNs_def)
  show "timeNs x mod parentNs Microsecond = fieldsNs 0 0 0 0 (microsecond x) (nanosecond x)"
    using v by (intro int_mod_pos_eq [where q = "((hour x * 60 + minute x) * 60 + second x) * 1000 + millisecond x"])
      (simp_all add: timeNs_def fieldsNs_def parentNs_def)
  show "timeNs x mod parentNs Nanosecond = fieldsNs 0 0 0 0 0 (nanosecond x)"
    using v by (intro int_mod_pos_eq [where q = "(((hour x * 60 + minute x) * 60 + second x) * 1000 + millisecond x) * 1000 + microsecond x"])
      (simp_all add: timeNs_def fieldsNs_def parentNs_def)
qed

text \<open>The rounded count of units is exact and stays within the parent unit.\<close>

lemma roundedUnits:
  fixes md :: rounding_mode
  assumes h: "0 < h" and s: "0 < s" and P: "h * s dvd P" "0 < P" "P \<le> nsPerDay" and c: "0 \<le> c" "c < P"
  defines "R \<equiv> RoundNumberToIncrement c (nmul h s) md"
  shows "R = roundSpec md c (h * s)" "toNumber (tdiv R h) * h = R" "0 \<le> R" "R \<le> P"
proof -
  have hs: "0 < h * s" using h s by simp
  then have "h * s \<le> P" using P by (intro zdvd_imp_le) auto
  then have n: "nmul h s = h * s" using P hs by (intro nmul_safe) (simp add: nsPerDay_def)
  show R: "R = roundSpec md c (h * s)"
    using hs by (simp add: R_def n RoundNumberToIncrement_roundSpec)
  show b: "0 \<le> R" "R \<le> P"
    unfolding R_def n using hs c P by (simp_all add: rni.rnd_nonneg rni.rnd_le)
  have "h dvd R" unfolding R_def n using rni.rnd_dvd [OF hs] dvd_mult_left by blast
  then obtain k where k: "R = h * k" by (rule dvdE)
  have "0 \<le> k" using k b(1) h by (auto simp: zero_le_mult_iff)
  moreover have "1 * k \<le> h * k" using h \<open>0 \<le> k\<close> by (intro mult_right_mono) auto
  ultimately have "0 \<le> k" "k \<le> R" using k by simp_all
  then show "toNumber (tdiv R h) * h = R"
    using k h b P by (simp add: toNumber_safe nsPerDay_def)
qed

lemma RoundTime_eq:
  assumes x: "validTime x" and l: "unitNs l = Some h" and s: "0 < s" and P: "h * s dvd parentNs l"
  defines "c \<equiv> timeNs x mod parentNs l"
  shows "\<exists>b. RoundTime (hour x) (minute x) (second x) (millisecond x) (microsecond x) (nanosecond x) s l md m = Inr b
    \<and> validTime b \<and> deltaDays b * nsPerDay + timeNs b = timeNs x - c + roundSpec md c (h * s) \<and> deltaDays b \<in> {0, 1}"
proof -
  have h: "0 < h" and p: "0 < parentNs l" "parentNs l \<le> nsPerDay"
    using l by (auto simp: unitNs_def parentNs_def nsPerDay_def split: tunit.splits)
  have c: "0 \<le> c" "c < parentNs l" using p by (simp_all add: c_def)
  define R where "R = RoundNumberToIncrement c (nmul h s) md"
  note R = roundedUnits [OF h s P p c, of md, folded R_def]
  define T where "T = toNumber (tdiv R h)"
  have T: "T * h = R" using R(2) by (simp add: T_def)
  have nb: "0 \<le> timeNs x - c + R" "timeNs x - c + R \<le> nsPerDay"
  proof -
    have "parentNs l dvd nsPerDay"
      using l by (auto simp: unitNs_def parentNs_def nsPerDay_def split: tunit.splits)
    then obtain j where j: "nsPerDay = parentNs l * j" by (rule dvdE)
    define q where "q = timeNs x div parentNs l"
    have q: "timeNs x - c = parentNs l * q" by (simp add: c_def q_def minus_mod_eq_mult_div)
    have "0 \<le> q" using timeNs_range [OF x] p by (simp add: q_def pos_imp_zdiv_nonneg_iff)
    have "parentNs l * q < parentNs l * j" using q c timeNs_range(2) [OF x] j by simp
    then have "q + 1 \<le> j" using p by (simp add: mult_less_cancel_left)
    then have "parentNs l * (q + 1) \<le> nsPerDay" unfolding j using p by (intro mult_left_mono) simp_all
    moreover have "0 \<le> parentNs l * q" using p \<open>0 \<le> q\<close> by simp
    ultimately show "0 \<le> timeNs x - c + R" "timeNs x - c + R \<le> nsPerDay"
      using R q by (simp_all add: distrib_left)
  qed
  have fin: "validTime b \<and> deltaDays b * nsPerDay + timeNs b = timeNs x - c + R \<and> deltaDays b \<in> {0, 1}"
    if b: "b = BalanceTime h' mi s' ms us ns" "fieldsNs h' mi s' ms us ns = timeNs x - c + R" for b h' mi s' ms us ns
  proof -
    have d: "(timeNs x - c + R) div nsPerDay \<in> {0, 1}"
      using nb by (cases "timeNs x - c + R = nsPerDay") (simp_all add: nsPerDay_def)
    then have "deltaDays b = (timeNs x - c + R) div nsPerDay"
      unfolding b(1) BalanceTime_eq(2) b(2) by (intro toNumber_safe) auto
    then show ?thesis using d timeNs_BalanceTime [of h' mi s' ms us ns] by (simp add: b)
  qed
  have u: "l = Hour \<or> l = Minute \<or> l = Second \<or> l = Millisecond \<or> l = Microsecond \<or> l = Nanosecond"
    using l by (cases l) (simp_all add: unitNs_def)
  have tx: "timeNs x = fieldsNs (hour x) (minute x) (second x) (millisecond x) (microsecond x) (nanosecond x)"
    by (simp add: timeNs_def)
  have step: ?thesis
    if e: "RoundTime (hour x) (minute x) (second x) (millisecond x) (microsecond x) (nanosecond x) s l md m
        = Inr (BalanceTime h' mi s' ms us ns)" "fieldsNs h' mi s' ms us ns = timeNs x - c + R" for h' mi s' ms us ns
    using fin [OF refl e(2)] e(1) by (simp add: R(1))
  show ?thesis
    using u
  proof (elim disjE)
    assume [simp]: "l = Hour"
    have c': "c = fieldsNs (hour x) (minute x) (second x) (millisecond x) (microsecond x) (nanosecond x)"
      by (simp add: c_def rest_fields [OF x])
    show ?thesis
      using l T by (intro step [of T 0 0 0 0 0])
        (simp_all add: RoundTime_def unitNs_def T_def R_def c' fieldsNs_def Let_def tx)
  next
    assume [simp]: "l = Minute"
    have c': "c = fieldsNs 0 (minute x) (second x) (millisecond x) (microsecond x) (nanosecond x)"
      by (simp add: c_def rest_fields [OF x])
    show ?thesis
      using l T by (intro step [of "hour x" T 0 0 0 0])
        (simp_all add: RoundTime_def unitNs_def T_def R_def c' fieldsNs_def Let_def tx)
  next
    assume [simp]: "l = Second"
    have c': "c = fieldsNs 0 0 (second x) (millisecond x) (microsecond x) (nanosecond x)"
      by (simp add: c_def rest_fields [OF x])
    show ?thesis
      using l T by (intro step [of "hour x" "minute x" T 0 0 0])
        (simp_all add: RoundTime_def unitNs_def T_def R_def c' fieldsNs_def Let_def tx)
  next
    assume [simp]: "l = Millisecond"
    have c': "c = fieldsNs 0 0 0 (millisecond x) (microsecond x) (nanosecond x)"
      by (simp add: c_def rest_fields [OF x])
    show ?thesis
      using l T by (intro step [of "hour x" "minute x" "second x" T 0 0])
        (simp_all add: RoundTime_def unitNs_def T_def R_def c' fieldsNs_def Let_def tx)
  next
    assume [simp]: "l = Microsecond"
    have c': "c = fieldsNs 0 0 0 0 (microsecond x) (nanosecond x)"
      by (simp add: c_def rest_fields [OF x])
    show ?thesis
      using l T by (intro step [of "hour x" "minute x" "second x" "millisecond x" T 0])
        (simp_all add: RoundTime_def unitNs_def T_def R_def c' fieldsNs_def Let_def tx)
  next
    assume [simp]: "l = Nanosecond"
    have c': "c = fieldsNs 0 0 0 0 0 (nanosecond x)"
      by (simp add: c_def rest_fields [OF x])
    show ?thesis
      using l T by (intro step [of "hour x" "minute x" "second x" "millisecond x" "microsecond x" T])
        (simp_all add: RoundTime_def unitNs_def T_def R_def c' fieldsNs_def Let_def tx)
  qed
qed

section \<open>The properties of the time functions\<close>

abbreviation timeFields :: "'a iso_time_scheme \<Rightarrow> iso_time" where
  "timeFields \<equiv> iso_time.truncate"

text \<open>Adding the difference of two times of day to the first gives the second, on the same
  day; the difference has one sign in all its fields, and its assertion never fails.\<close>

theorem AddTime_DifferenceTime:
  assumes x: "validTime x" and y: "validTime y"
  obtains d where
    "DifferenceTime (hour x) (minute x) (second x) (millisecond x) (microsecond x) (nanosecond x)
      (hour y) (minute y) (second y) (millisecond y) (microsecond y) (nanosecond y) = Inr d"
    "timeFields (AddTime (hour x) (minute x) (second x) (millisecond x) (microsecond x) (nanosecond x)
      (tdHours d) (tdMinutes d) (tdSeconds d) (tdMilliseconds d) (tdMicroseconds d) (tdNanoseconds d))
      = timeFields y"
    "deltaDays (AddTime (hour x) (minute x) (second x) (millisecond x) (microsecond x) (nanosecond x)
      (tdHours d) (tdMinutes d) (tdSeconds d) (tdMilliseconds d) (tdMicroseconds d) (tdNanoseconds d)) = 0"
    "\<forall>f \<in> {tdHours, tdMinutes, tdSeconds, tdMilliseconds, tdMicroseconds, tdNanoseconds}.
      f d = 0 \<or> sgn (f d) = sgn (timeNs y - timeNs x)"
proof -
  define D z where "D = timeNs y - timeNs x" and "z = timeOfNs \<bar>D\<bar>"
  note e = DifferenceTime_eq [OF x y, folded D_def z_def]
  have z: "validTime z" by (simp add: z_def)
  have r: "\<bar>D\<bar> < nsPerDay"
    using timeNs_range [OF x] timeNs_range [OF y] by (simp add: D_def abs_less_iff)
  have "timeNs z = \<bar>D\<bar>" using r by (simp add: z_def timeNs_timeOfNs)
  then have zD: "timeNs z * sgn D = D" by (metis sgn_mult_abs mult.commute)
  have safe: "nadd a (b * sgn D) = a + b * sgn D" if "0 \<le> a" "a \<le> 999" "0 \<le> b" "b \<le> 999" for a b
    using that by (intro nadd_safe) (simp add: sgn_if abs_le_iff)
  define b where "b = AddTime (hour x) (minute x) (second x) (millisecond x) (microsecond x) (nanosecond x)
      (hour z * sgn D) (minute z * sgn D) (second z * sgn D) (millisecond z * sgn D) (microsecond z * sgn D)
      (nanosecond z * sgn D)"
  have b: "b = BalanceTime (hour x + hour z * sgn D) (minute x + minute z * sgn D) (second x + second z * sgn D)
      (millisecond x + millisecond z * sgn D) (microsecond x + microsecond z * sgn D) (nanosecond x + nanosecond z * sgn D)"
    using x z by (simp add: b_def AddTime_def safe validTime_def)
  have "fieldsNs (hour x + hour z * sgn D) (minute x + minute z * sgn D) (second x + second z * sgn D)
      (millisecond x + millisecond z * sgn D) (microsecond x + microsecond z * sgn D) (nanosecond x + nanosecond z * sgn D)
    = timeNs x + timeNs z * sgn D"
    by (simp add: fieldsNs_def timeNs_def algebra_simps)
  then have n: "fieldsNs (hour x + hour z * sgn D) (minute x + minute z * sgn D) (second x + second z * sgn D)
      (millisecond x + millisecond z * sgn D) (microsecond x + microsecond z * sgn D) (nanosecond x + nanosecond z * sgn D)
    = timeNs y"
    unfolding zD by (simp add: D_def)
  have b1: "timeFields b = timeFields y" and b2: "deltaDays b = 0"
    using timeNs_range [OF y] by (simp_all add: b BalanceTime_eq n timeOfNs_timeNs [OF y] toNumber_safe)
  have sg: "a = 0 \<or> sgn (a * sgn D) = sgn D" if "0 \<le> a" for a
    using that by (auto simp: sgn_mult sgn_if)
  show thesis
    by (rule that [OF e]) (use b1 b2 z sg in \<open>auto simp: b_def validTime_def D_def\<close>)
qed

theorem AddTime_DifferenceTime_witness:
  "\<exists>d. DifferenceTime 10 30 0 0 0 0 9 45 0 0 0 1 = Inr d \<and>
    deltaDays (AddTime 10 30 0 0 0 0 (tdHours d) (tdMinutes d) (tdSeconds d) (tdMilliseconds d)
      (tdMicroseconds d) (tdNanoseconds d)) = 0"
proof -
  let ?x = "\<lparr>hour = 10, minute = 30, second = 0, millisecond = 0, microsecond = 0, nanosecond = 0\<rparr>"
  let ?y = "\<lparr>hour = 9, minute = 45, second = 0, millisecond = 0, microsecond = 0, nanosecond = 1\<rparr>"
  have v: "validTime ?x" "validTime ?y" by (simp_all add: validTime_def)
  show ?thesis
    by (rule AddTime_DifferenceTime [OF v]) (simp only: iso_time.simps, blast)
qed

text \<open>C15: rounding a time to an increment that divides the next larger unit rounds, in the given
  mode, the part of the time below that unit, and carries at most into the next day.\<close>

theorem RoundTime_correct:
  assumes "validTime x" "unitNs l = Some h" "0 < s" "h * s dvd parentNs l"
  obtains b where
    "RoundTime (hour x) (minute x) (second x) (millisecond x) (microsecond x) (nanosecond x) s l md m = Inr b"
    "validTime b" "deltaDays b \<in> {0, 1}"
    "deltaDays b * nsPerDay + timeNs b = timeNs x - timeNs x mod parentNs l
      + roundSpec md (timeNs x mod parentNs l) (h * s)"
  using RoundTime_eq [OF assms] that by blast

theorem RoundTime_correct_witness:
  "\<exists>b. RoundTime 23 52 30 0 0 0 15 Minute HalfExpand 1 = Inr b \<and> validTime b \<and> deltaDays b * nsPerDay + timeNs b = nsPerDay"
proof -
  let ?x = "\<lparr>hour = 23, minute = 52, second = 30, millisecond = 0, microsecond = 0, nanosecond = 0\<rparr>"
  have t: "timeNs ?x = 85950000000000" by (simp add: timeNs_def fieldsNs_def)
  have r: "timeNs ?x mod parentNs Minute = 3150000000000" "(900000000000::int) dvd 3600000000000"
    unfolding t by (simp_all add: parentNs_def)
  have "validTime ?x" "unitNs Minute = Some 60000000000" "(0::int) < 15" "60000000000 * 15 dvd parentNs Minute"
    using r(2) by (simp_all add: validTime_def unitNs_def parentNs_def)
  then show ?thesis
  proof (rule RoundTime_correct [where m = 1 and md = HalfExpand])
    fix b
    assume b: "RoundTime (hour ?x) (minute ?x) (second ?x) (millisecond ?x) (microsecond ?x) (nanosecond ?x)
        15 Minute HalfExpand 1 = Inr b" "validTime b"
      "deltaDays b * nsPerDay + timeNs b = timeNs ?x - timeNs ?x mod parentNs Minute
        + roundSpec HalfExpand (timeNs ?x mod parentNs Minute) (60000000000 * 15)"
    from b(3) have "deltaDays b * nsPerDay + timeNs b = nsPerDay"
      unfolding r(1) by (simp add: t nsPerDay_def)
    then show ?thesis using b(1,2) by (intro exI [of _ b]) (simp only: iso_time.simps simp_thms)
  qed
qed

end
