(* ===== verification/Epoch.thy ===== *)
theory Epoch imports Iso_Time begin

text \<open>
  Date-times and points in time of \<^verbatim>\<open>temporal-polyfill.js\<close>: nanoseconds since the epoch from
  the fields of a date-time and back, through ECMAScript's \<open>Date\<close>; the range of instants
  and of date-times; carrying and rounding of date-times; instant arithmetic. \<open>now\<close> is the
  time value of \<^verbatim>\<open>new Date()\<close>, which \<open>GetUTCEpochNanoseconds\<close> starts from.
\<close>

section \<open>Definitions\<close>

record iso_datetime =
  dtDate :: iso_date
  dtTime :: iso_time

record iso_parts =
  epochMilliseconds :: int
  parts :: iso_datetime

abbreviation mkDate :: "int \<Rightarrow> int \<Rightarrow> int \<Rightarrow> iso_date" where
  "mkDate y m d \<equiv> \<lparr>year = y, month = m, day = d\<rparr>"

abbreviation mkTime :: "int \<Rightarrow> int \<Rightarrow> int \<Rightarrow> int \<Rightarrow> int \<Rightarrow> int \<Rightarrow> iso_time" where
  "mkTime h mi s ms us ns \<equiv>
     \<lparr>hour = h, minute = mi, second = s, millisecond = ms, microsecond = us, nanosecond = ns\<rparr>"

text \<open>\<^verbatim>\<open>Me\<close> and \<^verbatim>\<open>Re\<close>, the first and the last instant; \<^verbatim>\<open>Fe\<close> and \<^verbatim>\<open>Ye\<close>, their years.\<close>

definition nsMin :: int where "nsMin = - 86400 * 100000000000000000"
definition nsMax :: int where "nsMax = 86400 * 100000000000000000"
definition yearMin :: int where "yearMin = - 271821"
definition yearMax :: int where "yearMax = 275760"

definition GetUTCEpochNanoseconds ::
  "int \<Rightarrow> int \<Rightarrow> int \<Rightarrow> int \<Rightarrow> int \<Rightarrow> int \<Rightarrow> int \<Rightarrow> int \<Rightarrow> int \<Rightarrow> int \<Rightarrow> int option" where
  "GetUTCEpochNanoseconds now t r o1 n a i s l d =
     (let m = setUTCHours (Some now) n a i s;
          m = setUTCFullYear m t (r - 1) o1
      in case m of
           None \<Rightarrow> None
         | Some c \<Rightarrow>
             let h = c * 1000000 + l * 1000 + d
             in if h < nsMin \<or> h > nsMax then None else Some h)"

text \<open>An invalid \<open>Date\<close>, whose getters all give \<open>NaN\<close>, is \<open>None\<close>.\<close>

definition GetISOPartsFromEpoch :: "int \<Rightarrow> iso_parts option" where
  "GetISOPartsFromEpoch t =
     (let (r, a) = divmodBI t 1000000;
          n = toNumber r; a = toNumber a;
          (a, n) = (if a < 0 then (a + 1000000, n - 1) else (a, n));
          i = tmod (floorQuot a 1000) 1000;
          s = tmod a 1000
      in case TimeClip n of
           None \<Rightarrow> None
         | Some l \<Rightarrow> Some \<lparr>epochMilliseconds = n,
             parts = \<lparr>dtDate = mkDate (getUTCFullYear l) (getUTCMonth l + 1) (getUTCDate l),
                      dtTime = mkTime (getUTCHours l) (getUTCMinutes l) (getUTCSeconds l)
                        (getUTCMilliseconds l) i s\<rparr>\<rparr>)"

definition RejectDateTimeRange ::
  "int \<Rightarrow> int \<Rightarrow> int \<Rightarrow> int \<Rightarrow> int \<Rightarrow> int \<Rightarrow> int \<Rightarrow> int \<Rightarrow> int \<Rightarrow> int \<Rightarrow> unit result" where
  "RejectDateTimeRange now e t r o1 n a i s l =
     bindE (RejectToRange e yearMin yearMax) (\<lambda>_.
     throwIf (e = yearMin \<and> GetUTCEpochNanoseconds now e t (r + 1) o1 n a i s (l - 1) = None
       \<or> e = yearMax \<and> GetUTCEpochNanoseconds now e t (r - 1) o1 n a i s (l + 1) = None) RangeError)"

definition RejectDateRange :: "int \<Rightarrow> int \<Rightarrow> int \<Rightarrow> int \<Rightarrow> unit result" where
  "RejectDateRange now e t r = RejectDateTimeRange now e t r 12 0 0 0 0 0"

definition ValidateEpochNanoseconds :: "int \<Rightarrow> unit result" where
  "ValidateEpochNanoseconds t = throwIf (t < nsMin \<or> t > nsMax) RangeError"

definition BalanceISODateTime ::
  "int \<Rightarrow> int \<Rightarrow> int \<Rightarrow> int \<Rightarrow> int \<Rightarrow> int \<Rightarrow> int \<Rightarrow> int \<Rightarrow> int \<Rightarrow> iso_datetime result" where
  "BalanceISODateTime e t r o1 n a i s l =
     (let b = BalanceTime o1 n a i s l
      in bindE (BalanceISODate e t (nadd r (deltaDays b))) (\<lambda>d.
         Inr \<lparr>dtDate = d, dtTime = iso_time.truncate b\<rparr>))"

definition AddInstant :: "int \<Rightarrow> int \<Rightarrow> int \<Rightarrow> int \<Rightarrow> int \<Rightarrow> int \<Rightarrow> int \<Rightarrow> int result" where
  "AddInstant t r o1 n a i s =
     (let l = 0; l = l + s; l = l + i * 1000; l = l + a * 1000000; l = l + n * 1000000000;
          l = l + o1 * 60000000000; l = l + r * 3600000000000; d = t + l
      in bindE (ValidateEpochNanoseconds d) (\<lambda>_. Inr d))"

text \<open>A unit without a length makes \<^verbatim>\<open>BigInt(NaN)\<close> throw.\<close>

definition RoundInstant :: "int \<Rightarrow> int \<Rightarrow> tunit \<Rightarrow> rounding_mode \<Rightarrow> int result" where
  "RoundInstant t r o1 n =
     (let (_, a) = NonNegativeBigIntDivmod t nsPerDay;
          i = t - a
      in case unitNs o1 of
           None \<Rightarrow> Inl RangeError
         | Some u \<Rightarrow> Inr (i + RoundNumberToIncrement a (nmul u r) n))"

definition RoundISODateTime ::
  "int \<Rightarrow> int \<Rightarrow> int \<Rightarrow> int \<Rightarrow> int \<Rightarrow> int \<Rightarrow> int \<Rightarrow> int \<Rightarrow> int \<Rightarrow> int \<Rightarrow> tunit \<Rightarrow> rounding_mode \<Rightarrow> int
   \<Rightarrow> iso_datetime result" where
  "RoundISODateTime e t r o1 n a i s l d m c h =
     bindE (RoundTime o1 n a i s l d m c h) (\<lambda>b.
     bindE (BalanceISODate e t (nadd r (deltaDays b))) (\<lambda>x.
       Inr \<lparr>dtDate = x, dtTime = iso_time.truncate b\<rparr>))"

section \<open>The nanosecond of a date-time\<close>

definition datetimeNs :: "iso_datetime \<Rightarrow> int" where
  "datetimeNs x = epochDay (dtDate x) * nsPerDay + timeNs (dtTime x)"

definition validDateTime :: "iso_datetime \<Rightarrow> bool" where
  "validDateTime x \<longleftrightarrow> validDate (dtDate x) \<and> validTime (dtTime x)"

definition datetimeOfNs :: "int \<Rightarrow> iso_datetime" where
  "datetimeOfNs n = \<lparr>dtDate = dateOfDay (n div nsPerDay), dtTime = timeOfNs (n mod nsPerDay)\<rparr>"

text \<open>The result does not depend on the clock, except in its last representable day.\<close>

definition clockOk :: "int \<Rightarrow> bool" where
  "clockOk now \<longleftrightarrow> \<bar>now\<bar> \<le> 8640000000000000 - msPerDay"

lemma setUTC_date:
  assumes now: "clockOk now" and t: "0 \<le> MakeTime h mi s ms" "MakeTime h mi s ms < msPerDay"
  shows "setUTCFullYear (setUTCHours (Some now) h mi s ms) y m d = TimeClip (MakeDate (MakeDay y m d) (MakeTime h mi s ms))"
proof -
  define q where "q = now div msPerDay"
  have q: "msPerDay * q \<le> now" "now < msPerDay * q + msPerDay"
    unfolding q_def by (rule div_bounds; simp add: msPerDay_def)+
  then have "\<bar>q * msPerDay + MakeTime h mi s ms\<bar> \<le> 8640000000000000"
    using now t by (simp add: clockOk_def msPerDay_def abs_le_iff)
  then have "setUTCHours (Some now) h mi s ms = Some (q * msPerDay + MakeTime h mi s ms)"
    by (simp add: setUTCHours_def TimeClip_def MakeDate_def q_def [symmetric])
  moreover have "(q * msPerDay + MakeTime h mi s ms) mod msPerDay = MakeTime h mi s ms"
    using t by (simp add: msPerDay_def)
  ultimately show ?thesis by (simp add: setUTCFullYear_def)
qed

lemma GetUTCEpochNanoseconds_eq:
  assumes now: "clockOk now" and t: "0 \<le> MakeTime h mi s ms" "MakeTime h mi s ms < msPerDay"
    and v: "v = MakeDay y (m - 1) d * nsPerDay + fieldsNs h mi s ms us ns"
    and x: "-1 \<le> us * 1000 + ns" "us * 1000 + ns \<le> 1000000" "us * 1000 + ns \<le> 999999 \<or> 0 \<le> v"
  shows "GetUTCEpochNanoseconds now y m d h mi s ms us ns = (if nsMin \<le> v \<and> v \<le> nsMax then Some v else None)"
proof -
  define c where "c = MakeDate (MakeDay y (m - 1) d) (MakeTime h mi s ms)"
  have vc: "v = c * 1000000 + us * 1000 + ns"
    by (simp add: v c_def MakeDate_def MakeTime_def fieldsNs_def nsPerDay_def msPerDay_def)
  have "\<bar>c\<bar> \<le> 8640000000000000" if "nsMin \<le> v" "v \<le> nsMax"
    using that x vc by (auto simp: nsMin_def nsMax_def abs_le_iff)
  then show ?thesis
    unfolding GetUTCEpochNanoseconds_def Let_def setUTC_date [OF now t] c_def [symmetric]
    by (auto simp: TimeClip_def vc [symmetric])
qed

lemma valid_MakeTime:
  assumes "validTime x"
  shows "0 \<le> MakeTime (hour x) (minute x) (second x) (millisecond x)"
    "MakeTime (hour x) (minute x) (second x) (millisecond x) < msPerDay"
  using assms by (simp_all add: validTime_def MakeTime_def msPerDay_def)

text \<open>The epoch nanoseconds of a date-time, when they are in range.\<close>

lemma GetUTCEpochNanoseconds_valid:
  assumes "clockOk now" "validTime (dtTime x)"
  shows "GetUTCEpochNanoseconds now (year (dtDate x)) (month (dtDate x)) (day (dtDate x))
      (hour (dtTime x)) (minute (dtTime x)) (second (dtTime x)) (millisecond (dtTime x))
      (microsecond (dtTime x)) (nanosecond (dtTime x))
    = (if nsMin \<le> datetimeNs x \<and> datetimeNs x \<le> nsMax then Some (datetimeNs x) else None)"
  using assms valid_MakeTime [of "dtTime x"]
  by (intro GetUTCEpochNanoseconds_eq) (auto simp: datetimeNs_def epochDay_def timeNs_def validTime_def)

lemma validDateTime_datetimeOfNs [simp]: "validDateTime (datetimeOfNs n)"
  by (simp add: validDateTime_def datetimeOfNs_def)

lemma nsPerDay_pos [simp]: "0 < nsPerDay" "nsPerDay \<noteq> 0"
  by (simp_all add: nsPerDay_def)

lemma datetimeNs_datetimeOfNs [simp]: "datetimeNs (datetimeOfNs n) = n"
  by (simp add: datetimeNs_def datetimeOfNs_def timeNs_timeOfNs)

lemma datetimeOfNs_datetimeNs [simp]:
  assumes "validDateTime x"
  shows "datetimeOfNs (datetimeNs x) = x"
proof -
  have v: "validDate (dtDate x)" "validTime (dtTime x)" using assms by (simp_all add: validDateTime_def)
  have "datetimeNs x div nsPerDay = epochDay (dtDate x)" "datetimeNs x mod nsPerDay = timeNs (dtTime x)"
    using timeNs_range [OF v(2)] by (simp_all add: datetimeNs_def)
  then show ?thesis
    using v by (simp add: datetimeOfNs_def timeOfNs_timeNs iso_time.truncate_def)
qed

section \<open>The fields of an instant\<close>

lemma instant_ms:
  assumes "nsMin \<le> t" "t \<le> nsMax"
  shows "\<bar>t div 1000000\<bar> \<le> 8640000000000000"
  using assms div_bounds [of 1000000 t] by (auto simp: nsMin_def nsMax_def abs_le_iff)

lemma timeOfNs_mod [simp]: "timeOfNs (t mod nsPerDay) = timeOfNs t"
proof -
  let ?b = "BalanceTime 0 0 0 0 0 t"
  have b: "iso_time.truncate ?b = timeOfNs t" "timeNs ?b = t mod nsPerDay"
    by (simp_all only: BalanceTime_eq timeNs_BalanceTime) (simp_all add: fieldsNs_def)
  then have "timeOfNs (timeNs ?b) = timeOfNs t" using timeOfNs_timeNs [of ?b] by (simp only: validTime_BalanceTime)
  then show ?thesis by (simp only: b(2))
qed

lemma low_digits:
  fixes t :: int
  shows "t mod 1000000 div 1000 mod 1000 = t div 1000 mod 1000" "t mod 1000000 mod 1000 = t mod 1000"
proof -
  have m: "t mod 1000000 = 1000 * (t div 1000 mod 1000) + t mod 1000"
    using zmod_zmult2_eq [of 1000 t 1000] by simp
  show "t mod 1000000 mod 1000 = t mod 1000" unfolding m by simp
  have "t mod 1000000 div 1000 = t div 1000 mod 1000"
    by (rule int_div_pos_eq [OF m]) simp_all
  then show "t mod 1000000 div 1000 mod 1000 = t div 1000 mod 1000" by simp
qed

lemma utc_time:
  fixes t :: int
  defines "n \<equiv> t div 1000000"
  shows "mkTime (getUTCHours n) (getUTCMinutes n) (getUTCSeconds n) (getUTCMilliseconds n)
      (t mod 1000000 div 1000 mod 1000) (t mod 1000000 mod 1000) = timeOfNs t"
    and "n div msPerDay = t div nsPerDay"
proof -
  have d: "t div 1000000 div k = t div (1000000 * k)" if "0 < k" for k
    using that by (simp add: zdiv_zmult2_eq)
  show "mkTime (getUTCHours n) (getUTCMinutes n) (getUTCSeconds n) (getUTCMilliseconds n)
      (t mod 1000000 div 1000 mod 1000) (t mod 1000000 mod 1000) = timeOfNs t"
    by (simp add: n_def d getUTCHours_def getUTCMinutes_def getUTCSeconds_def getUTCMilliseconds_def
        timeOfNs_def low_digits)
  show "n div msPerDay = t div nsPerDay"
    by (simp add: n_def d msPerDay_def nsPerDay_def)
qed

lemma GetISOPartsFromEpoch_eq:
  assumes "nsMin \<le> t" "t \<le> nsMax"
  shows "GetISOPartsFromEpoch t = Some \<lparr>epochMilliseconds = t div 1000000, parts = datetimeOfNs t\<rparr>"
proof -
  define r a where "r = tdiv t 1000000" and "a = tmod t 1000000"
  note ms = instant_ms [OF assms]
  have ra: "a < 0 \<Longrightarrow> r - 1 = t div 1000000 \<and> a + 1000000 = t mod 1000000"
    "0 \<le> a \<Longrightarrow> r = t div 1000000 \<and> a = t mod 1000000"
    using tdiv_tmod_div_mod [of 1000000 t] by (simp_all add: r_def a_def)
  have ab: "- 1000000 < a" "a < 1000000" unfolding a_def by (rule tmod_bounds; simp)+
  have "toNumber r = r" using ra ms by (intro toNumber_safe) (cases "a < 0"; auto simp: abs_le_iff)
  moreover have "toNumber a = a" using ab by (intro toNumber_safe) simp
  moreover have "(if a < 0 then (a + 1000000, r - 1) else (a, r)) = (t mod 1000000, t div 1000000)"
    using ra by auto
  moreover have f: "floorQuot (t mod 1000000) 1000 = t mod 1000000 div 1000"
    by (intro floorQuot_safe) (simp_all add: abs_less_iff less_le_trans [OF pos_mod_bound])
  ultimately show ?thesis
    using ms utc_time [of t]
    by (simp add: GetISOPartsFromEpoch_def divmodBI_def r_def [symmetric] a_def [symmetric] TimeClip_def
        datetimeOfNs_def dateOfDay_def getUTCFullYear_def getUTCMonth_def getUTCDate_def)
qed

section \<open>The range of date-times\<close>

lemma epochDay_year_less:
  assumes "validDate x"
  shows "year x < y \<Longrightarrow> epochDay x < DayFromYear y" and "y \<le> year x \<Longrightarrow> DayFromYear y \<le> epochDay x"
proof -
  show "year x < y \<Longrightarrow> epochDay x < DayFromYear y"
    by (rule less_le_trans [OF validDate_year_bounds(2) [OF assms]]) (simp add: DayFromYear_le_iff)
  show "y \<le> year x \<Longrightarrow> DayFromYear y \<le> epochDay x"
    by (rule order_trans [OF _ validDate_year_bounds(1) [OF assms]]) (simp add: DayFromYear_le_iff)
qed

lemma range_years:
  "DayFromYear (- 271821) = - 100000109" "DayFromYear (- 271820) = - 99999744"
  "DayFromYear 275760 = 99999744" "DayFromYear 275761 = 100000110"
  by (simp_all add: DayFromYear_def)

lemma RejectDateTimeRange_eq:
  assumes now: "clockOk now" and x: "validDateTime x"
  shows "RejectDateTimeRange now (year (dtDate x)) (month (dtDate x)) (day (dtDate x))
      (hour (dtTime x)) (minute (dtTime x)) (second (dtTime x)) (millisecond (dtTime x))
      (microsecond (dtTime x)) (nanosecond (dtTime x))
    = throwIf (\<not> (nsMin - nsPerDay < datetimeNs x \<and> datetimeNs x < nsMax + nsPerDay)) RangeError"
proof -
  define E T v where "E = epochDay (dtDate x)" and "T = timeNs (dtTime x)" and "v = datetimeNs x"
  have d: "validDate (dtDate x)" and t: "validTime (dtTime x)" using x by (simp_all add: validDateTime_def)
  have T: "0 \<le> T" "T < nsPerDay" using timeNs_range [OF t] by (simp_all add: T_def)
  have v: "v = E * nsPerDay + T" by (simp add: v_def datetimeNs_def E_def T_def)
  let ?d = "\<lambda>k j. GetUTCEpochNanoseconds now (year (dtDate x)) (month (dtDate x)) (day (dtDate x) + k)
      (hour (dtTime x)) (minute (dtTime x)) (second (dtTime x)) (millisecond (dtTime x))
      (microsecond (dtTime x)) (nanosecond (dtTime x) + j)"
  have g: "?d k j = (if nsMin \<le> v + k * nsPerDay + j \<and> v + k * nsPerDay + j \<le> nsMax
      then Some (v + k * nsPerDay + j) else None)"
    if "j = -1 \<or> j = 1 \<and> 0 \<le> v + k * nsPerDay + j" for k j
  proof (rule GetUTCEpochNanoseconds_eq [OF now valid_MakeTime [OF t]])
    have "v + k * nsPerDay + j = (epochDay (dtDate x) + k) * nsPerDay + (timeNs (dtTime x) + j)"
      unfolding v E_def T_def by (simp add: distrib_right)
    then show "v + k * nsPerDay + j = MakeDay (year (dtDate x)) (month (dtDate x) - 1) (day (dtDate x) + k) * nsPerDay
        + fieldsNs (hour (dtTime x)) (minute (dtTime x)) (second (dtTime x)) (millisecond (dtTime x))
          (microsecond (dtTime x)) (nanosecond (dtTime x) + j)"
      by (simp only: epochDay_def MakeDay_add_day timeNs_def) (simp add: fieldsNs_def)
  qed (use t that in \<open>auto simp: validTime_def\<close>)
  note y = epochDay_year_less [OF d, folded E_def]
  consider "year (dtDate x) < yearMin" | "year (dtDate x) = yearMin"
    | "yearMin < year (dtDate x)" "year (dtDate x) < yearMax" | "year (dtDate x) = yearMax" | "yearMax < year (dtDate x)"
    by linarith
  then show ?thesis
  proof cases
    case 1
    then have "E < - 100000109" using y(1) [of "- 271821"] by (simp add: range_years yearMin_def)
    then show ?thesis
      using 1 T by (simp add: RejectDateTimeRange_def RejectToRange_def v_def [symmetric] v nsMin_def nsPerDay_def)
  next
    case 2
    then have E: "- 100000109 \<le> E" "E < - 99999744"
      using y(2) [of "- 271821"] y(1) [of "- 271820"] by (simp_all add: range_years yearMin_def)
    have "(?d 1 (-1) = None) = (\<not> nsMin - nsPerDay < v)"
      using E T g [where k = 1 and j = "-1"] by (auto simp: v nsMin_def nsMax_def nsPerDay_def)
    moreover have "v < nsMax + nsPerDay" using E T by (simp add: v nsMax_def nsPerDay_def)
    ultimately show ?thesis
      using 2 by (simp add: RejectDateTimeRange_def RejectToRange_def v_def [symmetric] yearMin_def yearMax_def)
  next
    case 3
    then have E: "- 99999744 \<le> E" "E < 99999744"
      using y(2) [of "- 271820"] y(1) [of 275760] by (simp_all add: range_years yearMin_def yearMax_def)
    have "nsMin - nsPerDay < v" "v < nsMax + nsPerDay" using E T by (simp_all add: v nsMin_def nsMax_def nsPerDay_def)
    then show ?thesis
      using 3 by (simp add: RejectDateTimeRange_def RejectToRange_def v_def [symmetric])
  next
    case 4
    then have E: "99999744 \<le> E" "E < 100000110"
      using y(2) [of 275760] y(1) [of 275761] by (simp_all add: range_years yearMax_def)
    then have p: "0 \<le> v + - 1 * nsPerDay + 1" using T by (simp add: v nsPerDay_def)
    have "(?d (-1) 1 = None) = (\<not> v < nsMax + nsPerDay)"
      using E T g [where k = "-1" and j = 1] p by (auto simp: v nsMin_def nsMax_def nsPerDay_def)
    moreover have "nsMin - nsPerDay < v" using E T by (simp add: v nsMin_def nsPerDay_def)
    ultimately show ?thesis
      using 4 by (simp add: RejectDateTimeRange_def RejectToRange_def v_def [symmetric] yearMin_def yearMax_def)
  next
    case 5
    then have "100000110 \<le> E" using y(2) [of 275761] by (simp add: range_years yearMax_def)
    then show ?thesis
      using 5 T by (simp add: RejectDateTimeRange_def RejectToRange_def v_def [symmetric] v nsMax_def nsPerDay_def)
  qed
qed

section \<open>Date-times: carrying and rounding\<close>

lemma BalanceISODateTime_safe:
  assumes "\<bar>e\<bar> \<le> 2 ^ 50" "\<bar>t\<bar> \<le> 2 ^ 50" "\<bar>r\<bar> \<le> 2 ^ 50"
    and "\<bar>fieldsNs h mi s ms us ns\<bar> \<le> 2 ^ 50 * nsPerDay"
  shows "BalanceISODateTime e t r h mi s ms us ns
    = Inr (datetimeOfNs (MakeDay e (t - 1) r * nsPerDay + fieldsNs h mi s ms us ns))"
proof -
  define n where "n = fieldsNs h mi s ms us ns"
  define q where "q = n div nsPerDay"
  have "nsPerDay * q \<le> n" "n < nsPerDay * q + nsPerDay"
    unfolding q_def by (rule div_bounds; simp)+
  then have q: "\<bar>q\<bar> \<le> 2 ^ 50" using assms(4) by (auto simp: n_def [symmetric] nsPerDay_def abs_le_iff)
  have dd: "deltaDays (BalanceTime h mi s ms us ns) = q"
    unfolding BalanceTime_eq n_def [symmetric] q_def [symmetric] using q by (intro toNumber_safe) simp
  have na: "nadd r q = r + q" using q assms(3) by (intro nadd_safe) simp
  have "BalanceISODate e t (r + q) = Inr (dateOfDay (MakeDay e (t - 1) (r + q)))"
    using assms q by (intro BalanceISODate_safe) simp_all
  moreover have "(MakeDay e (t - 1) r * nsPerDay + n) div nsPerDay = MakeDay e (t - 1) (r + q)"
    by (simp add: q_def MakeDay_add_day)
  moreover have "(MakeDay e (t - 1) r * nsPerDay + n) mod nsPerDay = n mod nsPerDay" by simp
  ultimately show ?thesis
    using timeOfNs_mod [of "MakeDay e (t - 1) r * nsPerDay + n"]
    by (simp only: BalanceISODateTime_def Let_def dd na bindE_Inr datetimeOfNs_def BalanceTime_eq(1)
        n_def [symmetric] timeOfNs_mod)
qed

section \<open>Rounding instants\<close>

text \<open>
  Instants are rounded as if positive: the part since midnight is never negative, so
  truncation goes down and expansion goes up, also before the epoch.
\<close>

fun asIfPositive :: "rounding_mode \<Rightarrow> rounding_mode" where
  "asIfPositive Trunc = Floor"
| "asIfPositive Expand = Ceil"
| "asIfPositive HalfTrunc = HalfFloor"
| "asIfPositive HalfExpand = HalfCeil"
| "asIfPositive md = md"

lemma roundSpec_nonneg: "0 \<le> a \<Longrightarrow> roundSpec md a r = roundSpec (asIfPositive md) a r"
  by (cases md; cases "a = 0") (simp_all add: sgn_if)

lemma roundSpec_shift:
  assumes r: "0 < r" and md: "asIfPositive md \<noteq> HalfEven \<or> even k"
  shows "roundSpec (asIfPositive md) (r * k + a) r = r * k + roundSpec (asIfPositive md) a r"
proof -
  have d: "(r * k + a) div r = k + a div r" "(- (r * k + a)) div r = - k + (- a) div r" "(r * k + a) mod r = a mod r"
    using r div_mult_self4 [of r k a] div_mult_self4 [of r "- k" "- a"] by simp_all
  have h: "(2 * (r * k + a) + r) div (2 * r) = k + (2 * a + r) div (2 * r)"
    "(r - 2 * (r * k + a)) div (2 * r) = - k + (r - 2 * a) div (2 * r)"
    using r div_mult_self4 [of "2 * r" k "2 * a + r"] div_mult_self4 [of "2 * r" "- k" "r - 2 * a"]
    by (simp_all add: algebra_simps)
  have e: "even k \<Longrightarrow> even (k + a div r) = even (a div r)" by simp
  have t: "(k + x) * r = r * k + x * r" "- (- k + x) * r = r * k + - x * r" "(k + x + 1) * r = r * k + (x + 1) * r" for x
    by (simp_all add: algebra_simps)
  consider "asIfPositive md = Floor" | "asIfPositive md = Ceil" | "asIfPositive md = HalfCeil"
    | "asIfPositive md = HalfFloor" | "asIfPositive md = HalfEven"
    by (cases md) simp_all
  then show ?thesis
  proof cases
    case 5
    then have "even k" using md by simp
    then show ?thesis unfolding 5 roundSpec.simps d e [OF \<open>even k\<close>] t by simp
  qed (simp_all only: roundSpec.simps d h t)
qed

text \<open>Rounding an instant rounds the whole count of nanoseconds as if it were positive,
  although the code only rounds the part since midnight (for ties to even when a day holds
  an even number of increments).\<close>

theorem RoundInstant_correct:
  assumes u: "unitNs l = Some u" and s: "0 < s" and P: "u * s * k = nsPerDay"
    and md: "asIfPositive md \<noteq> HalfEven \<or> even k"
  shows "RoundInstant t s l md = Inr (roundSpec (asIfPositive md) t (u * s))"
proof -
  have "0 < u" using u by (auto simp: unitNs_def split: tunit.splits)
  then have us: "0 < u * s" using s by simp
  have "u * s dvd nsPerDay" using P by (metis dvd_triv_left)
  then have "u * s \<le> nsPerDay" by (intro zdvd_imp_le) simp_all
  then have n: "nmul u s = u * s" using us by (intro nmul_safe) (simp add: nsPerDay_def)
  have t1: "u * s * (k * (t div nsPerDay)) + t mod nsPerDay = t"
    using mult_div_mod_eq [of nsPerDay t] by (simp only: P [symmetric] mult.assoc)
  have t2: "t - t mod nsPerDay = u * s * (k * (t div nsPerDay))"
    using mult_div_mod_eq [of nsPerDay t] by (simp only: P [symmetric] mult.assoc)
  have "asIfPositive md \<noteq> HalfEven \<or> even (k * (t div nsPerDay))" using md by auto
  then have "t - t mod nsPerDay + roundSpec (asIfPositive md) (t mod nsPerDay) (u * s) = roundSpec (asIfPositive md) t (u * s)"
    unfolding t2 by (simp only: roundSpec_shift [OF us, symmetric] t1)
  then show ?thesis
    using us roundSpec_nonneg [of "t mod nsPerDay" md "u * s"]
    by (simp add: RoundInstant_def NonNegativeBigIntDivmod_eq u n RoundNumberToIncrement_roundSpec)
qed

section \<open>The properties of instants and date-times\<close>

text \<open>C12: for every instant in range the fields read from it are an existing date and time, and
  \<open>GetUTCEpochNanoseconds\<close> gives the instant back from them, whatever the clock shows.\<close>

theorem GetISOPartsFromEpoch_roundtrip:
  assumes "nsMin \<le> t" "t \<le> nsMax" "clockOk now"
  obtains p where "GetISOPartsFromEpoch t = Some p" "validDateTime (parts p)"
    "epochMilliseconds p = t div 1000000"
    "GetUTCEpochNanoseconds now (year (dtDate (parts p))) (month (dtDate (parts p))) (day (dtDate (parts p)))
      (hour (dtTime (parts p))) (minute (dtTime (parts p))) (second (dtTime (parts p)))
      (millisecond (dtTime (parts p))) (microsecond (dtTime (parts p))) (nanosecond (dtTime (parts p))) = Some t"
proof (rule that)
  show "GetISOPartsFromEpoch t = Some \<lparr>epochMilliseconds = t div 1000000, parts = datetimeOfNs t\<rparr>"
    by (rule GetISOPartsFromEpoch_eq [OF assms(1,2)])
qed (use assms GetUTCEpochNanoseconds_valid [of now "datetimeOfNs t"] validDateTime_datetimeOfNs [of t]
      in \<open>simp_all add: validDateTime_def\<close>)

theorem GetISOPartsFromEpoch_roundtrip_witness:
  "\<exists>p. GetISOPartsFromEpoch (-1) = Some p \<and> validDateTime (parts p) \<and> epochMilliseconds p = -1"
  by (rule GetISOPartsFromEpoch_roundtrip [of "-1" 0]) (auto simp: nsMin_def nsMax_def clockOk_def msPerDay_def)

text \<open>C16: a date-time is accepted exactly when it is less than a day outside the range of
  instants; every other one is a RangeError.\<close>

theorem RejectDateTimeRange_correct:
  assumes "clockOk now" "validDateTime x"
  shows "RejectDateTimeRange now (year (dtDate x)) (month (dtDate x)) (day (dtDate x))
      (hour (dtTime x)) (minute (dtTime x)) (second (dtTime x)) (millisecond (dtTime x))
      (microsecond (dtTime x)) (nanosecond (dtTime x))
    = (if nsMin - nsPerDay < datetimeNs x \<and> datetimeNs x < nsMax + nsPerDay then Inr () else Inl RangeError)"
  unfolding RejectDateTimeRange_eq [OF assms] by (simp add: throwIf_def)

theorem RejectDateTimeRange_correct_witness:
  "RejectDateTimeRange 0 (-271821) 4 19 0 0 0 0 0 0 = Inl RangeError"
proof -
  let ?x = "\<lparr>dtDate = mkDate (-271821) 4 19, dtTime = mkTime 0 0 0 0 0 0\<rparr>"
  have v: "clockOk 0" "validDateTime ?x"
    by (simp_all add: clockOk_def msPerDay_def validDateTime_def validDate_def validTime_def ISODaysInMonth_def LeapYear_def)
  have "epochDay (mkDate (-271821) 4 19) = - 100000001" by code_simp
  then have "datetimeNs ?x = nsMin - nsPerDay"
    by (simp add: datetimeNs_def timeNs_def fieldsNs_def nsMin_def nsPerDay_def)
  then show ?thesis using RejectDateTimeRange_correct [OF v] by simp
qed

theorem RoundInstant_correct_witness: "RoundInstant (-1) 12 Hour Trunc = Inr (-43200000000000)"
  using RoundInstant_correct [of Hour 3600000000000 12 2 Trunc "-1"] by (simp add: unitNs_def nsPerDay_def)

end
