(* ===== verification/Iso_Difference.thy ===== *)
theory Iso_Difference imports Iso_Balance Units begin

text \<open>
  Adding a date duration to a date and the difference of two dates, for the ISO calendar
  (\<^verbatim>\<open>AddISODate\<close>, \<^verbatim>\<open>DifferenceISODate\<close>, \<^verbatim>\<open>DaysUntil\<close> of \<^verbatim>\<open>temporal-polyfill.js\<close>). The
  reference is the day number: adding moves a month index first, clamps the day to the
  month's length, and then moves the day number.
\<close>

section \<open>Addition\<close>

definition AddISODate ::
  "int \<Rightarrow> int \<Rightarrow> int \<Rightarrow> int \<Rightarrow> int \<Rightarrow> int \<Rightarrow> int \<Rightarrow> overflow \<Rightarrow> iso_date result" where
  "AddISODate e t r o1 n a i s =
     bindE (BalanceISOYearMonth (nadd e o1) (nadd t n)) (\<lambda>ym.
     bindE (RegulateISODate (ymYear ym) (ymMonth ym) r s) (\<lambda>x.
       let h = nadd i (nmul 7 a)
       in BalanceISODate (year x) (month x) (nadd (day x) h)))"

section \<open>Difference\<close>

abbreviation dateDuration :: "int \<Rightarrow> int \<Rightarrow> int \<Rightarrow> int \<Rightarrow> date_duration" where
  "dateDuration y m w d \<equiv> \<lparr>years = y, months = m, weeks = w, days = d\<rparr>"

text \<open>\<^verbatim>\<open>for (y = from; y < to; ++y) m += LeapYear(y) ? 366 : 365\<close>.\<close>

function addYearLengths :: "int \<Rightarrow> int \<Rightarrow> int \<Rightarrow> int" where
  "addYearLengths y y' m =
     (if y < y' then addYearLengths (y + 1) y' (m + (if LeapYear (Some y) then 366 else 365)) else m)"
  by pat_completeness auto
termination
  by (relation "measure (\<lambda>(y, y', m). nat (y' - y))") auto

definition DifferenceISODate ::
  "int \<Rightarrow> int \<Rightarrow> int \<Rightarrow> int \<Rightarrow> int \<Rightarrow> int \<Rightarrow> tunit \<Rightarrow> date_duration result" where
  "DifferenceISODate e t r o1 n a i =
     (if i = Year \<or> i = Month then
        let s = - CompareISODate e t r o1 n a
        in if s = 0 then Inr (dateDuration 0 0 0 0) else
        let ys = o1 - e
        in bindE (AddISODate e t r ys 0 0 0 Constrain) (\<lambda>c.
        let h = - CompareISODate (year c) (month c) (day c) o1 n a
        in if h = 0 then Inr (if i = Year then dateDuration ys 0 0 0 else dateDuration 0 (12 * ys) 0 0) else
        let ms = n - t;
            (ys, ms) = (if h \<noteq> s then (ys - s, ms + 12 * s) else (ys, ms))
        in bindE (AddISODate e t r ys ms 0 0 Constrain) (\<lambda>c.
        let h = - CompareISODate (year c) (month c) (day c) o1 n a
        in if h = 0 then Inr (if i = Year then dateDuration ys ms 0 0 else dateDuration 0 (ms + 12 * ys) 0 0) else
        bindE (if h \<noteq> s then
                 let ms = ms - s;
                     (ys, ms) = (if ms = - s then (ys - s, 11 * s) else (ys, ms))
                 in bindE (AddISODate e t r ys ms 0 0 Constrain) (\<lambda>c. Inr (c, ys, ms))
               else Inr (c, ys, ms)) (\<lambda>(c, ys, ms).
        let d = (if month c = n then a - day c
                 else if s < 0 then - day c - (ISODaysInMonth o1 n - a)
                 else a + (ISODaysInMonth (year c) (month c) - day c));
            (ys, ms) = (if i = Month then (0, ms + 12 * ys) else (ys, ms))
        in Inr (dateDuration ys ms 0 d))))
      else if i = Week \<or> i = Day then
        let lt = CompareISODate e t r o1 n a < 0;
            (y1, m1, d1) = (if lt then (e, t, r) else (o1, n, a));
            (y2, m2, d2) = (if lt then (o1, n, a) else (e, t, r));
            sg = (if lt then 1 else -1);
            ds = addYearLengths y1 y2 (DayOfYear y2 m2 d2 - DayOfYear y1 m1 d1);
            (w, ds) = (if i = Week then (truncQuot ds 7, tmod ds 7) else (0, ds))
        in Inr (dateDuration 0 0 (w * sg) (ds * sg))
      else Inl AssertError)"

text \<open>The dates of two \<open>PlainDate\<close> objects.\<close>

definition DaysUntil :: "iso_date \<Rightarrow> iso_date \<Rightarrow> int result" where
  "DaysUntil e t =
     bindE (DifferenceISODate (year e) (month e) (day e) (year t) (month t) (day t) Day) (\<lambda>d. Inr (days d))"

section \<open>Properties of the addition\<close>

text \<open>Months since year 0, and the date a number of months later, its day clamped.\<close>

definition monthIndex :: "iso_date \<Rightarrow> int" where
  "monthIndex x = 12 * year x + month x - 1"

definition addMonths :: "iso_date \<Rightarrow> int \<Rightarrow> iso_date" where
  "addMonths x k =
     (let i = monthIndex x + k; y = i div 12; m = i mod 12 + 1
      in \<lparr>year = y, month = m, day = min (day x) (ISODaysInMonth y m)\<rparr>)"

lemma monthIndex_addMonths [simp]: "monthIndex (addMonths x k) = monthIndex x + k"
  by (simp add: addMonths_def monthIndex_def Let_def)

lemma validDate_addMonths [simp]:
  assumes "validDate x"
  shows "validDate (addMonths x k)"
proof -
  have r: "1 \<le> (monthIndex x + k) mod 12 + 1" "(monthIndex x + k) mod 12 + 1 \<le> 12"
    using pos_mod_bound [of 12 "monthIndex x + k"] by simp_all
  show ?thesis
    using assms r ISODaysInMonth_range(1) [OF r, of "(monthIndex x + k) div 12"]
    by (auto simp: addMonths_def validDate_def Let_def)
qed

lemma monthIndex_parts:
  assumes "validDate x"
  shows "monthIndex x div 12 = year x" "monthIndex x mod 12 = month x - 1"
proof -
  have b: "0 \<le> month x - 1" "month x - 1 < 12" using assms by (simp_all add: validDate_def)
  have m: "monthIndex x = (month x - 1) + year x * 12" by (simp add: monthIndex_def)
  show "monthIndex x div 12 = year x" "monthIndex x mod 12 = month x - 1"
    unfolding m using b by (simp_all add: div_pos_pos_trivial mod_pos_pos_trivial)
qed

lemma addMonths_0 [simp]: "validDate x \<Longrightarrow> addMonths x 0 = x"
  using validDate_def [of x]
  by (auto simp: addMonths_def Let_def monthIndex_parts intro!: iso_date.equality)

lemma epochDay_less_month:
  assumes "validDate x" "validDate y" "monthIndex x < monthIndex y"
  shows "epochDay x < epochDay y"
  using assms by (intro epochDay_less) (auto simp: monthIndex_def validDate_def)

lemma epochDay_same_month:
  assumes "validDate x" "validDate y" "monthIndex x = monthIndex y"
  shows "epochDay y - epochDay x = day y - day x"
    and "year x = year y" "month x = month y"
proof -
  show eq: "year x = year y" "month x = month y"
    using assms by (auto simp: monthIndex_def validDate_def) presburger+
  show "epochDay y - epochDay x = day y - day x"
    using assms eq by (simp add: validDate_epochDay)
qed

lemma epochDay_next_month:
  assumes "validDate x" "validDate y" "monthIndex y = monthIndex x + 1"
  shows "epochDay y - epochDay x = day y + (ISODaysInMonth (year x) (month x) - day x)"
    and "month x \<noteq> month y"
proof -
  have r: "1 \<le> month x" "month x \<le> 12" "1 \<le> month y" "month y \<le> 12"
    using assms by (simp_all add: validDate_def)
  have e: "12 * year y + month y = 12 * year x + month x + 1"
    using assms(3) by (simp add: monthIndex_def)
  then show "month x \<noteq> month y" by presburger
  have c: "year y = year x \<and> month y = month x + 1 \<or> year y = year x + 1 \<and> month y = 1 \<and> month x = 12"
  proof (cases "year y = year x")
    case True
    then show ?thesis using e by simp
  next
    case False
    then consider "year y + 1 \<le> year x" | "year y = year x + 1" | "year x + 2 \<le> year y" by linarith
    then show ?thesis using e r by cases auto
  qed
  show "epochDay y - epochDay x = day y + (ISODaysInMonth (year x) (month x) - day x)"
    using c
  proof (elim disjE conjE)
    assume "year y = year x" "month y = month x + 1"
    then show ?thesis
      using assms r MonthStart_Suc [of "month x - 1" "InLeapYear (year x)"]
      by (simp add: validDate_epochDay ISODaysInMonth_eq)
  next
    assume "year y = year x + 1" "month y = 1" "month x = 12"
    then show ?thesis
      using assms r DayFromYear_Suc [of "year x"]
      by (simp add: validDate_epochDay ISODaysInMonth_eq MonthStart_def MonthLength_def DaysInYear_def)
  qed
qed

lemma epochDay_addMonths_mono: "validDate x \<Longrightarrow> j < k \<Longrightarrow> epochDay (addMonths x j) < epochDay (addMonths x k)"
  by (rule epochDay_less_month) simp_all

lemma AddISODate_overflow:
  assumes x: "validDate x" and b: "\<bar>year x\<bar> \<le> 2 ^ 40" "\<bar>o1\<bar> \<le> 2 ^ 48" "\<bar>n\<bar> \<le> 2 ^ 48"
    "\<bar>a\<bar> \<le> 2 ^ 50" "\<bar>i\<bar> \<le> 2 ^ 50" "\<bar>7 * a + i\<bar> \<le> 2 ^ 50"
  shows AddISODate_constrain: "AddISODate (year x) (month x) (day x) o1 n a i Constrain
      = Inr (dateOfDay (epochDay (addMonths x (12 * o1 + n)) + 7 * a + i))"
    and AddISODate_reject: "AddISODate (year x) (month x) (day x) o1 n a i Reject
      = (if day (addMonths x (12 * o1 + n)) < day x then Inl RangeError
         else AddISODate (year x) (month x) (day x) o1 n a i Constrain)"
proof -
  have v: "1 \<le> month x" "month x \<le> 12" "1 \<le> day x" "day x \<le> 31"
    using x ISODaysInMonth_range [of "month x" "year x"] by (auto simp: validDate_def)
  define Y where "Y = (monthIndex x + (12 * o1 + n)) div 12"
  define M where "M = (monthIndex x + (12 * o1 + n)) mod 12 + 1"
  have M: "1 \<le> M" "M \<le> 12"
    using pos_mod_bound [of 12 "monthIndex x + (12 * o1 + n)"] by (simp_all add: M_def)
  have mi: "monthIndex x + (12 * o1 + n) = (month x + n - 1) + (year x + o1) * 12"
    by (simp add: monthIndex_def)
  have Y': "Y = year x + o1 + (month x + n - 1) div 12"
    unfolding Y_def mi by (subst div_mult_self1) simp_all
  have M': "M = (month x + n - 1) mod 12 + 1"
    unfolding M_def mi by (subst mod_mult_self1) simp_all
  have "12 * ((month x + n - 1) div 12) \<le> month x + n - 1"
    "month x + n - 1 < 12 * ((month x + n - 1) div 12) + 12"
    by (rule div_bounds; simp)+
  then have Yb: "\<bar>Y\<bar> \<le> 2 ^ 50" using b v by (simp add: Y' abs_le_iff)
  have 1: "BalanceISOYearMonth (nadd (year x) o1) (nadd (month x) n) = Inr \<lparr>ymYear = Y, ymMonth = M\<rparr>"
  proof -
    have "\<bar>year x + o1\<bar> \<le> 2 ^ 52" "\<bar>month x + n\<bar> \<le> 2 ^ 52" using b v by simp_all
    moreover from this have "nadd (year x) o1 = year x + o1" "nadd (month x) n = month x + n"
      by (intro nadd_safe; simp)+
    ultimately show ?thesis by (simp only: BalanceISOYearMonth_safe Y' M')
  qed
  define D where "D = min (day x) (ISODaysInMonth Y M)"
  have D: "1 \<le> D" "D \<le> 31" using v ISODaysInMonth_range [OF M, of Y] by (auto simp: D_def)
  have 2: "RegulateISODate Y M (day x) Constrain = Inr \<lparr>year = Y, month = M, day = D\<rparr>"
    using M v by (simp add: RegulateISODate_def ConstrainISODate_def ConstrainToRange_def Let_def D_def min.commute)
  have 3: "nadd i (nmul 7 a) = i + 7 * a" "nadd D (i + 7 * a) = D + (i + 7 * a)"
  proof -
    have "nmul 7 a = 7 * a" using b by (intro nmul_safe) simp
    moreover have "nadd i (7 * a) = i + 7 * a" using b by (intro nadd_safe) simp
    ultimately show "nadd i (nmul 7 a) = i + 7 * a" by (simp only:)
    show "nadd D (i + 7 * a) = D + (i + 7 * a)" using b D by (intro nadd_safe) simp
  qed
  have 4: "BalanceISODate Y M (D + (i + 7 * a)) = Inr (dateOfDay (MakeDay Y (M - 1) (D + (i + 7 * a))))"
  proof (rule BalanceISODate_safe)
    show "\<bar>Y\<bar> \<le> 2 ^ 50" by (rule Yb)
    show "\<bar>M\<bar> \<le> 2 ^ 50" using M by simp
    show "\<bar>D + (i + 7 * a)\<bar> \<le> 2 ^ 51" using D b by simp
  qed
  have 5: "addMonths x (12 * o1 + n) = \<lparr>year = Y, month = M, day = D\<rparr>"
    by (simp add: addMonths_def Y_def M_def D_def Let_def)
  have 6: "MakeDay Y (M - 1) (D + (i + 7 * a)) = epochDay (addMonths x (12 * o1 + n)) + 7 * a + i"
    using MakeDay_add_day [of Y "M - 1" D "i + 7 * a"] by (simp add: 5 epochDay_def)
  show C: "AddISODate (year x) (month x) (day x) o1 n a i Constrain
      = Inr (dateOfDay (epochDay (addMonths x (12 * o1 + n)) + 7 * a + i))"
    unfolding AddISODate_def 1 Let_def
    by (simp only: bindE_Inr iso_year_month.simps 2 iso_date.simps 3 4 6)
  have 7: "RegulateISODate Y M (day x) Reject = (if D < day x then Inl RangeError
      else RegulateISODate Y M (day x) Constrain)"
    unfolding 2 using M v
    by (auto simp: RegulateISODate_def RejectISODate_def RejectToRange_def D_def min_def bindE_def throwIf_def)
  show "AddISODate (year x) (month x) (day x) o1 n a i Reject
      = (if day (addMonths x (12 * o1 + n)) < day x then Inl RangeError
         else AddISODate (year x) (month x) (day x) o1 n a i Constrain)"
    unfolding AddISODate_def 1 bindE_Inr iso_year_month.simps 7 5 iso_date.simps by simp
qed

section \<open>Differences in days and weeks\<close>

declare addYearLengths.simps [simp del]

lemma addYearLengths_eq:
  assumes "y \<le> y'"
  shows "addYearLengths y y' m = m + (DayFromYear y' - DayFromYear y)"
  using assms
proof (induction "nat (y' - y)" arbitrary: y m)
  case 0
  then show ?case by (simp add: addYearLengths.simps)
next
  case (Suc k)
  then have "y < y'" "k = nat (y' - (y + 1))" "y + 1 \<le> y'" by auto
  then show ?case
    using Suc(1) [of "y + 1"] DayFromYear_Suc [of y]
    by (subst addYearLengths.simps) (simp add: LeapYear_iff DaysInYear_def)
qed

lemma year_mono: "validDate x \<Longrightarrow> validDate y \<Longrightarrow> epochDay x \<le> epochDay y \<Longrightarrow> year x \<le> year y"
  using epochDay_less [of y x] by force

lemma daysBetween:
  assumes x: "validDate x" and y: "validDate y" and le: "epochDay x \<le> epochDay y"
  shows "addYearLengths (year x) (year y)
      (DayOfYear (year y) (month y) (day y) - DayOfYear (year x) (month x) (day x))
    = epochDay y - epochDay x"
  using year_mono [OF x y le] by (simp add: addYearLengths_eq DayOfYear_epochDay x y)

lemma tdiv_minus_7 [simp]: "tdiv (- n) 7 = - tdiv n 7" and tmod_minus_7 [simp]: "tmod (- n) 7 = - tmod n 7"
  by (auto simp: tdiv_def tmod_def)

lemma DifferenceISODate_week_day:
  assumes x: "validDate x" and y: "validDate y"
    and b: "u = Day \<or> u = Week \<and> \<bar>epochDay y - epochDay x\<bar> < 2 ^ 53"
  shows "DifferenceISODate (year x) (month x) (day x) (year y) (month y) (day y) u
    = Inr (if u = Week then dateDuration 0 0 (tdiv (epochDay y - epochDay x) 7) (tmod (epochDay y - epochDay x) 7)
           else dateDuration 0 0 0 (epochDay y - epochDay x))"
proof (cases "epochDay x < epochDay y")
  case True
  then show ?thesis
    using b daysBetween [OF x y] truncQuot_safe [of "epochDay y - epochDay x" 7]
    by (auto simp: DifferenceISODate_def CompareISODate_epochDay [OF x y] Let_def)
next
  case False
  then show ?thesis
    using b daysBetween [OF y x] truncQuot_safe [of "epochDay x - epochDay y" 7]
      tdiv_minus_7 [of "epochDay x - epochDay y"] tmod_minus_7 [of "epochDay x - epochDay y"]
    by (auto simp: DifferenceISODate_def CompareISODate_epochDay [OF x y] Let_def)
qed

lemma DaysUntil_eq:
  "validDate x \<Longrightarrow> validDate y \<Longrightarrow> DaysUntil x y = Inr (epochDay y - epochDay x)"
  by (simp add: DaysUntil_def DifferenceISODate_week_day)

section \<open>Differences in years and months\<close>

text \<open>
  The total number of months the code ends with is the difference of the month indices,
  or one less in size when the day is not reached.
\<close>

definition wholeMonths :: "iso_date \<Rightarrow> iso_date \<Rightarrow> int" where
  "wholeMonths x y =
     (let k = monthIndex y - monthIndex x; s = sgn (epochDay y - epochDay x)
      in if sgn (epochDay y - epochDay (addMonths x k)) = - s then k - s else k)"

lemma AddISODate_months:
  assumes "validDate x" "\<bar>year x\<bar> \<le> 2 ^ 40" "\<bar>o1\<bar> \<le> 2 ^ 48" "\<bar>n\<bar> \<le> 2 ^ 48"
  shows "AddISODate (year x) (month x) (day x) o1 n 0 0 Constrain = Inr (addMonths x (12 * o1 + n))"
  using assms AddISODate_constrain [of x o1 n 0 0] by simp

text \<open>The sign of the total, and how it splits into years and months.\<close>

lemma tdiv_tmod_unique:
  assumes "12 * q + r = k" "\<bar>r\<bar> \<le> 11" "0 \<le> q \<and> 0 \<le> r \<or> q \<le> 0 \<and> r \<le> 0"
  shows "tdiv k 12 = q" "tmod k 12 = r"
proof -
  have pos: "tdiv k 12 = q \<and> tmod k 12 = r" if "12 * q + r = k" "\<bar>r\<bar> \<le> 11" "0 \<le> q" "0 \<le> r" for q r k
  proof -
    have "k div 12 = q" using that by (intro int_div_pos_eq [where r = r]) auto
    moreover have "k mod 12 = r" using that by (intro int_mod_pos_eq [where q = q]) auto
    ultimately show ?thesis using that by simp
  qed
  have neg: "tdiv (- k) 12 = - tdiv k 12" "tmod (- k) 12 = - tmod k 12"
    by (auto simp: tdiv_def tmod_def)
  show "tdiv k 12 = q" "tmod k 12 = r"
    using assms pos [of q r k] pos [of "- q" "- r" "- k"] neg by auto
qed

lemma epochDay_sgn_month:
  assumes "validDate x" "validDate y"
  shows "monthIndex x < monthIndex y \<Longrightarrow> sgn (epochDay y - epochDay x) = 1"
    and "monthIndex y < monthIndex x \<Longrightarrow> sgn (epochDay y - epochDay x) = -1"
  using epochDay_less_month [of x y] epochDay_less_month [of y x] assms by simp_all

text \<open>
  The day count the code reads off from the last intermediate date, which is in the month
  of the target or next to it on the near side.
\<close>

lemma remainingDays:
  assumes c: "validDate c" and y: "validDate y"
    and near: "monthIndex c = monthIndex y \<or> s = (1::int) \<and> monthIndex y = monthIndex c + 1
      \<or> s = -1 \<and> monthIndex c = monthIndex y + 1"
  shows "(if month c = month y then day y - day c
          else if s < 0 then - day c - (ISODaysInMonth (year y) (month y) - day y)
          else day y + (ISODaysInMonth (year c) (month c) - day c)) = epochDay y - epochDay c"
  using near
proof (elim disjE conjE)
  assume "monthIndex c = monthIndex y"
  then show ?thesis using epochDay_same_month [OF c y] by simp
next
  assume "s = 1" "monthIndex y = monthIndex c + 1"
  then show ?thesis using epochDay_next_month [OF c y] by simp
next
  assume "s = -1" "monthIndex c = monthIndex y + 1"
  then show ?thesis using epochDay_next_month [OF y c] by simp
qed

text \<open>After the first correction the months are between 0 and 12 in the direction of the difference.\<close>

lemma firstCorrection:
  assumes x: "validDate x" and y: "validDate y"
    and s_def: "s = sgn (epochDay y - epochDay x)" and q_def: "q = year y - year x"
    and r_def: "r = month y - month x" and h_def: "h = sgn (epochDay y - epochDay (addMonths x (12 * q)))"
    and s: "s \<noteq> 0"
  obtains "h = 0" "r = 0" "0 \<le> s * q"
  | "h = s" "0 \<le> s * q" "0 \<le> s * r" "s * r \<le> 11"
  | "h = - s" "s * r < 0" "1 \<le> s * q"
  | "h = - s" "r = 0" "1 \<le> s * q"
proof -
  have m: "1 \<le> month x" "month x \<le> 12" "1 \<le> month y" "month y \<le> 12"
    using x y by (simp_all add: validDate_def)
  have mi: "monthIndex y - monthIndex (addMonths x (12 * q)) = r" "monthIndex y - monthIndex x = 12 * q + r"
    unfolding monthIndex_addMonths by (simp_all add: monthIndex_def q_def r_def)
  have r: "\<bar>r\<bar> \<le> 11" using m by (simp add: r_def)
  have pos: "r > 0 \<Longrightarrow> h = 1" "r < 0 \<Longrightarrow> h = -1"
    using mi(1) epochDay_sgn_month [of "addMonths x (12 * q)" y] x y by (simp_all add: h_def)
  have dir: "12 * q + r > 0 \<Longrightarrow> s = 1" "12 * q + r < 0 \<Longrightarrow> s = -1"
    using mi(2) epochDay_sgn_month [of x y] x y by (simp_all add: s_def)
  have s1: "s = 1 \<or> s = -1" using s by (auto simp: s_def sgn_if)
  have h1: "h = 1 \<or> h = -1 \<or> h = 0" by (auto simp: h_def sgn_if)
  have q0: "q = 0 \<Longrightarrow> h = s" using x by (simp add: h_def s_def)
  have sq: "0 \<le> s * q"
    using s1
  proof
    assume "s = 1"
    then have "\<not> 12 * q + r < 0" using dir by auto
    then show ?thesis using \<open>s = 1\<close> r by simp
  next
    assume "s = -1"
    then have "\<not> 12 * q + r > 0" using dir by auto
    then show ?thesis using \<open>s = -1\<close> r by simp
  qed
  have sq1: "h = - s \<Longrightarrow> 1 \<le> s * q" using q0 s sq s1 by (cases "q = 0") auto
  consider "h = 0" | "h = s" "h \<noteq> 0" | "h = - s" "h \<noteq> 0" using h1 s1 by auto
  then show ?thesis
  proof cases
    case 1
    then have "r = 0" using pos by (cases "r < 0"; cases "r > 0"; auto)
    then show ?thesis using 1 sq that(1) by blast
  next
    case 2
    have "0 \<le> s * r" "s * r \<le> 11" using 2 pos s1 r by (cases "r < 0"; cases "r > 0"; auto)+
    then show ?thesis using 2 sq that(2) by blast
  next
    case 3
    then have "s * r \<le> 0" using pos s1 by (cases "r < 0"; cases "r > 0"; auto)
    then have "s * r < 0 \<or> r = 0" using s1 by auto
    then show ?thesis using 3 sq1 that(3,4) by blast
  qed
qed

lemma DifferenceISODate_months:
  assumes x: "validDate x" and y: "validDate y" and b: "\<bar>year x\<bar> \<le> 2 ^ 40" "\<bar>year y\<bar> \<le> 2 ^ 40"
    and u: "u = Year \<or> u = Month"
  defines "k \<equiv> wholeMonths x y"
  shows "DifferenceISODate (year x) (month x) (day x) (year y) (month y) (day y) u
    = Inr (if u = Year then dateDuration (tdiv k 12) (tmod k 12) 0 (epochDay y - epochDay (addMonths x k))
           else dateDuration 0 k 0 (epochDay y - epochDay (addMonths x k)))"
proof -
  define s where "s = sgn (epochDay y - epochDay x)"
  define q where "q = year y - year x"
  define r where "r = month y - month x"
  define D where "D = 12 * q + r"
  have k: "k = (if sgn (epochDay y - epochDay (addMonths x D)) = - s then D - s else D)"
    by (simp add: k_def wholeMonths_def Let_def s_def D_def q_def r_def monthIndex_def algebra_simps)
  have m: "1 \<le> month x" "month x \<le> 12" "1 \<le> month y" "month y \<le> 12"
    using x y by (simp_all add: validDate_def)
  have qb: "\<bar>q\<bar> \<le> 2 ^ 41" and rb: "\<bar>r\<bar> \<le> 11" using b m by (auto simp: q_def r_def)
  note cmp = CompareISODate_epochDay [OF _ y]
  have minus: "- sgn (epochDay c - epochDay y) = sgn (epochDay y - epochDay c)" for c
    by (simp add: sgn_if)
  have sD: "monthIndex (addMonths x D) = monthIndex y"
    unfolding monthIndex_addMonths by (simp add: D_def q_def r_def monthIndex_def)
  show ?thesis
  proof (cases "s = 0")
    case True
    then have "x = y" using epochDay_inject [OF x y] by (simp add: s_def sgn_0_0)
    then show ?thesis using True u x
      by (auto simp: DifferenceISODate_def cmp x k D_def q_def r_def sgn_0_0 s_def)
  next
    case False
    have s1: "s = 1 \<or> s = -1" using False by (auto simp: s_def sgn_if)
    define h2 where "h2 = sgn (epochDay y - epochDay (addMonths x D))"
    have h2: "h2 = 1 \<or> h2 = -1 \<or> h2 = 0" by (auto simp: h2_def sgn_if)
    let ?res = "\<lambda>ys ms d. if u = Year then dateDuration ys ms 0 d else dateDuration 0 (ms + 12 * ys) 0 d"
    let ?tail = "\<lambda>ys ms. bindE (AddISODate (year x) (month x) (day x) ys ms 0 0 Constrain) (\<lambda>c.
        let h = - CompareISODate (year c) (month c) (day c) (year y) (month y) (day y)
        in if h = 0 then Inr (?res ys ms 0) else
        bindE (if h \<noteq> s then
                 let ms = ms - s;
                     (ys, ms) = (if ms = - s then (ys - s, 11 * s) else (ys, ms))
                 in bindE (AddISODate (year x) (month x) (day x) ys ms 0 0 Constrain) (\<lambda>c. Inr (c, ys, ms))
               else Inr (c, ys, ms)) (\<lambda>(c, ys, ms).
        let d = (if month c = month y then day y - day c
                 else if s < 0 then - day c - (ISODaysInMonth (year y) (month y) - day y)
                 else day y + (ISODaysInMonth (year c) (month c) - day c));
            (ys, ms) = (if u = Month then (0, ms + 12 * ys) else (ys, ms))
        in Inr (dateDuration ys ms 0 d)))"
    have out: "?res ys ms d = (if u = Year then dateDuration (tdiv k 12) (tmod k 12) 0 d else dateDuration 0 k 0 d)"
      if "12 * ys + ms = k" "0 \<le> s * ys" "0 \<le> s * ms" "s * ms \<le> 11" for ys ms d
      using that tdiv_tmod_unique [of ys ms k] s1 by auto
    have tail: "?tail ys ms = Inr (if u = Year
        then dateDuration (tdiv k 12) (tmod k 12) 0 (epochDay y - epochDay (addMonths x k))
        else dateDuration 0 k 0 (epochDay y - epochDay (addMonths x k)))"
      if t: "12 * ys + ms = D" "0 \<le> s * ys" "0 \<le> s * ms" "s * ms \<le> 12" "s * ys \<le> 2 ^ 42"
        "s * ms = 0 \<Longrightarrow> h2 \<noteq> - s" "s * ms = 12 \<Longrightarrow> h2 = - s" for ys ms
    proof -
      have add: "AddISODate (year x) (month x) (day x) ys ms 0 0 Constrain = Inr (addMonths x D)"
        using AddISODate_months [of x ys ms] x b t s1 by auto
      have c: "- CompareISODate (year (addMonths x D)) (month (addMonths x D)) (day (addMonths x D))
          (year y) (month y) (day y) = h2"
        by (simp add: cmp x minus h2_def)
      consider "h2 = 0" | "h2 = s" | "h2 = - s" using h2 s1 by auto
      then show ?thesis
      proof cases
        case 1
        then have kD: "k = D" using False by (simp add: k h2_def [symmetric])
        have e0: "epochDay y - epochDay (addMonths x D) = 0" using 1 by (simp add: h2_def sgn_0_0)
        have "s * ms \<le> 11" using t(4,7) 1 False by (cases "s * ms = 12") auto
        then have "?res ys ms 0 = (if u = Year then dateDuration (tdiv k 12) (tmod k 12) 0 0 else dateDuration 0 k 0 0)"
          using t kD by (intro out) auto
        then show ?thesis using 1 by (simp only: add bindE_Inr c Let_def simp_thms if_True kD e0)
      next
        case 2
        then have kD: "k = D" using False by (simp add: k h2_def [symmetric])
        have "s * ms \<le> 11" using t(4,7) 2 False by (cases "s * ms = 12") auto
        then have o: "?res ys ms (epochDay y - epochDay (addMonths x k)) = (if u = Year
            then dateDuration (tdiv k 12) (tmod k 12) 0 (epochDay y - epochDay (addMonths x k))
            else dateDuration 0 k 0 (epochDay y - epochDay (addMonths x k)))"
          using t kD by (intro out) auto
        note rd = remainingDays [OF validDate_addMonths [OF x] y disjI1 [OF sD]]
        show ?thesis
          using u o
          by (simp only: add bindE_Inr c 2 Let_def False simp_thms if_False prod.case rd kD) auto
      next
        case 3
        then have kD: "k = D - s" by (simp add: k h2_def [symmetric])
        have m1: "1 \<le> s * ms" using t(3,6) 3 by linarith
        then have ne: "ms - s \<noteq> - s" by auto
        have add': "AddISODate (year x) (month x) (day x) ys (ms - s) 0 0 Constrain = Inr (addMonths x k)"
        proof -
          have "12 * ys + (ms - s) = k" "\<bar>ys\<bar> \<le> 2 ^ 48" "\<bar>ms - s\<bar> \<le> 2 ^ 48"
            using t s1 kD by auto
          then show ?thesis using AddISODate_months [of x ys "ms - s"] x b by (simp only:)
        qed
        have near: "monthIndex (addMonths x k) = monthIndex y \<or> s = 1 \<and> monthIndex y = monthIndex (addMonths x k) + 1
            \<or> s = -1 \<and> monthIndex (addMonths x k) = monthIndex y + 1"
          using sD s1 by (auto simp: kD)
        have o: "?res ys (ms - s) (epochDay y - epochDay (addMonths x k)) = (if u = Year
            then dateDuration (tdiv k 12) (tmod k 12) 0 (epochDay y - epochDay (addMonths x k))
            else dateDuration 0 k 0 (epochDay y - epochDay (addMonths x k)))"
          using t(1,2,4) kD m1 s1 by (intro out) auto
        have "- s \<noteq> 0" "- s \<noteq> s" using False by auto
        then show ?thesis
          using u o
          by (simp only: add bindE_Inr c 3 Let_def simp_thms if_False if_True ne prod.case add'
              remainingDays [OF validDate_addMonths [OF x] y near]) auto
      qed
    qed
    define h where "h = sgn (epochDay y - epochDay (addMonths x (12 * q)))"
    have add1: "AddISODate (year x) (month x) (day x) q 0 0 0 Constrain = Inr (addMonths x (12 * q))"
      using AddISODate_months [of x q 0] x b qb by (simp add: q_def)
    have c1: "- CompareISODate (year (addMonths x (12 * q))) (month (addMonths x (12 * q)))
        (day (addMonths x (12 * q))) (year y) (month y) (day y) = h"
      by (simp add: cmp x minus h_def)
    have c0: "- CompareISODate (year x) (month x) (day x) (year y) (month y) (day y) = s"
      by (simp add: cmp x minus s_def)
    have start: "DifferenceISODate (year x) (month x) (day x) (year y) (month y) (day y) u
      = (if h = 0 then Inr (if u = Year then dateDuration q 0 0 0 else dateDuration 0 (12 * q) 0 0)
         else if h \<noteq> s then ?tail (q - s) (r + 12 * s) else ?tail q r)"
    proof -
      have uT: "(u = Year \<or> u = Month) = True" "(s = 0) = False" using u False by simp_all
      show ?thesis
        unfolding DifferenceISODate_def uT if_True c0 Let_def False if_False q_def [symmetric]
          r_def [symmetric] add1 bindE_Inr c1
        by (cases "h = 0"; cases "h \<noteq> s"; simp only: if_True if_False prod.case simp_thms)
    qed
    have qs: "s * q \<le> 2 ^ 41" using qb s1 by auto
    show ?thesis
    proof (rule firstCorrection [OF x y s_def q_def r_def h_def False])
      assume h: "h = 0" "r = 0" "0 \<le> s * q"
      then have kD: "k = 12 * q" "epochDay y - epochDay (addMonths x k) = 0"
        using False by (simp_all add: k D_def h_def [symmetric]) (simp add: h_def sgn_0_0)
      have t: "tdiv k 12 = q" "tmod k 12 = 0" using tdiv_tmod_unique [of q 0 k] kD h s1 by auto
      show ?thesis
        unfolding start h(1) kD(2) t kD(1) [symmetric] by (simp only: simp_thms if_True)
    next
      assume h: "h = s" "0 \<le> s * q" "0 \<le> s * r" "s * r \<le> 11"
      have "s * r = 0 \<Longrightarrow> h2 \<noteq> - s" using h(1) False by (simp add: h_def h2_def D_def)
      then show ?thesis using start h False tail [of q r] qs by (simp add: D_def)
    next
      assume h: "h = - s" "s * r < 0" "1 \<le> s * q"
      have ne: "(h = 0) = False" "(h = s) = False" using h(1) s1 by auto
      have "s * r \<ge> - 11" using rb s1 by auto
      then show ?thesis
        unfolding start ne if_False if_True not_False_eq_True
        using h qs s1 by (intro tail) (auto simp: D_def)
    next
      assume h: "h = - s" "r = 0" "1 \<le> s * q"
      have ne: "(h = 0) = False" "(h = s) = False" using h(1) s1 by auto
      have "h2 = - s" using h by (simp add: h_def h2_def D_def)
      then show ?thesis
        unfolding start ne if_False if_True not_False_eq_True
        using h qs s1 by (intro tail) (auto simp: D_def)
    qed
  qed
qed

text \<open>No larger number of months in the direction of the difference stays within it.\<close>

lemma wholeMonths_largest:
  assumes x: "validDate x" and y: "validDate y" and s: "s = sgn (epochDay y - epochDay x)" "s \<noteq> 0"
  shows "0 \<le> s * (epochDay y - epochDay (addMonths x (wholeMonths x y)))"
    and "s * (epochDay y - epochDay (addMonths x (wholeMonths x y + s))) < 0"
    and "0 \<le> s * wholeMonths x y"
proof -
  define D where "D = monthIndex y - monthIndex x"
  define h where "h = sgn (epochDay y - epochDay (addMonths x D))"
  have k: "wholeMonths x y = (if h = - s then D - s else D)"
    by (simp add: wholeMonths_def Let_def D_def h_def s(1))
  have s1: "s = 1 \<or> s = -1" using s by (auto simp: sgn_if)
  have h1: "h = 1 \<or> h = -1 \<or> h = 0" by (auto simp: h_def sgn_if)
  have before: "s * (epochDay y - epochDay (addMonths x (D - s))) > 0"
    using s1 epochDay_less_month [of "addMonths x (D - 1)" y] epochDay_less_month [of y "addMonths x (D + 1)"] x y
    by (auto simp: D_def)
  have after: "s * (epochDay y - epochDay (addMonths x (D + s))) < 0"
    using s1 epochDay_less_month [of "addMonths x (D - 1)" y] epochDay_less_month [of y "addMonths x (D + 1)"] x y
    by (auto simp: D_def)
  show "0 \<le> s * (epochDay y - epochDay (addMonths x (wholeMonths x y)))"
    using before s1 h1 by (auto simp: k h_def sgn_if split: if_splits)
  show "s * (epochDay y - epochDay (addMonths x (wholeMonths x y + s))) < 0"
    using after s1 h1 by (auto simp: k h_def sgn_if split: if_splits)
  have d: "0 < D \<Longrightarrow> s = 1" "D < 0 \<Longrightarrow> s = -1"
    using epochDay_sgn_month [OF x y] by (simp_all add: D_def s(1))
  have "D = 0 \<Longrightarrow> h = s" using x by (simp add: h_def s(1))
  then show "0 \<le> s * wholeMonths x y" using d s1
    by (cases D "0::int" rule: linorder_cases) (auto simp: k)
qed

lemma DayFromYear_size: "\<bar>y\<bar> \<le> 2 ^ 40 \<Longrightarrow> \<bar>DayFromYear y\<bar> \<le> 2 ^ 49 - 2 ^ 20"
proof -
  assume y: "\<bar>y\<bar> \<le> 2 ^ 40"
  have "4 * ((y - 1969) div 4) \<le> y - 1969" "y - 1969 < 4 * ((y - 1969) div 4) + 4"
    "100 * ((y - 1901) div 100) \<le> y - 1901" "y - 1901 < 100 * ((y - 1901) div 100) + 100"
    "400 * ((y - 1601) div 400) \<le> y - 1601" "y - 1601 < 400 * ((y - 1601) div 400) + 400"
    by (rule div_bounds; simp)+
  then show ?thesis using y by (simp add: DayFromYear_def abs_le_iff)
qed

lemma epochDay_size:
  assumes "validDate x" "\<bar>year x\<bar> \<le> 2 ^ 40"
  shows "\<bar>epochDay x\<bar> \<le> 2 ^ 49"
proof -
  have "\<bar>DayFromYear (year x)\<bar> \<le> 2 ^ 49 - 2 ^ 20" by (rule DayFromYear_size [OF assms(2)])
  moreover have "epochDay x < DayFromYear (year x) + 367"
    using validDate_year_bounds(2) [OF assms(1)] DayFromYear_Suc [of "year x"] DaysInYear_range(2) [of "year x"]
    by linarith
  moreover have "DayFromYear (year x) \<le> epochDay x" by (rule validDate_year_bounds(1) [OF assms(1)])
  ultimately show ?thesis by (simp add: abs_le_iff)
qed

lemma wholeMonths_bounds:
  assumes x: "validDate x" and y: "validDate y" and b: "\<bar>year x\<bar> < 2 ^ 40" "\<bar>year y\<bar> < 2 ^ 40"
  shows "\<bar>wholeMonths x y\<bar> \<le> 2 ^ 45"
    and "\<bar>epochDay y - epochDay (addMonths x (wholeMonths x y))\<bar> \<le> 2 ^ 50"
proof -
  define k where "k = wholeMonths x y"
  have m: "1 \<le> month x" "month x \<le> 12" "1 \<le> month y" "month y \<le> 12"
    using x y by (simp_all add: validDate_def)
  show "\<bar>wholeMonths x y\<bar> \<le> 2 ^ 45"
    using b m by (auto simp: wholeMonths_def Let_def monthIndex_def sgn_if)
  have "\<bar>monthIndex (addMonths x k) - monthIndex y\<bar> \<le> 1"
    by (auto simp: k_def wholeMonths_def Let_def sgn_if)
  moreover have "1 \<le> month (addMonths x k)" "month (addMonths x k) \<le> 12"
    using validDate_addMonths [OF x, of k] by (simp_all add: validDate_def)
  ultimately have "\<bar>year (addMonths x k)\<bar> \<le> \<bar>year y\<bar> + 1"
    using m(3,4) unfolding monthIndex_def by linarith
  then have "\<bar>year (addMonths x k)\<bar> \<le> 2 ^ 40" using b(2) by simp
  then show "\<bar>epochDay y - epochDay (addMonths x (wholeMonths x y))\<bar> \<le> 2 ^ 50"
    using epochDay_size [OF y less_imp_le [OF b(2)]] epochDay_size [of "addMonths x k"] x
    by (simp add: abs_le_iff k_def)
qed

lemma tdiv_tmod_sgn:
  assumes m: "0 < m"
  shows "tdiv k m = 0 \<or> sgn (tdiv k m) = sgn k" "tmod k m = 0 \<or> sgn (tmod k m) = sgn k"
    "\<bar>tdiv k m\<bar> \<le> \<bar>k\<bar>" "\<bar>tmod k m\<bar> \<le> \<bar>k\<bar>"
proof -
  have d: "a div m \<le> a" "a mod m \<le> a" "0 \<le> a div m" "0 \<le> a mod m" if "0 \<le> a" for a
    using that m div_le_dividend [of "nat a" "nat m"] zmod_le_nonneg_dividend [of a m]
    by (simp_all add: pos_imp_zdiv_nonneg_iff nat_div_distrib [symmetric])
  have e: "(if 0 \<le> k then 1 else -1) * (\<bar>k\<bar> div m) = tdiv k m"
    "(if 0 \<le> k then 1 else -1) * (\<bar>k\<bar> mod m) = tmod k m"
    using m by (simp_all add: tdiv_neg tmod_neg)
  define q r where "q = \<bar>k\<bar> div m" and "r = \<bar>k\<bar> mod m"
  have "q \<le> \<bar>k\<bar>" "r \<le> \<bar>k\<bar>" "0 \<le> q" "0 \<le> r" using d [of "\<bar>k\<bar>"] by (simp_all add: q_def r_def)
  then have *: "(tdiv k m = 0 \<or> sgn (tdiv k m) = sgn k) \<and> (tmod k m = 0 \<or> sgn (tmod k m) = sgn k)
    \<and> \<bar>tdiv k m\<bar> \<le> \<bar>k\<bar> \<and> \<bar>tmod k m\<bar> \<le> \<bar>k\<bar>"
    unfolding e [symmetric, folded q_def r_def] by (auto simp: sgn_if)
  show "tdiv k m = 0 \<or> sgn (tdiv k m) = sgn k" "tmod k m = 0 \<or> sgn (tmod k m) = sgn k"
    "\<bar>tdiv k m\<bar> \<le> \<bar>k\<bar>" "\<bar>tmod k m\<bar> \<le> \<bar>k\<bar>"
    using * by simp_all
qed

text \<open>Adding the difference of two dates to the first gives the second, whatever the largest unit.\<close>

lemma AddISODate_DifferenceISODate:
  assumes x: "validDate x" and y: "validDate y" and b: "\<bar>year x\<bar> < 2 ^ 40" "\<bar>year y\<bar> < 2 ^ 40"
    and u: "u \<in> {Year, Month, Week, Day}"
  shows "bindE (DifferenceISODate (year x) (month x) (day x) (year y) (month y) (day y) u)
      (\<lambda>d. AddISODate (year x) (month x) (day x) (years d) (months d) (weeks d) (days d) Constrain) = Inr y"
proof -
  let ?d = "epochDay y - epochDay x"
  have e: "\<bar>?d\<bar> \<le> 2 ^ 50" "\<bar>?d\<bar> < 2 ^ 53"
    using epochDay_size [OF x less_imp_le [OF b(1)]] epochDay_size [OF y less_imp_le [OF b(2)]] by simp_all
  show ?thesis
  proof (cases "u = Week \<or> u = Day")
    case True
    have add: "AddISODate (year x) (month x) (day x) 0 0 a i Constrain = Inr y"
      if "\<bar>a\<bar> \<le> 2 ^ 50" "\<bar>i\<bar> \<le> 2 ^ 50" "a * 7 + i = ?d" for a i
    proof -
      have "epochDay x + 7 * a + i = epochDay y" using that by simp
      moreover have "\<bar>7 * a + i\<bar> \<le> 2 ^ 50" using e that by (simp add: mult.commute)
      ultimately show ?thesis using AddISODate_constrain [of x 0 0 a i] x y b that(1,2) by simp
    qed
    show ?thesis
      using True e add [OF _ _ tdiv_tmod [of ?d 7]] add [of 0 ?d] tdiv_tmod_sgn(3,4) [of 7 ?d]
        DifferenceISODate_week_day [OF x y, of u]
      by (cases "u = Week") simp_all
  next
    case False
    define k where "k = wholeMonths x y"
    note kb = wholeMonths_bounds [OF x y b, folded k_def]
    have add: "AddISODate (year x) (month x) (day x) p m 0 (epochDay y - epochDay (addMonths x k)) Constrain = Inr y"
      if "\<bar>p\<bar> \<le> 2 ^ 48" "\<bar>m\<bar> \<le> 2 ^ 48" "p * 12 + m = k" for p m
      using AddISODate_constrain [OF x less_imp_le [OF b(1)] that(1,2), of 0] kb y that(3)
      by (simp add: mult.commute)
    show ?thesis
      using DifferenceISODate_months [OF x y less_imp_le [OF b(1)] less_imp_le [OF b(2)], of u, folded k_def]
        False u kb(1) add [OF _ _ tdiv_tmod [of k 12]] add [of 0 k] tdiv_tmod_sgn(3,4) [of 12 k] by auto
  qed
qed

section \<open>A loop that does not end\<close>

text \<open>
  When the numbers are so large that subtracting a year's length does not change them, a
  year loop repeats the same state.
\<close>

lemma yearsUp_stuck:
  assumes "a > (if LeapYear (Some l) then 366 else 365)"
    and "nadd y 1 = y" "nadd l 1 = l" "nsub a (if LeapYear (Some l) then 366 else 365) = a"
  shows "yearsUp y l a = None"
proof -
  have "\<not> (y' = y \<and> l' = l \<and> a' = a)" if "yearsUp y' l' a' = Some r" for y' l' a' r
    by (rule yearsUp.raw_induct [where P = "\<lambda>y' l' a' r. \<not> (y' = y \<and> l' = l \<and> a' = a)", OF _ that])
      (use assms in \<open>fastforce simp: Let_def split: if_splits\<close>)
  then show ?thesis by (cases "yearsUp y l a") blast+
qed

lemma yearsDown_stuck:
  assumes "a < - (if LeapYear (Some l) then 366 else 365)"
    and "nsub y 1 = y" "nsub l 1 = l" "nadd a (if LeapYear (Some l) then 366 else 365) = a"
  shows "yearsDown y l a = None"
proof -
  have "\<not> (y' = y \<and> l' = l \<and> a' = a)" if "yearsDown y' l' a' = Some r" for y' l' a' r
    by (rule yearsDown.raw_induct [where P = "\<lambda>y' l' a' r. \<not> (y' = y \<and> l' = l \<and> a' = a)", OF _ that])
      (use assms in \<open>fastforce simp: Let_def split: if_splits\<close>)
  then show ?thesis by (cases "yearsDown y l a") blast+
qed

text \<open>Adding 2^200 days: the numbers the loop starts from.\<close>

lemma hugeDays_start:
  "nadd 1970 0 = 1970" "nadd 1 0 = 1" "BalanceISOYearMonth 1970 1 = Inr \<lparr>ymYear = 1970, ymMonth = 1\<rparr>"
  "nadd (2 ^ 200) (nmul 7 0) = 2 ^ 200" "nadd 1 (2 ^ 200) = 2 ^ 200" "isFinite (2 ^ 200)"
  "ConstrainISODate 1970 1 1 = \<lparr>year = 1970, month = 1, day = 1\<rparr>"
  by code_simp+

definition hugeCycles :: int where
  "hugeCycles = 10999117327932744570451091637091424014304925274213449728"

definition hugeYear :: int where
  "hugeYear = 4399646931173097632177793308376014650818196228986890092544"

definition hugeRest :: int where
  "hugeRest = 178405961588244985132285746181186892047843328"

lemma hugeDays_cycles:
  "truncQuot (2 ^ 200) 146097 = hugeCycles"
  "nadd 1970 (nmul 400 hugeCycles) = hugeYear"
  "nsub (2 ^ 200) (nmul hugeCycles 146097) = hugeRest"
  by code_simp+

lemma hugeDays_fixed:
  "nsub hugeYear 1 = hugeYear" "nadd hugeYear 1 = hugeYear"
  "nsub hugeRest 365 = hugeRest" "nsub hugeRest 366 = hugeRest"
  by code_simp+

lemma hugeDays_loops:
  "yearsDown hugeYear hugeYear hugeRest = Some (hugeYear, hugeYear, hugeRest)"
  "yearsUp hugeYear hugeYear hugeRest = None"
proof -
  have r: "366 < hugeRest" by (simp add: hugeRest_def)
  show "yearsDown hugeYear hugeYear hugeRest = Some (hugeYear, hugeYear, hugeRest)"
    using r by (subst yearsDown.simps) simp
  show "yearsUp hugeYear hugeYear hugeRest = None"
    using r by (intro yearsUp_stuck) (simp_all add: hugeDays_fixed)
qed

lemma BalanceISODate_no_return: "BalanceISODate 1970 1 (2 ^ 200) = Inl NoReturn"
proof -
  have big: "(146097 < \<bar>2 ^ 200 :: int\<bar>) = True" "((1::int) > 2) = False" by simp_all
  show ?thesis
    unfolding BalanceISODate_def Let_def hugeDays_start hugeDays_cycles big
    by (simp only: hugeDays_start not_True_eq_False throwIf_simps bindE_Inr iso_year_month.simps if_True if_False big
        prod.case hugeDays_cycles hugeDays_fixed hugeDays_loops returned_simps bindE_Inl)
qed

section \<open>The properties of addition and difference\<close>

text \<open>C14: adding a duration moves the month index, clamps the day to the new month and then
  moves the day number by the weeks and days; with \<^verbatim>\<open>overflow: "reject"\<close> a day the new month
  does not have is a RangeError.\<close>

theorem AddISODate_spec:
  assumes "validDate x" "\<bar>year x\<bar> \<le> 2 ^ 40" "\<bar>o1\<bar> \<le> 2 ^ 48" "\<bar>n\<bar> \<le> 2 ^ 48"
    "\<bar>a\<bar> \<le> 2 ^ 50" "\<bar>i\<bar> \<le> 2 ^ 50" "\<bar>7 * a + i\<bar> \<le> 2 ^ 50"
  shows "AddISODate (year x) (month x) (day x) o1 n a i ov =
    (let z = addMonths x (12 * o1 + n)
     in if ov = Reject \<and> day z < day x then Inl RangeError else Inr (dateOfDay (epochDay z + 7 * a + i)))"
proof (cases ov)
  case Constrain
  then show ?thesis using AddISODate_constrain [OF assms] by (simp add: Let_def)
next
  case Reject
  then show ?thesis using AddISODate_reject [OF assms] AddISODate_constrain [OF assms] by (simp add: Let_def)
qed

theorem AddISODate_spec_witness:
  "AddISODate 2024 1 31 0 1 0 0 Reject = Inl RangeError"
  using AddISODate_spec [of "\<lparr>year = 2024, month = 1, day = 31\<rparr>" 0 1 0 0 Reject]
  by (simp add: validDate_def addMonths_def monthIndex_def ISODaysInMonth_def LeapYear_def Let_def)

text \<open>C13: with largest unit year or month the difference counts as many whole months as fit
  before the target is passed, all its fields have the sign of the difference, the months
  stay below 12 when years are counted, and the days are what is left.\<close>

theorem DifferenceISODate_largest:
  assumes x: "validDate x" and y: "validDate y" and b: "\<bar>year x\<bar> \<le> 2 ^ 40" "\<bar>year y\<bar> \<le> 2 ^ 40"
    and u: "u \<in> {Year, Month}" and s: "s = sgn (epochDay y - epochDay x)" "s \<noteq> 0"
  obtains d where
    "DifferenceISODate (year x) (month x) (day x) (year y) (month y) (day y) u = Inr d"
    "weeks d = 0" "u = Month \<Longrightarrow> years d = 0" "u = Year \<Longrightarrow> \<bar>months d\<bar> < 12"
    "0 \<le> s * years d" "0 \<le> s * months d" "0 \<le> s * days d"
    "epochDay (addMonths x (12 * years d + months d)) + days d = epochDay y"
    "s * (epochDay y - epochDay (addMonths x (12 * years d + months d + s))) < 0"
proof -
  define k where "k = wholeMonths x y"
  have r: "- 12 < tmod k 12" "tmod k 12 < 12" by (rule tmod_bounds; simp)+
  have tt: "12 * tdiv k 12 + tmod k 12 = k" using tdiv_tmod [of k 12] by simp
  have L: "0 \<le> s * (epochDay y - epochDay (addMonths x k))"
    "s * (epochDay y - epochDay (addMonths x (k + s))) < 0" "0 \<le> s * k"
    unfolding k_def using wholeMonths_largest [OF x y s] by simp_all
  have s1: "s = 1 \<or> s = -1" using s by (auto simp: sgn_if)
  have sg: "0 \<le> s * tdiv k 12" "0 \<le> s * tmod k 12"
    using s1 L(3) by (cases "k < 0"; auto simp: tdiv_neg tmod_neg pos_imp_zdiv_nonneg_iff)+
  show thesis
    using that [OF DifferenceISODate_months [OF x y b, of u, folded k_def]] u r tt L sg
    by (cases "u = Year") (auto simp: algebra_simps)
qed

theorem DifferenceISODate_largest_witness:
  "\<exists>d. DifferenceISODate 2024 1 31 2021 2 28 Year = Inr d \<and> 0 \<le> - months d
    \<and> epochDay (addMonths \<lparr>year = 2024, month = 1, day = 31\<rparr> (12 * years d + months d)) + days d
      = epochDay \<lparr>year = 2021, month = 2, day = 28\<rparr>"
proof -
  have e: "epochDay \<lparr>year = 2024, month = 1, day = 31\<rparr> = 19753"
    "epochDay \<lparr>year = 2021, month = 2, day = 28\<rparr> = 18686"
    by code_simp+
  show ?thesis
    by (rule DifferenceISODate_largest [of "\<lparr>year = 2024, month = 1, day = 31\<rparr>"
        "\<lparr>year = 2021, month = 2, day = 28\<rparr>" Year "-1"])
      (auto simp: validDate_def ISODaysInMonth_def LeapYear_def e)
qed

text \<open>C17: adding 2^200 days, a finite Number, to a date never returns: the year loop of
  \<^verbatim>\<open>BalanceISODate\<close> reaches Numbers that subtracting a year's length does not change.\<close>

theorem AddISODate_no_return: "AddISODate 1970 1 1 0 0 0 (2 ^ 200) Constrain = Inl NoReturn"
  unfolding AddISODate_def Let_def
  by (simp only: hugeDays_start bindE_Inr iso_year_month.simps RegulateISODate_def overflow.case
      iso_date.simps BalanceISODate_no_return)

end
