(* ===== verification/Duration_Balance.thy ===== *)
theory Duration_Balance imports Epoch Iso_Difference begin

text \<open>
  Durations of \<^verbatim>\<open>temporal-polyfill.js\<close> without a reference point: the constructor's checks, the
  total of the day and time fields in nanoseconds, and the redistribution of that total
  over the units below a largest unit (\<^verbatim>\<open>BalanceDuration\<close> with no \<open>relativeTo\<close>).
\<close>

section \<open>Definitions\<close>

abbreviation mkDuration ::
  "int \<Rightarrow> int \<Rightarrow> int \<Rightarrow> int \<Rightarrow> int \<Rightarrow> int \<Rightarrow> int \<Rightarrow> int \<Rightarrow> int \<Rightarrow> int \<Rightarrow> duration" where
  "mkDuration y mo w d h mi s ms us ns \<equiv>
     \<lparr>years = y, months = mo, weeks = w, days = d, hours = h, minutes = mi, seconds = s,
      milliseconds = ms, microseconds = us, nanoseconds = ns\<rparr>"

text \<open>\<^verbatim>\<open>new Temporal.Duration(...)\<close> on integers.\<close>

definition CreateDuration ::
  "int \<Rightarrow> int \<Rightarrow> int \<Rightarrow> int \<Rightarrow> int \<Rightarrow> int \<Rightarrow> int \<Rightarrow> int \<Rightarrow> int \<Rightarrow> int \<Rightarrow> duration result" where
  "CreateDuration y mo w d h mi s ms us ns =
     bindE (RejectDuration y mo w d h mi s ms us ns) (\<lambda>_. Inr (mkDuration y mo w d h mi s ms us ns))"

definition CreateNegatedTemporalDuration :: "duration \<Rightarrow> duration result" where
  "CreateNegatedTemporalDuration e =
     CreateDuration (- years e) (- months e) (- weeks e) (- days e) (- hours e) (- minutes e)
       (- seconds e) (- milliseconds e) (- microseconds e) (- nanoseconds e)"

definition TotalDurationNanoseconds ::
  "int \<Rightarrow> int \<Rightarrow> int \<Rightarrow> int \<Rightarrow> int \<Rightarrow> int \<Rightarrow> int \<Rightarrow> int \<Rightarrow> int" where
  "TotalDurationNanoseconds t r o1 n a i s l =
     (let d = t;
          m = (if t \<noteq> 0 then s - l else s);
          c = r + d * 24;
          h = o1 + c * 60;
          u = n + h * 60;
          T = a + u * 1000;
          p = i + T * 1000
      in m + p * 1000)"

record ns_days =
  ndDays :: int
  ndNanoseconds :: int
  ndDayLength :: int

definition NanosecondsToDaysPlain :: "int \<Rightarrow> ns_days" where
  "NanosecondsToDaysPlain t =
     (let a = sgn (toNumber t)
      in if a = 0 then \<lparr>ndDays = 0, ndNanoseconds = 0, ndDayLength = nsPerDay\<rparr>
         else let (q, f) = divmodBI t nsPerDay
              in \<lparr>ndDays = toNumber q, ndNanoseconds = f, ndDayLength = nsPerDay\<rparr>)"

record balanced =
  bDays :: int
  bHours :: int
  bMinutes :: int
  bSeconds :: int
  bMilliseconds :: int
  bMicroseconds :: int
  bNanoseconds :: int

datatype 'a possibly_infinite = PositiveOverflow | NegativeOverflow | Finite 'a

text \<open>The switch on the largest unit: hours, minutes, seconds and the three small units.\<close>

definition splitNs :: "int \<Rightarrow> tunit \<Rightarrow> int \<times> int \<times> int \<times> int \<times> int \<times> int" where
  "splitNs c d =
     (if d \<in> {Year, Month, Week, Day, Hour} then
        let (h, c) = divmodBI c 1000; (u, h) = divmodBI h 1000; (T, u) = divmodBI u 1000;
            (f, T) = divmodBI T 60; (y, f) = divmodBI f 60
        in (y, f, T, u, h, c)
      else if d = Minute then
        let (h, c) = divmodBI c 1000; (u, h) = divmodBI h 1000; (T, u) = divmodBI u 1000;
            (f, T) = divmodBI T 60
        in (0, f, T, u, h, c)
      else if d = Second then
        let (h, c) = divmodBI c 1000; (u, h) = divmodBI h 1000; (T, u) = divmodBI u 1000
        in (0, 0, T, u, h, c)
      else if d = Millisecond then
        let (h, c) = divmodBI c 1000; (u, h) = divmodBI h 1000
        in (0, 0, 0, u, h, c)
      else if d = Microsecond then
        let (h, c) = divmodBI c 1000 in (0, 0, 0, 0, h, c)
      else (0, 0, 0, 0, 0, c))"

text \<open>From the switch on: the days are settled, \<open>c\<close> is what remains.\<close>

definition BalanceRemainder :: "int \<Rightarrow> int \<Rightarrow> tunit \<Rightarrow> balanced possibly_infinite" where
  "BalanceRemainder I c d =
     (let w = (if c < 0 then -1 else 1);
          (y, f, T, u, h, c) = splitNs (absBI c) d;
          D = toNumber y * w; G = toNumber f * w; v = toNumber T * w; C = toNumber u * w;
          O1 = toNumber h * w; b = toNumber c * w
      in if list_all isFinite [I, D, G, v, C, O1, b]
         then Finite \<lparr>bDays = I, bHours = D, bMinutes = G, bSeconds = v, bMilliseconds = C,
                      bMicroseconds = O1, bNanoseconds = b\<rparr>
         else if w = 1 then PositiveOverflow else NegativeOverflow)"

definition BalancePossiblyInfiniteDurationPlain ::
  "int \<Rightarrow> int \<Rightarrow> int \<Rightarrow> int \<Rightarrow> int \<Rightarrow> int \<Rightarrow> int \<Rightarrow> tunit \<Rightarrow> balanced possibly_infinite" where
  "BalancePossiblyInfiniteDurationPlain t r o1 a i s l d =
     (let c = TotalDurationNanoseconds t r o1 a i s l 0
      in if d \<in> {Year, Month, Week, Day}
         then let n = NanosecondsToDaysPlain c in BalanceRemainder (ndDays n) (ndNanoseconds n) d
         else BalanceRemainder 0 c d)"

definition finiteOrThrow :: "'a possibly_infinite \<Rightarrow> 'a result" where
  "finiteOrThrow d = (case d of PositiveOverflow \<Rightarrow> Inl RangeError | NegativeOverflow \<Rightarrow> Inl RangeError
     | Finite x \<Rightarrow> Inr x)"

definition BalanceDurationPlain ::
  "int \<Rightarrow> int \<Rightarrow> int \<Rightarrow> int \<Rightarrow> int \<Rightarrow> int \<Rightarrow> int \<Rightarrow> tunit \<Rightarrow> balanced result" where
  "BalanceDurationPlain t r o1 a i s l d =
     finiteOrThrow (BalancePossiblyInfiniteDurationPlain t r o1 a i s l d)"

section \<open>Totals\<close>

definition balancedNs :: "balanced \<Rightarrow> int" where
  "balancedNs b = bDays b * nsPerDay
     + fieldsNs (bHours b) (bMinutes b) (bSeconds b) (bMilliseconds b) (bMicroseconds b) (bNanoseconds b)"

lemma TotalDurationNanoseconds_eq:
  "TotalDurationNanoseconds t r o1 n a i s 0 = t * nsPerDay + fieldsNs r o1 n a i s"
  by (simp add: TotalDurationNanoseconds_def fieldsNs_def nsPerDay_def Let_def)

text \<open>The unit the largest field counts.\<close>

definition topNs :: "tunit \<Rightarrow> int" where
  "topNs d = (case unitNs d of Some u \<Rightarrow> u | None \<Rightarrow> nsPerDay)"

text \<open>How many digits are split off depends on the unit.\<close>

lemma splitNs_digits:
  assumes "0 \<le> c"
  shows "d \<in> {Year, Month, Week, Day, Hour} \<Longrightarrow> splitNs c d = (c div 3600000000000, c div 60000000000 mod 60,
      c div 1000000000 mod 60, c div 1000000 mod 1000, c div 1000 mod 1000, c mod 1000)"
    and "splitNs c Minute = (0, c div 60000000000, c div 1000000000 mod 60, c div 1000000 mod 1000,
      c div 1000 mod 1000, c mod 1000)"
    and "splitNs c Second = (0, 0, c div 1000000000, c div 1000000 mod 1000, c div 1000 mod 1000, c mod 1000)"
    and "splitNs c Millisecond = (0, 0, 0, c div 1000000, c div 1000 mod 1000, c mod 1000)"
    and "splitNs c Microsecond = (0, 0, 0, 0, c div 1000, c mod 1000)"
    and "splitNs c Nanosecond = (0, 0, 0, 0, 0, c)"
proof -
  have p: "divmodBI c 1000 = (c div 1000, c mod 1000)"
    "divmodBI (c div 1000) 1000 = (c div 1000000, c div 1000 mod 1000)"
    "divmodBI (c div 1000000) 1000 = (c div 1000000000, c div 1000000 mod 1000)"
    "divmodBI (c div 1000000000) 60 = (c div 60000000000, c div 1000000000 mod 60)"
    "divmodBI (c div 60000000000) 60 = (c div 3600000000000, c div 60000000000 mod 60)"
  proof -
    have d: "divmodBI (c div k) m = (c div j, c div k mod m)" if "0 < k" "0 < m" "k * m = j" for k m j
      using that assms digits(1) [of m k c] by (simp add: divmodBI_def pos_imp_zdiv_nonneg_iff)
    show "divmodBI c 1000 = (c div 1000, c mod 1000)" using assms by (simp add: divmodBI_def)
    show "divmodBI (c div 1000) 1000 = (c div 1000000, c div 1000 mod 1000)" by (rule d) simp_all
    show "divmodBI (c div 1000000) 1000 = (c div 1000000000, c div 1000000 mod 1000)" by (rule d) simp_all
    show "divmodBI (c div 1000000000) 60 = (c div 60000000000, c div 1000000000 mod 60)" by (rule d) simp_all
    show "divmodBI (c div 60000000000) 60 = (c div 3600000000000, c div 60000000000 mod 60)" by (rule d) simp_all
  qed
  note D = splitNs_def Let_def p prod.case
  show "d \<in> {Year, Month, Week, Day, Hour} \<Longrightarrow> splitNs c d = (c div 3600000000000, c div 60000000000 mod 60,
      c div 1000000000 mod 60, c div 1000000 mod 1000, c div 1000 mod 1000, c mod 1000)"
    by (simp only: D if_True)
  show "splitNs c Minute = (0, c div 60000000000, c div 1000000000 mod 60, c div 1000000 mod 1000,
      c div 1000 mod 1000, c mod 1000)"
    "splitNs c Second = (0, 0, c div 1000000000, c div 1000000 mod 1000, c div 1000 mod 1000, c mod 1000)"
    "splitNs c Millisecond = (0, 0, 0, c div 1000000, c div 1000 mod 1000, c mod 1000)"
    "splitNs c Microsecond = (0, 0, 0, 0, c div 1000, c mod 1000)"
    "splitNs c Nanosecond = (0, 0, 0, 0, 0, c)"
    by (simp_all only: D insert_iff empty_iff tunit.distinct simp_thms if_False if_True)
qed

lemma splitNs_sum:
  assumes c: "0 \<le> c" and s: "splitNs c d = (y, f, T, u, h, n)"
  shows "fieldsNs y f T u h n = c"
proof -
  note m = digits(2) [of 60 60000000000 c, simplified] digits(2) [of 60 1000000000 c, simplified]
    digits(2) [of 1000 1000000 c, simplified] digits(2) [of 1000 1000 c, simplified] div_mult_mod_eq
  consider "d \<in> {Year, Month, Week, Day, Hour}" | "d = Minute" | "d = Second" | "d = Millisecond"
    | "d = Microsecond" | "d = Nanosecond"
    by (cases d) auto
  then show ?thesis
  proof cases
    case 1
    then show ?thesis using s by (simp only: splitNs_digits(1) [OF c] prod.inject) (elim conjE, hypsubst, simp only: fieldsNs_def m)
  next
    case 2
    show ?thesis using s unfolding 2 by (simp only: splitNs_digits [OF c] prod.inject) (elim conjE, hypsubst, simp only: fieldsNs_def m mult_zero_left add_0)
  next
    case 3
    show ?thesis using s unfolding 3 by (simp only: splitNs_digits [OF c] prod.inject) (elim conjE, hypsubst, simp only: fieldsNs_def m mult_zero_left add_0)
  next
    case 4
    show ?thesis using s unfolding 4 by (simp only: splitNs_digits [OF c] prod.inject) (elim conjE, hypsubst, simp only: fieldsNs_def m mult_zero_left add_0)
  next
    case 5
    show ?thesis using s unfolding 5 by (simp only: splitNs_digits [OF c] prod.inject) (elim conjE, hypsubst, simp only: fieldsNs_def m mult_zero_left add_0)
  next
    case 6
    show ?thesis using s unfolding 6 by (simp only: splitNs_digits [OF c] prod.inject) (elim conjE, hypsubst, simp only: fieldsNs_def m mult_zero_left add_0)
  qed
qed

text \<open>The unit of the largest time field, hours at most.\<close>

definition topTimeNs :: "tunit \<Rightarrow> int" where
  "topTimeNs d = (if d \<in> {Year, Month, Week, Day} then 3600000000000 else the (unitNs d))"

lemma splitNs_bounds:
  assumes c: "0 \<le> c" "c \<le> 2 ^ 53 * topTimeNs d" and s: "splitNs c d = (y, f, T, u, h, n)"
  shows "\<forall>x \<in> {y, f, T, u, h, n}. 0 \<le> x \<and> x \<le> 2 ^ 53"
proof -
  have b: "0 \<le> c div topTimeNs d" "c div topTimeNs d \<le> 2 ^ 53" and t: "0 < topTimeNs d"
  proof -
    show t: "0 < topTimeNs d" by (cases d) (simp_all add: topTimeNs_def unitNs_def)
    show "0 \<le> c div topTimeNs d" using c t by (simp add: pos_imp_zdiv_nonneg_iff)
    have "c div topTimeNs d \<le> (2 ^ 53 * topTimeNs d) div topTimeNs d" using c t by (intro zdiv_mono1) simp_all
    then show "c div topTimeNs d \<le> 2 ^ 53" using t by simp
  qed
  have m: "0 \<le> a mod 60" "0 \<le> a mod 1000" "a mod 60 \<le> 2 ^ 53" "a mod 1000 \<le> 2 ^ 53" "(0::int) \<le> 0" "(0::int) \<le> 2 ^ 53"
    for a :: int
    by (simp_all add: order_trans [OF mod_upper [of 60 60]] order_trans [OF mod_upper [of 1000 1000]])
  consider "d \<in> {Year, Month, Week, Day, Hour}" | "d = Minute" | "d = Second" | "d = Millisecond"
    | "d = Microsecond" | "d = Nanosecond"
    by (cases d) auto
  then show ?thesis
  proof cases
    case 1
    then have e: "topTimeNs d = 3600000000000" by (auto simp: topTimeNs_def unitNs_def)
    show ?thesis using s [symmetric] unfolding splitNs_digits(1) [OF c(1) 1] prod.inject
      by (elim conjE) (simp only: ball_simps m b [unfolded e] simp_thms)
  next
    case 2
    have e: "topTimeNs d = 60000000000" by (simp add: 2 topTimeNs_def unitNs_def)
    show ?thesis using s [symmetric] unfolding 2 splitNs_digits [OF c(1)] prod.inject
      by (elim conjE) (simp only: ball_simps m b [unfolded e] simp_thms)
  next
    case 3
    have e: "topTimeNs d = 1000000000" by (simp add: 3 topTimeNs_def unitNs_def)
    show ?thesis using s [symmetric] unfolding 3 splitNs_digits [OF c(1)] prod.inject
      by (elim conjE) (simp only: ball_simps m b [unfolded e] simp_thms)
  next
    case 4
    have e: "topTimeNs d = 1000000" by (simp add: 4 topTimeNs_def unitNs_def)
    show ?thesis using s [symmetric] unfolding 4 splitNs_digits [OF c(1)] prod.inject
      by (elim conjE) (simp only: ball_simps m b [unfolded e] simp_thms)
  next
    case 5
    have e: "topTimeNs d = 1000" by (simp add: 5 topTimeNs_def unitNs_def)
    show ?thesis using s [symmetric] unfolding 5 splitNs_digits [OF c(1)] prod.inject
      by (elim conjE) (simp only: ball_simps m b [unfolded e] simp_thms)
  next
    case 6
    have e: "topTimeNs d = 1" by (simp add: 6 topTimeNs_def unitNs_def)
    show ?thesis using s [symmetric] unfolding 6 splitNs_digits [OF c(1)] prod.inject
      by (elim conjE) (simp only: ball_simps m b [unfolded e div_by_1] simp_thms)
  qed
qed

text \<open>Within the range of exact Numbers nothing is lost and all fields have the sign of the total.\<close>

lemma BalanceRemainder_exact:
  assumes I: "isFinite I" and c: "\<bar>c\<bar> \<le> 2 ^ 53 * topTimeNs d"
  obtains b where "BalanceRemainder I c d = Finite b" "bDays b = I"
    "fieldsNs (bHours b) (bMinutes b) (bSeconds b) (bMilliseconds b) (bMicroseconds b) (bNanoseconds b) = c"
    "\<forall>f \<in> {bHours, bMinutes, bSeconds, bMilliseconds, bMicroseconds, bNanoseconds}.
      \<bar>f b\<bar> \<le> 2 ^ 53 \<and> (f b = 0 \<or> sgn (f b) = sgn c)"
proof -
  obtain y f T u h n where s: "splitNs \<bar>c\<bar> d = (y, f, T, u, h, n)" by (metis prod_cases6)
  define w :: int where "w = (if c < 0 then -1 else 1)"
  have w: "w * \<bar>c\<bar> = c" "w = 1 \<or> w = -1" by (auto simp: w_def)
  note sum = splitNs_sum [OF abs_ge_zero s]
  note bd = splitNs_bounds [OF abs_ge_zero c s]
  have t: "toNumber x = x" if "x \<in> {y, f, T, u, h, n}" for x
    using bd that by (intro toNumber_safe) (metis abs_of_nonneg)
  have ab: "\<bar>x * w\<bar> \<le> 2 ^ 53" if "x \<in> {y, f, T, u, h, n}" for x
    using bd that w(2) by (metis abs_minus_cancel abs_of_nonneg mult.right_neutral mult_minus1_right)
  have sg: "x * w = 0 \<or> sgn (x * w) = sgn c" if "x \<in> {y, f, T, u, h, n}" for x
  proof (cases "x = 0")
    case False
    have "0 < x" using bd that False by fastforce
    moreover have "c \<noteq> 0"
    proof
      assume "c = 0"
      then have z: "splitNs 0 d = (y, f, T, u, h, n)" using s by simp
      have "splitNs 0 d = (0, 0, 0, 0, 0, 0)"
        by (cases d) (simp_all add: splitNs_def divmodBI_def)
      then show False using z that False by auto
    qed
    ultimately show ?thesis by (auto simp: w_def sgn_mult)
  qed simp
  have "fieldsNs (y * w) (f * w) (T * w) (u * w) (h * w) (n * w) = fieldsNs y f T u h n * w"
    by (simp add: fieldsNs_def algebra_simps)
  also have "\<dots> = c" by (simp only: sum mult.commute [of _ w] w(1))
  finally have total: "fieldsNs (y * w) (f * w) (T * w) (u * w) (h * w) (n * w) = c" .
  have fin: "list_all isFinite [I, y * w, f * w, T * w, u * w, h * w, n * w]"
    using I ab by (simp add: isFinite_safe)
  show thesis
  proof (rule that)
    show "BalanceRemainder I c d = Finite \<lparr>bDays = I, bHours = y * w, bMinutes = f * w, bSeconds = T * w,
        bMilliseconds = u * w, bMicroseconds = h * w, bNanoseconds = n * w\<rparr>"
      unfolding BalanceRemainder_def absBI_abs w_def [symmetric] Let_def s prod.case
      using fin by (simp only: t insert_iff simp_thms if_True)
  qed (use total ab sg in simp_all)
qed

lemma toNumber_sgn [simp]: "sgn (toNumber t) = sgn t"
proof (cases "t = 0")
  case False
  have "\<bar>of_int (toNumber t) - (of_int t :: rat)\<bar> \<le> \<bar>of_int t\<bar> / 2 ^ 53"
    using fl_error [of "of_int t"] by (simp add: fl_of_int_integral)
  also have "\<dots> < \<bar>of_int t\<bar>" using False by (simp add: field_simps)
  finally show ?thesis
    by (simp add: sgn_if abs_if split: if_splits)
qed (simp add: toNumber_safe)

text \<open>The total a largest unit can hold without loss.\<close>

definition exactRange :: "tunit \<Rightarrow> int" where
  "exactRange d = 2 ^ 53 * (if d \<in> {Year, Month, Week, Day} then nsPerDay else topTimeNs d)"

lemma BalanceDurationPlain_exact:
  assumes N: "N = t * nsPerDay + fieldsNs r o1 n a i s" and b: "\<bar>N\<bar> \<le> exactRange d"
  obtains b where "BalanceDurationPlain t r o1 n a i s d = Inr b" "balancedNs b = N"
    "bDays b = (if d \<in> {Year, Month, Week, Day} then tdiv N nsPerDay else 0)"
    "\<forall>f \<in> {bDays, bHours, bMinutes, bSeconds, bMilliseconds, bMicroseconds, bNanoseconds}.
      \<bar>f b\<bar> \<le> 2 ^ 53 \<and> (f b = 0 \<or> sgn (f b) = sgn N)"
proof (cases "d \<in> {Year, Month, Week, Day}")
  case True
  define q c where "q = tdiv N nsPerDay" and "c = tmod N nsPerDay"
  have qc: "q * nsPerDay + c = N" by (simp add: q_def c_def tdiv_tmod)
  have cb: "- nsPerDay < c" "c < nsPerDay" unfolding c_def by (rule tmod_bounds; simp)+
  have sg: "0 \<le> N \<Longrightarrow> 0 \<le> q \<and> 0 \<le> c" "N < 0 \<Longrightarrow> q \<le> 0 \<and> c \<le> 0"
    by (simp_all add: q_def c_def tdiv_neg tmod_neg pos_imp_zdiv_nonneg_iff less_imp_le)
  have c0: "N = 0 \<Longrightarrow> c = 0" "N = 0 \<Longrightarrow> q = 0" by (simp_all add: c_def q_def tmod_def tdiv_def)
  have q: "\<bar>q\<bar> \<le> 2 ^ 53"
    using True b qc cb sg by (cases "N < 0") (simp_all add: exactRange_def nsPerDay_def)
  have n: "ndDays (NanosecondsToDaysPlain N) = q" "ndNanoseconds (NanosecondsToDaysPlain N) = c"
    using q by (simp_all add: NanosecondsToDaysPlain_def Let_def divmodBI_def toNumber_safe sgn_0_0
        q_def [symmetric] c_def [symmetric]) (auto simp: q_def c_def tdiv_def tmod_def)
  have "\<bar>c\<bar> \<le> 2 ^ 53 * topTimeNs d" using True cb by (auto simp: topTimeNs_def nsPerDay_def)
  from BalanceRemainder_exact [OF isFinite_safe [OF q] this] obtain b where
    b: "BalanceRemainder q c d = Finite b" "bDays b = q"
      "fieldsNs (bHours b) (bMinutes b) (bSeconds b) (bMilliseconds b) (bMicroseconds b) (bNanoseconds b) = c"
      "\<forall>f \<in> {bHours, bMinutes, bSeconds, bMilliseconds, bMicroseconds, bNanoseconds}.
        \<bar>f b\<bar> \<le> 2 ^ 53 \<and> (f b = 0 \<or> sgn (f b) = sgn c)"
    by blast
  show thesis
  proof (rule that)
    show "BalanceDurationPlain t r o1 n a i s d = Inr b"
      using True b(1)
      by (simp add: BalanceDurationPlain_def BalancePossiblyInfiniteDurationPlain_def Let_def
          TotalDurationNanoseconds_eq N [symmetric] n finiteOrThrow_def)
    show "balancedNs b = N" by (simp add: balancedNs_def b qc)
    show "bDays b = (if d \<in> {Year, Month, Week, Day} then tdiv N nsPerDay else 0)"
      using True b(2) by (simp add: q_def)
    have "f = 0 \<or> sgn f = sgn N" if "f = 0 \<or> sgn f = sgn c" for f
      using that sg c0 by (cases "N < 0"; cases "c = 0"; cases "N = 0"; auto simp: sgn_if split: if_splits)
    moreover have "q = 0 \<or> sgn q = sgn N" using sg c0 by (cases "N < 0"; cases "N = 0") (auto simp: sgn_if)
    ultimately show "\<forall>f \<in> {bDays, bHours, bMinutes, bSeconds, bMilliseconds, bMicroseconds, bNanoseconds}.
        \<bar>f b\<bar> \<le> 2 ^ 53 \<and> (f b = 0 \<or> sgn (f b) = sgn N)"
      using b(2,4) q by auto
  qed
next
  case False
  then have "\<bar>N\<bar> \<le> 2 ^ 53 * topTimeNs d" using b unfolding exactRange_def by (simp only: if_False)
  from BalanceRemainder_exact [of 0, OF _ this] obtain b where
    b: "BalanceRemainder 0 N d = Finite b" "bDays b = 0"
      "fieldsNs (bHours b) (bMinutes b) (bSeconds b) (bMilliseconds b) (bMicroseconds b) (bNanoseconds b) = N"
      "\<forall>f \<in> {bHours, bMinutes, bSeconds, bMilliseconds, bMicroseconds, bNanoseconds}.
        \<bar>f b\<bar> \<le> 2 ^ 53 \<and> (f b = 0 \<or> sgn (f b) = sgn N)"
    by (auto simp: isFinite_safe)
  show thesis
  proof (rule that)
    show "BalanceDurationPlain t r o1 n a i s d = Inr b"
      using b(1)
      by (simp only: BalanceDurationPlain_def BalancePossiblyInfiniteDurationPlain_def Let_def
          TotalDurationNanoseconds_eq N [symmetric] False if_False finiteOrThrow_def possibly_infinite.case)
  qed (use False b in \<open>auto simp: balancedNs_def\<close>)
qed

text \<open>C10: balancing a duration keeps its total to the nanosecond, gives every field the sign of
  the total, and counts whole days exactly when the largest unit is a day or more, as long
  as the largest field is a safe integer.\<close>

theorem BalanceDuration_correct:
  assumes "\<bar>t * nsPerDay + fieldsNs r o1 n a i s\<bar> \<le> exactRange d"
  obtains b where "BalanceDurationPlain t r o1 n a i s d = Inr b"
    "balancedNs b = t * nsPerDay + fieldsNs r o1 n a i s"
    "bDays b = (if d \<in> {Year, Month, Week, Day} then tdiv (balancedNs b) nsPerDay else 0)"
    "\<forall>f \<in> {bDays, bHours, bMinutes, bSeconds, bMilliseconds, bMicroseconds, bNanoseconds}.
      f b = 0 \<or> sgn (f b) = sgn (balancedNs b)"
proof (rule BalanceDurationPlain_exact [OF refl assms])
  fix b
  assume b: "BalanceDurationPlain t r o1 n a i s d = Inr b" "balancedNs b = t * nsPerDay + fieldsNs r o1 n a i s"
    "bDays b = (if d \<in> {Year, Month, Week, Day} then tdiv (t * nsPerDay + fieldsNs r o1 n a i s) nsPerDay else 0)"
    "\<forall>f \<in> {bDays, bHours, bMinutes, bSeconds, bMilliseconds, bMicroseconds, bNanoseconds}.
      \<bar>f b\<bar> \<le> 2 ^ 53 \<and> (f b = 0 \<or> sgn (f b) = sgn (t * nsPerDay + fieldsNs r o1 n a i s))"
  show thesis
  proof (rule that [OF b(1,2)])
    show "bDays b = (if d \<in> {Year, Month, Week, Day} then tdiv (balancedNs b) nsPerDay else 0)"
      unfolding b(2) by (rule b(3))
    show "\<forall>f \<in> {bDays, bHours, bMinutes, bSeconds, bMilliseconds, bMicroseconds, bNanoseconds}.
        f b = 0 \<or> sgn (f b) = sgn (balancedNs b)"
      unfolding b(2) using b(4) by blast
  qed
qed

theorem BalanceDuration_correct_witness:
  "\<exists>b. BalanceDurationPlain 1 25 (-90) 0 0 0 1 Day = Inr b \<and> balancedNs b = 171000000000001 \<and> bDays b = 1"
proof -
  have e: "1 * nsPerDay + fieldsNs 25 (-90) 0 0 0 1 = 171000000000001"
    by (simp add: nsPerDay_def fieldsNs_def)
  have "\<bar>1 * nsPerDay + fieldsNs 25 (-90) 0 0 0 1\<bar> \<le> exactRange Day"
    unfolding e by (simp add: exactRange_def nsPerDay_def)
  then show ?thesis
  proof (rule BalanceDuration_correct)
    fix b
    assume b: "BalanceDurationPlain 1 25 (-90) 0 0 0 1 Day = Inr b"
      "balancedNs b = 1 * nsPerDay + fieldsNs 25 (-90) 0 0 0 1"
      "bDays b = (if Day \<in> {Year, Month, Week, Day} then tdiv (balancedNs b) nsPerDay else 0)"
    have "tdiv 171000000000001 nsPerDay = 1" by (simp add: nsPerDay_def)
    then have "bDays b = 1" using b(3) unfolding b(2) e by simp
    then show ?thesis using b(1,2) unfolding e by blast
  qed
qed

end
