(* ===== verification/Iso_Calendar.thy ===== *)
theory Iso_Calendar imports Duration_Balance begin

text \<open>
  Objects with a calendar: the checks of the date, date-time, month-day and year-month
  constructors, a calendar as the two operations that date arithmetic calls, the ISO
  calendar as an instance, and date-time arithmetic over any calendar (\<^verbatim>\<open>AddDateTime\<close>,
  \<^verbatim>\<open>DifferenceISODateTime\<close>). A calendar of the user is a parameter.
\<close>

section \<open>Constructors\<close>

definition CreateTemporalDate :: "int \<Rightarrow> int \<Rightarrow> int \<Rightarrow> int \<Rightarrow> iso_date result" where
  "CreateTemporalDate now t r o1 =
     bindE (RejectISODate t r o1) (\<lambda>_. bindE (RejectDateRange now t r o1) (\<lambda>_. Inr (mkDate t r o1)))"

definition CreateTemporalDateTime ::
  "int \<Rightarrow> int \<Rightarrow> int \<Rightarrow> int \<Rightarrow> int \<Rightarrow> int \<Rightarrow> int \<Rightarrow> int \<Rightarrow> int \<Rightarrow> int \<Rightarrow> iso_datetime result" where
  "CreateTemporalDateTime now t r o1 n a f y I S =
     bindE (RejectDateTime t r o1 n a f y I S) (\<lambda>_.
     bindE (RejectDateTimeRange now t r o1 n a f y I S) (\<lambda>_.
       Inr \<lparr>dtDate = mkDate t r o1, dtTime = mkTime n a f y I S\<rparr>))"

text \<open>A month-day and a year-month keep a full date, with a reference year or day.\<close>

definition CreateTemporalMonthDay :: "int \<Rightarrow> int \<Rightarrow> int \<Rightarrow> int \<Rightarrow> iso_date result" where
  "CreateTemporalMonthDay now t r n =
     bindE (RejectISODate n t r) (\<lambda>_. bindE (RejectDateRange now n t r) (\<lambda>_. Inr (mkDate n t r)))"

definition RejectYearMonthRange :: "int \<Rightarrow> int \<Rightarrow> unit result" where
  "RejectYearMonthRange e t =
     bindE (RejectToRange e yearMin yearMax) (\<lambda>_.
       if e = yearMin then RejectToRange t 4 12
       else if e = yearMax then RejectToRange t 1 9 else Inr ())"

definition CreateTemporalYearMonth :: "int \<Rightarrow> int \<Rightarrow> int \<Rightarrow> iso_date result" where
  "CreateTemporalYearMonth t r n =
     bindE (RejectISODate t r n) (\<lambda>_. bindE (RejectYearMonthRange t r) (\<lambda>_. Inr (mkDate t r n)))"

section \<open>Calendars\<close>

record calendar =
  calDateAdd :: "iso_date \<Rightarrow> duration \<Rightarrow> overflow \<Rightarrow> iso_date result"
  calDateUntil :: "iso_date \<Rightarrow> iso_date \<Rightarrow> tunit \<Rightarrow> duration result"

text \<open>
  The built-in calendar \<^verbatim>\<open>iso8601\<close>: the methods of \<open>Calendar\<close> convert their arguments and
  dispatch to the table \<^verbatim>\<open>Ot.iso8601\<close>.
\<close>

definition iso8601_dateAdd :: "int \<Rightarrow> iso_date \<Rightarrow> int \<Rightarrow> int \<Rightarrow> int \<Rightarrow> int \<Rightarrow> overflow \<Rightarrow> iso_date result" where
  "iso8601_dateAdd now e t r o1 n a =
     bindE (AddISODate (year e) (month e) (day e) t r o1 n a) (\<lambda>x.
       CreateTemporalDate now (year x) (month x) (day x))"

definition iso8601_dateUntil :: "iso_date \<Rightarrow> iso_date \<Rightarrow> tunit \<Rightarrow> date_duration result" where
  "iso8601_dateUntil e t r = DifferenceISODate (year e) (month e) (day e) (year t) (month t) (day t) r"

definition Calendar_dateAdd :: "int \<Rightarrow> iso_date \<Rightarrow> duration \<Rightarrow> overflow \<Rightarrow> iso_date result" where
  "Calendar_dateAdd now o1 n a =
     bindE (BalanceDurationPlain (days n) (hours n) (minutes n) (seconds n) (milliseconds n)
       (microseconds n) (nanoseconds n) Day) (\<lambda>b.
     iso8601_dateAdd now o1 (years n) (months n) (weeks n) (bDays b) a)"

text \<open>\<^verbatim>\<open>GetTemporalUnit(..., "date", ...)\<close> rejects time units.\<close>

definition Calendar_dateUntil :: "iso_date \<Rightarrow> iso_date \<Rightarrow> tunit \<Rightarrow> duration result" where
  "Calendar_dateUntil o1 n a =
     bindE (throwIf (a \<notin> {Year, Month, Week, Day}) RangeError) (\<lambda>_.
     bindE (iso8601_dateUntil o1 n a) (\<lambda>d.
       CreateDuration (years d) (months d) (weeks d) (days d) 0 0 0 0 0 0))"

definition isoCalendar :: "int \<Rightarrow> calendar" where
  "isoCalendar now = \<lparr>calDateAdd = Calendar_dateAdd now, calDateUntil = Calendar_dateUntil\<rparr>"

section \<open>Date-time arithmetic\<close>

definition AddDateTime :: "int \<Rightarrow> calendar \<Rightarrow> iso_datetime \<Rightarrow> duration \<Rightarrow> overflow \<Rightarrow> iso_datetime result" where
  "AddDateTime now cal x d ov =
     (let t = dtTime x;
          b = AddTime (hour t) (minute t) (second t) (millisecond t) (microsecond t) (nanosecond t)
            (hours d) (minutes d) (seconds d) (milliseconds d) (microseconds d) (nanoseconds d);
          v = nadd (days d) (deltaDays b)
      in bindE (CreateTemporalDate now (year (dtDate x)) (month (dtDate x)) (day (dtDate x))) (\<lambda>e.
         bindE (CreateDuration (years d) (months d) (weeks d) v 0 0 0 0 0 0) (\<lambda>Y.
         bindE (calDateAdd cal e Y ov) (\<lambda>P.
           Inr \<lparr>dtDate = P, dtTime = iso_time.truncate b\<rparr>))))"

definition DifferenceISODateTime ::
  "int \<Rightarrow> calendar \<Rightarrow> iso_datetime \<Rightarrow> iso_datetime \<Rightarrow> tunit \<Rightarrow> duration result" where
  "DifferenceISODateTime now cal x y S =
     (let t = dtTime x; t' = dtTime y; e = dtDate x; e' = dtDate y
      in bindE (DifferenceTime (hour t) (minute t) (second t) (millisecond t) (microsecond t) (nanosecond t)
           (hour t') (minute t') (second t') (millisecond t') (microsecond t') (nanosecond t')) (\<lambda>d.
         let R = DurationSign 0 0 0 0 (tdHours d) (tdMinutes d) (tdSeconds d) (tdMilliseconds d)
           (tdMicroseconds d) (tdNanoseconds d)
         in bindE (if CompareISODate (year e') (month e') (day e') (year e) (month e) (day e) = - R then
              bindE (BalanceISODate (year e) (month e) (nsub (day e) R)) (\<lambda>w.
              bindE (BalanceDurationPlain (- R) (tdHours d) (tdMinutes d) (tdSeconds d) (tdMilliseconds d)
                (tdMicroseconds d) (tdNanoseconds d) S) (\<lambda>b.
                Inr (w, bHours b, bMinutes b, bSeconds b, bMilliseconds b, bMicroseconds b, bNanoseconds b)))
            else Inr (e, tdHours d, tdMinutes d, tdSeconds d, tdMilliseconds d, tdMicroseconds d, tdNanoseconds d))
            (\<lambda>(w, v, C, O1, b, E, M).
         bindE (CreateTemporalDate now (year w) (month w) (day w)) (\<lambda>F.
         bindE (CreateTemporalDate now (year e') (month e') (day e')) (\<lambda>Y.
         bindE (calDateUntil cal F Y (LargerOfTwoTemporalUnits Day S)) (\<lambda>u.
         bindE (BalanceDurationPlain (days u) v C O1 b E M S) (\<lambda>b.
           Inr (mkDuration (years u) (months u) (weeks u) (bDays b) (bHours b) (bMinutes b) (bSeconds b)
             (bMilliseconds b) (bMicroseconds b) (bNanoseconds b))))))))) "

section \<open>Dates in range\<close>

text \<open>The dates the constructor accepts.\<close>

definition dateInRange :: "iso_date \<Rightarrow> bool" where
  "dateInRange x \<longleftrightarrow> validDate x \<and> \<bar>epochDay x\<bar> \<le> 100000000 + (if epochDay x < 0 then 1 else 0)"

lemma mkDate_eta [simp]: "mkDate (year x) (month x) (day x) = (x :: iso_date)"
  by (cases x) simp

lemma mkTime_eta [simp]:
  "mkTime (hour x) (minute x) (second x) (millisecond x) (microsecond x) (nanosecond x) = (x :: iso_time)"
  by (cases x) simp

lemma RejectISODate_eq: "RejectISODate t r d = throwIf (\<not> validDate (mkDate t r d)) RangeError"
  by (auto simp: RejectISODate_def RejectToRange_def validDate_def bindE_def throwIf_def)

lemma CreateTemporalDate_eq:
  assumes "clockOk now"
  shows "CreateTemporalDate now (year x) (month x) (day x) = (if dateInRange x then Inr x else Inl RangeError)"
proof (cases "validDate x")
  case True
  have n: "validTime (mkTime 12 0 0 0 0 0)" by (simp add: validTime_def)
  let ?x = "\<lparr>dtDate = x, dtTime = mkTime 12 0 0 0 0 0\<rparr>"
  have r: "(nsMin - nsPerDay < datetimeNs ?x \<and> datetimeNs ?x < nsMax + nsPerDay) = dateInRange x"
    using True by (auto simp: dateInRange_def datetimeNs_def timeNs_def fieldsNs_def nsMin_def nsMax_def nsPerDay_def)
  have "RejectDateRange now (year x) (month x) (day x) = throwIf (\<not> dateInRange x) RangeError"
    using RejectDateTimeRange_eq [OF assms, of ?x] True n r by (simp add: RejectDateRange_def validDateTime_def)
  then show ?thesis using True by (simp add: CreateTemporalDate_def RejectISODate_eq throwIf_def)
next
  case False
  then show ?thesis by (simp add: CreateTemporalDate_def RejectISODate_eq dateInRange_def)
qed

lemma CreateTemporalDateTime_eq:
  assumes now: "clockOk now"
  shows "CreateTemporalDateTime now (year (dtDate x)) (month (dtDate x)) (day (dtDate x))
      (hour (dtTime x)) (minute (dtTime x)) (second (dtTime x)) (millisecond (dtTime x))
      (microsecond (dtTime x)) (nanosecond (dtTime x))
    = (if validDateTime x \<and> nsMin - nsPerDay < datetimeNs x \<and> datetimeNs x < nsMax + nsPerDay
       then Inr x else Inl RangeError)"
proof -
  have r: "RejectTime h mi s ms us ns = throwIf (\<not> validTime (mkTime h mi s ms us ns)) RangeError" for h mi s ms us ns
    using RejectTime_iff [of h mi s ms us ns] RejectTime_error [of h mi s ms us ns]
    by (cases "RejectTime h mi s ms us ns") (auto simp: throwIf_def)
  show ?thesis
    using RejectDateTimeRange_eq [OF now, of x]
    by (cases x) (auto simp: CreateTemporalDateTime_def RejectDateTime_def RejectISODate_eq r validDateTime_def
        bindE_def throwIf_def)
qed

section \<open>The contract of a calendar\<close>

text \<open>
  What date-time arithmetic relies on: on the dates of the calendar the difference exists
  for every date unit, has whole-day durations only, and adding it leads back.
\<close>

locale calendar_laws =
  fixes cal :: calendar and ok :: "iso_date \<Rightarrow> bool"
  assumes until_add: "ok x \<Longrightarrow> ok y \<Longrightarrow> u \<in> {Year, Month, Week, Day} \<Longrightarrow>
      \<exists>d. calDateUntil cal x y u = Inr d \<and> calDateAdd cal x d Constrain = Inr y
        \<and> hours d = 0 \<and> minutes d = 0 \<and> seconds d = 0 \<and> milliseconds d = 0 \<and> microseconds d = 0 \<and> nanoseconds d = 0"
    and add_ok: "ok x \<Longrightarrow> calDateAdd cal x d ov = Inr y \<Longrightarrow> ok y"
begin

lemma until_total: "ok x \<Longrightarrow> ok y \<Longrightarrow> u \<in> {Year, Month, Week, Day} \<Longrightarrow> calDateUntil cal x y u \<noteq> Inl e"
  using until_add by fastforce

lemma until_unique:
  assumes "ok x" "ok y" "ok z" "u \<in> {Year, Month, Week, Day}" "calDateUntil cal x y u = calDateUntil cal x z u"
  shows "y = z"
  using until_add [OF assms(1,2,4)] until_add [OF assms(1,3,4)] assms(5) by auto

end

lemma CreateDuration_date:
  assumes "\<forall>f \<in> {years, months, weeks, days}. isFinite (f d) \<and> (f d = 0 \<or> sgn (f d) = s)"
  shows "CreateDuration (years d) (months d) (weeks d) (days d) 0 0 0 0 0 0
    = Inr (mkDuration (years d) (months d) (weeks d) (days d) 0 0 0 0 0 0)"
proof -
  let ?l = "[years d, months d, weeks d, days d, 0, 0, 0, 0, 0, 0]"
  have "(\<forall>c \<in> set ?l. 0 \<le> c) \<or> (\<forall>c \<in> set ?l. c \<le> 0)"
    using assms by (cases s "0::int" rule: linorder_cases) (auto simp: sgn_if split: if_splits)
  then have "\<forall>c \<in> set ?l. c = 0 \<or> sgn c = signOfList ?l" using signOfList_same_sign [of ?l] by blast
  moreover have "isFinite 0" by (simp add: isFinite_safe)
  ultimately have "rejectMixed (signOfList ?l) ?l = Inr ()"
    unfolding rejectMixed_iff using assms by auto
  then show ?thesis by (simp add: CreateDuration_def RejectDuration_def DurationSign_def)
qed

section \<open>The ISO calendar keeps the contract\<close>

lemma dateInRange_bounds:
  assumes "dateInRange x"
  shows "validDate x" "yearMin \<le> year x" "year x \<le> yearMax" "\<bar>year x\<bar> < 2 ^ 40" "\<bar>epochDay x\<bar> \<le> 100000001"
proof -
  show v: "validDate x" and e: "\<bar>epochDay x\<bar> \<le> 100000001"
    using assms by (simp_all add: dateInRange_def split: if_splits)
  show l: "yearMin \<le> year x"
  proof (rule ccontr)
    assume "\<not> yearMin \<le> year x"
    then show False using epochDay_year_less(1) [OF v, of yearMin] e by (simp add: yearMin_def range_years)
  qed
  show u: "year x \<le> yearMax"
  proof (rule ccontr)
    assume "\<not> year x \<le> yearMax"
    then show False using epochDay_year_less(2) [OF v, of "yearMax + 1"] e by (simp add: yearMax_def range_years)
  qed
  show "\<bar>year x\<bar> < 2 ^ 40" using l u by (simp add: yearMin_def yearMax_def)
qed

lemma DifferenceISODate_signs:
  assumes x: "dateInRange x" and y: "dateInRange y" and u: "u \<in> {Year, Month, Week, Day}"
  obtains d where "DifferenceISODate (year x) (month x) (day x) (year y) (month y) (day y) u = Inr d"
    "\<forall>f \<in> {years, months, weeks, days}. \<bar>f d\<bar> \<le> 2 ^ 50 \<and> (f d = 0 \<or> sgn (f d) = sgn (epochDay y - epochDay x))"
proof -
  note vx = dateInRange_bounds [OF x] and vy = dateInRange_bounds [OF y]
  let ?D = "epochDay y - epochDay x"
  have D: "\<bar>?D\<bar> \<le> 2 ^ 50" "\<bar>?D\<bar> < 2 ^ 53" using vx(5) vy(5) by simp_all
  show thesis
  proof (cases "u = Week \<or> u = Day")
    case True
    then show ?thesis
      using that [OF DifferenceISODate_week_day [OF vx(1) vy(1), of u]] D tdiv_tmod_sgn [of 7 ?D]
      by (auto split: if_splits)
  next
    case False
    then have u': "u = Year \<or> u = Month" using u by auto
    define k where "k = wholeMonths x y"
    note kb = wholeMonths_bounds [OF vx(1) vy(1) vx(4) vy(4), folded k_def]
    have z: "k = 0" "epochDay (addMonths x k) = epochDay y" if "?D = 0"
    proof -
      have "x = y" using that vx(1) vy(1) epochDay_inject by auto
      then show "k = 0" "epochDay (addMonths x k) = epochDay y"
        using vx(1) by (simp_all add: k_def wholeMonths_def)
    qed
    have L: "k = 0 \<or> sgn k = sgn ?D"
      "epochDay y - epochDay (addMonths x k) = 0 \<or> sgn (epochDay y - epochDay (addMonths x k)) = sgn ?D"
      using z wholeMonths_largest(1,3) [OF vx(1) vy(1) refl, folded k_def]
      by (cases "?D" "0::int" rule: linorder_cases; auto simp: sgn_if split: if_splits)+
    show ?thesis
      using that [OF DifferenceISODate_months [OF vx(1) vy(1) less_imp_le [OF vx(4)] less_imp_le [OF vy(4)] u', folded k_def]]
        u' kb L tdiv_tmod_sgn [of 12 k] by (auto split: if_splits)
  qed
qed

lemma BalanceDurationPlain_days:
  assumes "\<bar>d\<bar> \<le> 2 ^ 53"
  obtains b where "BalanceDurationPlain d 0 0 0 0 0 0 Day = Inr b" "bDays b = d"
proof -
  have "\<bar>d * nsPerDay\<bar> \<le> exactRange Day" using assms by (simp add: exactRange_def nsPerDay_def)
  then show thesis
  proof (rule BalanceDurationPlain_exact [rotated])
    show "d * nsPerDay = d * nsPerDay + fieldsNs 0 0 0 0 0 0" by (simp add: fieldsNs_def)
    fix b assume "BalanceDurationPlain d 0 0 0 0 0 0 Day = Inr b"
      "bDays b = (if Day \<in> {Year, Month, Week, Day} then tdiv (d * nsPerDay) nsPerDay else 0)"
    moreover have "tdiv (d * nsPerDay) nsPerDay = d"
      using tdiv_tmod [of "d * nsPerDay" nsPerDay] tmod_eq_0_iff [of nsPerDay "d * nsPerDay"]
      by (simp add: nsPerDay_def)
    ultimately show thesis using that by simp
  qed
qed

lemma isoCalendar_until_add:
  assumes now: "clockOk now" and x: "dateInRange x" and y: "dateInRange y" and u: "u \<in> {Year, Month, Week, Day}"
  shows "\<exists>d. calDateUntil (isoCalendar now) x y u = Inr d \<and> calDateAdd (isoCalendar now) x d Constrain = Inr y
    \<and> hours d = 0 \<and> minutes d = 0 \<and> seconds d = 0 \<and> milliseconds d = 0 \<and> microseconds d = 0 \<and> nanoseconds d = 0"
proof -
  note vx = dateInRange_bounds [OF x] and vy = dateInRange_bounds [OF y]
  obtain d where d: "DifferenceISODate (year x) (month x) (day x) (year y) (month y) (day y) u = Inr d"
    "\<forall>f \<in> {years, months, weeks, days}. \<bar>f d\<bar> \<le> 2 ^ 50 \<and> (f d = 0 \<or> sgn (f d) = sgn (epochDay y - epochDay x))"
    by (rule DifferenceISODate_signs [OF x y u])
  let ?d = "mkDuration (years d) (months d) (weeks d) (days d) 0 0 0 0 0 0"
  have c: "CreateDuration (years d) (months d) (weeks d) (days d) 0 0 0 0 0 0 = Inr ?d"
    using d(2) by (intro CreateDuration_date [where s = "sgn (epochDay y - epochDay x)"]) (auto intro: isFinite_safe)
  have "\<bar>days d\<bar> \<le> 2 ^ 53" using d(2) by auto
  then obtain b where b: "BalanceDurationPlain (days d) 0 0 0 0 0 0 Day = Inr b" "bDays b = days d"
    by (rule BalanceDurationPlain_days)
  have "AddISODate (year x) (month x) (day x) (years d) (months d) (weeks d) (days d) Constrain = Inr y"
    using AddISODate_DifferenceISODate [OF vx(1) vy(1) vx(4) vy(4) u] d(1) by simp
  then have "Calendar_dateAdd now x ?d Constrain = Inr y"
    using b CreateTemporalDate_eq [OF now, of y] y by (simp add: Calendar_dateAdd_def iso8601_dateAdd_def)
  moreover have "Calendar_dateUntil x y u = Inr ?d"
    using u d(1) c by (simp add: Calendar_dateUntil_def iso8601_dateUntil_def)
  ultimately show ?thesis by (simp add: isoCalendar_def)
qed

lemma isoCalendar_add_ok:
  assumes now: "clockOk now" and a: "calDateAdd (isoCalendar now) x d ov = Inr y"
  shows "dateInRange y"
proof -
  obtain z :: iso_date where "CreateTemporalDate now (year z) (month z) (day z) = Inr y"
    using a by (auto simp: isoCalendar_def Calendar_dateAdd_def iso8601_dateAdd_def bindE_def split: sum.splits)
  then show ?thesis using CreateTemporalDate_eq [OF now, of z] by (auto split: if_splits)
qed

interpretation iso: calendar_laws "isoCalendar now" "\<lambda>x. clockOk now \<and> dateInRange x" for now
  by unfold_locales (use isoCalendar_until_add isoCalendar_add_ok in blast)+

text \<open>C1: in the ISO calendar every pair of dates in range has a difference for each date unit,
  and adding it to the first date gives the second exactly.\<close>

theorem isoCalendar_roundtrip:
  assumes "clockOk now" "dateInRange x" "dateInRange y" "u \<in> {Year, Month, Week, Day}"
  shows "bindE (Calendar_dateUntil x y u) (\<lambda>d. Calendar_dateAdd now x d Constrain) = Inr y"
  using iso.until_add [of now x y u] assms by (auto simp: isoCalendar_def)

theorem isoCalendar_roundtrip_witness:
  "bindE (Calendar_dateUntil (mkDate 2024 1 31) (mkDate 2021 2 28) Year)
     (\<lambda>d. Calendar_dateAdd 1700000000000 (mkDate 2024 1 31) d Constrain) = Inr (mkDate 2021 2 28)"
  by (rule isoCalendar_roundtrip) code_simp+

end
