(* ===== verification/Date_Time.thy ===== *)
theory Date_Time imports Iso_Calendar begin

text \<open>
  Differences and sums of date-times in the ISO calendar, measured on the number of
  nanoseconds of a date-time.
\<close>

section \<open>Fields of one sign\<close>

lemma fields_le:
  assumes "\<forall>f \<in> {h, mi, se, ms, us, ns}. f = 0 \<or> sgn f = (s :: int)"
  shows "\<forall>f \<in> {h, mi, se, ms, us, ns}. \<bar>f\<bar> \<le> \<bar>fieldsNs h mi se ms us ns\<bar>"
proof -
  consider "0 \<le> h \<and> 0 \<le> mi \<and> 0 \<le> se \<and> 0 \<le> ms \<and> 0 \<le> us \<and> 0 \<le> ns"
    | "h \<le> 0 \<and> mi \<le> 0 \<and> se \<le> 0 \<and> ms \<le> 0 \<and> us \<le> 0 \<and> ns \<le> 0"
    using assms by (cases s "0::int" rule: linorder_cases; auto simp: sgn_if split: if_splits; linarith)
  then show ?thesis by cases (simp_all add: fieldsNs_def abs_le_iff)
qed

lemma timeFields_sgn:
  assumes "validTime x"
  shows "fieldsNs (hour x * s) (minute x * s) (second x * s) (millisecond x * s) (microsecond x * s) (nanosecond x * s)
    = timeNs x * s"
  by (simp add: fieldsNs_def timeNs_def algebra_simps)

lemma AddTime_eq:
  assumes x: "validTime x" and f: "\<forall>f \<in> {h, mi, se, ms, us, ns}. f = 0 \<or> sgn f = s"
    and T: "T = fieldsNs h mi se ms us ns" "\<bar>T\<bar> \<le> 2 ^ 52"
  defines "b \<equiv> AddTime (hour x) (minute x) (second x) (millisecond x) (microsecond x) (nanosecond x) h mi se ms us ns"
  shows "iso_time.truncate b = timeOfNs (timeNs x + T)" "deltaDays b = (timeNs x + T) div nsPerDay"
proof -
  have le: "\<bar>f\<bar> \<le> 2 ^ 52" if "f \<in> {h, mi, se, ms, us, ns}" for f
    using fields_le [OF f] T that by fastforce
  have n: "nadd a f = a + f" if "f \<in> {h, mi, se, ms, us, ns}" "0 \<le> a" "a \<le> 999" for a f
    using le [OF that(1)] that(2,3) by (intro nadd_safe) (simp add: abs_le_iff)
  have e: "b = BalanceTime (hour x + h) (minute x + mi) (second x + se) (millisecond x + ms) (microsecond x + us) (nanosecond x + ns)"
    using x by (simp add: b_def AddTime_def n validTime_def)
  have s: "fieldsNs (hour x + h) (minute x + mi) (second x + se) (millisecond x + ms) (microsecond x + us) (nanosecond x + ns)
    = timeNs x + T"
    by (simp add: T(1) fieldsNs_def timeNs_def)
  define q where "q = (timeNs x + T) div nsPerDay"
  have "nsPerDay * q \<le> timeNs x + T" "timeNs x + T < nsPerDay * q + nsPerDay"
    unfolding q_def by (rule div_bounds; simp add: nsPerDay_def)+
  then have "\<bar>q\<bar> \<le> 2 ^ 53" using T(2) timeNs_range [OF x] by (simp add: nsPerDay_def abs_le_iff)
  then show "iso_time.truncate b = timeOfNs (timeNs x + T)" "deltaDays b = (timeNs x + T) div nsPerDay"
    by (simp_all add: e BalanceTime_eq s q_def [symmetric] toNumber_safe)
qed

lemma tdiv_small: "\<bar>a\<bar> < b \<Longrightarrow> tdiv a b = 0"
  using tdiv_pos [of a b] tdiv_neg [of a b] by (cases "0 \<le> a") (auto simp: abs_if)

lemma timeOfNs_shift: "timeOfNs (k * nsPerDay + n) = timeOfNs n"
  using timeOfNs_mod [of "k * nsPerDay + n"] timeOfNs_mod [of n] by simp

section \<open>The start of a difference\<close>

lemma dateInRange_iff: "dateInRange x \<longleftrightarrow> validDate x \<and> - 100000001 \<le> epochDay x \<and> epochDay x \<le> 100000000"
  by (auto simp: dateInRange_def abs_le_iff)

text \<open>
  The first date may move by a day, against the sign of the time difference; the time
  fields that remain keep the total.
\<close>

definition startOfDifference ::
  "iso_date \<Rightarrow> iso_date \<Rightarrow> time_duration \<Rightarrow> tunit \<Rightarrow> (iso_date \<times> int \<times> int \<times> int \<times> int \<times> int \<times> int) result" where
  "startOfDifference e e' d S =
     (let R = DurationSign 0 0 0 0 (tdHours d) (tdMinutes d) (tdSeconds d) (tdMilliseconds d)
           (tdMicroseconds d) (tdNanoseconds d)
      in if CompareISODate (year e') (month e') (day e') (year e) (month e) (day e) = - R then
              bindE (BalanceISODate (year e) (month e) (nsub (day e) R)) (\<lambda>w.
              bindE (BalanceDurationPlain (- R) (tdHours d) (tdMinutes d) (tdSeconds d) (tdMilliseconds d)
                (tdMicroseconds d) (tdNanoseconds d) S) (\<lambda>b.
                Inr (w, bHours b, bMinutes b, bSeconds b, bMilliseconds b, bMicroseconds b, bNanoseconds b)))
            else Inr (e, tdHours d, tdMinutes d, tdSeconds d, tdMilliseconds d, tdMicroseconds d, tdNanoseconds d))"

lemma startOfDifference_eq:
  assumes x: "dateInRange e" and y: "dateInRange e'"
    and T: "T = fieldsNs (tdHours d) (tdMinutes d) (tdSeconds d) (tdMilliseconds d) (tdMicroseconds d) (tdNanoseconds d)"
    "\<bar>T\<bar> < nsPerDay"
    and R: "DurationSign 0 0 0 0 (tdHours d) (tdMinutes d) (tdSeconds d) (tdMilliseconds d) (tdMicroseconds d) (tdNanoseconds d) = sgn T"
  obtains w v C O1 b E M where "startOfDifference e e' d S = Inr (w, v, C, O1, b, E, M)" "dateInRange w"
    "fieldsNs v C O1 b E M = T + (epochDay w - epochDay e) * nsPerDay"
    "\<bar>fieldsNs v C O1 b E M\<bar> < nsPerDay"
    "epochDay w = epochDay e \<or> epochDay w = epochDay e + sgn (epochDay e' - epochDay e)"
proof (cases "sgn (epochDay e' - epochDay e) = - sgn T")
  case True
  note vx = dateInRange_bounds [OF x] and vy = dateInRange_bounds [OF y]
  have m: "1 \<le> month e" "month e \<le> 12" "1 \<le> day e" "day e \<le> 31"
    using vx(1) by (auto simp: validDate_def dest: order_trans [OF _ ISODaysInMonth_range(2)])
  have "nsub (day e) (sgn T) = day e - sgn T" using m by (intro nsub_safe) (simp add: sgn_if)
  moreover have "MakeDay (year e) (month e - 1) (day e - sgn T) = epochDay e - sgn T"
    by (simp add: epochDay_def MakeDay_def Let_def)
  ultimately have w: "BalanceISODate (year e) (month e) (nsub (day e) (sgn T)) = Inr (dateOfDay (epochDay e - sgn T))"
    using vx(4) m BalanceISODate_safe [of "year e" "month e" "day e - sgn T"] by (simp add: sgn_if)
  have small: "\<bar>T - sgn T * nsPerDay\<bar> < nsPerDay \<or> T = 0"
    using T(2) by (auto simp: sgn_if)
  have N: "\<bar>T - sgn T * nsPerDay\<bar> \<le> exactRange S"
    using small by (cases S) (auto simp: exactRange_def topTimeNs_def unitNs_def nsPerDay_def)
  obtain b where b: "BalanceDurationPlain (- sgn T) (tdHours d) (tdMinutes d) (tdSeconds d) (tdMilliseconds d)
      (tdMicroseconds d) (tdNanoseconds d) S = Inr b" "balancedNs b = T - sgn T * nsPerDay"
      "bDays b = (if S \<in> {Year, Month, Week, Day} then tdiv (T - sgn T * nsPerDay) nsPerDay else 0)"
    by (rule BalanceDurationPlain_exact [OF _ N, where t = "- sgn T" and r = "tdHours d" and ?o1.0 = "tdMinutes d"
        and n = "tdSeconds d" and a = "tdMilliseconds d" and i = "tdMicroseconds d" and s = "tdNanoseconds d"])
      (use T(1) in simp_all)
  have "tdiv (T - sgn T * nsPerDay) nsPerDay = 0" using small by (auto simp: tdiv_small)
  then have tot: "fieldsNs (bHours b) (bMinutes b) (bSeconds b) (bMilliseconds b) (bMicroseconds b) (bNanoseconds b)
      = T - sgn T * nsPerDay"
    using b(2,3) by (simp add: balancedNs_def split: if_splits)
  show thesis
  proof (rule that)
    show "startOfDifference e e' d S = Inr (dateOfDay (epochDay e - sgn T), bHours b, bMinutes b, bSeconds b,
        bMilliseconds b, bMicroseconds b, bNanoseconds b)"
      by (simp add: startOfDifference_def R True w b(1) CompareISODate_epochDay [OF vy(1) vx(1)])
    show "dateInRange (dateOfDay (epochDay e - sgn T))"
      using x y True by (auto simp: dateInRange_iff sgn_if split: if_splits)
  qed (use tot True small in \<open>auto simp: nsPerDay_def\<close>)
next
  case False
  note vx = dateInRange_bounds [OF x] and vy = dateInRange_bounds [OF y]
  show thesis
    by (rule that [of e "tdHours d" "tdMinutes d" "tdSeconds d" "tdMilliseconds d" "tdMicroseconds d" "tdNanoseconds d"])
      (use x T False in \<open>simp_all add: startOfDifference_def R CompareISODate_epochDay [OF vy(1) vx(1)]\<close>)
qed

section \<open>Calendar operations in weeks and days\<close>

lemma Calendar_dateUntil_days:
  assumes x: "dateInRange x" and y: "dateInRange y" and D: "D = epochDay y - epochDay x"
  shows "Calendar_dateUntil x y Day = Inr (mkDuration 0 0 0 D 0 0 0 0 0 0)"
    and "Calendar_dateUntil x y Week = Inr (mkDuration 0 0 (tdiv D 7) (tmod D 7) 0 0 0 0 0 0)"
proof -
  note vx = dateInRange_bounds [OF x] and vy = dateInRange_bounds [OF y]
  have b: "\<bar>D\<bar> < 2 ^ 53" using vx(5) vy(5) by (simp add: D)
  note t = tdiv_tmod_sgn [of 7 D]
  have c: "CreateDuration 0 0 q r 0 0 0 0 0 0 = Inr (mkDuration 0 0 q r 0 0 0 0 0 0)"
    if "q = 0 \<or> sgn q = sgn D" "r = 0 \<or> sgn r = sgn D" "\<bar>q\<bar> \<le> 2 ^ 53" "\<bar>r\<bar> \<le> 2 ^ 53" for q r
    using CreateDuration_date [of "dateDuration 0 0 q r" "sgn D"] that by (simp add: isFinite_safe)
  show "Calendar_dateUntil x y Day = Inr (mkDuration 0 0 0 D 0 0 0 0 0 0)"
    using DifferenceISODate_week_day [OF vx(1) vy(1), of Day] b
    by (simp add: Calendar_dateUntil_def iso8601_dateUntil_def c D [symmetric])
  show "Calendar_dateUntil x y Week = Inr (mkDuration 0 0 (tdiv D 7) (tmod D 7) 0 0 0 0 0 0)"
    using DifferenceISODate_week_day [OF vx(1) vy(1), of Week] b t
    by (simp add: Calendar_dateUntil_def iso8601_dateUntil_def c D [symmetric])
qed

lemma Calendar_dateAdd_days:
  assumes now: "clockOk now" and x: "dateInRange x" and y: "dateInRange y"
    and D: "7 * q + r = epochDay y - epochDay x" and b: "\<bar>q\<bar> \<le> 2 ^ 50" "\<bar>r\<bar> \<le> 2 ^ 50"
  shows "Calendar_dateAdd now x (mkDuration 0 0 q r 0 0 0 0 0 0) ov = Inr y"
proof -
  note vx = dateInRange_bounds [OF x] and vy = dateInRange_bounds [OF y]
  have "\<bar>r\<bar> \<le> 2 ^ 53" using b by simp
  then obtain bd where bd: "BalanceDurationPlain r 0 0 0 0 0 0 Day = Inr bd" "bDays bd = r"
    by (rule BalanceDurationPlain_days)
  have e: "epochDay x + 7 * q + r = epochDay y" using D by simp
  have "\<bar>7 * q + r\<bar> \<le> 2 ^ 50" unfolding D using vx(5) vy(5) by simp
  then have "AddISODate (year x) (month x) (day x) 0 0 q r Constrain = Inr y"
    using AddISODate_constrain [OF vx(1) less_imp_le [OF vx(4)], of 0 0 q r] b vx(1) vy(1) by (simp add: e)
  moreover have "AddISODate (year x) (month x) (day x) 0 0 q r ov = AddISODate (year x) (month x) (day x) 0 0 q r Constrain"
    using AddISODate_reject [OF vx(1) less_imp_le [OF vx(4)], of 0 0 q r] b vx(1) \<open>\<bar>7 * q + r\<bar> \<le> 2 ^ 50\<close>
    by (cases ov) simp_all
  ultimately show ?thesis
    using bd CreateTemporalDate_eq [OF now, of y] y by (simp add: Calendar_dateAdd_def iso8601_dateAdd_def)
qed

section \<open>The round trip\<close>

lemma AddDateTime_back:
  assumes now: "clockOk now" and x: "dateInRange (dtDate x)" "validTime (dtTime x)"
    and y: "dateInRange (dtDate y)" "validTime (dtTime y)"
    and f: "\<forall>f \<in> {h, mi, se, ms, us, ns}. f = 0 \<or> sgn f = s"
    and T: "T = fieldsNs h mi se ms us ns" "\<bar>T\<bar> \<le> 2 ^ 52"
    and total: "datetimeNs x + (7 * q + r) * nsPerDay + T = datetimeNs y"
    and q: "\<bar>q\<bar> \<le> 2 ^ 40" "q = 0 \<or> sgn q = sgn (epochDay (dtDate y) - epochDay (dtDate x) - 7 * q)
      \<or> epochDay (dtDate y) - epochDay (dtDate x) - 7 * q = 0"
  shows "AddDateTime now (isoCalendar now) x (mkDuration 0 0 q r h mi se ms us ns) ov = Inr y"
proof -
  define D v where "D = epochDay (dtDate y) - epochDay (dtDate x)" and "v = D - 7 * q"
  have t: "(timeNs (dtTime x) + T) = (v - r) * nsPerDay + timeNs (dtTime y)"
    using total by (simp add: datetimeNs_def v_def D_def algebra_simps)
  have dv: "(timeNs (dtTime x) + T) div nsPerDay = v - r" "(timeNs (dtTime x) + T) mod nsPerDay = timeNs (dtTime y)"
    unfolding t using timeNs_range [OF y(2)] by simp_all
  have D: "\<bar>D\<bar> \<le> 2 ^ 40" using dateInRange_bounds(5) [OF x(1)] dateInRange_bounds(5) [OF y(1)] by (simp add: D_def)
  then have v: "\<bar>v\<bar> \<le> 2 ^ 50" using q(1) by (simp add: v_def)
  have "nadd r (v - r) = v" using v by (simp add: nadd_safe)
  have tm: "timeOfNs ((v - r) * nsPerDay + timeNs (dtTime y)) = dtTime y"
    using timeOfNs_timeNs [OF y(2)] by (simp add: timeOfNs_shift iso_time.truncate_def)
  have c: "CreateDuration 0 0 q v 0 0 0 0 0 0 = Inr (mkDuration 0 0 q v 0 0 0 0 0 0)"
    using CreateDuration_date [of "dateDuration 0 0 q v" "if q = 0 then sgn v else sgn q"] q v
    by (auto simp: isFinite_safe v_def D_def)
  have a: "Calendar_dateAdd now (dtDate x) (mkDuration 0 0 q v 0 0 0 0 0 0) ov = Inr (dtDate y)"
    using q(1) v by (intro Calendar_dateAdd_days [OF now x(1) y(1)]) (simp_all add: v_def D_def)
  show ?thesis
    using AddTime_eq [OF x(2) f T] CreateTemporalDate_eq [OF now, of "dtDate x"] x(1) c a
      timeNs_range [OF y(2)] \<open>nadd r (v - r) = v\<close>
    by (simp add: AddDateTime_def t tm isoCalendar_def)
qed

lemma DifferenceISODateTime_start:
  "DifferenceISODateTime now cal x y S =
     (let t = dtTime x; t' = dtTime y; e = dtDate x; e' = dtDate y
      in bindE (DifferenceTime (hour t) (minute t) (second t) (millisecond t) (microsecond t) (nanosecond t)
           (hour t') (minute t') (second t') (millisecond t') (microsecond t') (nanosecond t')) (\<lambda>d.
         bindE (startOfDifference e e' d S) (\<lambda>(w, v, C, O1, b, E, M).
         bindE (CreateTemporalDate now (year w) (month w) (day w)) (\<lambda>F.
         bindE (CreateTemporalDate now (year e') (month e') (day e')) (\<lambda>Y.
         bindE (calDateUntil cal F Y (LargerOfTwoTemporalUnits Day S)) (\<lambda>u.
         bindE (BalanceDurationPlain (days u) v C O1 b E M S) (\<lambda>b.
           Inr (mkDuration (years u) (months u) (weeks u) (bDays b) (bHours b) (bMinutes b) (bSeconds b)
             (bMilliseconds b) (bMicroseconds b) (bNanoseconds b)))))))))"
  unfolding DifferenceISODateTime_def startOfDifference_def Let_def by (rule refl)

lemma DifferenceTime_total:
  assumes x: "validTime x" and y: "validTime y" and T: "T = timeNs y - timeNs x"
  obtains d where "DifferenceTime (hour x) (minute x) (second x) (millisecond x) (microsecond x) (nanosecond x)
      (hour y) (minute y) (second y) (millisecond y) (microsecond y) (nanosecond y) = Inr d"
    "T = fieldsNs (tdHours d) (tdMinutes d) (tdSeconds d) (tdMilliseconds d) (tdMicroseconds d) (tdNanoseconds d)"
    "DurationSign 0 0 0 0 (tdHours d) (tdMinutes d) (tdSeconds d) (tdMilliseconds d) (tdMicroseconds d)
      (tdNanoseconds d) = sgn T"
proof -
  have r: "\<bar>T\<bar> < nsPerDay" using timeNs_range [OF x] timeNs_range [OF y] by (simp add: T abs_less_iff)
  define z where "z = timeOfNs \<bar>T\<bar>"
  have z: "validTime z" "timeNs z = \<bar>T\<bar>" using r by (simp_all add: z_def timeNs_timeOfNs)
  have sum: "fieldsNs (hour z * sgn T) (minute z * sgn T) (second z * sgn T) (millisecond z * sgn T)
      (microsecond z * sgn T) (nanosecond z * sgn T) = T"
    unfolding timeFields_sgn [OF z(1)] z(2) by (simp add: abs_mult_sgn)
  have "DurationSign 0 0 0 0 (hour z * sgn T) (minute z * sgn T) (second z * sgn T) (millisecond z * sgn T)
      (microsecond z * sgn T) (nanosecond z * sgn T) = sgn (fieldsNs (hour z * sgn T) (minute z * sgn T)
        (second z * sgn T) (millisecond z * sgn T) (microsecond z * sgn T) (nanosecond z * sgn T))"
    using z(1) by (intro signOfFields) (auto simp: validTime_def sgn_if)
  then show thesis
    using sum by (intro that [OF DifferenceTime_eq [OF x y, folded T z_def]]) simp_all
qed

lemma weekSign:
  fixes q r k e :: int
  assumes "q = 0 \<or> sgn q = sgn k" "r = 0 \<or> sgn r = sgn k" "e = 0 \<or> e = sgn (k + e)"
  shows "q = 0 \<or> sgn q = sgn (r + e) \<or> r + e = 0"
  using assms by (cases k "0::int" rule: linorder_cases) (auto simp: sgn_if split: if_splits)

text \<open>Balancing a total of days and less than a day of time, with room left for adding a time.\<close>

lemma BalanceDurationPlain_room:
  assumes N: "N = r * nsPerDay + fieldsNs v C O1 b E M" and F: "\<bar>fieldsNs v C O1 b E M\<bar> < nsPerDay" and r: "\<bar>r\<bar> \<le> 2 ^ 28"
    and S: "S \<in> {Week, Day} \<or> S \<notin> {Year, Month} \<and> \<bar>N\<bar> \<le> 2 ^ 52"
  obtains d where "BalanceDurationPlain r v C O1 b E M S = Inr d" "balancedNs d = N"
    "\<forall>f \<in> {bHours d, bMinutes d, bSeconds d, bMilliseconds d, bMicroseconds d, bNanoseconds d}. f = 0 \<or> sgn f = sgn N"
    "\<bar>N - bDays d * nsPerDay\<bar> \<le> 2 ^ 52"
proof -
  have Nr: "\<bar>N\<bar> \<le> exactRange S"
  proof (cases "S \<in> {Week, Day}")
    case True
    then show ?thesis using r F by (auto simp: N exactRange_def nsPerDay_def abs_le_iff abs_less_iff)
  next
    case False
    then show ?thesis using S by (cases S) (auto simp: exactRange_def topTimeNs_def unitNs_def nsPerDay_def)
  qed
  show thesis
  proof (rule BalanceDurationPlain_exact [OF N Nr])
    fix d
    assume d: "BalanceDurationPlain r v C O1 b E M S = Inr d" "balancedNs d = N"
      "bDays d = (if S \<in> {Year, Month, Week, Day} then tdiv N nsPerDay else 0)"
      "\<forall>f \<in> {bDays, bHours, bMinutes, bSeconds, bMilliseconds, bMicroseconds, bNanoseconds}.
        \<bar>f d\<bar> \<le> 2 ^ 53 \<and> (f d = 0 \<or> sgn (f d) = sgn N)"
    have "\<bar>N - bDays d * nsPerDay\<bar> \<le> 2 ^ 52"
    proof (cases "S \<in> {Week, Day}")
      case True
      then have "N - bDays d * nsPerDay = tmod N nsPerDay" using d(3) tdiv_tmod [of N nsPerDay] by auto
      moreover have "- nsPerDay < tmod N nsPerDay" "tmod N nsPerDay < nsPerDay" by (rule tmod_bounds; simp add: nsPerDay_def)+
      ultimately show ?thesis by (simp add: nsPerDay_def abs_le_iff)
    qed (use S d(3) in auto)
    then show thesis using that [OF d(1,2)] d(4) by auto
  qed
qed

text \<open>
  In months there is no such round trip: from noon on 30 January 2023 to 6 on 1 March it is, by the code, one
  month, one day and 18 hours, since the months are counted from 31 January; added to the first
  date-time they lead to 2 March.
\<close>

lemma monthsDifference:
  fixes x y :: iso_datetime
  defines "x \<equiv> \<lparr>dtDate = mkDate 2023 1 30, dtTime = mkTime 12 0 0 0 0 0\<rparr>"
    and "y \<equiv> \<lparr>dtDate = mkDate 2023 3 1, dtTime = mkTime 6 0 0 0 0 0\<rparr>"
  obtains h mi se ms us ns where
    "DifferenceISODateTime 0 (isoCalendar 0) x y Month = Inr (mkDuration 0 1 0 1 h mi se ms us ns)"
    "64800000000000 = fieldsNs h mi se ms us ns" "\<forall>f \<in> {h, mi, se, ms, us, ns}. f = 0 \<or> sgn f = 1"
proof -
  let ?w = "mkDate 2023 1 31"
  have c0: "clockOk 0" by (simp add: clockOk_def msPerDay_def)
  have v: "validTime (dtTime x)" "validTime (dtTime y)" by (simp_all add: x_def y_def validTime_def)
  have "- 21600000000000 = timeNs (dtTime y) - timeNs (dtTime x)" by (simp add: x_def y_def timeNs_def fieldsNs_def)
  from DifferenceTime_total [OF v this] obtain d where
    d: "DifferenceTime 12 0 0 0 0 0 6 0 0 0 0 0 = Inr d"
      "fieldsNs (tdHours d) (tdMinutes d) (tdSeconds d) (tdMilliseconds d) (tdMicroseconds d) (tdNanoseconds d) = - 21600000000000"
      "DurationSign 0 0 0 0 (tdHours d) (tdMinutes d) (tdSeconds d) (tdMilliseconds d) (tdMicroseconds d) (tdNanoseconds d) = - 1"
    by (auto simp: x_def y_def)
  have days: "epochDay ?w = 19388" "epochDay (mkDate 2023 3 1) = 19417" "dateOfDay 19388 = ?w"
    "wholeMonths ?w (mkDate 2023 3 1) = 1" "addMonths ?w 1 = mkDate 2023 2 28" "epochDay (mkDate 2023 2 28) = 19416"
    "dateInRange ?w" "dateInRange (mkDate 2023 3 1)" "MakeDay 2023 0 31 = 19388" "CompareISODate 2023 3 1 2023 1 30 = 1"
    by code_simp+
  have w: "BalanceISODate 2023 1 (nsub 30 (- 1)) = Inr ?w"
    using BalanceISODate_safe [of 2023 1 31] by (simp add: nsub_safe days)
  obtain b where b: "BalanceDurationPlain 1 (tdHours d) (tdMinutes d) (tdSeconds d) (tdMilliseconds d) (tdMicroseconds d) (tdNanoseconds d) Month = Inr b"
    "balancedNs b = 64800000000000" "bDays b = 0"
    by (rule BalanceDurationPlain_exact [of 64800000000000 1 "tdHours d" "tdMinutes d" "tdSeconds d" "tdMilliseconds d" "tdMicroseconds d"
          "tdNanoseconds d" Month]) (simp_all add: d(2) nsPerDay_def exactRange_def tdiv_small)
  have f: "fieldsNs (bHours b) (bMinutes b) (bSeconds b) (bMilliseconds b) (bMicroseconds b) (bNanoseconds b) = 64800000000000"
    using b(2,3) by (simp add: balancedNs_def)
  have e: "1 * nsPerDay + 64800000000000 = 151200000000000" by (simp add: nsPerDay_def)
  obtain b2 where b2: "BalanceDurationPlain 1 (bHours b) (bMinutes b) (bSeconds b) (bMilliseconds b) (bMicroseconds b) (bNanoseconds b) Month = Inr b2"
    "balancedNs b2 = 151200000000000" "bDays b2 = tdiv 151200000000000 nsPerDay"
    "\<forall>f \<in> {bDays, bHours, bMinutes, bSeconds, bMilliseconds, bMicroseconds, bNanoseconds}. f b2 = 0 \<or> sgn (f b2) = 1"
    by (rule BalanceDurationPlain_exact [of 151200000000000 1 "bHours b" "bMinutes b" "bSeconds b" "bMilliseconds b" "bMicroseconds b"
          "bNanoseconds b" Month]) (simp_all add: f nsPerDay_def exactRange_def)
  have d2: "bDays b2 = 1" using b2(3) by (simp add: tdiv_def nsPerDay_def)
  have f2: "64800000000000 = fieldsNs (bHours b2) (bMinutes b2) (bSeconds b2) (bMilliseconds b2) (bMicroseconds b2) (bNanoseconds b2)"
    using b2(2) d2 by (simp add: balancedNs_def nsPerDay_def)
  have "DifferenceISODate 2023 1 31 2023 3 1 Month = Inr (dateDuration 0 1 0 1)"
    using DifferenceISODate_months [of ?w "mkDate 2023 3 1" Month] days by (simp add: dateInRange_def)
  then have u: "Calendar_dateUntil ?w (mkDate 2023 3 1) Month = Inr (mkDuration 0 1 0 1 0 0 0 0 0 0)"
    using CreateDuration_date [of "dateDuration 0 1 0 1" 1]
    by (simp add: Calendar_dateUntil_def iso8601_dateUntil_def throwIf_def isFinite_safe)
  have e: "DifferenceISODateTime 0 (isoCalendar 0) x y Month
    = Inr (mkDuration 0 1 0 1 (bHours b2) (bMinutes b2) (bSeconds b2) (bMilliseconds b2) (bMicroseconds b2) (bNanoseconds b2))"
    using b2(1) d2 u CreateTemporalDate_eq [OF c0, of ?w] CreateTemporalDate_eq [OF c0, of "mkDate 2023 3 1"] days
    by (simp add: DifferenceISODateTime_start startOfDifference_def x_def y_def d(1,3) w b(1) isoCalendar_def
        LargerOfTwoTemporalUnits_def unitNames_def)
  show thesis by (rule that [OF e f2]) (use b2(4) in auto)
qed

lemma DifferenceISODateTime_months:
  "bindE (DifferenceISODateTime 0 (isoCalendar 0) \<lparr>dtDate = mkDate 2023 1 30, dtTime = mkTime 12 0 0 0 0 0\<rparr>
      \<lparr>dtDate = mkDate 2023 3 1, dtTime = mkTime 6 0 0 0 0 0\<rparr> Month)
    (\<lambda>d. AddDateTime 0 (isoCalendar 0) \<lparr>dtDate = mkDate 2023 1 30, dtTime = mkTime 12 0 0 0 0 0\<rparr> d Constrain)
   = Inr \<lparr>dtDate = mkDate 2023 3 2, dtTime = mkTime 6 0 0 0 0 0\<rparr>"
proof (rule monthsDifference)
  fix h mi se ms us ns
  assume d: "DifferenceISODateTime 0 (isoCalendar 0) \<lparr>dtDate = mkDate 2023 1 30, dtTime = mkTime 12 0 0 0 0 0\<rparr>
      \<lparr>dtDate = mkDate 2023 3 1, dtTime = mkTime 6 0 0 0 0 0\<rparr> Month = Inr (mkDuration 0 1 0 1 h mi se ms us ns)"
    and f: "64800000000000 = fieldsNs h mi se ms us ns" "\<forall>f \<in> {h, mi, se, ms, us, ns}. f = 0 \<or> sgn f = 1"
  have c0: "clockOk 0" and v: "validTime (mkTime 12 0 0 0 0 0)" by (simp_all add: clockOk_def msPerDay_def validTime_def)
  have days: "addMonths (mkDate 2023 1 30) 1 = mkDate 2023 2 28" "epochDay (mkDate 2023 2 28) = 19416"
    "dateOfDay 19418 = mkDate 2023 3 2" "dateInRange (mkDate 2023 1 30)" "dateInRange (mkDate 2023 3 2)"
    by code_simp+
  obtain bd where bd: "BalanceDurationPlain 2 0 0 0 0 0 0 Day = Inr bd" "bDays bd = 2"
    by (rule BalanceDurationPlain_days [of 2]) simp_all
  then have "Calendar_dateAdd 0 (mkDate 2023 1 30) (mkDuration 0 1 0 2 0 0 0 0 0 0) Constrain = Inr (mkDate 2023 3 2)"
    using AddISODate_constrain [of "mkDate 2023 1 30" 0 1 0 2] CreateTemporalDate_eq [OF c0, of "mkDate 2023 3 2"] days
    by (simp add: Calendar_dateAdd_def iso8601_dateAdd_def dateInRange_def)
  moreover have "CreateDuration 0 1 0 2 0 0 0 0 0 0 = Inr (mkDuration 0 1 0 2 0 0 0 0 0 0)"
    using CreateDuration_date [of "dateDuration 0 1 0 2" 1] by (simp add: isFinite_safe)
  moreover have "timeNs (mkTime 12 0 0 0 0 0) = 43200000000000" by (simp add: timeNs_def fieldsNs_def)
  ultimately show ?thesis
    using AddTime_eq [OF v f(2,1)] CreateTemporalDate_eq [OF c0, of "mkDate 2023 1 30"] days(4)
    unfolding d
    by (simp add: AddDateTime_def nadd_safe isoCalendar_def nsPerDay_def timeOfNs_def)
qed

text \<open>C18: the difference of two date-times in weeks, in days, or in hours or smaller units when they are
  at most \<open>2 ^ 52\<close> nanoseconds (52 days) apart, exists, and adding it to the first gives the
  second to the nanosecond. Differences in years and months are not included: \<open>DifferenceISODateTime_months\<close>
  is a pair of date-times for which they do not lead back.\<close>

theorem DifferenceISODateTime_roundtrip:
  assumes now: "clockOk now" and x: "dateInRange (dtDate x)" "validTime (dtTime x)"
    and y: "dateInRange (dtDate y)" "validTime (dtTime y)"
    and S: "S \<in> {Week, Day} \<or> S \<notin> {Year, Month} \<and> \<bar>datetimeNs y - datetimeNs x\<bar> \<le> 2 ^ 52"
  shows "bindE (DifferenceISODateTime now (isoCalendar now) x y S)
    (\<lambda>d. AddDateTime now (isoCalendar now) x d Constrain) = Inr y"
proof -
  define D where "D = datetimeNs y - datetimeNs x"
  define T where "T = timeNs (dtTime y) - timeNs (dtTime x)"
  have T: "\<bar>T\<bar> < nsPerDay" using timeNs_range [OF x(2)] timeNs_range [OF y(2)] by (simp add: T_def abs_less_iff)
  obtain d where d: "DifferenceTime (hour (dtTime x)) (minute (dtTime x)) (second (dtTime x)) (millisecond (dtTime x))
      (microsecond (dtTime x)) (nanosecond (dtTime x)) (hour (dtTime y)) (minute (dtTime y)) (second (dtTime y))
      (millisecond (dtTime y)) (microsecond (dtTime y)) (nanosecond (dtTime y)) = Inr d"
    "T = fieldsNs (tdHours d) (tdMinutes d) (tdSeconds d) (tdMilliseconds d) (tdMicroseconds d) (tdNanoseconds d)"
    "DurationSign 0 0 0 0 (tdHours d) (tdMinutes d) (tdSeconds d) (tdMilliseconds d) (tdMicroseconds d)
      (tdNanoseconds d) = sgn T"
    by (rule DifferenceTime_total [OF x(2) y(2) T_def])
  obtain w v C O1 b E M where w: "startOfDifference (dtDate x) (dtDate y) d S = Inr (w, v, C, O1, b, E, M)" "dateInRange w"
    "fieldsNs v C O1 b E M = T + (epochDay w - epochDay (dtDate x)) * nsPerDay"
    "\<bar>fieldsNs v C O1 b E M\<bar> < nsPerDay"
    "epochDay w = epochDay (dtDate x) \<or> epochDay w = epochDay (dtDate x) + sgn (epochDay (dtDate y) - epochDay (dtDate x))"
    by (rule startOfDifference_eq [OF x(1) y(1) d(2) T d(3)])
  define k where "k = epochDay (dtDate y) - epochDay w"
  define q r where "q = (if S = Week then tdiv k 7 else 0)" and "r = (if S = Week then tmod k 7 else k)"
  have qr: "7 * q + r = k" using tdiv_tmod [of k 7] by (simp add: q_def r_def)
  have kb: "\<bar>k\<bar> \<le> 2 ^ 28" using dateInRange_bounds(5) [OF y(1)] dateInRange_bounds(5) [OF w(2)] by (simp add: k_def)
  have qb: "\<bar>q\<bar> \<le> 2 ^ 28" "\<bar>r\<bar> \<le> 2 ^ 28" using kb tdiv_tmod_sgn(3,4) [of 7 k] by (simp_all add: q_def r_def)
  have qs: "q = 0 \<or> sgn q = sgn k" "r = 0 \<or> sgn r = sgn k"
    using tdiv_tmod_sgn(1,2) [of 7 k] by (simp_all add: q_def r_def)
  have "epochDay (dtDate y) - epochDay (dtDate x) - 7 * q = r + (epochDay w - epochDay (dtDate x))"
    using qr by (simp add: k_def)
  moreover have "q = 0 \<or> sgn q = sgn (r + (epochDay w - epochDay (dtDate x))) \<or> r + (epochDay w - epochDay (dtDate x)) = 0"
    by (rule weekSign [OF qs]) (use w(5) in \<open>auto simp: k_def\<close>)
  ultimately have v: "q = 0 \<or> sgn q = sgn (epochDay (dtDate y) - epochDay (dtDate x) - 7 * q)
      \<or> epochDay (dtDate y) - epochDay (dtDate x) - 7 * q = 0"
    by (simp only:)
  have u: "calDateUntil (isoCalendar now) w (dtDate y) (LargerOfTwoTemporalUnits Day S) = Inr (mkDuration 0 0 q r 0 0 0 0 0 0)"
    using Calendar_dateUntil_days [OF w(2) y(1) k_def] S
    by (cases S) (auto simp: isoCalendar_def q_def r_def LargerOfTwoTemporalUnits_def unitNames_def)
  define N where "N = r * nsPerDay + fieldsNs v C O1 b E M"
  have ey: "epochDay (dtDate y) = epochDay w + 7 * q + r" using qr by (simp add: k_def)
  have N: "7 * q * nsPerDay + N = D"
    using w(3) by (simp add: N_def D_def datetimeNs_def T_def ey algebra_simps)
  have "S \<in> {Week, Day} \<or> S \<notin> {Year, Month} \<and> \<bar>N\<bar> \<le> 2 ^ 52"
    using S N by (auto simp: q_def D_def)
  then obtain b2 where b2: "BalanceDurationPlain r v C O1 b E M S = Inr b2" "balancedNs b2 = N"
    "\<forall>f \<in> {bHours b2, bMinutes b2, bSeconds b2, bMilliseconds b2, bMicroseconds b2, bNanoseconds b2}. f = 0 \<or> sgn f = sgn N"
    "\<bar>N - bDays b2 * nsPerDay\<bar> \<le> 2 ^ 52"
    by (rule BalanceDurationPlain_room [OF N_def w(4) qb(2)])
  have "AddDateTime now (isoCalendar now) x (mkDuration 0 0 q (bDays b2) (bHours b2) (bMinutes b2) (bSeconds b2)
      (bMilliseconds b2) (bMicroseconds b2) (bNanoseconds b2)) Constrain = Inr y"
    using N b2(2,4) qb(1) v
    by (intro AddDateTime_back [OF now x y b2(3) refl]) (auto simp: D_def balancedNs_def algebra_simps)
  then show ?thesis
    using x(1) y(1) w(2) CreateTemporalDate_eq [OF now, of w] CreateTemporalDate_eq [OF now, of "dtDate y"]
    by (simp add: DifferenceISODateTime_start d(1) w(1) u b2(1))
qed

theorem DifferenceISODateTime_roundtrip_witness:
  "bindE (DifferenceISODateTime 0 (isoCalendar 0)
       \<lparr>dtDate = mkDate 2024 1 31, dtTime = mkTime 23 59 59 999 999 999\<rparr>
       \<lparr>dtDate = mkDate 2021 2 28, dtTime = mkTime 0 0 0 0 0 0\<rparr> Week)
     (\<lambda>d. AddDateTime 0 (isoCalendar 0) \<lparr>dtDate = mkDate 2024 1 31, dtTime = mkTime 23 59 59 999 999 999\<rparr> d Constrain)
   = Inr \<lparr>dtDate = mkDate 2021 2 28, dtTime = mkTime 0 0 0 0 0 0\<rparr>"
proof (rule DifferenceISODateTime_roundtrip)
  have "dateInRange (mkDate 2024 1 31)" "dateInRange (mkDate 2021 2 28)" by code_simp+
  then show "dateInRange (dtDate \<lparr>dtDate = mkDate 2024 1 31, dtTime = mkTime 23 59 59 999 999 999\<rparr>)"
    "dateInRange (dtDate \<lparr>dtDate = mkDate 2021 2 28, dtTime = mkTime 0 0 0 0 0 0\<rparr>)" by simp_all
qed (simp_all add: clockOk_def msPerDay_def validTime_def)

end
