(* ===== verification/Js_String.thy ===== *)
theory Js_String imports Prelude "HOL-Library.Code_Target_Nat" begin

text \<open>
  The string operations of JavaScript that the code uses, on Latin-1 strings: decimal
  printing and reading, \<^verbatim>\<open>padStart\<close>, \<^verbatim>\<open>slice\<close>, case conversion. A string of the program with a
  character above U+00FF (the minus sign U+2212 that time zone offsets may use) is outside
  the model.
\<close>

section \<open>Digits\<close>

definition digitChar :: "nat \<Rightarrow> char" where "digitChar n = char_of (48 + n)"

definition digitVal :: "char \<Rightarrow> nat" where "digitVal c = of_char c - 48"

definition isDigit :: "char \<Rightarrow> bool" where
  "isDigit c \<longleftrightarrow> 48 \<le> (of_char c :: nat) \<and> (of_char c :: nat) \<le> 57"

lemma of_char_digitChar [simp]: "n < 10 \<Longrightarrow> (of_char (digitChar n) :: nat) = 48 + n"
  by (simp add: digitChar_def)

lemma isDigit_digitChar [simp]: "n < 10 \<Longrightarrow> isDigit (digitChar n)"
  by (simp add: isDigit_def)

lemma digitVal_digitChar [simp]: "n < 10 \<Longrightarrow> digitVal (digitChar n) = n"
  by (simp add: digitVal_def)

lemma digitChar_digitVal: "isDigit c \<Longrightarrow> digitChar (digitVal c) = c"
  by (simp add: isDigit_def digitChar_def digitVal_def)

lemma digitVal_less: "isDigit c \<Longrightarrow> digitVal c < 10"
  by (auto simp: isDigit_def digitVal_def)

text \<open>\<^verbatim>\<open>"" + n\<close> on a nonnegative integer, and \<^verbatim>\<open>+s\<close> on a string of digits.\<close>

fun decNat :: "nat \<Rightarrow> string" where
  "decNat n = (if n < 10 then [digitChar n] else decNat (n div 10) @ [digitChar (n mod 10)])"

declare decNat.simps [simp del]

definition decInt :: "int \<Rightarrow> string" where
  "decInt n = (if n < 0 then CHR ''-'' # decNat (nat (- n)) else decNat (nat n))"

definition valNat :: "string \<Rightarrow> nat" where
  "valNat s = foldl (\<lambda>a c. 10 * a + digitVal c) 0 s"

lemma valNat_Nil [simp]: "valNat [] = 0"
  by (simp add: valNat_def)

lemma valNat_snoc [simp]: "valNat (s @ [c]) = 10 * valNat s + digitVal c"
  by (simp add: valNat_def)

lemma valNat_append: "valNat (s @ t) = valNat s * 10 ^ length t + valNat t"
  by (induction t rule: rev_induct) (simp_all add: append_assoc [symmetric] algebra_simps del: append_assoc)

lemma valNat_Cons: "valNat (c # t) = digitVal c * 10 ^ length t + valNat t"
  using valNat_append [of "[c]" t] by (simp add: valNat_def)

lemma valNat_decNat [simp]: "valNat (decNat n) = n"
proof (induction n rule: decNat.induct)
  case (1 n)
  show ?case
  proof (cases "n < 10")
    case True
    then show ?thesis using valNat_snoc [of "[]" "digitChar n"] by (simp add: decNat.simps [of n])
  next
    case False
    then show ?thesis using 1 by (simp add: decNat.simps [of n])
  qed
qed

lemma decNat_digits: "list_all isDigit (decNat n)"
proof (induction n rule: decNat.induct)
  case (1 n)
  then show ?case by (cases "n < 10") (simp_all add: decNat.simps [of n])
qed

lemma decNat_not_Nil [simp]: "decNat n \<noteq> []"
  by (simp add: decNat.simps)

lemma length_decNat: "0 < k \<Longrightarrow> n < 10 ^ k \<Longrightarrow> length (decNat n) \<le> k"
proof (induction k arbitrary: n)
  case (Suc k)
  show ?case
  proof (cases "n < 10")
    case False
    then have "0 < k" using Suc.prems by (cases k) simp_all
    moreover have "n div 10 < 10 ^ k" using Suc.prems by (simp add: less_mult_imp_div_less)
    ultimately show ?thesis using Suc.IH [of "n div 10"] False by (simp add: decNat.simps [of n])
  qed (simp add: decNat.simps)
qed simp

lemma valNat_less: "list_all isDigit s \<Longrightarrow> valNat s < 10 ^ length s"
proof (induction s rule: rev_induct)
  case (snoc c s)
  then have "valNat s + 1 \<le> 10 ^ length s" "digitVal c < 10" by (simp_all add: digitVal_less Suc_le_eq)
  then show ?case by simp
qed simp

lemma valNat_inj:
  "list_all isDigit s \<Longrightarrow> list_all isDigit t \<Longrightarrow> length s = length t \<Longrightarrow> valNat s = valNat t \<Longrightarrow> s = t"
proof (induction s arbitrary: t rule: rev_induct)
  case (snoc c s)
  then obtain d t' where t: "t = t' @ [d]" by (cases t rule: rev_cases) auto
  then have d: "isDigit c" "isDigit d" and e: "10 * valNat s + digitVal c = 10 * valNat t' + digitVal d"
    using snoc.prems by auto
  then have "digitVal c = digitVal d" "valNat s = valNat t'"
    using digitVal_less [OF d(1)] digitVal_less [OF d(2)] by arith+
  moreover have "c = d" using calculation(1) d digitChar_digitVal by metis
  ultimately show ?case using snoc t by simp
qed simp

section \<open>Padding and slicing\<close>

text \<open>\<^verbatim>\<open>s.padStart(n, c)\<close> for a pad string of one character.\<close>

definition padStart :: "string \<Rightarrow> nat \<Rightarrow> char \<Rightarrow> string" where
  "padStart s n c = replicate (n - length s) c @ s"

text \<open>\<^verbatim>\<open>s.slice(-n)\<close>, \<^verbatim>\<open>s.slice(0, -1)\<close>.\<close>

definition sliceLast :: "nat \<Rightarrow> string \<Rightarrow> string" where
  "sliceLast n s = drop (length s - n) s"

lemma digitVal_0 [simp]: "digitVal CHR ''0'' = 0" and isDigit_0 [simp]: "isDigit CHR ''0''"
  by (simp_all add: digitVal_def isDigit_def)

lemma valNat_replicate_0 [simp]: "valNat (replicate n CHR ''0'' @ s) = valNat s"
  by (induction n) (simp_all add: valNat_Cons)

lemma valNat_padStart [simp]: "valNat (padStart s n CHR ''0'') = valNat s"
  by (simp add: padStart_def)

lemma length_padStart [simp]: "length (padStart s n c) = max n (length s)"
  by (simp add: padStart_def)

lemma padStart_digits: "list_all isDigit s \<Longrightarrow> list_all isDigit (padStart s n CHR ''0'')"
  by (auto simp: padStart_def list_all_iff)

text \<open>\<^verbatim>\<open>"00...".concat(n).slice(-k)\<close>, for a number of at most k digits.\<close>

lemma sliceLast_pad:
  assumes "length s \<le> k" "k \<le> m"
  shows "sliceLast k (replicate m c @ s) = padStart s k c"
  using assms by (simp add: sliceLast_def padStart_def drop_append)

text \<open>\<^verbatim>\<open>for (; s[s.length - 1] === "0";) s = s.slice(0, -1)\<close>\<close>

fun stripZeros :: "string \<Rightarrow> string" where
  "stripZeros s = (if s \<noteq> [] \<and> last s = CHR ''0'' then stripZeros (butlast s) else s)"

declare stripZeros.simps [simp del]

lemma stripZeros_append: "\<exists>n. s = stripZeros s @ replicate n CHR ''0''"
proof (induction s rule: stripZeros.induct)
  case (1 s)
  show ?case
  proof (cases "s \<noteq> [] \<and> last s = CHR ''0''")
    case True
    then obtain t where t: "s = t @ [CHR ''0'']" by (metis append_butlast_last_id)
    have e: "stripZeros s = stripZeros t" by (subst stripZeros.simps) (simp add: t)
    obtain n where n: "t = stripZeros t @ replicate n CHR ''0''" using 1 True t by auto
    have "s = stripZeros s @ replicate (Suc n) CHR ''0''"
      unfolding e by (subst t, subst n) (simp add: replicate_append_same)
    then show ?thesis by blast
  next
    case False
    then show ?thesis by (intro exI [of _ 0], subst stripZeros.simps) auto
  qed
qed

text \<open>\<^verbatim>\<open>(s + "000000000").slice(0, 9)\<close> restores what the loop removed.\<close>

lemma take_stripZeros:
  assumes "length s \<le> n"
  shows "take n (stripZeros s @ replicate n CHR ''0'') = s @ replicate (n - length s) CHR ''0''"
proof -
  obtain m where m: "s = stripZeros s @ replicate m CHR ''0''" using stripZeros_append by blast
  have l: "length s = length (stripZeros s) + m" using arg_cong [OF m, of length] by simp
  have "take n (stripZeros s @ replicate n CHR ''0'') = stripZeros s @ replicate (m + (n - length s)) CHR ''0''"
    using assms l by simp
  also have "\<dots> = (stripZeros s @ replicate m CHR ''0'') @ replicate (n - length s) CHR ''0''"
    by (simp add: replicate_add)
  finally show ?thesis unfolding m [symmetric] .
qed

section \<open>Case conversion\<close>

text \<open>On Latin-1 strings \<^verbatim>\<open>ASCIILowercase\<close> of the code replaces A to Z only.\<close>

definition asciiUpper :: "char \<Rightarrow> bool" where
  "asciiUpper c \<longleftrightarrow> 65 \<le> (of_char c :: nat) \<and> (of_char c :: nat) \<le> 90"

definition ASCIILowercase :: "string \<Rightarrow> string" where
  "ASCIILowercase = map (\<lambda>c. if asciiUpper c then char_of (of_char c + 32 :: nat) else c)"

end
