(* ===== verification/Js_Value.thy ===== *)
theory Js_Value imports Js_Number Js_String "HOL-Library.AList" begin

text \<open>
  JavaScript values as the conversions of \<^verbatim>\<open>temporal-polyfill.js\<close> see them: Numbers with the
  three values that are not finite, strings, BigInts, and objects as a list of own data
  properties with the internal slots of a Temporal object. Negative zero is zero. Functions,
  arrays and objects with getters or conversions of their own are not values of the model.
\<close>

section \<open>Values\<close>

datatype jsnum = NaN | Infinity | NegInfinity | Fin rat

datatype slot = EpochNanoseconds | TimezoneIdentifier | SlotYear | SlotMonth | SlotDay | SlotHour
  | SlotMinute | SlotSecond | SlotMillisecond | SlotMicrosecond | SlotNanosecond | SlotCalendar
  | DateBrand | YearMonthBrand | MonthDayBrand | CachedInstant | SlotTimeZone | SlotYears
  | SlotMonths | SlotWeeks | SlotDays | SlotHours | SlotMinutes | SlotSeconds | SlotMilliseconds
  | SlotMicroseconds | SlotNanoseconds | CalendarIdentifier

datatype jsval = Undefined | Null | Bool bool | Num jsnum | Big int | Str string | Sym string
  | Obj "(string \<times> jsval) list" "(slot \<times> jsval) list option"

abbreviation plainObj :: "(string \<times> jsval) list \<Rightarrow> jsval" where
  "plainObj ps \<equiv> Obj ps None"

definition getProp :: "jsval \<Rightarrow> string \<Rightarrow> jsval" where
  "getProp e k = (case e of Obj ps _ \<Rightarrow> (case map_of ps k of Some v \<Rightarrow> v | None \<Rightarrow> Undefined) | _ \<Rightarrow> Undefined)"

definition IsObject :: "jsval \<Rightarrow> bool" where
  "IsObject e = (case e of Obj _ _ \<Rightarrow> True | _ \<Rightarrow> False)"

section \<open>Internal slots\<close>

definition HasSlot :: "jsval \<Rightarrow> slot list \<Rightarrow> bool" where
  "HasSlot e ks = (case e of Obj _ (Some r) \<Rightarrow> list_all (\<lambda>k. k \<in> fst ` set r) ks | _ \<Rightarrow> False)"

definition GetSlot :: "jsval \<Rightarrow> slot \<Rightarrow> jsval result" where
  "GetSlot e t = (case e of
       Obj _ (Some r) \<Rightarrow> (case map_of r t of
           Some v \<Rightarrow> if v = Undefined then Inl TypeError else Inr v
         | None \<Rightarrow> Inl TypeError)
     | _ \<Rightarrow> Inl TypeError)"

definition truthy :: "jsval \<Rightarrow> bool" where
  "truthy v = (case v of Undefined \<Rightarrow> False | Null \<Rightarrow> False | Bool b \<Rightarrow> b
     | Num n \<Rightarrow> n \<noteq> NaN \<and> n \<noteq> Fin 0 | Big n \<Rightarrow> n \<noteq> 0 | Str s \<Rightarrow> s \<noteq> [] | _ \<Rightarrow> True)"

text \<open>A slot that holds a falsy value may be set again.\<close>

definition SetSlot :: "jsval \<Rightarrow> slot \<Rightarrow> jsval \<Rightarrow> jsval result" where
  "SetSlot e t r = (case e of
       Obj ps (Some sl) \<Rightarrow>
         (case map_of sl t of
            Some v \<Rightarrow> if truthy v then Inl TypeError else Inr (Obj ps (Some (AList.update t r sl)))
          | None \<Rightarrow> Inr (Obj ps (Some (AList.update t r sl))))
     | _ \<Rightarrow> Inl TypeError)"

definition CreateSlots :: "jsval \<Rightarrow> jsval" where
  "CreateSlots e = (case e of Obj ps _ \<Rightarrow> Obj ps (Some []) | _ \<Rightarrow> e)"

definition IsTemporalInstant :: "jsval \<Rightarrow> bool" where
  "IsTemporalInstant e = (HasSlot e [EpochNanoseconds] \<and> \<not> HasSlot e [SlotTimeZone, SlotCalendar])"

definition IsTemporalTimeZone :: "jsval \<Rightarrow> bool" where
  "IsTemporalTimeZone e = HasSlot e [TimezoneIdentifier]"

definition IsTemporalCalendar :: "jsval \<Rightarrow> bool" where
  "IsTemporalCalendar e = HasSlot e [CalendarIdentifier]"

definition IsTemporalDuration :: "jsval \<Rightarrow> bool" where
  "IsTemporalDuration e = HasSlot e [SlotYears, SlotMonths, SlotDays, SlotHours, SlotMinutes, SlotSeconds,
     SlotMilliseconds, SlotMicroseconds, SlotNanoseconds]"

definition IsTemporalDate :: "jsval \<Rightarrow> bool" where
  "IsTemporalDate e = HasSlot e [DateBrand]"

definition IsTemporalTime :: "jsval \<Rightarrow> bool" where
  "IsTemporalTime e = (HasSlot e [SlotHour, SlotMinute, SlotSecond, SlotMillisecond, SlotMicrosecond, SlotNanosecond]
     \<and> \<not> HasSlot e [SlotYear, SlotMonth, SlotDay])"

definition IsTemporalDateTime :: "jsval \<Rightarrow> bool" where
  "IsTemporalDateTime e = HasSlot e [SlotYear, SlotMonth, SlotDay, SlotHour, SlotMinute, SlotSecond,
     SlotMillisecond, SlotMicrosecond, SlotNanosecond]"

definition IsTemporalYearMonth :: "jsval \<Rightarrow> bool" where
  "IsTemporalYearMonth e = HasSlot e [YearMonthBrand]"

definition IsTemporalMonthDay :: "jsval \<Rightarrow> bool" where
  "IsTemporalMonthDay e = HasSlot e [MonthDayBrand]"

definition IsTemporalZonedDateTime :: "jsval \<Rightarrow> bool" where
  "IsTemporalZonedDateTime e = HasSlot e [EpochNanoseconds, SlotTimeZone, SlotCalendar]"

definition RejectTemporalLikeObject :: "jsval \<Rightarrow> unit result" where
  "RejectTemporalLikeObject e =
     bindE (throwIf (HasSlot e [SlotCalendar] \<or> HasSlot e [SlotTimeZone]) TypeError) (\<lambda>_.
     bindE (throwIf (IsTemporalTime e) TypeError) (\<lambda>_.
     bindE (throwIf (getProp e ''calendar'' \<noteq> Undefined) TypeError) (\<lambda>_.
            throwIf (getProp e ''timeZone'' \<noteq> Undefined) TypeError)))"

section \<open>Numbers and strings\<close>

text \<open>A double: 53 bits, and infinite from 2^1024 on.\<close>

definition numOfRat :: "rat \<Rightarrow> jsnum" where
  "numOfRat x = (let r = fl x in if 2 ^ 1024 \<le> r then Infinity else if r \<le> - (2 ^ 1024) then NegInfinity else Fin r)"

definition pow10 :: "int \<Rightarrow> rat" where
  "pow10 e = (if 0 \<le> e then 10 ^ nat e else 1 / 10 ^ nat (- e))"

text \<open>\<^verbatim>\<open>StringNumericLiteral\<close> of the language: white space around it, an empty string is 0,
  prefixes 0x, 0o and 0b, a sign, \<open>Infinity\<close>, a fraction and an exponent.\<close>

definition isWhite :: "char \<Rightarrow> bool" where
  "isWhite c \<longleftrightarrow> (of_char c :: nat) \<in> {9, 10, 11, 12, 13, 32, 160}"

definition trimWhite :: "string \<Rightarrow> string" where
  "trimWhite s = rev (dropWhile isWhite (rev (dropWhile isWhite s)))"

definition radixDigit :: "char \<Rightarrow> nat" where
  "radixDigit c =
     (let n = of_char c in
      if 48 \<le> n \<and> n \<le> 57 then n - 48 else if 65 \<le> n \<and> n \<le> 90 then n - 55
      else if 97 \<le> n \<and> n \<le> 122 then n - 87 else 99)"

definition radixLiteral :: "nat \<Rightarrow> string \<Rightarrow> jsnum" where
  "radixLiteral b ds =
     (if ds \<noteq> [] \<and> list_all (\<lambda>c. radixDigit c < b) ds
      then numOfRat (of_nat (foldl (\<lambda>a c. b * a + radixDigit c) 0 ds)) else NaN)"

definition exponentPart :: "string \<Rightarrow> int option" where
  "exponentPart s = (case s of
       [] \<Rightarrow> Some 0
     | c # t \<Rightarrow> if c \<noteq> CHR ''e'' \<and> c \<noteq> CHR ''E'' then None
         else let (sg, ds) = (case t of d # t' \<Rightarrow> if d = CHR ''-'' then (-1, t') else if d = CHR ''+'' then (1, t') else (1, t)
                              | [] \<Rightarrow> (1, []))
              in if ds \<noteq> [] \<and> list_all isDigit ds then Some (sg * int (valNat ds)) else None)"

definition decimalLiteral :: "string \<Rightarrow> rat option" where
  "decimalLiteral s =
     (let ip = takeWhile isDigit s; r = dropWhile isDigit s;
          (fp, r) = (case r of c # t \<Rightarrow> if c = CHR ''.'' then (takeWhile isDigit t, dropWhile isDigit t) else ([], r)
                     | [] \<Rightarrow> ([], []))
      in if ip = [] \<and> fp = [] then None
         else map_option (\<lambda>e. of_nat (valNat (ip @ fp)) * pow10 (e - int (length fp))) (exponentPart r))"

definition signedLiteral :: "string \<Rightarrow> jsnum" where
  "signedLiteral t =
     (let neg = (t \<noteq> [] \<and> hd t = CHR ''-'');
          u = (if t \<noteq> [] \<and> (hd t = CHR ''-'' \<or> hd t = CHR ''+'') then tl t else t)
      in if u = ''Infinity'' then (if neg then NegInfinity else Infinity)
         else case decimalLiteral u of None \<Rightarrow> NaN | Some x \<Rightarrow> numOfRat (if neg then - x else x))"

definition StringToNumber :: "string \<Rightarrow> jsnum" where
  "StringToNumber s =
     (let t = trimWhite s
      in case t of
           [] \<Rightarrow> Fin 0
         | c # d # ds \<Rightarrow>
             if c = CHR ''0'' \<and> (d = CHR ''x'' \<or> d = CHR ''X'') then radixLiteral 16 ds
             else if c = CHR ''0'' \<and> (d = CHR ''o'' \<or> d = CHR ''O'') then radixLiteral 8 ds
             else if c = CHR ''0'' \<and> (d = CHR ''b'' \<or> d = CHR ''B'') then radixLiteral 2 ds
             else signedLiteral t
         | _ \<Rightarrow> signedLiteral t)"

text \<open>\<^verbatim>\<open>Number::toString\<close>: the fewest digits that give the number back, which are all digits of
  an integer up to 2^53.\<close>

definition decExp :: "rat \<Rightarrow> int" where
  "decExp x = (if 1 \<le> x then int (length (decNat (nat \<lfloor>x\<rfloor>))) else 1 - int (length (decNat (nat (\<lceil>1 / x\<rceil> - 1)))))"

definition leadingDigits :: "rat \<Rightarrow> nat \<Rightarrow> nat" where
  "leadingDigits x k = nat (rne (x / pow10 (decExp x - int k)))"

definition digitCount :: "rat \<Rightarrow> nat" where
  "digitCount x =
     (case find (\<lambda>k. fl (of_nat (leadingDigits x k) * pow10 (decExp x - int k)) = x) [1..<18] of
        Some k \<Rightarrow> k | None \<Rightarrow> 17)"

definition posToString :: "rat \<Rightarrow> string" where
  "posToString x =
     (let n = decExp x; k = digitCount x; ds = decNat (leadingDigits x k); e = n - 1
      in if int k \<le> n \<and> n \<le> 21 then ds @ replicate (nat (n - int k)) CHR ''0''
         else if 0 < n \<and> n \<le> 21 then take (nat n) ds @ ''.'' @ drop (nat n) ds
         else if -6 < n \<and> n \<le> 0 then ''0.'' @ replicate (nat (- n)) CHR ''0'' @ ds
         else (if k = 1 then ds else take 1 ds @ ''.'' @ drop 1 ds) @ ''e'' @ (if e < 0 then ''-'' else ''+'') @ decNat (nat \<bar>e\<bar>))"

definition numToString :: "jsnum \<Rightarrow> string" where
  "numToString n = (case n of NaN \<Rightarrow> ''NaN'' | Infinity \<Rightarrow> ''Infinity'' | NegInfinity \<Rightarrow> ''-Infinity''
     | Fin r \<Rightarrow> if r = of_int \<lfloor>r\<rfloor> \<and> \<bar>r\<bar> \<le> 2 ^ 53 then decInt \<lfloor>r\<rfloor> else if r < 0 then CHR ''-'' # posToString (- r) else posToString r)"

text \<open>
  \<^verbatim>\<open>String(e)\<close>; the objects that reach it are property bags, calendars and time zones. The
  string of another Temporal object is a date, a time or a duration, which no caller accepts
  as an option; it is not told apart from the string of a plain object.
\<close>

definition ToString :: "jsval \<Rightarrow> string result" where
  "ToString e = (case e of
       Undefined \<Rightarrow> Inr ''undefined'' | Null \<Rightarrow> Inr ''null'' | Bool b \<Rightarrow> Inr (if b then ''true'' else ''false'')
     | Num n \<Rightarrow> Inr (numToString n) | Big n \<Rightarrow> Inr (decInt n) | Str s \<Rightarrow> Inr s | Sym _ \<Rightarrow> Inl TypeError
     | Obj _ sl \<Rightarrow>
         (case (map_of (case sl of Some r \<Rightarrow> r | None \<Rightarrow> []) CalendarIdentifier,
                map_of (case sl of Some r \<Rightarrow> r | None \<Rightarrow> []) TimezoneIdentifier) of
            (Some (Str s), _) \<Rightarrow> Inr s | (_, Some (Str s)) \<Rightarrow> Inr s | _ \<Rightarrow> Inr ''[object Object]''))"

text \<open>\<^verbatim>\<open>valueOf\<close> of a Temporal object with fields throws; calendars and time zones convert to
  their identifiers.\<close>

definition ToNumber :: "jsval \<Rightarrow> jsnum result" where
  "ToNumber e = (case e of
       Big _ \<Rightarrow> Inl TypeError
     | Undefined \<Rightarrow> Inr NaN | Null \<Rightarrow> Inr (Fin 0) | Bool b \<Rightarrow> Inr (Fin (if b then 1 else 0))
     | Num n \<Rightarrow> Inr n | Str s \<Rightarrow> Inr (StringToNumber s) | Sym _ \<Rightarrow> Inl TypeError
     | Obj _ _ \<Rightarrow> if HasSlot e [] \<and> \<not> IsTemporalCalendar e \<and> \<not> IsTemporalTimeZone e then Inl TypeError
                  else bindE (ToString e) (\<lambda>s. Inr (StringToNumber s)))"

section \<open>Integer conversions\<close>

definition finiteNum :: "jsnum \<Rightarrow> bool" where
  "finiteNum n = (case n of Fin _ \<Rightarrow> True | _ \<Rightarrow> False)"

definition ToIntegerOrInfinity :: "jsval \<Rightarrow> jsnum result" where
  "ToIntegerOrInfinity e =
     bindE (ToNumber e) (\<lambda>t. Inr (case t of NaN \<Rightarrow> Fin 0 | Fin x \<Rightarrow> Fin (sgn x * of_int \<lfloor>\<bar>x\<bar>\<rfloor>) | _ \<Rightarrow> t))"

definition IsIntegralNumber :: "jsval \<Rightarrow> bool" where
  "IsIntegralNumber e = (case e of Num (Fin x) \<Rightarrow> of_int \<lfloor>\<bar>x\<bar>\<rfloor> = \<bar>x\<bar> | _ \<Rightarrow> False)"

definition ToIntegerWithTruncation :: "jsval \<Rightarrow> int result" where
  "ToIntegerWithTruncation e =
     bindE (ToNumber e) (\<lambda>t. case t of Fin x \<Rightarrow> Inr (truncRat x) | _ \<Rightarrow> Inl RangeError)"

definition ToPositiveIntegerWithTruncation :: "jsval \<Rightarrow> int result" where
  "ToPositiveIntegerWithTruncation e =
     bindE (ToIntegerWithTruncation e) (\<lambda>r. if r \<le> 0 then Inl RangeError else Inr r)"

definition ToIntegerIfIntegral :: "jsval \<Rightarrow> int result" where
  "ToIntegerIfIntegral e =
     bindE (ToNumber e) (\<lambda>t. case t of
         Fin x \<Rightarrow> if IsIntegralNumber (Num t) then Inr (truncRat x) else Inl RangeError
       | _ \<Rightarrow> Inl RangeError)"

end
