(* ===== verification/Options.thy ===== *)
theory Options imports Js_Value Iso_Time begin

text \<open>
  Reading options: \<^verbatim>\<open>GetOption\<close> and the conversions of each option of \<^verbatim>\<open>temporal-polyfill.js\<close>,
  up to the settings of a difference. Strings are decoded into the datatypes of the model
  right after they have been checked against the list of allowed strings.
\<close>

section \<open>Options objects\<close>

definition GetOptionsObject :: "jsval \<Rightarrow> jsval result" where
  "GetOptionsObject e = (case e of Undefined \<Rightarrow> Inr (plainObj []) | _ \<Rightarrow> if IsObject e then Inr e else Inl TypeError)"

definition CreateOnePropObject :: "string \<Rightarrow> jsval \<Rightarrow> jsval" where
  "CreateOnePropObject e t = plainObj [(e, t)]"

text \<open>The loop over the own properties of \<open>t\<close>, in their order.\<close>

definition CopyDataProperties ::
  "(string \<times> jsval) list \<Rightarrow> jsval \<Rightarrow> string list \<Rightarrow> jsval list \<Rightarrow> (string \<times> jsval) list result" where
  "CopyDataProperties e t r o1 = (case t of
       Undefined \<Rightarrow> Inr e | Null \<Rightarrow> Inr e
     | Obj ps _ \<Rightarrow> Inr (foldl (\<lambda>e (a, v). if a \<in> set r \<or> v \<in> set o1 then e else AList.update a v e) e ps)
     | _ \<Rightarrow> Inl TypeError)"

definition CopyOptions :: "jsval \<Rightarrow> jsval result" where
  "CopyOptions e = bindE (GetOptionsObject e) (\<lambda>x. bindE (CopyDataProperties [] x [] []) (\<lambda>ps. Inr (plainObj ps)))"

definition GetOption :: "jsval \<Rightarrow> string \<Rightarrow> string list \<Rightarrow> string option \<Rightarrow> string option result" where
  "GetOption e t r o1 =
     (let n = getProp e t
      in if n \<noteq> Undefined
         then bindE (ToString n) (\<lambda>n. if n \<in> set r then Inr (Some n) else Inl RangeError)
         else Inr o1)"

section \<open>Single options\<close>

definition decodeOverflow :: "string option \<Rightarrow> overflow" where
  "decodeOverflow s = (if s = Some ''reject'' then Reject else Constrain)"

definition ToTemporalOverflow :: "jsval \<Rightarrow> overflow result" where
  "ToTemporalOverflow e =
     (if e = Undefined then Inr Constrain
      else bindE (GetOption e ''overflow'' [''constrain'', ''reject''] (Some ''constrain'')) (\<lambda>s. Inr (decodeOverflow s)))"

datatype disambiguation = Compatible | Earlier | Later | RejectInstant

definition decodeDisambiguation :: "string option \<Rightarrow> disambiguation" where
  "decodeDisambiguation s =
     (if s = Some ''earlier'' then Earlier else if s = Some ''later'' then Later
      else if s = Some ''reject'' then RejectInstant else Compatible)"

definition ToTemporalDisambiguation :: "jsval \<Rightarrow> disambiguation result" where
  "ToTemporalDisambiguation e =
     (if e = Undefined then Inr Compatible
      else bindE (GetOption e ''disambiguation'' [''compatible'', ''earlier'', ''later'', ''reject''] (Some ''compatible''))
        (\<lambda>s. Inr (decodeDisambiguation s)))"

definition modeNames :: "(string \<times> rounding_mode) list" where
  "modeNames = [(''ceil'', Ceil), (''floor'', Floor), (''expand'', Expand), (''trunc'', Trunc), (''halfCeil'', HalfCeil),
     (''halfFloor'', HalfFloor), (''halfExpand'', HalfExpand), (''halfTrunc'', HalfTrunc), (''halfEven'', HalfEven)]"

definition ToTemporalRoundingMode :: "jsval \<Rightarrow> rounding_mode \<Rightarrow> rounding_mode result" where
  "ToTemporalRoundingMode e t =
     bindE (GetOption e ''roundingMode'' (map fst modeNames) None)
       (\<lambda>s. Inr (case Option.bind s (map_of modeNames) of Some m \<Rightarrow> m | None \<Rightarrow> t))"

datatype offset_option = OffsetPrefer | OffsetUse | OffsetIgnore | OffsetReject

definition decodeOffset :: "string option \<Rightarrow> offset_option \<Rightarrow> offset_option" where
  "decodeOffset s t =
     (if s = Some ''prefer'' then OffsetPrefer else if s = Some ''use'' then OffsetUse
      else if s = Some ''ignore'' then OffsetIgnore else if s = Some ''reject'' then OffsetReject else t)"

definition ToTemporalOffset :: "jsval \<Rightarrow> offset_option \<Rightarrow> offset_option result" where
  "ToTemporalOffset e t =
     (if e = Undefined then Inr t
      else bindE (GetOption e ''offset'' [''prefer'', ''use'', ''ignore'', ''reject''] None) (\<lambda>s. Inr (decodeOffset s t)))"

datatype calendar_name = CalAuto | CalAlways | CalNever | CalCritical

definition decodeCalendarName :: "string option \<Rightarrow> calendar_name" where
  "decodeCalendarName s =
     (if s = Some ''always'' then CalAlways else if s = Some ''never'' then CalNever
      else if s = Some ''critical'' then CalCritical else CalAuto)"

definition ToCalendarNameOption :: "jsval \<Rightarrow> calendar_name result" where
  "ToCalendarNameOption e =
     bindE (GetOption e ''calendarName'' [''auto'', ''always'', ''never'', ''critical''] (Some ''auto''))
       (\<lambda>s. Inr (decodeCalendarName s))"

definition ToTemporalRoundingIncrement :: "jsval \<Rightarrow> int result" where
  "ToTemporalRoundingIncrement e =
     (let t = getProp e ''roundingIncrement''
      in if t = Undefined then Inr 1
         else bindE (ToNumber t) (\<lambda>t. case t of
             Fin x \<Rightarrow> (let r = truncRat x in if r < 1 \<or> r > 1000000000 then Inl RangeError else Inr r)
           | _ \<Rightarrow> Inl RangeError))"

text \<open>On positive increments \<open>e\<close> and positive maxima \<open>t\<close>, all below 2^53.\<close>

definition ValidateTemporalRoundingIncrement :: "int \<Rightarrow> int \<Rightarrow> bool \<Rightarrow> unit result" where
  "ValidateTemporalRoundingIncrement e t r =
     (let o1 = (if r then t else t - 1)
      in bindE (throwIf (e > o1) RangeError) (\<lambda>_. throwIf (tmod t e \<noteq> 0) RangeError))"

datatype precision = PrecMinute | PrecAuto | PrecDigits int

record seconds_precision =
  precision :: precision
  spUnit :: tunit
  spIncrement :: int

definition ToFractionalSecondDigits :: "jsval \<Rightarrow> precision result" where
  "ToFractionalSecondDigits e =
     (case getProp e ''fractionalSecondDigits'' of
        Undefined \<Rightarrow> Inr PrecAuto
      | Num n \<Rightarrow> (case n of
            Fin x \<Rightarrow> (let r = \<lfloor>x\<rfloor> in if r < 0 \<or> r > 9 then Inl RangeError else Inr (PrecDigits r))
          | _ \<Rightarrow> Inl RangeError)
      | t \<Rightarrow> bindE (ToString t) (\<lambda>s. if s \<noteq> ''auto'' then Inl RangeError else Inr PrecAuto))"

definition ToSecondsStringPrecisionRecord :: "tunit option \<Rightarrow> precision \<Rightarrow> seconds_precision result" where
  "ToSecondsStringPrecisionRecord e t =
     (case e of
        Some Minute \<Rightarrow> Inr \<lparr>precision = PrecMinute, spUnit = Minute, spIncrement = 1\<rparr>
      | Some Second \<Rightarrow> Inr \<lparr>precision = PrecDigits 0, spUnit = Second, spIncrement = 1\<rparr>
      | Some Millisecond \<Rightarrow> Inr \<lparr>precision = PrecDigits 3, spUnit = Millisecond, spIncrement = 1\<rparr>
      | Some Microsecond \<Rightarrow> Inr \<lparr>precision = PrecDigits 6, spUnit = Microsecond, spIncrement = 1\<rparr>
      | Some Nanosecond \<Rightarrow> Inr \<lparr>precision = PrecDigits 9, spUnit = Nanosecond, spIncrement = 1\<rparr>
      | _ \<Rightarrow>
        (case t of
           PrecAuto \<Rightarrow> Inr \<lparr>precision = t, spUnit = Nanosecond, spIncrement = 1\<rparr>
         | PrecDigits d \<Rightarrow>
             if d = 0 then Inr \<lparr>precision = t, spUnit = Second, spIncrement = 1\<rparr>
             else if d \<in> {1, 2, 3} then Inr \<lparr>precision = t, spUnit = Millisecond, spIncrement = 10 ^ nat (3 - d)\<rparr>
             else if d \<in> {4, 5, 6} then Inr \<lparr>precision = t, spUnit = Microsecond, spIncrement = 10 ^ nat (6 - d)\<rparr>
             else if d \<in> {7, 8, 9} then Inr \<lparr>precision = t, spUnit = Nanosecond, spIncrement = 10 ^ nat (9 - d)\<rparr>
             else Inl RangeError
         | PrecMinute \<Rightarrow> Inl RangeError))"

section \<open>Units\<close>

text \<open>\<^verbatim>\<open>Ue\<close> with the maps \<^verbatim>\<open>Ae\<close> (plural to singular) and \<^verbatim>\<open>Le\<close> (singular to plural).\<close>

definition unitTable :: "(string \<times> string \<times> string) list" where
  "unitTable = [(''years'', ''year'', ''date''), (''months'', ''month'', ''date''), (''weeks'', ''week'', ''date''),
     (''days'', ''day'', ''date''), (''hours'', ''hour'', ''time''), (''minutes'', ''minute'', ''time''),
     (''seconds'', ''second'', ''time''), (''milliseconds'', ''millisecond'', ''time''),
     (''microseconds'', ''microsecond'', ''time''), (''nanoseconds'', ''nanosecond'', ''time'')]"

definition singularOf :: "string \<Rightarrow> string option" where
  "singularOf = map_of (map (\<lambda>(p, s, c). (p, s)) unitTable)"

definition pluralOf :: "string \<Rightarrow> string option" where
  "pluralOf = map_of (map (\<lambda>(p, s, c). (s, p)) unitTable)"

definition unitOfName :: "string \<Rightarrow> tunit option" where
  "unitOfName = map_of (zip (map (\<lambda>(p, s, c). s) unitTable) unitNames)"

text \<open>The unit a string stands for; the strings decoded have been checked to be names of units.\<close>

definition decodeUnit :: "string \<Rightarrow> tunit" where
  "decodeUnit s = (case unitOfName s of Some u \<Rightarrow> u | None \<Rightarrow> Nanosecond)"

text \<open>The fourth argument: \<^verbatim>\<open>He\<close> for a required option, \<^verbatim>\<open>undefined\<close>, or a string.\<close>

datatype fallback = Required | NoDefault | Default string

definition GetTemporalUnit :: "jsval \<Rightarrow> string \<Rightarrow> string \<Rightarrow> fallback \<Rightarrow> string list \<Rightarrow> string option result" where
  "GetTemporalUnit e t r o1 n =
     (let a = map (\<lambda>(p, s, c). s) (filter (\<lambda>(p, s, c). r = ''datetime'' \<or> r = c) unitTable) @ n;
          (i, a) = (case o1 of Required \<Rightarrow> (None, a) | NoDefault \<Rightarrow> (None, a) | Default d \<Rightarrow> (Some d, a @ [d]));
          s = a @ List.map_filter pluralOf a
      in bindE (GetOption e t s i) (\<lambda>l.
         if l = None \<and> o1 = Required then Inl RangeError
         else Inr (map_option (\<lambda>l. case singularOf l of Some x \<Rightarrow> x | None \<Rightarrow> l) l)))"

record difference_settings =
  largestUnit :: tunit
  roundingIncrement :: int
  roundingMode :: rounding_mode
  smallestUnit :: tunit

fun NegateTemporalRoundingMode :: "rounding_mode \<Rightarrow> rounding_mode" where
  "NegateTemporalRoundingMode Ceil = Floor"
| "NegateTemporalRoundingMode Floor = Ceil"
| "NegateTemporalRoundingMode HalfCeil = HalfFloor"
| "NegateTemporalRoundingMode HalfFloor = HalfCeil"
| "NegateTemporalRoundingMode m = m"

text \<open>The table of maxima in \<open>GetDifferenceSettings\<close> and elsewhere.\<close>

definition maxIncrement :: "tunit \<Rightarrow> int option" where
  "maxIncrement m = (case m of Hour \<Rightarrow> Some 24 | Minute \<Rightarrow> Some 60 | Second \<Rightarrow> Some 60 | Millisecond \<Rightarrow> Some 1000
     | Microsecond \<Rightarrow> Some 1000 | Nanosecond \<Rightarrow> Some 1000 | _ \<Rightarrow> None)"

definition unitName :: "tunit \<Rightarrow> string" where
  "unitName u = (case u of Year \<Rightarrow> ''year'' | Month \<Rightarrow> ''month'' | Week \<Rightarrow> ''week'' | Day \<Rightarrow> ''day'' | Hour \<Rightarrow> ''hour''
     | Minute \<Rightarrow> ''minute'' | Second \<Rightarrow> ''second'' | Millisecond \<Rightarrow> ''millisecond'' | Microsecond \<Rightarrow> ''microsecond''
     | Nanosecond \<Rightarrow> ''nanosecond'')"

definition checkIncrement :: "int \<Rightarrow> tunit \<Rightarrow> unit result" where
  "checkIncrement l m = (case maxIncrement m of Some h \<Rightarrow> ValidateTemporalRoundingIncrement l h False | None \<Rightarrow> Inr ())"

definition orThrow :: "error \<Rightarrow> 'a option \<Rightarrow> 'a result" where
  "orThrow e x = (case x of None \<Rightarrow> Inl e | Some y \<Rightarrow> Inr y)"

lemma orThrow_Inr [simp]: "orThrow e x = Inr y \<longleftrightarrow> x = Some y"
  by (cases x) (simp_all add: orThrow_def)

datatype op = Until | Since

definition GetDifferenceSettings ::
  "op \<Rightarrow> jsval \<Rightarrow> string \<Rightarrow> string list \<Rightarrow> tunit \<Rightarrow> tunit \<Rightarrow> difference_settings result" where
  "GetDifferenceSettings e t r o1 n a =
     bindE (GetTemporalUnit t ''largestUnit'' r (Default ''auto'') []) (\<lambda>s.
     bindE (throwIf (the s \<in> set o1) RangeError) (\<lambda>_.
     bindE (ToTemporalRoundingIncrement t) (\<lambda>l.
     bindE (ToTemporalRoundingMode t Trunc) (\<lambda>d.
     let d = (if e = Since then NegateTemporalRoundingMode d else d)
     in bindE (GetTemporalUnit t ''smallestUnit'' r (Default (unitName n)) []) (\<lambda>m.
     bindE (throwIf (the m \<in> set o1) RangeError) (\<lambda>_.
     let m = decodeUnit (the m); c = LargerOfTwoTemporalUnits a m; s = (if the s = ''auto'' then c else decodeUnit (the s))
     in bindE (throwIf (LargerOfTwoTemporalUnits s m \<noteq> s) RangeError) (\<lambda>_.
        bindE (checkIncrement l m) (\<lambda>_.
          Inr \<lparr>largestUnit = s, roundingIncrement = l, roundingMode = d, smallestUnit = m\<rparr>))))))))"

section \<open>Properties\<close>

lemma throwIf_Inr [simp]: "throwIf b e = Inr u \<longleftrightarrow> \<not> b"
  by (simp add: throwIf_def)

lemma ToTemporalRoundingIncrement_range:
  assumes "ToTemporalRoundingIncrement e = Inr l"
  shows "1 \<le> l" "l \<le> 1000000000"
proof -
  have "1 \<le> l \<and> l \<le> 1000000000"
  proof (cases "getProp e ''roundingIncrement'' = Undefined")
    case True
    then show ?thesis using assms by (simp add: ToTemporalRoundingIncrement_def)
  next
    case False
    then obtain n where n: "ToNumber (getProp e ''roundingIncrement'') = Inr n"
      using assms by (cases "ToNumber (getProp e ''roundingIncrement'')") (simp_all add: ToTemporalRoundingIncrement_def Let_def)
    then show ?thesis using False assms
      by (cases n) (simp_all add: ToTemporalRoundingIncrement_def Let_def split: if_splits)
  qed
  then show "1 \<le> l" "l \<le> 1000000000" by simp_all
qed

lemma ValidateTemporalRoundingIncrement_iff:
  assumes "0 < e" "0 < t"
  shows "ValidateTemporalRoundingIncrement e t r = (if e dvd t \<and> (r \<or> e < t) then Inr () else Inl RangeError)"
proof -
  have "e dvd t \<Longrightarrow> e \<le> t" using assms by (simp add: zdvd_imp_le)
  moreover have "tmod t e = 0 \<longleftrightarrow> e dvd t" using tmod_eq_0_iff [of e t] assms by blast
  ultimately show ?thesis
    by (auto simp: ValidateTemporalRoundingIncrement_def throwIf_def bindE_def)
qed

lemma maxIncrement_pos: "maxIncrement m = Some h \<Longrightarrow> 0 < h"
  by (auto simp: maxIncrement_def split: tunit.splits)

lemma unitOfName_unitName: "unitOfName s = Some u \<longleftrightarrow> s = unitName u"
  by (cases u) (auto simp: unitOfName_def unitTable_def unitNames_def unitName_def)

lemma decodeUnit_unitName [simp]: "decodeUnit (unitName u) = u"
  using unitOfName_unitName [of "unitName u" u] by (simp add: decodeUnit_def)

lemma unitName_simps [simp]: "unitName u \<noteq> ''auto''" "singularOf (unitName u) = None" "unitName u = unitName v \<longleftrightarrow> u = v"
proof -
  have "list_all (\<lambda>u. unitName u \<noteq> ''auto'' \<and> singularOf (unitName u) = None) unitNames" by code_simp
  then show "unitName u \<noteq> ''auto''" "singularOf (unitName u) = None" by (cases u; simp add: unitNames_def)+
  show "unitName u = unitName v \<longleftrightarrow> u = v" by (metis decodeUnit_unitName)
qed

lemma singularOf_plural: "(p, x, c) \<in> set unitTable \<Longrightarrow> singularOf p = Some x \<and> singularOf x = None"
proof -
  have "list_all (\<lambda>(p, x, c). singularOf p = Some x \<and> singularOf x = None) unitTable" by code_simp
  then show "(p, x, c) \<in> set unitTable \<Longrightarrow> singularOf p = Some x \<and> singularOf x = None"
    by (auto simp: list_all_iff)
qed

lemma unitTable_inj: "(p, x, c) \<in> set unitTable \<Longrightarrow> (p, x', c') \<in> set unitTable \<Longrightarrow> x = x'"
  using singularOf_plural [of p x c] singularOf_plural [of p x' c'] by simp

lemma unitTable_disjoint: "(p, x, c) \<in> set unitTable \<Longrightarrow> (p', p, c') \<notin> set unitTable"
  using singularOf_plural [of p x c] singularOf_plural [of p' p c'] by auto

lemma mem_map_filter: "y \<in> set (List.map_filter f xs) \<longleftrightarrow> (\<exists>x \<in> set xs. f x = Some y)"
  by (force simp: List.map_filter_def)

lemma pluralOf_iff: "pluralOf x = Some p \<longleftrightarrow> (\<exists>c. (p, x, c) \<in> set unitTable)"
proof -
  have "distinct (map fst (map (\<lambda>(p, s, c). (s, p)) unitTable))" by code_simp
  then show ?thesis unfolding pluralOf_def by (subst map_of_eq_Some_iff) force+
qed

text \<open>The singular names of the units of a group.\<close>

definition unitOfGroup :: "string \<Rightarrow> tunit \<Rightarrow> bool" where
  "unitOfGroup r u \<longleftrightarrow> r = ''datetime'' \<or> r = (if u \<le> Day then ''date'' else ''time'')"

lemma groupNames:
  "x \<in> set (map (\<lambda>(p, s, c). s) (filter (\<lambda>(p, s, c). r = ''datetime'' \<or> r = c) unitTable))
    \<longleftrightarrow> (\<exists>u. unitOfGroup r u \<and> x = unitName u)"
proof -
  have e: "unitTable = map (\<lambda>u. (the (pluralOf (unitName u)), unitName u, if u \<le> Day then ''date'' else ''time'')) unitNames"
    by code_simp
  have "map (\<lambda>(p, s, c). s) (filter (\<lambda>(p, s, c). r = ''datetime'' \<or> r = c) unitTable) = map unitName (filter (unitOfGroup r) unitNames)"
    unfolding e filter_map map_map o_def prod.case unitOfGroup_def ..
  moreover have "u \<in> set unitNames" for u by (cases u) (simp_all add: unitNames_def)
  ultimately show ?thesis by auto
qed

text \<open>A unit option with a default is read as the default or as the name of a unit of the group.\<close>

lemma GetTemporalUnit_name:
  assumes "GetTemporalUnit t k r (Default d) [] = Inr s" "singularOf d = None" "pluralOf d = None \<or> (\<exists>u. d = unitName u)"
  shows "\<exists>x. s = Some x \<and> (x = d \<or> (\<exists>u. x = unitName u))"
proof -
  define a where "a = map (\<lambda>(p, s, c). s) (filter (\<lambda>(p, s, c). r = ''datetime'' \<or> r = c) unitTable) @ [d]"
  have a: "x \<in> set a \<Longrightarrow> x = d \<or> (\<exists>u. x = unitName u)" for x unfolding a_def set_append using groupNames [of x r] by auto
  obtain l where l: "GetOption t k (a @ List.map_filter pluralOf a) (Some d) = Inr l"
      "s = map_option (\<lambda>l. case singularOf l of Some x \<Rightarrow> x | None \<Rightarrow> l) l"
    using assms(1) by (auto simp: GetTemporalUnit_def Let_def bindE_eq_Inr_iff a_def split: if_splits)
  obtain x where x: "l = Some x" "x = d \<or> x \<in> set a \<or> (\<exists>y \<in> set a. pluralOf y = Some x)"
    using l(1) by (auto simp: GetOption_def Let_def bindE_eq_Inr_iff mem_map_filter split: if_splits)
  show ?thesis
    using x(2)
  proof (elim disjE bexE)
    fix y assume y: "y \<in> set a" "pluralOf y = Some x"
    then obtain u where u: "y = unitName u" using a [OF y(1)] assms(3) by auto
    then have "singularOf x = Some (unitName u)" using y(2) pluralOf_iff singularOf_plural by blast
    then show ?thesis using l(2) x(1) by auto
  qed (use a [of x] assms(2) l(2) x(1) in auto)
qed

lemma tdiv_minus [simp]: "tdiv (- a) b = - tdiv a b" and tmod_minus [simp]: "tmod (- a) b = - tmod a b"
  by (simp_all add: tdiv_def tmod_def signed_divide_int_def signed_modulo_int_def)

section \<open>Correctness of the settings\<close>

lemma GetTemporalUnit_errors: "GetTemporalUnit t k r o1 n = Inl err \<Longrightarrow> err \<in> {RangeError, TypeError}"
  by (auto simp: GetTemporalUnit_def GetOption_def ToString_def Let_def bindE_eq_Inl_iff
      split: if_splits fallback.splits jsval.splits prod.splits option.splits)

lemma readOptions_errors:
  "ToTemporalRoundingIncrement t = Inl err \<Longrightarrow> err \<in> {RangeError, TypeError}"
  "ToTemporalRoundingMode t md = Inl err \<Longrightarrow> err \<in> {RangeError, TypeError}"
  "checkIncrement l u = Inl err \<Longrightarrow> err \<in> {RangeError, TypeError}"
proof -
  have n: "ToNumber v = Inl err \<Longrightarrow> err = TypeError" for v
    by (cases v) (simp_all add: ToNumber_def ToString_def bindE_eq_Inl_iff split: if_splits option.splits jsval.splits)
  have s: "ToString v = Inl err \<Longrightarrow> err = TypeError" for v
    by (cases v) (simp_all add: ToString_def split: option.splits jsval.splits)
  show "ToTemporalRoundingIncrement t = Inl err \<Longrightarrow> err \<in> {RangeError, TypeError}"
    using n unfolding ToTemporalRoundingIncrement_def Let_def
    by (cases "ToNumber (getProp t ''roundingIncrement'')"; auto split: if_splits jsnum.split_asm)
  show "ToTemporalRoundingMode t md = Inl err \<Longrightarrow> err \<in> {RangeError, TypeError}"
    using s by (auto simp: ToTemporalRoundingMode_def GetOption_def Let_def bindE_eq_Inl_iff split: if_splits)
  show "checkIncrement l u = Inl err \<Longrightarrow> err \<in> {RangeError, TypeError}"
    by (auto simp: checkIncrement_def ValidateTemporalRoundingIncrement_def bindE_eq_Inl_iff throwIf_def split: if_splits option.splits)
qed

lemma throwIf_errors: "throwIf b RangeError = Inl err \<Longrightarrow> err \<in> {RangeError, TypeError}"
  by (simp add: throwIf_def split: if_splits)

lemma bindE_errors:
  "bindE x f = Inl err \<Longrightarrow> (\<And>e. x = Inl e \<Longrightarrow> e \<in> E) \<Longrightarrow> (\<And>y e. x = Inr y \<Longrightarrow> f y = Inl e \<Longrightarrow> e \<in> E) \<Longrightarrow> err \<in> E"
  by (cases x) simp_all

lemma GetDifferenceSettings_errors:
  assumes "GetDifferenceSettings e t r o1 n a = Inl err"
  shows "err \<in> {RangeError, TypeError}"
  using assms unfolding GetDifferenceSettings_def Let_def
  by (elim bindE_errors GetTemporalUnit_errors readOptions_errors throwIf_errors) simp

lemma GetDifferenceSettings_sound:
  assumes "GetDifferenceSettings e t r o1 n a = Inr g"
  shows "largestUnit g \<le> smallestUnit g" "1 \<le> roundingIncrement g" "roundingIncrement g \<le> 1000000000"
    "unitName (smallestUnit g) \<notin> set o1"
    "maxIncrement (smallestUnit g) = Some h \<Longrightarrow> roundingIncrement g dvd h \<and> roundingIncrement g < h"
proof -
  obtain s l d m where g: "GetTemporalUnit t ''smallestUnit'' r (Default (unitName n)) [] = Inr m"
    "ToTemporalRoundingIncrement t = Inr l" "the m \<notin> set o1" "LargerOfTwoTemporalUnits s (decodeUnit (the m)) = s"
    "checkIncrement l (decodeUnit (the m)) = Inr ()"
    "g = \<lparr>largestUnit = s, roundingIncrement = l, roundingMode = d, smallestUnit = decodeUnit (the m)\<rparr>"
    using assms unfolding GetDifferenceSettings_def Let_def bindE_eq_Inr_iff by fastforce
  note l = ToTemporalRoundingIncrement_range [OF g(2)]
  obtain u where "the m = unitName u" using GetTemporalUnit_name [OF g(1)] by auto
  then show "unitName (smallestUnit g) \<notin> set o1" using g(3,6) by simp
  show "largestUnit g \<le> smallestUnit g" using g(4,6) by (simp add: LargerOfTwoTemporalUnits_min min_def split: if_splits)
  show "1 \<le> roundingIncrement g" "roundingIncrement g \<le> 1000000000" using l g(6) by simp_all
  show "roundingIncrement g dvd h \<and> roundingIncrement g < h" if "maxIncrement (smallestUnit g) = Some h"
    using that g(5,6) l maxIncrement_pos [OF that] by (simp add: checkIncrement_def ValidateTemporalRoundingIncrement_iff split: if_splits)
qed

text \<open>The options that name two units of the group, an increment and a mode.\<close>

definition differenceBag :: "tunit \<Rightarrow> int \<Rightarrow> string \<Rightarrow> tunit \<Rightarrow> jsval" where
  "differenceBag S l k m = plainObj [(''largestUnit'', Str (unitName S)), (''roundingIncrement'', Num (Fin (of_int l))),
     (''roundingMode'', Str k), (''smallestUnit'', Str (unitName m))]"

lemma differenceBag_reads [simp]:
  "getProp (differenceBag S l k m) ''largestUnit'' = Str (unitName S)"
  "getProp (differenceBag S l k m) ''smallestUnit'' = Str (unitName m)"
  "getProp (differenceBag S l k m) ''roundingIncrement'' = Num (Fin (of_int l))"
  "getProp (differenceBag S l k m) ''roundingMode'' = Str k"
  by (simp_all add: differenceBag_def getProp_def)

lemma GetTemporalUnit_named:
  assumes "unitOfGroup r u" "getProp t k = Str (unitName u)"
  shows "GetTemporalUnit t k r (Default d) [] = Inr (Some (unitName u))"
proof -
  have "unitName u \<in> set (map (\<lambda>(p, s, c). s) (filter (\<lambda>(p, s, c). r = ''datetime'' \<or> r = c) unitTable))"
    using assms(1) groupNames by blast
  then show ?thesis using assms(2) by (simp add: GetTemporalUnit_def GetOption_def ToString_def)
qed

lemma differenceBag_others:
  assumes "1 \<le> l" "l \<le> 1000000000" "map_of modeNames k = Some d"
  shows "ToTemporalRoundingIncrement (differenceBag S l k m) = Inr l"
    "ToTemporalRoundingMode (differenceBag S l k m) Trunc = Inr d"
proof -
  have "k \<in> fst ` set modeNames" using map_of_SomeD [OF assms(3)] by force
  then show "ToTemporalRoundingMode (differenceBag S l k m) Trunc = Inr d"
    using assms(3) by (simp add: ToTemporalRoundingMode_def GetOption_def ToString_def)
  show "ToTemporalRoundingIncrement (differenceBag S l k m) = Inr l"
    using assms(1,2) by (simp add: ToTemporalRoundingIncrement_def ToNumber_def truncRat_def)
qed

text \<open>C19: the settings of a difference always have a largest unit that is not smaller than the
  smallest unit, an increment of at least 1 and at most 10^9 that divides the next larger
  unit of a time unit and is less than it, and a smallest unit the caller has not ruled out; any
  error is a \<open>RangeError\<close> or, for a symbol or a BigInt that does not convert, a \<open>TypeError\<close>.
  For options that name units of the group, an increment in this range and a mode, the settings are
  those named, if they are consistent and not ruled out, and a \<open>RangeError\<close> otherwise.\<close>

theorem GetDifferenceSettings_correct:
  "(case GetDifferenceSettings e t r o1 n a of
     Inl err \<Rightarrow> err \<in> {RangeError, TypeError}
   | Inr g \<Rightarrow> largestUnit g \<le> smallestUnit g \<and> 1 \<le> roundingIncrement g \<and> roundingIncrement g \<le> 1000000000
       \<and> unitName (smallestUnit g) \<notin> set o1
       \<and> (\<forall>h. maxIncrement (smallestUnit g) = Some h \<longrightarrow> roundingIncrement g dvd h \<and> roundingIncrement g < h))
   \<and> (unitOfGroup r S \<and> unitOfGroup r m \<and> 1 \<le> l \<and> l \<le> 1000000000 \<and> map_of modeNames k = Some d \<longrightarrow>
       GetDifferenceSettings e (differenceBag S l k m) r o1 n a =
         (if S \<le> m \<and> unitName S \<notin> set o1 \<and> unitName m \<notin> set o1 \<and> (\<forall>h. maxIncrement m = Some h \<longrightarrow> l dvd h \<and> l < h)
          then Inr \<lparr>largestUnit = S, roundingIncrement = l,
                 roundingMode = (if e = Since then NegateTemporalRoundingMode d else d), smallestUnit = m\<rparr>
          else Inl RangeError))"
proof (intro conjI impI)
  show "case GetDifferenceSettings e t r o1 n a of
     Inl err \<Rightarrow> err \<in> {RangeError, TypeError}
   | Inr g \<Rightarrow> largestUnit g \<le> smallestUnit g \<and> 1 \<le> roundingIncrement g \<and> roundingIncrement g \<le> 1000000000
       \<and> unitName (smallestUnit g) \<notin> set o1
       \<and> (\<forall>h. maxIncrement (smallestUnit g) = Some h \<longrightarrow> roundingIncrement g dvd h \<and> roundingIncrement g < h)"
  proof (cases "GetDifferenceSettings e t r o1 n a")
    case (Inl err)
    from GetDifferenceSettings_errors [OF this] show ?thesis unfolding Inl sum.case .
  next
    case (Inr g)
    show ?thesis unfolding Inr sum.case using GetDifferenceSettings_sound [OF Inr] by blast
  qed
next
  assume "unitOfGroup r S \<and> unitOfGroup r m \<and> 1 \<le> l \<and> l \<le> 1000000000 \<and> map_of modeNames k = Some d"
  then have g: "unitOfGroup r S" "unitOfGroup r m" and l: "1 \<le> l" "l \<le> 1000000000" and d: "map_of modeNames k = Some d" by blast+
  have c: "checkIncrement l m = (if \<forall>h. maxIncrement m = Some h \<longrightarrow> l dvd h \<and> l < h then Inr () else Inl RangeError)"
    using l maxIncrement_pos [of m] by (cases "maxIncrement m") (simp_all add: checkIncrement_def ValidateTemporalRoundingIncrement_iff)
  show "GetDifferenceSettings e (differenceBag S l k m) r o1 n a =
      (if S \<le> m \<and> unitName S \<notin> set o1 \<and> unitName m \<notin> set o1 \<and> (\<forall>h. maxIncrement m = Some h \<longrightarrow> l dvd h \<and> l < h)
       then Inr \<lparr>largestUnit = S, roundingIncrement = l,
              roundingMode = (if e = Since then NegateTemporalRoundingMode d else d), smallestUnit = m\<rparr>
       else Inl RangeError)"
    using g [THEN GetTemporalUnit_named] differenceBag_others [OF l d]
    by (simp add: GetDifferenceSettings_def Let_def c LargerOfTwoTemporalUnits_min min_def throwIf_def)
qed

theorem GetDifferenceSettings_correct_witness:
  "GetDifferenceSettings Since (differenceBag Hour 15 ''ceil'' Minute) ''time'' [] Nanosecond Second
      = Inr \<lparr>largestUnit = Hour, roundingIncrement = 15, roundingMode = Floor, smallestUnit = Minute\<rparr>
   \<and> GetDifferenceSettings Since (differenceBag Hour 7 ''ceil'' Minute) ''time'' [] Nanosecond Second = Inl RangeError"
proof -
  have u: "unitOfGroup ''time'' Hour" "unitOfGroup ''time'' Minute" "map_of modeNames ''ceil'' = Some Ceil" "Hour \<le> Minute" by code_simp+
  have n: "\<not> (7 :: int) dvd 60" by simp
  note c = GetDifferenceSettings_correct [THEN conjunct2, rule_format, where e = Since and r = "''time''" and S = Hour and m = Minute
    and k = "''ceil''" and d = Ceil and ?o1.0 = "[]" and n = Nanosecond and a = Second]
  show ?thesis using c [of 15] c [of 7] u n by (simp add: maxIncrement_def)
qed

text \<open>\<^verbatim>\<open>since\<close> negates the difference and rounds it in the negated mode; that is the same as
  negating the rounded difference.\<close>

theorem NegateTemporalRoundingMode_correct:
  "RoundNumberToIncrement (- t) r (NegateTemporalRoundingMode m) = - RoundNumberToIncrement t r m"
  by (cases m) (auto simp: RoundNumberToIncrement_def divmodBI_def Let_def absBI_abs left_diff_distrib distrib_right)

text \<open>The plural name of a unit is read as the singular one.\<close>

theorem GetTemporalUnit_plural:
  assumes u: "(p, x, c) \<in> set unitTable" and n: "p \<notin> set n" "o1 \<noteq> Default p"
  shows "GetTemporalUnit (plainObj ((k, Str p) # ps)) k r o1 n = GetTemporalUnit (plainObj ((k, Str x) # ps)) k r o1 n"
proof -
  define a where "a = map (\<lambda>(p, s, c). s) (filter (\<lambda>(p, s, c). r = ''datetime'' \<or> r = c) unitTable) @ n"
  define b where "b = (case o1 of Default d \<Rightarrow> a @ [d] | _ \<Rightarrow> a)"
  have "p \<notin> set a" using n(1) unitTable_disjoint [OF u] by (auto simp: a_def)
  then have pb: "p \<notin> set b" using n(2) by (auto simp: b_def split: fallback.splits)
  have "p \<in> set (List.map_filter pluralOf b) \<longleftrightarrow> x \<in> set b"
    unfolding mem_map_filter pluralOf_iff using u unitTable_inj [OF u] by blast
  moreover have "x \<notin> set (List.map_filter pluralOf b)"
    unfolding mem_map_filter pluralOf_iff using unitTable_disjoint u by blast
  ultimately have e: "p \<in> set (b @ List.map_filter pluralOf b) \<longleftrightarrow> x \<in> set (b @ List.map_filter pluralOf b)"
    using pb by simp
  show ?thesis
    using e singularOf_plural [OF u]
    by (cases o1) (simp_all add: GetTemporalUnit_def a_def [symmetric] b_def GetOption_def getProp_def ToString_def)
qed

theorem GetTemporalUnit_plural_witness:
  "GetTemporalUnit (plainObj [(''largestUnit'', Str ''hours'')]) ''largestUnit'' ''time'' (Default ''auto'') [] = Inr (Some ''hour'')"
proof -
  have "(''hours'', ''hour'', ''time'') \<in> set unitTable" by (simp add: unitTable_def)
  from GetTemporalUnit_plural [OF this] show ?thesis by simp code_simp
qed

text \<open>A number of fractional digits from 0 to 9 selects a unit and an increment that together
  are one unit in the last digit.\<close>

theorem ToSecondsStringPrecisionRecord_digits:
  assumes "0 \<le> d" "d \<le> 9"
  shows "\<exists>p u. ToSecondsStringPrecisionRecord None (PrecDigits d) = Inr p \<and> precision p = PrecDigits d
    \<and> unitNs (spUnit p) = Some u \<and> u * spIncrement p = 10 ^ nat (9 - d)"
proof -
  have "d \<in> {0, 1, 2, 3, 4, 5, 6, 7, 8, 9}" using assms by (simp only: insert_iff empty_iff) presburger
  then show ?thesis by (elim insertE) (simp_all add: ToSecondsStringPrecisionRecord_def unitNs_def)
qed

theorem ToSecondsStringPrecisionRecord_digits_witness:
  "\<exists>p u. ToSecondsStringPrecisionRecord None (PrecDigits 4) = Inr p \<and> unitNs (spUnit p) = Some u \<and> u * spIncrement p = 100000"
  using ToSecondsStringPrecisionRecord_digits [of 4] by auto

end
