(* ===== verification/Zoned.thy ===== *)
theory Zoned imports Date_Time Options begin

text \<open>
  Time zones and date-times with a time zone: the checks on what a time zone returns, the
  choice of an instant for a wall-clock time, and the arithmetic that goes through wall-clock
  time (\<^verbatim>\<open>AddZonedDateTime\<close>, \<^verbatim>\<open>NanosecondsToDays\<close>, \<^verbatim>\<open>DifferenceZonedDateTime\<close>). The methods of
  a time zone and of a calendar are parameters.
\<close>

section \<open>Time zones\<close>

text \<open>
  A built-in zone is called without checks; the methods of an object are checked. An instant
  is its count of nanoseconds; an element of the list an object returns may be no instant.
\<close>

datatype time_zone =
    BuiltinZone "int \<Rightarrow> int result" "iso_datetime \<Rightarrow> int list result"
  | ZoneObject "int \<Rightarrow> jsval result" "iso_datetime \<Rightarrow> int option list result"

definition GetOffsetNanosecondsFor :: "time_zone \<Rightarrow> int \<Rightarrow> int result" where
  "GetOffsetNanosecondsFor e t = (case e of
       BuiltinZone getOffset _ \<Rightarrow> getOffset t
     | ZoneObject getOffset _ \<Rightarrow> bindE (getOffset t) (\<lambda>o1. case o1 of
           Num n \<Rightarrow> (case n of
               Fin x \<Rightarrow> if \<not> IsIntegralNumber o1 \<or> \<bar>x\<bar> \<ge> 86400000000000 then Inl RangeError else Inr \<lfloor>x\<rfloor>
             | _ \<Rightarrow> Inl RangeError)
         | _ \<Rightarrow> Inl TypeError))"

fun allInstants :: "int option list \<Rightarrow> int list result" where
  "allInstants [] = Inr []"
| "allInstants (None # xs) = Inl TypeError"
| "allInstants (Some e # xs) = bindE (allInstants xs) (\<lambda>n. Inr (e # n))"

definition GetPossibleInstantsFor :: "time_zone \<Rightarrow> iso_datetime \<Rightarrow> int list result" where
  "GetPossibleInstantsFor e t = (case e of
       BuiltinZone _ getPossible \<Rightarrow> getPossible t
     | ZoneObject _ getPossible \<Rightarrow> bindE (getPossible t) allInstants)"

text \<open>\<^verbatim>\<open>new Temporal.Instant(...)\<close>\<close>

definition newInstant :: "int \<Rightarrow> int result" where
  "newInstant t = bindE (ValidateEpochNanoseconds t) (\<lambda>_. Inr t)"

text \<open>Date parts that are \<open>NaN\<close> make \<open>BigInt\<close> in \<open>BalanceTime\<close> throw.\<close>

definition GetPlainDateTimeFor :: "int \<Rightarrow> time_zone \<Rightarrow> int \<Rightarrow> iso_datetime result" where
  "GetPlainDateTimeFor now e t =
     bindE (GetOffsetNanosecondsFor e t) (\<lambda>a.
     bindE (orThrow RangeError (GetISOPartsFromEpoch t)) (\<lambda>p.
     let x = dtDate (parts p); c = dtTime (parts p)
     in bindE (BalanceISODateTime (year x) (month x) (day x) (hour c) (minute c) (second c)
          (millisecond c) (microsecond c) (nadd (nanosecond c) a)) (\<lambda>y.
        let x = dtDate y; c = dtTime y
        in CreateTemporalDateTime now (year x) (month x) (day x) (hour c) (minute c) (second c)
             (millisecond c) (microsecond c) (nanosecond c))))"

text \<open>
  The result \<open>None\<close> is \<^verbatim>\<open>undefined\<close>: a zone may have no instant for the shifted time either.
\<close>

definition DisambiguatePossibleInstants ::
  "int \<Rightarrow> calendar \<Rightarrow> int list \<Rightarrow> time_zone \<Rightarrow> iso_datetime \<Rightarrow> disambiguation \<Rightarrow> int option result" where
  "DisambiguatePossibleInstants now cal t r x n =
     (if length t = 1 then Inr (Some (hd t))
      else if t \<noteq> [] then
        (case n of Compatible \<Rightarrow> Inr (Some (hd t)) | Earlier \<Rightarrow> Inr (Some (hd t)) | Later \<Rightarrow> Inr (Some (last t))
         | RejectInstant \<Rightarrow> Inl RangeError)
      else
        let d = dtDate x; c = dtTime x
        in bindE (orThrow RangeError (GetUTCEpochNanoseconds now (year d) (month d) (day d) (hour c) (minute c)
             (second c) (millisecond c) (microsecond c) (nanosecond c))) (\<lambda>O1.
           bindE (newInstant (O1 - nsPerDay)) (\<lambda>b.
           bindE (newInstant (O1 + nsPerDay)) (\<lambda>E.
           bindE (GetOffsetNanosecondsFor r b) (\<lambda>M.
           bindE (GetOffsetNanosecondsFor r E) (\<lambda>E.
           let R = nsub E M;
               shifted = (\<lambda>R. bindE (AddDateTime now cal x (mkDuration 0 0 0 0 0 0 0 0 0 R) Constrain) (\<lambda>y.
                 let d = dtDate y; c = dtTime y
                 in bindE (CreateTemporalDateTime now (year d) (month d) (day d) (hour c) (minute c) (second c)
                      (millisecond c) (microsecond c) (nanosecond c)) (GetPossibleInstantsFor r)))
           in (case n of
                 Earlier \<Rightarrow> bindE (shifted (- R)) (\<lambda>l. Inr (if l = [] then None else Some (hd l)))
               | Compatible \<Rightarrow> bindE (shifted R) (\<lambda>l. Inr (if l = [] then None else Some (last l)))
               | Later \<Rightarrow> bindE (shifted R) (\<lambda>l. Inr (if l = [] then None else Some (last l)))
               | RejectInstant \<Rightarrow> Inl RangeError)))))))"

definition GetInstantFor ::
  "int \<Rightarrow> calendar \<Rightarrow> time_zone \<Rightarrow> iso_datetime \<Rightarrow> disambiguation \<Rightarrow> int option result" where
  "GetInstantFor now cal e t r =
     bindE (GetPossibleInstantsFor e t) (\<lambda>l. DisambiguatePossibleInstants now cal l e t r)"

text \<open>\<^verbatim>\<open>GetSlot(x, EPOCHNANOSECONDS)\<close> of \<^verbatim>\<open>undefined\<close> throws.\<close>

definition epochOf :: "int option \<Rightarrow> int result" where
  "epochOf x = orThrow TypeError x"

section \<open>Zoned date-times\<close>

record zoned =
  zNs :: int
  zZone :: time_zone
  zCal :: calendar

definition CreateTemporalZonedDateTime :: "int \<Rightarrow> time_zone \<Rightarrow> calendar \<Rightarrow> zoned result" where
  "CreateTemporalZonedDateTime e t r = bindE (ValidateEpochNanoseconds e) (\<lambda>_. Inr \<lparr>zNs = e, zZone = t, zCal = r\<rparr>)"

definition AddZonedDateTime ::
  "int \<Rightarrow> int \<Rightarrow> time_zone \<Rightarrow> calendar \<Rightarrow> duration \<Rightarrow> overflow \<Rightarrow> int result" where
  "AddZonedDateTime now e t r d G =
     (if DurationSign (years d) (months d) (weeks d) (days d) 0 0 0 0 0 0 = 0
      then AddInstant e (hours d) (minutes d) (seconds d) (milliseconds d) (microseconds d) (nanoseconds d)
      else
        bindE (GetPlainDateTimeFor now t e) (\<lambda>C.
        bindE (CreateTemporalDate now (year (dtDate C)) (month (dtDate C)) (day (dtDate C))) (\<lambda>x.
        bindE (CreateDuration (years d) (months d) (weeks d) (days d) 0 0 0 0 0 0) (\<lambda>v.
        bindE (calDateAdd r x v G) (\<lambda>O1.
        let c = dtTime C
        in bindE (CreateTemporalDateTime now (year O1) (month O1) (day O1) (hour c) (minute c) (second c)
             (millisecond c) (microsecond c) (nanosecond c)) (\<lambda>b.
           bindE (GetInstantFor now r t b Compatible) (\<lambda>i.
           bindE (epochOf i) (\<lambda>i.
             AddInstant i (hours d) (minutes d) (seconds d) (milliseconds d) (microseconds d) (nanoseconds d)))))))))"

abbreviation daysOnly :: "int \<Rightarrow> duration" where
  "daysOnly n \<equiv> mkDuration 0 0 0 n 0 0 0 0 0 0"

text \<open>The two loops of \<open>NanosecondsToDays\<close>: at most \<open>R\<close> rounds of the first; the second one
  stops when a day is longer than what is left.\<close>

function dropDays :: "int \<Rightarrow> zoned \<Rightarrow> int \<Rightarrow> int \<Rightarrow> int \<Rightarrow> (int \<times> int) result" where
  "dropDays now z D R M =
     (if R > 0 \<and> M > D
      then bindE (AddZonedDateTime now (zNs z) (zZone z) (zCal z) (daysOnly (toNumber (R - 1))) Constrain)
             (dropDays now z D (R - 1))
      else Inr (R, M))"
  by auto
termination by (relation "measure (\<lambda>(now, z, D, R, M). nat R)") auto

partial_function (option) wholeDays ::
  "int \<Rightarrow> time_zone \<Rightarrow> calendar \<Rightarrow> int \<Rightarrow> int \<Rightarrow> int \<Rightarrow> int \<Rightarrow> (int \<times> int \<times> int) result option" where
  "wholeDays now tz cal a f Y R =
     (case AddZonedDateTime now Y tz cal (daysOnly a) Constrain of
        Inl e \<Rightarrow> Some (Inl e)
      | Inr t \<Rightarrow>
          let y = toNumber (t - Y)
          in if (f - y) * a \<ge> 0
             then (case newInstant t of Inl e \<Rightarrow> Some (Inl e) | Inr t \<Rightarrow> wholeDays now tz cal a (f - y) t (R + a))
             else Some (Inr (y, f, R)))"

definition NanosecondsToDays :: "int \<Rightarrow> int \<Rightarrow> zoned option \<Rightarrow> ns_days result" where
  "NanosecondsToDays now t r =
     (let a = sgn (toNumber t)
      in if a = 0 then Inr \<lparr>ndDays = 0, ndNanoseconds = 0, ndDayLength = nsPerDay\<rparr>
         else case r of
           None \<Rightarrow> Inr (NanosecondsToDaysPlain t)
         | Some z \<Rightarrow>
             let I = zNs z; D = I + t; v = zZone z; C = zCal z
             in bindE (newInstant D) (\<lambda>G.
                bindE (GetPlainDateTimeFor now v I) (\<lambda>O1.
                bindE (GetPlainDateTimeFor now v G) (\<lambda>b.
                bindE (DifferenceISODateTime now C O1 b Day) (\<lambda>d.
                bindE (AddZonedDateTime now I v C (daysOnly (days d)) Constrain) (\<lambda>M.
                bindE (if a = 1 then dropDays now z D (days d) M else Inr (days d, M)) (\<lambda>(R, M).
                bindE (newInstant M) (\<lambda>Y.
                bindE (loopResult (wholeDays now v C a (D - M) Y R)) (\<lambda>(y, f, R).
                  if R \<noteq> 0 \<and> signJSBI R \<noteq> a then Inl RangeError
                  else if f \<noteq> 0 \<and> signJSBI f \<noteq> a
                  then (if isNegativeJSBI f \<and> a = 1 then Inl AssertError else Inl RangeError)
                  else if absBI f \<ge> absBI y then Inl AssertError
                  else Inr \<lparr>ndDays = toNumber R, ndNanoseconds = f, ndDayLength = \<bar>y\<bar>\<rparr>)))))))))"

definition BalancePossiblyInfiniteDuration ::
  "int \<Rightarrow> int \<Rightarrow> int \<Rightarrow> int \<Rightarrow> int \<Rightarrow> int \<Rightarrow> int \<Rightarrow> int \<Rightarrow> tunit \<Rightarrow> zoned option \<Rightarrow> balanced possibly_infinite result" where
  "BalancePossiblyInfiniteDuration now t r o1 a i s l d m =
     bindE (case m of
         Some z \<Rightarrow> bindE (AddZonedDateTime now (zNs z) (zZone z) (zCal z) (mkDuration 0 0 0 t r o1 a i s l) Constrain)
           (\<lambda>x. Inr (x - zNs z))
       | None \<Rightarrow> Inr (TotalDurationNanoseconds t r o1 a i s l 0)) (\<lambda>c.
     if d \<in> {Year, Month, Week, Day}
     then bindE (NanosecondsToDays now c m) (\<lambda>n. Inr (BalanceRemainder (ndDays n) (ndNanoseconds n) d))
     else Inr (BalanceRemainder 0 c d))"

definition BalanceDuration ::
  "int \<Rightarrow> int \<Rightarrow> int \<Rightarrow> int \<Rightarrow> int \<Rightarrow> int \<Rightarrow> int \<Rightarrow> int \<Rightarrow> tunit \<Rightarrow> zoned option \<Rightarrow> balanced result" where
  "BalanceDuration now e t r o1 n a i s l =
     bindE (BalancePossiblyInfiniteDuration now e t r o1 n a i s l) finiteOrThrow"

definition DifferenceZonedDateTime ::
  "int \<Rightarrow> int \<Rightarrow> int \<Rightarrow> time_zone \<Rightarrow> calendar \<Rightarrow> tunit \<Rightarrow> duration result" where
  "DifferenceZonedDateTime now t r o1 n a =
     (if r - t = 0 then Inr (mkDuration 0 0 0 0 0 0 0 0 0 0)
      else
        bindE (newInstant t) (\<lambda>I.
        bindE (newInstant r) (\<lambda>S.
        bindE (GetPlainDateTimeFor now o1 I) (\<lambda>g.
        bindE (GetPlainDateTimeFor now o1 S) (\<lambda>w.
        bindE (DifferenceISODateTime now n g w a) (\<lambda>d.
        bindE (AddZonedDateTime now I o1 n (mkDuration (years d) (months d) (weeks d) 0 0 0 0 0 0 0) Constrain) (\<lambda>O1.
        bindE (CreateTemporalZonedDateTime O1 o1 n) (\<lambda>E.
        bindE (NanosecondsToDays now (r - O1) (Some E)) (\<lambda>nd.
        bindE (BalanceDurationPlain 0 0 0 0 0 0 (toNumber (ndNanoseconds nd)) Hour) (\<lambda>b.
          Inr (mkDuration (years d) (months d) (weeks d) (ndDays nd) (bHours b) (bMinutes b) (bSeconds b)
            (bMilliseconds b) (bMicroseconds b) (bNanoseconds b))))))))))))"

definition MoveRelativeZonedDateTime :: "int \<Rightarrow> zoned \<Rightarrow> int \<Rightarrow> int \<Rightarrow> int \<Rightarrow> int \<Rightarrow> zoned result" where
  "MoveRelativeZonedDateTime now e t r o1 n =
     bindE (AddZonedDateTime now (zNs e) (zZone e) (zCal e) (mkDuration t r o1 n 0 0 0 0 0 0) Constrain)
       (\<lambda>x. CreateTemporalZonedDateTime x (zZone e) (zCal e))"

definition CalculateOffsetShift :: "int \<Rightarrow> zoned option \<Rightarrow> int \<Rightarrow> int \<Rightarrow> int \<Rightarrow> int \<Rightarrow> int result" where
  "CalculateOffsetShift now e t r o1 n = (case e of
       None \<Rightarrow> Inr 0
     | Some z \<Rightarrow>
         bindE (GetOffsetNanosecondsFor (zZone z) (zNs z)) (\<lambda>l.
         bindE (AddZonedDateTime now (zNs z) (zZone z) (zCal z) (mkDuration t r o1 n 0 0 0 0 0 0) Constrain) (\<lambda>d.
         bindE (newInstant d) (\<lambda>d.
         bindE (GetOffsetNanosecondsFor (zZone z) d) (\<lambda>x. Inr (nsub x l))))))"

text \<open>What the string or the object said of its offset.\<close>

datatype offset_behaviour = OffsetOption | OffsetWall | OffsetExact

fun matchOffset :: "time_zone \<Rightarrow> int \<Rightarrow> bool \<Rightarrow> int list \<Rightarrow> int option result" where
  "matchOffset T u y [] = Inr None"
| "matchOffset T u y (t # ts) =
     bindE (GetOffsetNanosecondsFor T t) (\<lambda>r.
       let o1 = toNumber (RoundNumberToIncrement r 60000000000 HalfExpand)
       in if r = u \<or> y \<and> o1 = u then Inr (Some t) else matchOffset T u y ts)"

text \<open>The date-time the code makes here has the ISO calendar.\<close>

definition InterpretISODateTimeOffset ::
  "int \<Rightarrow> int \<Rightarrow> int \<Rightarrow> int \<Rightarrow> int \<Rightarrow> int \<Rightarrow> int \<Rightarrow> int \<Rightarrow> int \<Rightarrow> int \<Rightarrow> offset_behaviour \<Rightarrow> int \<Rightarrow> time_zone
    \<Rightarrow> disambiguation \<Rightarrow> offset_option \<Rightarrow> bool \<Rightarrow> int result" where
  "InterpretISODateTimeOffset now t r o1 i s l d m c h u T p f y =
     bindE (CreateTemporalDateTime now t r o1 i s l d m c) (\<lambda>I.
     if h = OffsetWall \<or> f = OffsetIgnore then bindE (GetInstantFor now (isoCalendar now) T I p) epochOf
     else if h = OffsetExact \<or> f = OffsetUse then
       bindE (orThrow RangeError (GetUTCEpochNanoseconds now t r o1 i s l d m c)) (\<lambda>n. Inr (n - u))
     else
       bindE (GetPossibleInstantsFor T I) (\<lambda>S.
       bindE (matchOffset T u y S) (\<lambda>x. case x of
         Some t \<Rightarrow> Inr t
       | None \<Rightarrow>
           if f = OffsetReject then Inl RangeError
           else bindE (DisambiguatePossibleInstants now (isoCalendar now) S T I p) epochOf)))"

section \<open>Offset time zones\<close>

text \<open>
  \<open>TimeZone.prototype\<close> for an identifier that is an offset string: \<open>a\<close> is the parsed offset.
\<close>

definition offsetZone_getPossibleInstantsFor :: "int \<Rightarrow> int \<Rightarrow> iso_datetime \<Rightarrow> int list result" where
  "offsetZone_getPossibleInstantsFor now a r =
     (let d = dtDate r; c = dtTime r
      in bindE (orThrow RangeError (GetUTCEpochNanoseconds now (year d) (month d) (day d) (hour c) (minute c)
           (second c) (millisecond c) (microsecond c) (nanosecond c))) (\<lambda>t.
         bindE (newInstant (t - a)) (\<lambda>i. Inr [i])))"

definition offsetZone :: "int \<Rightarrow> int \<Rightarrow> time_zone" where
  "offsetZone now a = BuiltinZone (\<lambda>t. Inr a) (offsetZone_getPossibleInstantsFor now a)"

section \<open>What a zone returns\<close>

abbreviation inRange :: "int \<Rightarrow> bool" where
  "inRange t \<equiv> nsMin \<le> t \<and> t \<le> nsMax"

lemma newInstant_eq: "newInstant t = (if inRange t then Inr t else Inl RangeError)"
  by (auto simp: newInstant_def ValidateEpochNanoseconds_def throwIf_def)

lemma AddInstant_eq:
  "AddInstant t h mi s ms us ns = newInstant (t + fieldsNs h mi s ms us ns)"
  by (simp add: AddInstant_def newInstant_def fieldsNs_def Let_def algebra_simps)

lemma datetimeOfNs_bounds:
  assumes "nsMin - nsPerDay < n" "n < nsMax + nsPerDay"
  shows "dateInRange (dtDate (datetimeOfNs n))"
proof -
  have "nsPerDay * (n div nsPerDay) \<le> n" "n < nsPerDay * (n div nsPerDay) + nsPerDay" by (rule div_bounds; simp)+
  then have "- 100000001 \<le> n div nsPerDay" "n div nsPerDay \<le> 100000000"
    using assms by (simp_all add: nsMin_def nsMax_def nsPerDay_def)
  then show ?thesis by (simp add: dateInRange_iff datetimeOfNs_def)
qed

lemma GetPlainDateTimeFor_eq:
  assumes now: "clockOk now" and t: "inRange t" and a: "GetOffsetNanosecondsFor tz t = Inr a" "\<bar>a\<bar> < nsPerDay"
  shows "GetPlainDateTimeFor now tz t = Inr (datetimeOfNs (t + a))"
proof -
  define x c where "x = dtDate (datetimeOfNs t)" and "c = dtTime (datetimeOfNs t)"
  have v: "validTime c" by (simp add: c_def datetimeOfNs_def)
  have "dateInRange x" unfolding x_def using t nsPerDay_pos(1) by (intro datetimeOfNs_bounds) linarith+
  note x = dateInRange_bounds [OF this]
  have m: "1 \<le> month x" "month x \<le> 12" "1 \<le> day x" "day x \<le> 31"
    using x(1) by (auto simp: validDate_def dest: order_trans [OF _ ISODaysInMonth_range(2)])
  have n: "nadd (nanosecond c) a = nanosecond c + a"
    using v a(2) by (intro nadd_safe) (auto simp: validTime_def nsPerDay_def abs_le_iff abs_less_iff)
  have f: "fieldsNs (hour c) (minute c) (second c) (millisecond c) (microsecond c) (nanosecond c + a) = timeNs c + a"
    by (simp add: fieldsNs_def timeNs_def)
  have e: "MakeDay (year x) (month x - 1) (day x) * nsPerDay + (timeNs c + a) = t + a"
    using datetimeNs_datetimeOfNs [of t] unfolding datetimeNs_def x_def [symmetric] c_def [symmetric] by (simp add: epochDay_def)
  have "BalanceISODateTime (year x) (month x) (day x) (hour c) (minute c) (second c) (millisecond c) (microsecond c)
      (nanosecond c + a) = Inr (datetimeOfNs (t + a))"
    using x(4) m timeNs_range [OF v] a(2)
    by (subst BalanceISODateTime_safe) (auto simp: f e [unfolded nsPerDay_def] nsPerDay_def abs_le_iff abs_less_iff)
  moreover have "nsMin - nsPerDay < t + a" "t + a < nsMax + nsPerDay" using t a(2) by (auto simp: abs_less_iff)
  ultimately show ?thesis
    using a(1) t GetISOPartsFromEpoch_eq [of t] CreateTemporalDateTime_eq [OF now, of "datetimeOfNs (t + a)"]
    by (simp add: GetPlainDateTimeFor_def orThrow_def x_def [symmetric] c_def [symmetric] n)
qed

section \<open>The contract of a time zone\<close>

text \<open>
  The laws of the two methods of a zone with offsets \<open>off\<close> on the instants \<open>dom\<close>: the instants
  a wall-clock time may be are those the zone shows as this time.
\<close>

locale zone_laws =
  fixes tz :: time_zone and now :: int and off :: "int \<Rightarrow> int" and dom :: "int \<Rightarrow> bool"
  assumes dom: "dom t \<Longrightarrow> inRange t \<and> clockOk now \<and> \<bar>off t\<bar> < nsPerDay"
    and offset: "dom t \<Longrightarrow> GetOffsetNanosecondsFor tz t = Inr (off t)"
    and possible: "dom t \<Longrightarrow> validDateTime x \<Longrightarrow> GetPossibleInstantsFor tz x = Inr l \<Longrightarrow>
      set l = {t. dom t \<and> t + off t = datetimeNs x}"
begin

lemma plain: "dom t \<Longrightarrow> GetPlainDateTimeFor now tz t = Inr (datetimeOfNs (t + off t))"
  using GetPlainDateTimeFor_eq [OF _ _ offset] dom by blast

lemma plain_possible:
  assumes "dom t" "GetPlainDateTimeFor now tz t = Inr x" "GetPossibleInstantsFor tz x = Inr l"
  shows "t \<in> set l"
  using assms plain [OF assms(1)] possible [OF assms(1), of x l] by auto

lemma instant_plain:
  assumes x: "dom t" "validDateTime x" and l: "GetPossibleInstantsFor tz x = Inr l" "l \<noteq> []"
    and i: "GetInstantFor now cal tz x m = Inr (Some i)"
  shows "GetPlainDateTimeFor now tz i = Inr x"
proof -
  have "i \<in> set l" using l i by (cases m) (auto simp: GetInstantFor_def DisambiguatePossibleInstants_def split: if_splits)
  then have "dom i" "i + off i = datetimeNs x" using possible [OF x l(1)] by auto
  then show ?thesis using plain [of i] x by simp
qed

lemma instant_unique:
  assumes t: "dom t" "GetPlainDateTimeFor now tz t = Inr x" and l: "GetPossibleInstantsFor tz x = Inr [i]"
  shows "GetInstantFor now cal tz x m = Inr (Some t)"
  using plain_possible [OF t l] l by (simp add: GetInstantFor_def DisambiguatePossibleInstants_def)

end

lemma offsetZone_possible:
  assumes "clockOk now" "validDateTime x"
  shows "offsetZone_getPossibleInstantsFor now a x =
    (if inRange (datetimeNs x) \<and> inRange (datetimeNs x - a) then Inr [datetimeNs x - a] else Inl RangeError)"
  using GetUTCEpochNanoseconds_valid [of now x] assms
  by (simp add: offsetZone_getPossibleInstantsFor_def orThrow_def newInstant_eq validDateTime_def)

interpretation offz: zone_laws "offsetZone now a" now "\<lambda>_. a"
  "\<lambda>t. clockOk now \<and> \<bar>a\<bar> < nsPerDay \<and> inRange t \<and> inRange (t + a)" for now a
  by unfold_locales
    (auto simp: offsetZone_def GetOffsetNanosecondsFor_def GetPossibleInstantsFor_def offsetZone_possible split: if_splits)

text \<open>C20: in a time zone with a fixed offset the wall-clock time of an instant leads back to the
  instant, for every disambiguation, as long as the wall-clock time is itself within the
  range of instants.\<close>

theorem offsetZone_roundtrip:
  assumes "clockOk now" "\<bar>a\<bar> < nsPerDay" "inRange t" "inRange (t + a)"
  shows "bindE (GetPlainDateTimeFor now (offsetZone now a) t) (\<lambda>x. GetInstantFor now cal (offsetZone now a) x m) = Inr (Some t)"
proof -
  have x: "GetPlainDateTimeFor now (offsetZone now a) t = Inr (datetimeOfNs (t + a))"
    using assms by (intro offz.plain) simp
  then show ?thesis
    using offz.instant_unique [OF _ x, of t] assms
    by (simp add: offsetZone_def GetPossibleInstantsFor_def offsetZone_possible)
qed

theorem offsetZone_roundtrip_witness:
  "bindE (GetPlainDateTimeFor 0 (offsetZone 0 3600000000000) 7) (\<lambda>x. GetInstantFor 0 (isoCalendar 0) (offsetZone 0 3600000000000) x Later) = Inr (Some 7)"
  by (rule offsetZone_roundtrip) (simp_all add: clockOk_def msPerDay_def nsPerDay_def nsMin_def nsMax_def)

text \<open>C21: the condition on the wall-clock time cannot be dropped. In a zone with a fixed offset the instants
  whose wall-clock time lies outside the range of instants (the last ones in a zone east of Greenwich,
  the first ones in a zone west of it) show a wall-clock time, but looking that time up
  throws a RangeError, because \<open>GetUTCEpochNanoseconds\<close> checks the range before the offset is
  subtracted.\<close>

theorem offsetZone_edge_instants:
  assumes "clockOk now" "\<bar>a\<bar> < nsPerDay" "inRange t" "\<not> inRange (t + a)"
  shows "\<exists>x. GetPlainDateTimeFor now (offsetZone now a) t = Inr x
    \<and> GetInstantFor now cal (offsetZone now a) x m = Inl RangeError"
proof (intro exI conjI)
  show "GetPlainDateTimeFor now (offsetZone now a) t = Inr (datetimeOfNs (t + a))"
    using assms by (intro GetPlainDateTimeFor_eq) (simp_all add: offsetZone_def GetOffsetNanosecondsFor_def)
  have "datetimeNs (datetimeOfNs (t + a)) = t + a" by (rule datetimeNs_datetimeOfNs)
  then have "offsetZone_getPossibleInstantsFor now a (datetimeOfNs (t + a)) = Inl RangeError"
    using assms by (simp only: offsetZone_possible validDateTime_datetimeOfNs if_False simp_thms)
  then show "GetInstantFor now cal (offsetZone now a) (datetimeOfNs (t + a)) m = Inl RangeError"
    by (simp add: GetInstantFor_def offsetZone_def GetPossibleInstantsFor_def)
qed

theorem offsetZone_edge_instants_witness:
  "(\<exists>x. GetPlainDateTimeFor 0 (offsetZone 0 3600000000000) (nsMax - 5) = Inr x
      \<and> GetInstantFor 0 (isoCalendar 0) (offsetZone 0 3600000000000) x Compatible = Inl RangeError)
   \<and> (\<exists>x. GetPlainDateTimeFor 0 (offsetZone 0 (-1)) nsMin = Inr x
      \<and> GetInstantFor 0 (isoCalendar 0) (offsetZone 0 (-1)) x Earlier = Inl RangeError)"
  by (intro conjI; rule offsetZone_edge_instants) (simp_all add: clockOk_def msPerDay_def nsPerDay_def nsMin_def nsMax_def)

text \<open>C22: whatever an object used as a time zone returns, an offset that is accepted is an integer
  Number of less than a day.\<close>

theorem GetOffsetNanosecondsFor_safe:
  assumes "GetOffsetNanosecondsFor (ZoneObject f g) t = Inr n"
  shows "f t = Inr (Num (Fin (of_int n))) \<and> \<bar>n\<bar> < nsPerDay"
proof -
  obtain v where v: "f t = Inr v" using assms by (cases "f t") (simp_all add: GetOffsetNanosecondsFor_def)
  obtain m where m: "v = Num m" using assms v by (cases v) (simp_all add: GetOffsetNanosecondsFor_def)
  obtain x where m': "m = Fin x" using assms v m by (cases m) (simp_all add: GetOffsetNanosecondsFor_def)
  have x: "f t = Inr (Num (Fin x))" "of_int \<lfloor>\<bar>x\<bar>\<rfloor> = \<bar>x\<bar>" "\<bar>x\<bar> < 86400000000000" "n = \<lfloor>x\<rfloor>"
    using assms v m m' by (simp_all add: GetOffsetNanosecondsFor_def IsIntegralNumber_def split: if_splits)
  from x(2) have "x = of_int \<lfloor>\<bar>x\<bar>\<rfloor> \<or> x = of_int (- \<lfloor>\<bar>x\<bar>\<rfloor>)" unfolding of_int_minus by linarith
  then obtain k where k: "x = of_int k" by blast
  have "\<bar>of_int k\<bar> < (of_int 86400000000000 :: rat)" using x(3) k by simp
  then show ?thesis using x(1,4) k by (simp only: of_int_abs [symmetric] of_int_less_iff) (simp add: nsPerDay_def)
qed

theorem GetOffsetNanosecondsFor_safe_witness:
  "GetOffsetNanosecondsFor (ZoneObject (\<lambda>t. Inr (Num (Fin (if t < 0 then 3600000000000 else 1 / 2)))) (\<lambda>_. Inr [])) (-7)
      = Inr 3600000000000
   \<and> \<bar>3600000000000 :: int\<bar> < nsPerDay"
proof -
  have "GetOffsetNanosecondsFor (ZoneObject (\<lambda>t. Inr (Num (Fin (if t < 0 then 3600000000000 else 1 / 2)))) (\<lambda>_. Inr [])) (-7)
      = Inr 3600000000000"
    by (simp add: GetOffsetNanosecondsFor_def IsIntegralNumber_def)
  from this GetOffsetNanosecondsFor_safe [OF this] show ?thesis by blast
qed

end
