(* ===== verification/Duration_Round.thy ===== *)
theory Duration_Round imports Zoned begin

text \<open>
  Durations against a reference point: moving calendar units into days and back
  (\<^verbatim>\<open>UnbalanceDurationRelative\<close>), rounding (\<^verbatim>\<open>RoundDuration\<close>, \<^verbatim>\<open>AdjustRoundedDurationDays\<close>),
  sums (\<^verbatim>\<open>AddDuration\<close>) and differences of instants. Loops over a calendar end only if the
  calendar lets them; a loop that does not end is the outcome \<open>NoReturn\<close>.
\<close>

section \<open>Reference points\<close>

datatype relative = RelDate iso_date calendar | RelZoned zoned

definition zonedDate :: "int \<Rightarrow> zoned \<Rightarrow> iso_date result" where
  "zonedDate now z =
     bindE (GetPlainDateTimeFor now (zZone z) (zNs z)) (\<lambda>x.
       CreateTemporalDate now (year (dtDate x)) (month (dtDate x)) (day (dtDate x)))"

definition relativeDate :: "int \<Rightarrow> relative \<Rightarrow> (iso_date \<times> calendar) result" where
  "relativeDate now r = (case r of RelDate d c \<Rightarrow> Inr (d, c)
     | RelZoned z \<Rightarrow> bindE (zonedDate now z) (\<lambda>d. Inr (d, zCal z)))"

definition relativeZoned :: "relative option \<Rightarrow> zoned option" where
  "relativeZoned r = (case r of Some (RelZoned z) \<Rightarrow> Some z | _ \<Rightarrow> None)"

definition MoveRelativeDate :: "calendar \<Rightarrow> iso_date \<Rightarrow> duration \<Rightarrow> (iso_date \<times> int) result" where
  "MoveRelativeDate e t r =
     bindE (calDateAdd e t r Constrain) (\<lambda>n. bindE (DaysUntil t n) (\<lambda>d. Inr (n, d)))"

text \<open>\<^verbatim>\<open>CalendarDateAdd(cal, date, new Duration(y, mo, w, d))\<close>\<close>

definition addDates :: "calendar \<Rightarrow> iso_date \<Rightarrow> int \<Rightarrow> int \<Rightarrow> int \<Rightarrow> int \<Rightarrow> iso_date result" where
  "addDates cal x y mo w d = bindE (CreateDuration y mo w d 0 0 0 0 0 0) (\<lambda>v. calDateAdd cal x v Constrain)"

section \<open>Unbalancing\<close>

partial_function (option) yearsToMonths ::
  "calendar \<Rightarrow> duration \<Rightarrow> int \<Rightarrow> iso_date \<Rightarrow> int \<Rightarrow> int \<Rightarrow> int result option" where
  "yearsToMonths m y d c u h =
     (if h = 0 then Some (Inr u)
      else case bindE (calDateAdd m c y Constrain) (\<lambda>o1. bindE (calDateUntil m c o1 Month) (\<lambda>a. Inr (o1, months a))) of
             Inl e \<Rightarrow> Some (Inl e)
           | Inr (o1, i) \<Rightarrow> yearsToMonths m y d o1 (u + i) (h - d))"

partial_function (option) unitsToDays ::
  "calendar \<Rightarrow> duration \<Rightarrow> int \<Rightarrow> iso_date \<Rightarrow> int \<Rightarrow> int \<Rightarrow> (iso_date \<times> int) result option" where
  "unitsToDays m y d c f h =
     (if h = 0 then Some (Inr (c, f))
      else case MoveRelativeDate m c y of
             Inl e \<Rightarrow> Some (Inl e)
           | Inr (c, r) \<Rightarrow> unitsToDays m y d c (f + r) (h - d))"

definition UnbalanceDurationRelative ::
  "int \<Rightarrow> int \<Rightarrow> int \<Rightarrow> int \<Rightarrow> int \<Rightarrow> tunit \<Rightarrow> relative option \<Rightarrow> date_duration result" where
  "UnbalanceDurationRelative now t r o1 n a i =
     (let l = DurationSign t r o1 n 0 0 0 0 0 0
      in if l = 0 then Inr (dateDuration t r o1 n)
         else
           bindE (case i of None \<Rightarrow> Inr None | Some x \<Rightarrow> bindE (relativeDate now x) (\<lambda>x. Inr (Some x))) (\<lambda>cm.
           bindE (CreateDuration l 0 0 0 0 0 0 0 0 0) (\<lambda>y.
           bindE (CreateDuration 0 l 0 0 0 0 0 0 0 0) (\<lambda>I.
           bindE (CreateDuration 0 0 l 0 0 0 0 0 0 0) (\<lambda>S.
           bindE (case a of
               Year \<Rightarrow> Inr (t, r, o1, n)
             | Month \<Rightarrow>
                 (case cm of None \<Rightarrow> Inl RangeError
                  | Some (c, m) \<Rightarrow> bindE (loopResult (yearsToMonths m y l c r t)) (\<lambda>u. Inr (0, u, o1, n)))
             | Week \<Rightarrow>
                 (case cm of None \<Rightarrow> Inl RangeError
                  | Some (c, m) \<Rightarrow>
                      bindE (loopResult (unitsToDays m y l c n t)) (\<lambda>(c, f).
                      bindE (loopResult (unitsToDays m I l c f r)) (\<lambda>(c, f). Inr (0, 0, o1, f))))
             | _ \<Rightarrow>
                 if t = 0 \<and> r = 0 \<and> o1 = 0 then Inr (t, r, o1, n)
                 else
                   (case cm of None \<Rightarrow> Inl RangeError
                    | Some (c, m) \<Rightarrow>
                        bindE (loopResult (unitsToDays m y l c n t)) (\<lambda>(c, f).
                        bindE (loopResult (unitsToDays m I l c f r)) (\<lambda>(c, f).
                        bindE (loopResult (unitsToDays m S l c f o1)) (\<lambda>(c, f). Inr (0, 0, 0, f))))))
             (\<lambda>(h, u, T, f). Inr (dateDuration (toNumber h) (toNumber u) (toNumber T) (toNumber f))))))))"

section \<open>Rounding\<close>

text \<open>\<^verbatim>\<open>for (...; abs(S) >= abs(s);) { y += a, S -= s, move }\<close>\<close>

partial_function (option) moveWhile ::
  "calendar \<Rightarrow> duration \<Rightarrow> int \<Rightarrow> iso_date \<Rightarrow> int \<Rightarrow> int \<Rightarrow> int \<Rightarrow> (int \<times> int \<times> int) result option" where
  "moveWhile b d a F s y S =
     (if \<bar>S\<bar> \<ge> \<bar>s\<bar>
      then (case MoveRelativeDate b F d of
              Inl e \<Rightarrow> Some (Inl e)
            | Inr (F, s') \<Rightarrow> moveWhile b d a F s' (nadd y a) (nsub S s))
      else Some (Inr (s, y, S)))"

text \<open>Rounding a total \<open>C\<close> to \<open>c\<close> units of length \<open>l\<close>: the count of units, and the exact
  quotient; a length of 0 makes the BigInt division throw.\<close>

definition roundUnits :: "int \<Rightarrow> int \<Rightarrow> int \<Rightarrow> rounding_mode \<Rightarrow> (int \<times> rat) result" where
  "roundUnits C l c u =
     (if l * c = 0 then Inl RangeError
      else Inr (toNumber (tdiv (RoundNumberToIncrement C (l * c) u) l), BigIntDivideToNumber C l))"

text \<open>The same where the increment \<^verbatim>\<open>l * c\<close> is a product of Numbers and the length is not 0.\<close>

definition roundTimeUnits :: "int \<Rightarrow> int \<Rightarrow> int \<Rightarrow> rounding_mode \<Rightarrow> int \<times> rat" where
  "roundTimeUnits C l c u =
     (toNumber (tdiv (RoundNumberToIncrement C (nmul l c) u) l), BigIntDivideToNumber C l)"

definition RoundYears ::
  "calendar \<Rightarrow> iso_date \<Rightarrow> int \<Rightarrow> int \<Rightarrow> int \<Rightarrow> int \<Rightarrow> int \<Rightarrow> int \<Rightarrow> int \<Rightarrow> rounding_mode \<Rightarrow> (int \<times> rat) result" where
  "RoundYears b F f y I S C M c u =
     bindE (addDates b F f 0 0 0) (\<lambda>o1.
     bindE (addDates b F f y I 0) (\<lambda>n.
     bindE (DaysUntil o1 n) (\<lambda>k.
     let F = o1; S = nadd S k
     in bindE (addDates b F 0 0 0 S) (\<lambda>a.
        bindE (calDateUntil b F a Year) (\<lambda>s.
        let s = years s; f = nadd f s; l = F
        in bindE (addDates b F s 0 0 0) (\<lambda>F.
           bindE (DaysUntil l F) (\<lambda>k.
           let S = nsub S k
           in bindE (CreateDuration (if S < 0 then -1 else 1) 0 0 0 0 0 0 0 0 0) (\<lambda>d.
              bindE (MoveRelativeDate b F d) (\<lambda>(_, m).
              let h = \<bar>m\<bar> * M
              in roundUnits (h * f + S * M + C) h c u)))))))))"

definition RoundMonths ::
  "calendar \<Rightarrow> iso_date \<Rightarrow> int \<Rightarrow> int \<Rightarrow> int \<Rightarrow> int \<Rightarrow> int \<Rightarrow> int \<Rightarrow> int \<Rightarrow> rounding_mode \<Rightarrow> (int \<times> rat) result" where
  "RoundMonths b F f y I S C M c u =
     bindE (addDates b F f y 0 0) (\<lambda>o1.
     bindE (addDates b F f y I 0) (\<lambda>n.
     bindE (DaysUntil o1 n) (\<lambda>k.
     let F = o1; S = nadd S k; a = sgn S
     in bindE (CreateDuration 0 (if S < 0 then -1 else 1) 0 0 0 0 0 0 0 0) (\<lambda>i.
        bindE (MoveRelativeDate b F i) (\<lambda>(F, s).
        bindE (loopResult (moveWhile b i a F s y S)) (\<lambda>(s, y, S).
        let l = \<bar>s\<bar> * M
        in roundUnits (l * y + S * M + C) l c u))))))"

definition RoundWeeks ::
  "calendar \<Rightarrow> iso_date \<Rightarrow> int \<Rightarrow> int \<Rightarrow> int \<Rightarrow> int \<Rightarrow> int \<Rightarrow> rounding_mode \<Rightarrow> (int \<times> rat) result" where
  "RoundWeeks b F I S C M c u =
     bindE (CreateDuration 0 0 (if S < 0 then -1 else 1) 0 0 0 0 0 0 0) (\<lambda>r.
     bindE (MoveRelativeDate b F r) (\<lambda>(F, n).
     bindE (loopResult (moveWhile b r (sgn S) F n I S)) (\<lambda>(n, I, S).
     let a = \<bar>n\<bar> * M
     in roundUnits (a * I + S * M + C) a c u)))"

text \<open>The time units: no reference point is used.\<close>

definition RoundTimeDuration :: "duration \<Rightarrow> int \<Rightarrow> tunit \<Rightarrow> rounding_mode \<Rightarrow> duration \<times> rat" where
  "RoundTimeDuration d c h u =
     (let g = hours d; w = minutes d; D = seconds d; G = milliseconds d; v = microseconds d; C = nanoseconds d
      in case h of
        Hour \<Rightarrow> let (g, R) = roundTimeUnits (fieldsNs g w D G v C) 3600000000000 c u
                in (d\<lparr>hours := g, minutes := 0, seconds := 0, milliseconds := 0, microseconds := 0, nanoseconds := 0\<rparr>, R)
      | Minute \<Rightarrow> let (w, R) = roundTimeUnits (fieldsNs 0 w D G v C) 60000000000 c u
                in (d\<lparr>minutes := w, seconds := 0, milliseconds := 0, microseconds := 0, nanoseconds := 0\<rparr>, R)
      | Second \<Rightarrow> let (D, R) = roundTimeUnits (fieldsNs 0 0 D G v C) 1000000000 c u
                in (d\<lparr>seconds := D, milliseconds := 0, microseconds := 0, nanoseconds := 0\<rparr>, R)
      | Millisecond \<Rightarrow> let (G, R) = roundTimeUnits (fieldsNs 0 0 0 G v C) 1000000 c u
                in (d\<lparr>milliseconds := G, microseconds := 0, nanoseconds := 0\<rparr>, R)
      | Microsecond \<Rightarrow> let (v, R) = roundTimeUnits (fieldsNs 0 0 0 0 v C) 1000 c u
                in (d\<lparr>microseconds := v, nanoseconds := 0\<rparr>, R)
      | _ \<Rightarrow> (d\<lparr>nanoseconds := toNumber (RoundNumberToIncrement C c u)\<rparr>, of_int (toNumber C)))"

definition RoundDuration ::
  "int \<Rightarrow> duration \<Rightarrow> int \<Rightarrow> tunit \<Rightarrow> rounding_mode \<Rightarrow> relative option \<Rightarrow> (duration \<times> rat) result" where
  "RoundDuration now d c h u T =
     bindE (case T of None \<Rightarrow> Inr None | Some x \<Rightarrow> bindE (relativeDate now x) (\<lambda>x. Inr (Some x))) (\<lambda>Fb.
     let f = years d; y = months d; I = weeks d; S = days d
     in if h \<in> {Year, Month, Week, Day} then
          let C = TotalDurationNanoseconds 0 (hours d) (minutes d) (seconds d) (milliseconds d) (microseconds d) (nanoseconds d) 0
          in bindE (case relativeZoned T of
                 None \<Rightarrow> Inr None
               | Some E \<Rightarrow> bindE (MoveRelativeZonedDateTime now E f y I S) (\<lambda>z. Inr (Some z))) (\<lambda>z.
             bindE (NanosecondsToDays now C z) (\<lambda>n.
             let C = ndNanoseconds n; M = ndDayLength n; S = nadd S (ndDays n)
             in case h of
                  Year \<Rightarrow> bindE (orThrow RangeError Fb) (\<lambda>(F, b).
                    bindE (RoundYears b F f y I S C M c u) (\<lambda>(f, R). Inr (mkDuration f 0 0 0 0 0 0 0 0 0, R)))
                | Month \<Rightarrow> bindE (orThrow RangeError Fb) (\<lambda>(F, b).
                    bindE (RoundMonths b F f y I S C M c u) (\<lambda>(y, R). Inr (mkDuration f y 0 0 0 0 0 0 0 0, R)))
                | Week \<Rightarrow> bindE (orThrow RangeError Fb) (\<lambda>(F, b).
                    bindE (RoundWeeks b F I S C M c u) (\<lambda>(I, R). Inr (mkDuration f y I 0 0 0 0 0 0 0, R)))
                | _ \<Rightarrow> bindE (roundUnits (M * S + C) M c u) (\<lambda>(S, R). Inr (mkDuration f y I S 0 0 0 0 0 0, R))))
        else Inr (RoundTimeDuration d c h u))"

section \<open>Differences and sums\<close>

definition DifferenceInstant ::
  "int \<Rightarrow> int \<Rightarrow> int \<Rightarrow> int \<Rightarrow> tunit \<Rightarrow> tunit \<Rightarrow> rounding_mode \<Rightarrow> balanced result" where
  "DifferenceInstant now t r o1 n a i =
     (let s = r - t;
          m = toNumber (tmod s 1000);
          c = toNumber (tmod (tdiv s 1000) 1000);
          h = toNumber (tmod (tdiv s 1000000) 1000);
          u = toNumber (tdiv s 1000000000)
      in bindE (RoundDuration now (mkDuration 0 0 0 0 0 0 u h c m) o1 n i None) (\<lambda>(d, _).
         BalanceDurationPlain 0 (hours d) (minutes d) (seconds d) (milliseconds d) (microseconds d) (nanoseconds d) a))"

definition largestOf :: "duration \<Rightarrow> tunit" where
  "largestOf d = DefaultTemporalLargestUnit (years d) (months d) (weeks d) (days d) (hours d) (minutes d)
     (seconds d) (milliseconds d) (microseconds d) (nanoseconds d)"

definition checkDuration :: "duration \<Rightarrow> duration result" where
  "checkDuration d = CreateDuration (years d) (months d) (weeks d) (days d) (hours d) (minutes d) (seconds d)
     (milliseconds d) (microseconds d) (nanoseconds d)"

text \<open>The sums of the time fields are BigInts, the sum of the days is a Number.\<close>

definition AddDuration :: "int \<Rightarrow> duration \<Rightarrow> duration \<Rightarrow> relative option \<Rightarrow> duration result" where
  "AddDuration now d e C =
     (let O1 = LargerOfTwoTemporalUnits (largestOf d) (largestOf e);
          bal = (\<lambda>R. BalanceDurationPlain R (hours d + hours e) (minutes d + minutes e) (seconds d + seconds e)
            (milliseconds d + milliseconds e) (microseconds d + microseconds e) (nanoseconds d + nanoseconds e) O1)
      in bindE (case C of
          Some (RelDate x S) \<Rightarrow>
            bindE (CreateDuration (years d) (months d) (weeks d) (days d) 0 0 0 0 0 0) (\<lambda>g.
            bindE (CreateDuration (years e) (months e) (weeks e) (days e) 0 0 0 0 0 0) (\<lambda>j.
            bindE (calDateAdd S x g Constrain) (\<lambda>k.
            bindE (calDateAdd S k j Constrain) (\<lambda>U.
            bindE (calDateUntil S x U (LargerOfTwoTemporalUnits Day O1)) (\<lambda>v.
            bindE (bal (days v)) (\<lambda>b.
              Inr (mkDuration (years v) (months v) (weeks v) (bDays b) (bHours b) (bMinutes b) (bSeconds b)
                (bMilliseconds b) (bMicroseconds b) (bNanoseconds b))))))))
        | Some (RelZoned z) \<Rightarrow>
            bindE (AddZonedDateTime now (zNs z) (zZone z) (zCal z) d Constrain) (\<lambda>k.
            bindE (newInstant k) (\<lambda>k.
            bindE (AddZonedDateTime now k (zZone z) (zCal z) e Constrain) (\<lambda>U.
            if O1 \<notin> {Year, Month, Week, Day}
            then bindE (DifferenceInstant now (zNs z) U 1 Nanosecond O1 HalfExpand) (\<lambda>b.
              Inr (mkDuration 0 0 0 0 (bHours b) (bMinutes b) (bSeconds b) (bMilliseconds b) (bMicroseconds b) (bNanoseconds b)))
            else DifferenceZonedDateTime now (zNs z) U (zZone z) (zCal z) O1)))
        | None \<Rightarrow>
            if O1 \<in> {Year, Month, Week} then Inl RangeError
            else bindE (bal (nadd (days d) (days e))) (\<lambda>b.
              Inr (mkDuration 0 0 0 (bDays b) (bHours b) (bMinutes b) (bSeconds b)
                (bMilliseconds b) (bMicroseconds b) (bNanoseconds b)))) checkDuration)"

definition AdjustRoundedDurationDays ::
  "int \<Rightarrow> duration \<Rightarrow> int \<Rightarrow> tunit \<Rightarrow> rounding_mode \<Rightarrow> relative option \<Rightarrow> duration result" where
  "AdjustRoundedDurationDays now d c h u T =
     (case relativeZoned T of
        None \<Rightarrow> Inr d
      | Some z \<Rightarrow>
          if h \<in> {Year, Month, Week, Day} \<or> h = Nanosecond \<and> c = 1 then Inr d
          else
            let E = TotalDurationNanoseconds 0 (hours d) (minutes d) (seconds d) (milliseconds d) (microseconds d) (nanoseconds d) 0;
                M = sgn (toNumber E); R = zZone z; F = zCal z
            in bindE (AddZonedDateTime now (zNs z) R F (mkDuration (years d) (months d) (weeks d) (days d) 0 0 0 0 0 0) Constrain) (\<lambda>Y.
               bindE (newInstant Y) (\<lambda>Yi.
               bindE (AddZonedDateTime now Yi R F (daysOnly M) Constrain) (\<lambda>P.
               let Z = P - Y
               in if (E - Z) * M \<ge> 0
                  then
                    bindE (AddDuration now (mkDuration (years d) (months d) (weeks d) (days d) 0 0 0 0 0 0) (daysOnly M) T) (\<lambda>a.
                    bindE (RoundInstant (E - Z) c h u) (\<lambda>E.
                    bindE (BalanceDurationPlain 0 0 0 0 0 0 (toNumber E) Hour) (\<lambda>b.
                      Inr (mkDuration (years a) (months a) (weeks a) (days a) (bHours b) (bMinutes b) (bSeconds b)
                        (bMilliseconds b) (bMicroseconds b) (bNanoseconds b)))))
                  else Inr d))))"

end
