(* ===== verification/Duration_Props.thy ===== *)
theory Duration_Props imports Duration_Round begin

text \<open>
  What holds of the operations of \<open>Duration_Round\<close>: unbalancing returns, sums without a
  reference point keep the total, differences of instants are exact or rounded as a whole.
\<close>

section \<open>Loops over a calendar\<close>

lemma bindE_returns:
  "x \<noteq> Inl NoReturn \<Longrightarrow> (\<And>y. x = Inr y \<Longrightarrow> f y \<noteq> Inl NoReturn) \<Longrightarrow> bindE x f \<noteq> Inl NoReturn"
  by (cases x) simp_all

lemma bindE_returns2:
  assumes "x \<noteq> Inl NoReturn" "\<And>a b. x = Inr (a, b) \<Longrightarrow> f a b \<noteq> Inl NoReturn"
  shows "bindE x (\<lambda>(a, b). f a b) \<noteq> Inl NoReturn"
  using assms by (cases x) auto

lemma returned_Some [simp]: "returned (Some x) = Inr x" by (simp add: returned_def)

lemma loopResult_Some [simp]: "loopResult (Some r) = r" by (simp add: loopResult_def)

lemma unitsToDays_returns:
  assumes d: "d = 1 \<or> d = -1"
    and step: "\<And>c. P c \<Longrightarrow> MoveRelativeDate m c y \<noteq> Inl NoReturn"
      "\<And>c c' r. P c \<Longrightarrow> MoveRelativeDate m c y = Inr (c', r) \<Longrightarrow> P c'"
    and h: "0 \<le> h * d" and c: "P c"
  shows "\<exists>r. unitsToDays m y d c f h = Some r \<and> r \<noteq> Inl NoReturn \<and> (\<forall>c' f'. r = Inr (c', f') \<longrightarrow> P c')"
  using h c
proof (induction "nat \<bar>h\<bar>" arbitrary: h c f)
  case 0
  then show ?case by (subst unitsToDays.simps) simp
next
  case (Suc n)
  have h: "h \<noteq> 0" "n = nat \<bar>h - d\<bar>" "0 \<le> (h - d) * d" using Suc.hyps(2) Suc.prems(1) d by (auto simp: algebra_simps)
  show ?case
  proof (cases "MoveRelativeDate m c y")
    case (Inl e)
    then show ?thesis using h(1) step(1) [OF Suc.prems(2)] by (subst unitsToDays.simps) simp
  next
    case (Inr p)
    obtain c' r where p: "p = (c', r)" by fastforce
    have "P c'" using step(2) [OF Suc.prems(2)] Inr p by simp
    from Suc.hyps(1) [OF h(2,3) this, of "f + r"] show ?thesis
      using h(1) Inr p by (subst unitsToDays.simps) simp
  qed
qed

lemma yearsToMonths_returns:
  assumes d: "d = 1 \<or> d = -1"
    and add: "\<And>c. P c \<Longrightarrow> calDateAdd m c y Constrain \<noteq> Inl NoReturn"
      "\<And>c c'. P c \<Longrightarrow> calDateAdd m c y Constrain = Inr c' \<Longrightarrow> P c'"
    and until: "\<And>c c'. P c \<Longrightarrow> P c' \<Longrightarrow> calDateUntil m c c' Month \<noteq> Inl NoReturn"
    and h: "0 \<le> h * d" and c: "P c"
  shows "\<exists>r. yearsToMonths m y d c u h = Some r \<and> r \<noteq> Inl NoReturn"
  using h c
proof (induction "nat \<bar>h\<bar>" arbitrary: h c u)
  case 0
  then show ?case by (subst yearsToMonths.simps) simp
next
  case (Suc n)
  have h: "h \<noteq> 0" "n = nat \<bar>h - d\<bar>" "0 \<le> (h - d) * d" using Suc.hyps(2) Suc.prems(1) d by (auto simp: algebra_simps)
  show ?case
  proof (cases "calDateAdd m c y Constrain")
    case (Inl e)
    then show ?thesis using h(1) add(1) [OF Suc.prems(2)] by (subst yearsToMonths.simps) simp
  next
    case (Inr c')
    then have P: "P c'" using add(2) [OF Suc.prems(2)] by simp
    show ?thesis
      using h(1) Inr until [OF Suc.prems(2) P] Suc.hyps(1) [OF h(2,3) P]
      by (subst yearsToMonths.simps) (cases "calDateUntil m c c' Month"; simp)
  qed
qed

lemma isoCalendar_unit:
  assumes now: "clockOk now" and x: "dateInRange x" and b: "\<bar>y\<bar> \<le> 1" "\<bar>mo\<bar> \<le> 1" "\<bar>w\<bar> \<le> 1"
  shows "calDateAdd (isoCalendar now) x (mkDuration y mo w 0 0 0 0 0 0 0) Constrain \<noteq> Inl NoReturn"
    and "calDateAdd (isoCalendar now) x (mkDuration y mo w 0 0 0 0 0 0 0) Constrain = Inr z \<Longrightarrow> dateInRange z"
proof -
  note vx = dateInRange_bounds [OF x]
  obtain bd where bd: "BalanceDurationPlain 0 0 0 0 0 0 0 Day = Inr bd" "bDays bd = 0"
    by (rule BalanceDurationPlain_days [of 0]) auto
  have a: "AddISODate (year x) (month x) (day x) y mo w 0 Constrain
    = Inr (dateOfDay (epochDay (addMonths x (12 * y + mo)) + 7 * w + 0))"
    using AddISODate_constrain [OF vx(1) less_imp_le [OF vx(4)], of y mo w 0] b by simp
  let ?z = "dateOfDay (epochDay (addMonths x (12 * y + mo)) + 7 * w + 0)"
  have "calDateAdd (isoCalendar now) x (mkDuration y mo w 0 0 0 0 0 0 0) Constrain
    = (if dateInRange ?z then Inr ?z else Inl RangeError)"
    using bd a CreateTemporalDate_eq [OF now, of ?z] by (simp add: isoCalendar_def Calendar_dateAdd_def iso8601_dateAdd_def)
  then show "calDateAdd (isoCalendar now) x (mkDuration y mo w 0 0 0 0 0 0 0) Constrain \<noteq> Inl NoReturn"
    and "calDateAdd (isoCalendar now) x (mkDuration y mo w 0 0 0 0 0 0 0) Constrain = Inr z \<Longrightarrow> dateInRange z"
    by (simp_all split: if_splits)
qed

lemma MoveRelativeDate_unit:
  assumes now: "clockOk now" and x: "dateInRange x" and b: "\<bar>y\<bar> \<le> 1" "\<bar>mo\<bar> \<le> 1" "\<bar>w\<bar> \<le> 1"
  shows "MoveRelativeDate (isoCalendar now) x (mkDuration y mo w 0 0 0 0 0 0 0) \<noteq> Inl NoReturn"
    and "MoveRelativeDate (isoCalendar now) x (mkDuration y mo w 0 0 0 0 0 0 0) = Inr (z, r) \<Longrightarrow> dateInRange z"
proof -
  note u = isoCalendar_unit [OF assms]
  show "MoveRelativeDate (isoCalendar now) x (mkDuration y mo w 0 0 0 0 0 0 0) \<noteq> Inl NoReturn"
    using u DaysUntil_eq [OF dateInRange_bounds(1) [OF x]] dateInRange_bounds(1)
    by (cases "calDateAdd (isoCalendar now) x (mkDuration y mo w 0 0 0 0 0 0 0) Constrain")
      (auto simp: MoveRelativeDate_def)
  show "MoveRelativeDate (isoCalendar now) x (mkDuration y mo w 0 0 0 0 0 0 0) = Inr (z, r) \<Longrightarrow> dateInRange z"
    using u(2) by (auto simp: MoveRelativeDate_def bindE_eq_Inr_iff)
qed

lemma loopResult_returns:
  assumes "\<exists>r. x = Some r \<and> r \<noteq> Inl NoReturn \<and> (\<forall>c f. r = Inr (c, f) \<longrightarrow> P c)"
  shows "loopResult x \<noteq> Inl NoReturn" and "loopResult x = Inr (c, f) \<Longrightarrow> P c"
  using assms by auto

lemma iso_unitsToDays:
  assumes now: "clockOk now" and b: "\<bar>y\<bar> \<le> 1" "\<bar>mo\<bar> \<le> 1" "\<bar>w\<bar> \<le> 1" and l: "l = 1 \<or> l = -1"
    and h: "0 \<le> h * l" and c: "dateInRange c"
  shows "loopResult (unitsToDays (isoCalendar now) (mkDuration y mo w 0 0 0 0 0 0 0) l c f h) \<noteq> Inl NoReturn"
    and "loopResult (unitsToDays (isoCalendar now) (mkDuration y mo w 0 0 0 0 0 0 0) l c f h) = Inr (c', f') \<Longrightarrow> dateInRange c'"
proof -
  have "\<exists>u. unitsToDays (isoCalendar now) (mkDuration y mo w 0 0 0 0 0 0 0) l c f h = Some u \<and> u \<noteq> Inl NoReturn
    \<and> (\<forall>c f. u = Inr (c, f) \<longrightarrow> dateInRange c)"
    by (rule unitsToDays_returns [where P = dateInRange, OF l _ _ h c])
      (rule MoveRelativeDate_unit [OF now _ b], assumption+)+
  then show "loopResult (unitsToDays (isoCalendar now) (mkDuration y mo w 0 0 0 0 0 0 0) l c f h) \<noteq> Inl NoReturn"
    and "loopResult (unitsToDays (isoCalendar now) (mkDuration y mo w 0 0 0 0 0 0 0) l c f h) = Inr (c', f') \<Longrightarrow> dateInRange c'"
    by (rule loopResult_returns)+
qed

lemma iso_yearsToMonths:
  assumes now: "clockOk now" and l: "l = 1 \<or> l = -1" and h: "0 \<le> h * l" and x: "dateInRange x"
  shows "loopResult (yearsToMonths (isoCalendar now) (mkDuration l 0 0 0 0 0 0 0 0 0) l x u h) \<noteq> Inl NoReturn"
proof -
  let ?m = "isoCalendar now"
  have lb: "\<bar>l\<bar> \<le> 1" using l by auto
  have "\<exists>r. yearsToMonths ?m (mkDuration l 0 0 0 0 0 0 0 0 0) l x u h = Some r \<and> r \<noteq> Inl NoReturn"
  proof (rule yearsToMonths_returns [where P = dateInRange, OF l])
    show "calDateAdd ?m c (mkDuration l 0 0 0 0 0 0 0 0 0) Constrain \<noteq> Inl NoReturn" if "dateInRange c" for c
      using lb by (intro isoCalendar_unit(1) [OF now that]) simp_all
    show "dateInRange c'" if "dateInRange c" "calDateAdd ?m c (mkDuration l 0 0 0 0 0 0 0 0 0) Constrain = Inr c'" for c c'
      using lb by (intro isoCalendar_unit(2) [OF now that(1) _ _ _ that(2)]) simp_all
    show "calDateUntil ?m c c' Month \<noteq> Inl NoReturn" if "dateInRange c" "dateInRange c'" for c c'
      using iso.until_total [of now c c' Month] now that by blast
  qed (use h x in simp_all)
  then show ?thesis by auto
qed

lemma CreateDuration_unit:
  assumes "\<bar>l\<bar> \<le> 1"
  shows "CreateDuration l 0 0 0 0 0 0 0 0 0 = Inr (mkDuration l 0 0 0 0 0 0 0 0 0)"
    "CreateDuration 0 l 0 0 0 0 0 0 0 0 = Inr (mkDuration 0 l 0 0 0 0 0 0 0 0)"
    "CreateDuration 0 0 l 0 0 0 0 0 0 0 = Inr (mkDuration 0 0 l 0 0 0 0 0 0 0)"
  using CreateDuration_date [of "dateDuration l 0 0 0" "sgn l"] CreateDuration_date [of "dateDuration 0 l 0 0" "sgn l"]
    CreateDuration_date [of "dateDuration 0 0 l 0" "sgn l"] assms by (auto simp: isFinite_safe)

lemma validDuration_signs:
  assumes v: "RejectDuration t r o1 n 0 0 0 0 0 0 = Inr ()" and l: "l = DurationSign t r o1 n 0 0 0 0 0 0" "l \<noteq> 0"
  shows "l = 1 \<or> l = -1" "0 \<le> t * l" "0 \<le> r * l" "0 \<le> o1 * l"
proof -
  show l1: "l = 1 \<or> l = -1"
    using l signOfList_in [of "[t, r, o1, n, 0, 0, 0, 0, 0, 0]"] by (auto simp: DurationSign_def)
  have "\<forall>c \<in> {t, r, o1, n}. c = 0 \<or> sgn c = l"
    using v unfolding RejectDuration_def rejectMixed_iff l(1) by simp
  then show "0 \<le> t * l" "0 \<le> r * l" "0 \<le> o1 * l" using l1 by (auto simp: sgn_if split: if_splits)
qed

text \<open>C23: unbalancing a valid duration relative to an ISO date always returns, with a result or an
  error of its own: no loop over years, months or weeks runs forever.\<close>

theorem UnbalanceDurationRelative_returns:
  assumes now: "clockOk now" and x: "dateInRange x" and v: "RejectDuration t r o1 n 0 0 0 0 0 0 = Inr ()"
  shows "UnbalanceDurationRelative now t r o1 n a (Some (RelDate x (isoCalendar now))) \<noteq> Inl NoReturn"
proof (cases "DurationSign t r o1 n 0 0 0 0 0 0 = 0")
  case True
  then show ?thesis by (simp add: UnbalanceDurationRelative_def)
next
  case False
  define l where "l = DurationSign t r o1 n 0 0 0 0 0 0"
  let ?m = "isoCalendar now"
  have l0': "l \<noteq> 0" using False by (simp add: l_def)
  note s = validDuration_signs [OF v l_def l0']
  note l = s(1)
  have lb: "\<bar>l\<bar> \<le> 1" using l by auto
  note c = CreateDuration_unit [OF lb]
  have M: "loopResult (yearsToMonths ?m (mkDuration l 0 0 0 0 0 0 0 0 0) l x r t) \<noteq> Inl NoReturn"
    by (rule iso_yearsToMonths [OF now l s(2) x])
  let ?Y = "mkDuration l 0 0 0 0 0 0 0 0 0" and ?I = "mkDuration 0 l 0 0 0 0 0 0 0 0" and ?S = "mkDuration 0 0 l 0 0 0 0 0 0 0"
  have Y': "loopResult (unitsToDays ?m ?Y l x n t) \<noteq> Inl NoReturn"
    "\<And>c f. loopResult (unitsToDays ?m ?Y l x n t) = Inr (c, f) \<Longrightarrow> dateInRange c"
    by (rule iso_unitsToDays [OF now lb _ _ l s(2) x]; simp)+
  have I': "loopResult (unitsToDays ?m ?I l c f r) \<noteq> Inl NoReturn"
    "\<And>c' f'. loopResult (unitsToDays ?m ?I l c f r) = Inr (c', f') \<Longrightarrow> dateInRange c'" if "dateInRange c" for c f
    by (rule iso_unitsToDays [OF now _ lb _ l s(3) that]; simp)+
  have S': "loopResult (unitsToDays ?m ?S l c f o1) \<noteq> Inl NoReturn" if "dateInRange c" for c f
    by (rule iso_unitsToDays [OF now _ _ lb l s(4) that]; simp)
  have l0: "(l = 0) = False" using l0' by simp
  have S2: "bindE (loopResult (unitsToDays ?m ?S l c f o1)) (\<lambda>(c, f). Inr (0 :: int, 0 :: int, 0 :: int, f)) \<noteq> Inl NoReturn"
    if "dateInRange c" for c f
    by (rule bindE_returns2 [OF S' [OF that]]) simp
  have M2: "bindE (loopResult (yearsToMonths ?m ?Y l x r t)) (\<lambda>u. Inr (0 :: int, u, o1, n)) \<noteq> Inl NoReturn"
    by (rule bindE_returns [OF M]) simp
  have W: "bindE (loopResult (unitsToDays ?m ?Y l x n t)) (\<lambda>(c, f). bindE (loopResult (unitsToDays ?m ?I l c f r)) (\<lambda>(c, f). g c f)) \<noteq> Inl NoReturn"
    if "\<And>c f. dateInRange c \<Longrightarrow> g c f \<noteq> Inl NoReturn" for g :: "iso_date \<Rightarrow> int \<Rightarrow> (int \<times> int \<times> int \<times> int) result"
    by (rule bindE_returns2 [OF Y'(1)], rule bindE_returns2, rule I'(1), erule Y'(2), rule that, erule I'(2) [rotated], erule Y'(2))
  have fin: "bindE z (\<lambda>(h, u, T, f). Inr (k h u T f)) \<noteq> Inl NoReturn" if "z \<noteq> Inl NoReturn"
    for z and k :: "int \<Rightarrow> int \<Rightarrow> int \<Rightarrow> int \<Rightarrow> date_duration"
    by (rule bindE_returns [OF that]) (simp split: prod.split)
  have W2: "bindE (loopResult (unitsToDays ?m ?Y l x n t)) (\<lambda>(c, f). bindE (loopResult (unitsToDays ?m ?I l c f r))
      (\<lambda>(c, f). Inr (0 :: int, 0 :: int, o1, f))) \<noteq> Inl NoReturn"
    using W [of "\<lambda>c f. Inr (0 :: int, 0 :: int, o1, f)"] by simp
  have W3: "bindE (loopResult (unitsToDays ?m ?Y l x n t)) (\<lambda>(c, f). bindE (loopResult (unitsToDays ?m ?I l c f r))
      (\<lambda>(c, f). bindE (loopResult (unitsToDays ?m ?S l c f o1)) (\<lambda>(c, f). Inr (0 :: int, 0 :: int, 0 :: int, f)))) \<noteq> Inl NoReturn"
    using W [of "\<lambda>c f. bindE (loopResult (unitsToDays ?m ?S l c f o1)) (\<lambda>(c, f). Inr (0 :: int, 0 :: int, 0 :: int, f))"] S2 by blast
  show ?thesis
    unfolding UnbalanceDurationRelative_def Let_def l_def [symmetric] l0 if_False option.case relativeDate_def
      relative.case bindE_Inr c
    by (rule fin, cases a; simp only: tunit.case M2 W2 W3 prod.case split: if_split; simp)
qed

theorem UnbalanceDurationRelative_returns_witness:
  "UnbalanceDurationRelative 0 3 (5 * 10 ^ 15) 0 0 Day (Some (RelDate (mkDate 2024 2 29) (isoCalendar 0))) \<noteq> Inl NoReturn"
proof (rule UnbalanceDurationRelative_returns)
  show "dateInRange (mkDate 2024 2 29)" by code_simp
  show "RejectDuration 3 (5 * 10 ^ 15) 0 0 0 0 0 0 0 0 = Inr ()"
    unfolding RejectDuration_def rejectMixed_iff by (simp add: DurationSign_def isFinite_def)
qed (simp add: clockOk_def msPerDay_def)

section \<open>Rounding a part of a total\<close>

lemma tdiv_tmod_add:
  assumes r: "0 < r" and s: "0 \<le> k * a"
  shows "tdiv (k * r + a) r = k + tdiv a r" "tmod (k * r + a) r = tmod a r"
proof -
  consider "0 \<le> k \<and> 0 \<le> a" | "k \<le> 0 \<and> a < 0" | "k < 0 \<and> a = 0"
    using s by (cases "0 \<le> k"; cases "0 \<le> a") (auto simp: zero_le_mult_iff)
  then show d: "tdiv (k * r + a) r = k + tdiv a r"
  proof cases
    case 1
    then show ?thesis using r by (simp add: div_mult_self1)
  next
    case 2
    then have n: "k * r + a < 0" using r by (intro add_nonpos_neg) (simp_all add: mult_nonpos_nonneg)
    have "- (k * r + a) = - a + (- k) * r" by simp
    then have "(- (k * r + a)) div r = - k + (- a) div r"
      using r div_mult_self1 [of r "- a" "- k"] by (simp only:)
    then show ?thesis using 2 n r tdiv_neg [of "k * r + a" r] tdiv_neg [of a r] by linarith
  next
    case 3
    have "((- k) * r) div r = - k" using r by (intro nonzero_mult_div_cancel_right) simp
    then have "(- (k * r)) div r = - k" by (simp only: mult_minus_left)
    moreover have "k * r < 0" using 3 r by (simp add: mult_neg_pos)
    ultimately show ?thesis using 3 r tdiv_neg [of "k * r" r] by simp
  qed
  show "tmod (k * r + a) r = tmod a r"
    using tdiv_tmod [of "k * r + a" r] tdiv_tmod [of a r] unfolding d by (simp add: algebra_simps)
qed

lemma RoundNumberToIncrement_shift:
  assumes r: "0 < r" and s: "0 \<le> k * a" and md: "md \<noteq> HalfEven \<or> even k"
  shows "RoundNumberToIncrement (k * r + a) r md = k * r + RoundNumberToIncrement a r md"
proof -
  define n m where "n = tdiv a r" and "m = tmod a r"
  have e: "toNumber (tmod (absBI (k + n)) 2) = 1 \<longleftrightarrow> toNumber (tmod (absBI n) 2) = 1" if "even k"
  proof -
    have "\<bar>k + n\<bar> mod 2 = \<bar>n\<bar> mod 2" using that by presburger
    then show ?thesis by (simp add: absBI_abs)
  qed
  have "RoundNumberToIncrement (k * r + a) r md = (if r = 1 \<or> m = 0 then k * r + a else k * r + RoundNumberToIncrement a r md)"
    unfolding RoundNumberToIncrement_def divmodBI_def Let_def prod.case tdiv_tmod_add [OF r s] n_def [symmetric] m_def [symmetric]
    using e md by (cases md) (simp_all add: distrib_right left_diff_distrib)
  moreover have "r = 1 \<or> m = 0 \<Longrightarrow> RoundNumberToIncrement a r md = a"
    by (auto simp: RoundNumberToIncrement_def divmodBI_def m_def)
  ultimately show ?thesis by auto
qed

lemma tdiv_tdiv:
  assumes "0 < a" "0 < b"
  shows "tdiv (tdiv s a) b = tdiv s (a * b)"
proof (cases "0 \<le> s")
  case True
  then show ?thesis using assms by (simp add: pos_imp_zdiv_nonneg_iff zdiv_zmult2_eq)
next
  case False
  have "tdiv (- ((- s) div a)) b = - ((- s) div a div b)"
    using False assms tdiv_minus [of "(- s) div a" b] by (simp add: pos_imp_zdiv_nonneg_iff)
  then show ?thesis using False assms by (simp add: tdiv_neg zdiv_zmult2_eq)
qed

lemma instant_fields:
  fixes s :: int
  defines "m \<equiv> tmod s 1000" and "c \<equiv> tmod (tdiv s 1000) 1000" and "h \<equiv> tmod (tdiv s 1000000) 1000"
    and "u \<equiv> tdiv s 1000000000"
  shows "((u * 1000 + h) * 1000 + c) * 1000 + m = s" "\<bar>m\<bar> < 1000" "\<bar>c\<bar> < 1000" "\<bar>h\<bar> < 1000"
    "0 \<le> u \<and> 0 \<le> h \<and> 0 \<le> c \<and> 0 \<le> m \<or> u \<le> 0 \<and> h \<le> 0 \<and> c \<le> 0 \<and> m \<le> 0"
proof -
  have q: "tdiv s 1000000 = tdiv (tdiv s 1000) 1000" "u = tdiv (tdiv s 1000000) 1000"
    using tdiv_tdiv [of 1000 1000 s] tdiv_tdiv [of 1000000 1000 s] by (simp_all add: u_def)
  show "((u * 1000 + h) * 1000 + c) * 1000 + m = s"
    using tdiv_tmod [of s 1000] tdiv_tmod [of "tdiv s 1000" 1000] tdiv_tmod [of "tdiv s 1000000" 1000]
    unfolding m_def c_def h_def q(2) by (simp only: q(1))
  show "\<bar>m\<bar> < 1000" "\<bar>c\<bar> < 1000" "\<bar>h\<bar> < 1000"
    using tmod_bounds(1,2) [of 1000] by (simp_all add: m_def c_def h_def abs_less_iff minus_less_iff)
  have pos: "0 < (1000 :: int)" "0 < (1000000000 :: int)" by simp_all
  have p: "0 \<le> a \<Longrightarrow> 0 \<le> tdiv a k \<and> 0 \<le> tmod a k" "a \<le> 0 \<Longrightarrow> tdiv a k \<le> 0 \<and> tmod a k \<le> 0"
    if "0 < k" for a k
    using that tdiv_tmod_sgn(1,2) [of k a] by (auto simp: sgn_if split: if_splits)
  show "0 \<le> u \<and> 0 \<le> h \<and> 0 \<le> c \<and> 0 \<le> m \<or> u \<le> 0 \<and> h \<le> 0 \<and> c \<le> 0 \<and> m \<le> 0"
  proof (cases "0 \<le> s")
    case True
    have "0 \<le> tdiv s 1000" "0 \<le> tdiv s 1000000" using p(1) [of 1000 s] p(1) [of 1000000 s] True by simp_all
    then show ?thesis using p(1) [of 1000 s] p(1) [of 1000 "tdiv s 1000"] p(1) [of 1000 "tdiv s 1000000"]
      p(1) [of 1000000000 s] True pos unfolding m_def c_def h_def u_def by blast
  next
    case False
    then have "s \<le> 0" by simp
    moreover from this have "tdiv s 1000 \<le> 0" "tdiv s 1000000 \<le> 0" using p(2) [of 1000 s] p(2) [of 1000000 s] by simp_all
    ultimately show ?thesis using p(2) [of 1000 s] p(2) [of 1000 "tdiv s 1000"] p(2) [of 1000 "tdiv s 1000000"]
      p(2) [of 1000000000 s] pos unfolding m_def c_def h_def u_def by blast
  qed
qed

section \<open>Rounding time units\<close>

lemma roundTimeUnits_exact:
  assumes l: "0 < l" "0 < c" "l * c \<le> 2 ^ 53" and b: "\<bar>RoundNumberToIncrement C (l * c) u\<bar> \<le> 2 ^ 53 * l"
  shows "fst (roundTimeUnits C l c u) * l = RoundNumberToIncrement C (l * c) u"
proof -
  define R where "R = RoundNumberToIncrement C (l * c) u"
  have "l * c dvd R" using l(1,2) by (simp add: R_def rni.rnd_dvd)
  then have "tmod R l = 0" using l(1) dvd_mult_left by (simp add: tmod_eq_0_iff)
  then have k: "tdiv R l * l = R" using tdiv_tmod [of R l] by simp
  have "\<bar>tdiv R l * l\<bar> = \<bar>tdiv R l\<bar> * l" using l(1) by (simp only: abs_mult abs_of_pos)
  then have "\<bar>tdiv R l\<bar> * l \<le> 2 ^ 53 * l" using b unfolding R_def [symmetric] k by simp
  then have "\<bar>tdiv R l\<bar> \<le> 2 ^ 53" using l(1) by (rule mult_right_le_imp_le)
  then have "toNumber (tdiv R l) = tdiv R l" by (intro toNumber_safe) simp
  moreover have "nmul l c = l * c" using l by (intro nmul_safe) simp
  ultimately show ?thesis by (simp add: roundTimeUnits_def R_def [symmetric] k)
qed


lemma roundSpec_bound:
  assumes "0 < r" "\<bar>t\<bar> \<le> b" shows "\<bar>roundSpec md t r\<bar> \<le> b + r"
  using roundSpec_near [OF assms(1), of md t] assms(2) by simp

lemma round_part:
  assumes r: "0 < r" and s: "P * (q * r) + a = s" and sg: "0 \<le> P * a" and q: "0 \<le> q" and md: "md \<noteq> HalfEven \<or> even q"
  shows "P * (q * r) + RoundNumberToIncrement a r md = roundSpec md s r"
proof -
  have "RoundNumberToIncrement (P * q * r + a) r md = P * q * r + RoundNumberToIncrement a r md"
  proof (rule RoundNumberToIncrement_shift [OF r])
    show "0 \<le> P * q * a" using mult_nonneg_nonneg [OF sg q] by (simp add: ac_simps)
    show "md \<noteq> HalfEven \<or> even (P * q)" using md by auto
  qed
  then show ?thesis using r by (simp add: s [symmetric] RoundNumberToIncrement_roundSpec mult.assoc)
qed

text \<open>The fields of a duration of seconds and smaller units after a rounding: their total is
  the rounded total.\<close>

lemma RoundTimeDuration_total:
  assumes n: "unitNs n = Some l" "maxIncrement n = Some k" "o1 dvd k" "0 < o1"
    and md: "i \<noteq> HalfEven \<or> n \<in> {Hour, Minute, Second} \<or> even (1000 div o1)"
    and s: "s = ((u * 1000 + h) * 1000 + c) * 1000 + m" and b: "\<bar>m\<bar> < 1000" "\<bar>c\<bar> < 1000" "\<bar>h\<bar> < 1000"
    and u: "\<bar>s\<bar> \<le> 2 ^ 52 * 1000000000"
    and sg: "0 \<le> u \<and> 0 \<le> h \<and> 0 \<le> c \<and> 0 \<le> m \<or> u \<le> 0 \<and> h \<le> 0 \<and> c \<le> 0 \<and> m \<le> 0"
    and d: "d = fst (RoundTimeDuration (mkDuration 0 0 0 0 0 0 u h c m) o1 n i)"
  shows "fieldsNs (hours d) (minutes d) (seconds d) (milliseconds d) (microseconds d) (nanoseconds d) = roundSpec i s (l * o1)"
proof -
  have k: "o1 \<le> k" "k \<le> 1000" using n(2-4) by (auto simp: maxIncrement_def zdvd_imp_le split: tunit.splits)
  have l: "0 < l" "l \<le> 3600000000000" using n(1) by (auto simp: unitNs_def split: tunit.splits)
  have lo: "0 < l * o1" "l * o1 \<le> 3600000000000 * 1000"
    using n(4) l k by (simp, intro mult_mono) simp_all
  have ex: "fst (roundTimeUnits C l o1 i) * l = RoundNumberToIncrement C (l * o1) i" if "\<bar>C\<bar> \<le> 2 ^ 52 * l" for C
  proof (rule roundTimeUnits_exact)
    have "\<bar>RoundNumberToIncrement C (l * o1) i\<bar> \<le> 2 ^ 52 * l + l * o1"
      using lo(1) that by (simp only: RoundNumberToIncrement_roundSpec roundSpec_bound)
    also have "l * o1 \<le> l * 1000" using l k by simp
    also have "2 ^ 52 * l + l * 1000 \<le> 2 ^ 53 * l" using l(1) by simp
    finally show "\<bar>RoundNumberToIncrement C (l * o1) i\<bar> \<le> 2 ^ 53 * l" by simp
  qed (use l n lo in simp_all)
  have q: "1000 = 1000 div o1 * o1" "0 \<le> 1000 div o1" if "n \<in> {Millisecond, Microsecond, Nanosecond}"
    using that n(2-4) by (auto simp: maxIncrement_def pos_imp_zdiv_nonneg_iff)
  consider "n \<in> {Hour, Minute, Second}" | "n = Millisecond" | "n = Microsecond" | "n = Nanosecond"
    using n(1) by (cases n) (auto simp: unitNs_def)
  then show ?thesis
  proof cases
    case 1
    have "1000000000 \<le> l" using n(1) 1 by (auto simp: unitNs_def)
    then have "\<bar>s\<bar> \<le> 2 ^ 52 * l" using u by simp
    note e = ex [OF this]
    have "s = fieldsNs 0 0 u h c m" by (simp add: s fieldsNs_def algebra_simps)
    then show ?thesis using 1 n(1) e lo
      by (auto simp: d RoundTimeDuration_def unitNs_def fieldsNs_def RoundNumberToIncrement_roundSpec case_prod_beta)
  next
    case 2
    define C where "C = h * 1000000 + c * 1000 + m"
    have "\<bar>C\<bar> \<le> 2 ^ 52 * l" using b n(1) 2 by (simp add: C_def unitNs_def)
    note e = ex [OF this]
    have pr: "(1000 div o1) * (l * o1) = 1000 * l" using q 2 by (simp add: ac_simps)
    have "u * ((1000 div o1) * (l * o1)) + RoundNumberToIncrement C (l * o1) i = roundSpec i s (l * o1)"
    proof (rule round_part)
      show "u * ((1000 div o1) * (l * o1)) + C = s" unfolding pr using n(1) 2 by (simp add: C_def s unitNs_def)
      show "0 \<le> u * C" using sg by (auto simp: C_def zero_le_mult_iff)
    qed (use lo q 2 md in auto)
    moreover define g where "g = fst (roundTimeUnits C l o1 i)"
    moreover have "fieldsNs 0 0 u g 0 0 = u * (1000 * l) + g * l" using 2 n(1) by (simp add: fieldsNs_def unitNs_def algebra_simps)
    ultimately have "fieldsNs 0 0 u g 0 0 = roundSpec i s (l * o1)" using e pr by simp
    moreover have "d = mkDuration 0 0 0 0 0 0 u g 0 0" using 2 n(1)
      by (simp add: d RoundTimeDuration_def unitNs_def fieldsNs_def case_prod_beta C_def g_def mult.commute)
    ultimately show ?thesis by simp
  next
    case 3
    define C where "C = c * 1000 + m"
    have "\<bar>C\<bar> \<le> 2 ^ 52 * l" using b n(1) 3 by (simp add: C_def unitNs_def)
    note e = ex [OF this]
    have pr: "(1000 div o1) * (l * o1) = 1000 * l" using q 3 by (simp add: ac_simps)
    have "(u * 1000 + h) * ((1000 div o1) * (l * o1)) + RoundNumberToIncrement C (l * o1) i = roundSpec i s (l * o1)"
    proof (rule round_part)
      show "(u * 1000 + h) * ((1000 div o1) * (l * o1)) + C = s" unfolding pr using n(1) 3 by (simp add: C_def s unitNs_def)
      show "0 \<le> (u * 1000 + h) * C" using sg by (auto simp: C_def zero_le_mult_iff)
    qed (use lo q 3 md in auto)
    moreover define g where "g = fst (roundTimeUnits C l o1 i)"
    moreover have "fieldsNs 0 0 u h g 0 = (u * 1000 + h) * (1000 * l) + g * l" using 3 n(1) by (simp add: fieldsNs_def unitNs_def algebra_simps)
    ultimately have "fieldsNs 0 0 u h g 0 = roundSpec i s (l * o1)" using e pr by simp
    moreover have "d = mkDuration 0 0 0 0 0 0 u h g 0" using 3 n(1)
      by (simp add: d RoundTimeDuration_def unitNs_def fieldsNs_def case_prod_beta C_def g_def mult.commute)
    ultimately show ?thesis by simp
  next
    case 4
    then have l1: "l = 1" using n(1) by (simp add: unitNs_def)
    have "\<bar>RoundNumberToIncrement m o1 i - m\<bar> < o1"
      using n(4) roundSpec_near [of o1 i m] by (simp add: RoundNumberToIncrement_roundSpec)
    then have e: "toNumber (RoundNumberToIncrement m o1 i) = RoundNumberToIncrement m o1 i"
      using b k by (intro toNumber_safe) simp
    have "((u * 1000 + h) * 1000 + c) * ((1000 div o1) * o1) + RoundNumberToIncrement m o1 i = roundSpec i s o1"
    proof (rule round_part)
      have "(1000 div o1) * o1 = 1000" using q 4 by simp
      then show "((u * 1000 + h) * 1000 + c) * ((1000 div o1) * o1) + m = s" by (simp add: s)
      show "0 \<le> ((u * 1000 + h) * 1000 + c) * m" using sg by (auto simp: zero_le_mult_iff)
    qed (use n q 4 md in auto)
    moreover have "(1000 div o1) * o1 = 1000" using q 4 by simp
    ultimately show ?thesis using 4 e
      by (simp add: d RoundTimeDuration_def fieldsNs_def l1)
  qed
qed


section \<open>Differences of instants\<close>

text \<open>
  Only the part of the difference below the next larger unit of time is rounded. With \<^verbatim>\<open>halfEven\<close> a tie
  is then decided by the parity of the multiples within that unit, which is that of the
  multiples in the whole difference only if the unit holds an even number of them: 1004 milliseconds
  rounded to 8 milliseconds are 1000, not 1008.
\<close>

lemma DifferenceInstant_halfEven:
  "\<exists>b. DifferenceInstant now 0 1004000000 8 Millisecond Second HalfEven = Inr b \<and> balancedNs b = 1000000000"
  "roundSpec HalfEven 1004000000 (1000000 * 8) = 1008000000"
proof -
  have s: "tdiv 1004000000 1000 = 1004000" "tdiv 1004000000 1000000 = 1004" "tdiv 1004000000 1000000000 = 1"
    "tmod 1004000000 1000 = 0" "tmod 1004000 1000 = 0" "tmod 1004 1000 = 4" by code_simp+
  have n: "toNumber 0 = 0" "toNumber 1 = 1" "toNumber 4 = 4" by (simp_all add: toNumber_safe)
  have r: "fst (roundTimeUnits 4000000 1000000 8 HalfEven) = 0" by code_simp
  obtain b where "BalanceDurationPlain 0 0 0 1 0 0 0 Second = Inr b" "balancedNs b = 1000000000"
    by (rule BalanceDurationPlain_exact [of 1000000000 0 0 0 1 0 0 0 Second]) (simp_all add: fieldsNs_def exactRange_def topTimeNs_def unitNs_def)
  then show "\<exists>b. DifferenceInstant now 0 1004000000 8 Millisecond Second HalfEven = Inr b \<and> balancedNs b = 1000000000"
    using r by (simp add: DifferenceInstant_def s n RoundDuration_def RoundTimeDuration_def case_prod_beta Let_def fieldsNs_def)
  show "roundSpec HalfEven 1004000000 (1000000 * 8) = 1008000000" by simp
qed
text \<open>C24: the difference of two instants, rounded to an increment that divides the next larger
  unit, is the rounded number of nanoseconds between them, balanced up to the
  largest unit: no nanosecond is lost or counted twice although the rounding
  only sees the fields below the unit it rounds to. This holds for every mode but \<^verbatim>\<open>halfEven\<close>, and for
  \<^verbatim>\<open>halfEven\<close> if the smallest unit is a second or larger or an even number of increments makes the
  next larger unit; and it holds as long as the largest field of the result is a safe integer.\<close>

theorem DifferenceInstant_correct:
  assumes t: "inRange t" "inRange r" and n: "unitNs n = Some l" "maxIncrement n = Some k" "o1 dvd k" "0 < o1"
    and md: "i \<noteq> HalfEven \<or> n \<in> {Hour, Minute, Second} \<or> even (1000 div o1)"
    and a: "\<bar>roundSpec i (r - t) (l * o1)\<bar> \<le> exactRange a"
  shows "\<exists>b. DifferenceInstant now t r o1 n a i = Inr b \<and> balancedNs b = roundSpec i (r - t) (l * o1)"
proof -
  define s where "s = r - t"
  define m c h u where "m = tmod s 1000" and "c = tmod (tdiv s 1000) 1000" and "h = tmod (tdiv s 1000000) 1000"
    and "u = tdiv s 1000000000"
  note f = instant_fields [of s, folded m_def c_def h_def u_def]
  have s: "\<bar>s\<bar> \<le> 2 ^ 52 * 1000000000" using t by (auto simp: s_def nsMin_def nsMax_def)
  have "\<bar>u * 1000000000\<bar> \<le> \<bar>s\<bar>" using f(5)
  proof
    assume "0 \<le> u \<and> 0 \<le> h \<and> 0 \<le> c \<and> 0 \<le> m"
    then have "0 \<le> u * 1000000000" "u * 1000000000 \<le> s" using f(1) by simp_all
    then show ?thesis by linarith
  next
    assume "u \<le> 0 \<and> h \<le> 0 \<and> c \<le> 0 \<and> m \<le> 0"
    then have "u * 1000000000 \<le> 0" "s \<le> u * 1000000000" using f(1) by simp_all
    then show ?thesis by linarith
  qed
  then have "\<bar>u\<bar> \<le> 2 ^ 53" using s by simp
  then have e: "toNumber m = m" "toNumber c = c" "toNumber h = h" "toNumber u = u"
    using f(2-4) by (simp_all add: toNumber_safe)
  define d where "d = fst (RoundTimeDuration (mkDuration 0 0 0 0 0 0 u h c m) o1 n i)"
  have d0: "years d = 0" "days d = 0" by (auto simp: d_def RoundTimeDuration_def case_prod_beta split: tunit.splits)
  have sum: "fieldsNs (hours d) (minutes d) (seconds d) (milliseconds d) (microseconds d) (nanoseconds d) = roundSpec i s (l * o1)"
    by (rule RoundTimeDuration_total [OF n md f(1) [symmetric] f(2-4) s f(5) d_def])
  have "n \<notin> {Year, Month, Week, Day}" using n(1) by (auto simp: unitNs_def)
  then have rd: "RoundDuration now (mkDuration 0 0 0 0 0 0 u h c m) o1 n i None
    = Inr (RoundTimeDuration (mkDuration 0 0 0 0 0 0 u h c m) o1 n i)" by (simp add: RoundDuration_def)
  have "\<bar>0 * nsPerDay + fieldsNs (hours d) (minutes d) (seconds d) (milliseconds d) (microseconds d) (nanoseconds d)\<bar> \<le> exactRange a"
    using a by (simp add: sum s_def)
  from BalanceDurationPlain_exact [OF refl this] obtain b where
    "BalanceDurationPlain 0 (hours d) (minutes d) (seconds d) (milliseconds d) (microseconds d) (nanoseconds d) a = Inr b"
    "balancedNs b = roundSpec i s (l * o1)" by (metis sum add_0 mult_zero_left)
  then show ?thesis
    by (simp add: DifferenceInstant_def s_def [symmetric] m_def [symmetric] c_def [symmetric] h_def [symmetric]
        u_def [symmetric] e rd case_prod_beta flip: d_def)
qed

theorem DifferenceInstant_correct_witness:
  "\<exists>b. DifferenceInstant 0 (-1) 1500000000 500 Millisecond Hour HalfEven = Inr b \<and> balancedNs b = 1500000000"
proof -
  have r: "roundSpec HalfEven (1500000000 - - 1) (1000000 * 500) = 1500000000" by simp
  show ?thesis
    using DifferenceInstant_correct [of "-1" 1500000000 Millisecond 1000000 1000 500 HalfEven Hour 0] unfolding r
    by (simp add: unitNs_def maxIncrement_def nsMin_def nsMax_def exactRange_def topTimeNs_def)
qed


section \<open>Sums of durations\<close>

text \<open>C25: a duration is created exactly when its ten fields are finite and none of them has the
  sign opposite to another's; otherwise the constructor throws a \<open>RangeError\<close>.\<close>

theorem CreateDuration_accepts:
  "CreateDuration y mo w d h mi s ms us ns =
     (let l = [y, mo, w, d, h, mi, s, ms, us, ns]
      in if list_all isFinite l \<and> (list_all (\<lambda>c. 0 \<le> c) l \<or> list_all (\<lambda>c. c \<le> 0) l)
         then Inr (mkDuration y mo w d h mi s ms us ns) else Inl RangeError)"
proof -
  define l where "l = [y, mo, w, d, h, mi, s, ms, us, ns]"
  have e: "CreateDuration y mo w d h mi s ms us ns =
    bindE (rejectMixed (signOfList l) l) (\<lambda>_. Inr (mkDuration y mo w d h mi s ms us ns))"
    by (simp only: CreateDuration_def RejectDuration_def DurationSign_def l_def)
  have a: "rejectMixed (signOfList l) l = Inr () \<longleftrightarrow> list_all isFinite l \<and> (list_all (\<lambda>c. 0 \<le> c) l \<or> list_all (\<lambda>c. c \<le> 0) l)"
    unfolding rejectMixed_iff list_all_iff using signOfList_same_sign [of l] by blast
  show ?thesis
  proof (cases "rejectMixed (signOfList l) l")
    case (Inl x)
    then show ?thesis using a rejectMixed_error [OF Inl] unfolding e l_def [symmetric] Let_def by auto
  next
    case (Inr x)
    then show ?thesis using a unfolding e l_def [symmetric] Let_def by simp
  qed
qed

text \<open>The part of a duration that has a fixed length.\<close>

definition fixedNs :: "duration \<Rightarrow> int" where
  "fixedNs d = days d * nsPerDay + fieldsNs (hours d) (minutes d) (seconds d) (milliseconds d) (microseconds d) (nanoseconds d)"

lemma CreateDuration_same:
  assumes "\<forall>f \<in> set [y, mo, w, d, h, mi, s, ms, us, ns]. \<bar>f\<bar> \<le> 2 ^ 53 \<and> (f = 0 \<or> sgn f = sgn t)"
  shows "CreateDuration y mo w d h mi s ms us ns = Inr (mkDuration y mo w d h mi s ms us ns)"
proof -
  let ?l = "[y, mo, w, d, h, mi, s, ms, us, ns]"
  have "\<forall>c \<in> set ?l. c = 0 \<or> sgn c = signOfList ?l"
    unfolding signOfList_same_sign using assms
    by (cases t "0 :: int" rule: linorder_cases) (fastforce simp: sgn_if split: if_splits)+
  moreover have "\<forall>c \<in> set ?l. isFinite c" using assms isFinite_safe by blast
  ultimately have "rejectMixed (signOfList ?l) ?l = Inr ()" unfolding rejectMixed_iff by blast
  then show ?thesis by (simp only: CreateDuration_def RejectDuration_def DurationSign_def bindE_Inr)
qed

text \<open>Without a reference point two durations of days and smaller units are added exactly, in
  either order, and balanced up to the larger of their largest units.\<close>

theorem AddDuration_total:
  assumes u: "largestOf d \<notin> {Year, Month, Week}" "largestOf e \<notin> {Year, Month, Week}"
    and s: "\<bar>days d + days e\<bar> \<le> 2 ^ 53"
    and b: "\<bar>fixedNs d + fixedNs e\<bar> \<le> exactRange (LargerOfTwoTemporalUnits (largestOf d) (largestOf e))"
  shows "\<exists>r. AddDuration now d e None = Inr r \<and> AddDuration now e d None = Inr r
    \<and> years r = 0 \<and> months r = 0 \<and> weeks r = 0 \<and> fixedNs r = fixedNs d + fixedNs e"
proof -
  define U where "U = LargerOfTwoTemporalUnits (largestOf d) (largestOf e)"
  have U: "U \<notin> {Year, Month, Week}" using u by (auto simp: U_def LargerOfTwoTemporalUnits_min min_def)
  have U': "LargerOfTwoTemporalUnits (largestOf e) (largestOf d) = U"
    by (simp add: U_def LargerOfTwoTemporalUnits_min min.commute)
  have n: "nadd (days d) (days e) = days d + days e" "nadd (days e) (days d) = days d + days e"
    using s by (simp_all add: nadd_safe add.commute)
  have t: "fixedNs d + fixedNs e = (days d + days e) * nsPerDay + fieldsNs (hours d + hours e) (minutes d + minutes e)
    (seconds d + seconds e) (milliseconds d + milliseconds e) (microseconds d + microseconds e) (nanoseconds d + nanoseconds e)"
    by (simp add: fixedNs_def fieldsNs_def algebra_simps)
  from BalanceDurationPlain_exact [OF t b [folded U_def]] obtain x where
    x: "BalanceDurationPlain (days d + days e) (hours d + hours e) (minutes d + minutes e) (seconds d + seconds e)
      (milliseconds d + milliseconds e) (microseconds d + microseconds e) (nanoseconds d + nanoseconds e) U = Inr x"
    and tot: "balancedNs x = fixedNs d + fixedNs e"
    and sg: "\<forall>f \<in> {bDays, bHours, bMinutes, bSeconds, bMilliseconds, bMicroseconds, bNanoseconds}.
      \<bar>f x\<bar> \<le> 2 ^ 53 \<and> (f x = 0 \<or> sgn (f x) = sgn (fixedNs d + fixedNs e))"
    by blast
  define r where "r = mkDuration 0 0 0 (bDays x) (bHours x) (bMinutes x) (bSeconds x) (bMilliseconds x) (bMicroseconds x) (bNanoseconds x)"
  have "CreateDuration 0 0 0 (bDays x) (bHours x) (bMinutes x) (bSeconds x) (bMilliseconds x) (bMicroseconds x) (bNanoseconds x) = Inr r"
    unfolding r_def using sg by (intro CreateDuration_same [where t = "fixedNs d + fixedNs e"]) simp
  then have c: "checkDuration r = Inr r" by (simp add: checkDuration_def r_def)
  have "AddDuration now d e None = Inr r"
    unfolding AddDuration_def Let_def option.case n if_not_P [OF U [unfolded U_def]]
    by (simp add: x c flip: U_def r_def)
  moreover have "AddDuration now e d None = Inr r"
    unfolding AddDuration_def Let_def option.case n U' if_not_P [OF U]
    by (simp add: x c add.commute flip: r_def)
  ultimately show ?thesis using tot by (auto simp: r_def fixedNs_def balancedNs_def)
qed

theorem AddDuration_total_witness:
  "\<exists>r. AddDuration 0 (mkDuration 0 0 0 1 23 0 0 0 0 0) (mkDuration 0 0 0 0 2 0 0 0 0 (-1)) None = Inr r
    \<and> AddDuration 0 (mkDuration 0 0 0 0 2 0 0 0 0 (-1)) (mkDuration 0 0 0 1 23 0 0 0 0 0) None = Inr r
    \<and> years r = 0 \<and> months r = 0 \<and> weeks r = 0 \<and> fixedNs r = 176399999999999"
proof -
  let ?d = "mkDuration 0 0 0 1 23 0 0 0 0 0" and ?e = "mkDuration 0 0 0 0 2 0 0 0 0 (-1)"
  have l: "largestOf ?d = Day" "largestOf ?e = Hour" by (simp_all add: largestOf_def DefaultTemporalLargestUnit_def)
  have u: "LargerOfTwoTemporalUnits Day Hour = Day"
    by (simp add: LargerOfTwoTemporalUnits_def unitNames_def)
  have t: "fixedNs ?d + fixedNs ?e = 176399999999999" by (simp add: fixedNs_def fieldsNs_def nsPerDay_def)
  show ?thesis
    using AddDuration_total [of ?d ?e 0] unfolding l u t by (simp add: exactRange_def nsPerDay_def)
qed

end
