(* ===== verification/Int_Math.thy ===== *)
theory Int_Math imports Js_Number "HOL-Library.Word" begin

unbundle bit_operations_syntax

text \<open>
  The integer primitives of \<^verbatim>\<open>base/src/runtime.js\<close>. An OCaml \<^verbatim>\<open>int\<close> is a 32-bit integer in
  JavaScript; the bitwise operators take their operands modulo \<open>2 ^ 32\<close>, so that a chain of
  additions, subtractions and one product below \<open>2 ^ 53\<close> between them is arithmetic on words.
  64-bit integers are values of the OCaml runtime; its primitives are parameters.
\<close>

section \<open>Bit counts of 32-bit integers\<close>

definition Base_int_math_int_popcount :: "32 word \<Rightarrow> int" where
  "Base_int_math_int_popcount v =
     (let v = v - (drop_bit 1 v AND 0x55555555);
          v = (v AND 0x33333333) + (drop_bit 2 v AND 0x33333333)
      in uint (drop_bit 24 (((v + drop_bit 4 v) AND 0xF0F0F0F) * 0x1010101)))"

text \<open>\<^verbatim>\<open>y = x >> k; if (y != 0) { n = n - k; x = y; }\<close>, with the arithmetic shift of a signed integer.\<close>

definition clzStep :: "nat \<Rightarrow> int \<times> int \<Rightarrow> int \<times> int" where
  "clzStep k s = (case s of (n, x) \<Rightarrow> let y = drop_bit k x in if y \<noteq> 0 then (n - int k, y) else (n, x))"

definition Base_int_math_int32_clz :: "32 word \<Rightarrow> int" where
  "Base_int_math_int32_clz w =
     (let (n, x) = clzStep 2 (clzStep 4 (clzStep 8 (clzStep 16 (32, sint w))))
      in if drop_bit 1 x \<noteq> 0 then n - 2 else n - x)"

text \<open>\<^verbatim>\<open>if ((x & m) === 0) { n = n + k; x = x >> k; }\<close>, \<open>m\<close> having the low \<open>k\<close> bits.\<close>

definition ctzStep :: "nat \<Rightarrow> int \<times> int \<Rightarrow> int \<times> int" where
  "ctzStep k s = (case s of (n, x) \<Rightarrow> if x AND mask k = 0 then (n + int k, drop_bit k x) else (n, x))"

definition Base_int_math_int32_ctz :: "32 word \<Rightarrow> int" where
  "Base_int_math_int32_ctz w =
     (if w = 0 then 32
      else let (n, x) = ctzStep 2 (ctzStep 4 (ctzStep 8 (ctzStep 16 (1, sint w)))) in n - (x AND 1))"

section \<open>Powers\<close>

text \<open>\<^verbatim>\<open>x | 0\<close> of an integer Number\<close>

definition toInt32 :: "int \<Rightarrow> int" where
  "toInt32 x = (x + 2 ^ 31) mod 2 ^ 32 - 2 ^ 31"

text \<open>
  The product of two Numbers is rounded before it is wrapped. The entries of \<^verbatim>\<open>mul\<close> are
  arguments (the entry 0 never changes); with a negative exponent the loop does not end.
\<close>

definition imul :: "int \<Rightarrow> int \<Rightarrow> int" where
  "imul a b = toInt32 (nmul a b)"

partial_function (option) powLoop :: "int \<Rightarrow> int \<Rightarrow> int \<Rightarrow> int \<Rightarrow> int \<Rightarrow> int option" where
  "powLoop m1 m2 m3 res e =
     (if e = 0 then Some res
      else
        let m1 = imul m1 m3; m2 = imul m1 m1; m3 = imul m2 m1; d = e AND 3
        in powLoop m1 m2 m3 (imul res (if d = 0 then 1 else if d = 1 then m1 else if d = 2 then m2 else m3)) (drop_bit 2 e))"

definition Base_int_math_int_pow_stub :: "int \<Rightarrow> int \<Rightarrow> int option" where
  "Base_int_math_int_pow_stub base exponent = powLoop base 1 1 1 exponent"


section \<open>64-bit integers\<close>

text \<open>The primitives of the OCaml runtime the code calls, with the names it calls them by.\<close>

record 'i int64_ops =
  caml_int64_shift_right_unsigned :: "'i \<Rightarrow> nat \<Rightarrow> 'i"
  caml_int64_is_zero :: "'i \<Rightarrow> bool"
  caml_int64_to_int32 :: "'i \<Rightarrow> int"
  caml_int64_and :: "'i \<Rightarrow> 'i \<Rightarrow> 'i"
  caml_int64_mul :: "'i \<Rightarrow> 'i \<Rightarrow> 'i"
  caml_int64_create_lo_mi_hi :: "int \<Rightarrow> int \<Rightarrow> int \<Rightarrow> 'i"
  caml_int64_create_lo_hi :: "int \<Rightarrow> int \<Rightarrow> 'i"
  caml_int64_lo32 :: "'i \<Rightarrow> int"

definition clzStep64 :: "'i int64_ops \<Rightarrow> nat \<Rightarrow> int \<times> 'i \<Rightarrow> int \<times> 'i" where
  "clzStep64 P k s = (case s of (n, x) \<Rightarrow>
     let y = caml_int64_shift_right_unsigned P x k in if \<not> caml_int64_is_zero P y then (n - int k, y) else (n, x))"

definition Base_int_math_int64_clz :: "'i int64_ops \<Rightarrow> 'i \<Rightarrow> int" where
  "Base_int_math_int64_clz P x =
     (let (n, x) = clzStep64 P 2 (clzStep64 P 4 (clzStep64 P 8 (clzStep64 P 16 (clzStep64 P 32 (64, x)))))
      in if \<not> caml_int64_is_zero P (caml_int64_shift_right_unsigned P x 1) then n - 2 else n - caml_int64_to_int32 P x)"

definition ctzStep64 :: "'i int64_ops \<Rightarrow> 'i \<Rightarrow> nat \<Rightarrow> int \<times> 'i \<Rightarrow> int \<times> 'i" where
  "ctzStep64 P m k s = (case s of (n, x) \<Rightarrow>
     if caml_int64_is_zero P (caml_int64_and P x m) then (n + int k, caml_int64_shift_right_unsigned P x k) else (n, x))"

definition Base_int_math_int64_ctz :: "'i int64_ops \<Rightarrow> 'i \<Rightarrow> int" where
  "Base_int_math_int64_ctz P x =
     (let small = (\<lambda>m. caml_int64_create_lo_mi_hi P m 0 0)
      in if caml_int64_is_zero P x then 64
         else
           let (n, x) = ctzStep64 P (small 0x000003) 2 (ctzStep64 P (small 0x00000F) 4 (ctzStep64 P (small 0x0000FF) 8
                 (ctzStep64 P (small 0x00FFFF) 16 (ctzStep64 P (caml_int64_create_lo_mi_hi P 0xFFFFFF 0x0000FF 0x0000) 32 (1, x)))))
           in n - caml_int64_to_int32 P (caml_int64_and P x (small 0x000001)))"

partial_function (option) powLoop64 :: "'i int64_ops \<Rightarrow> 'i \<Rightarrow> 'i \<Rightarrow> 'i \<Rightarrow> 'i \<Rightarrow> 'i \<Rightarrow> 'i option" where
  "powLoop64 P m1 m2 m3 res e =
     (if caml_int64_is_zero P e then Some res
      else
        let m1 = caml_int64_mul P m1 m3; m2 = caml_int64_mul P m1 m1; m3 = caml_int64_mul P m2 m1;
            d = caml_int64_lo32 P e AND 3
        in powLoop64 P m1 m2 m3
             (caml_int64_mul P res (if d = 0 then caml_int64_create_lo_hi P 1 0 else if d = 1 then m1 else if d = 2 then m2 else m3))
             (caml_int64_shift_right_unsigned P e 2))"

definition Base_int_math_int64_pow_stub :: "'i int64_ops \<Rightarrow> 'i \<Rightarrow> 'i \<Rightarrow> 'i option" where
  "Base_int_math_int64_pow_stub P base exponent =
     (let one = caml_int64_create_lo_hi P 1 0 in powLoop64 P base one one one exponent)"

section \<open>Hashing\<close>

text \<open>\<open>caml_hash_mix_final\<close> is the runtime's.\<close>

definition Base_internalhash_get_hash_value :: "('h \<Rightarrow> int) \<Rightarrow> 'h \<Rightarrow> int" where
  "Base_internalhash_get_hash_value caml_hash_mix_final seed = (let h = caml_hash_mix_final seed in h AND 0x3FFFFFFF)"

section \<open>What 64-bit primitives promise\<close>

text \<open>
  The contract of the runtime's \<^verbatim>\<open>int64\<close> primitives: \<open>val\<close> reads the 64 bits of a value. A shift is
  specified for less than 64 places. The pieces given to \<^verbatim>\<open>create\<close> are unsigned, of 24, 24 and 16
  bits or twice 32 bits, from the lowest up; wider pieces are not specified.
\<close>

locale int64_primitives =
  fixes P :: "'i int64_ops" and val :: "'i \<Rightarrow> 64 word"
  assumes shift: "k < 64 \<Longrightarrow> val (caml_int64_shift_right_unsigned P x k) = drop_bit k (val x)"
    and zero: "caml_int64_is_zero P x \<longleftrightarrow> val x = 0"
    and int32: "caml_int64_to_int32 P x = sint (ucast (val x) :: 32 word)"
    and land: "val (caml_int64_and P x y) = val x AND val y"
    and mul: "val (caml_int64_mul P x y) = val x * val y"
    and create3: "0 \<le> lo \<Longrightarrow> lo < 2 ^ 24 \<Longrightarrow> 0 \<le> mi \<Longrightarrow> mi < 2 ^ 24 \<Longrightarrow> 0 \<le> hi \<Longrightarrow> hi < 2 ^ 16 \<Longrightarrow>
      val (caml_int64_create_lo_mi_hi P lo mi hi) = word_of_int (lo + mi * 2 ^ 24 + hi * 2 ^ 48)"
    and create2: "0 \<le> lo \<Longrightarrow> lo < 2 ^ 32 \<Longrightarrow> 0 \<le> hi \<Longrightarrow> hi < 2 ^ 32 \<Longrightarrow>
      val (caml_int64_create_lo_hi P lo hi) = word_of_int (lo + hi * 2 ^ 32)"
    and lo32: "caml_int64_lo32 P x = sint (ucast (val x) :: 32 word)"

text \<open>
  Primitives on words that mask their arguments: the number of places to 6 bits, the pieces to
  their widths.
\<close>

definition wordInt64 :: "64 word int64_ops" where
  "wordInt64 = \<lparr>caml_int64_shift_right_unsigned = (\<lambda>x k. drop_bit (k mod 64) x), caml_int64_is_zero = (\<lambda>x. x = 0),
     caml_int64_to_int32 = (\<lambda>x. sint (ucast x :: 32 word)), caml_int64_and = (AND), caml_int64_mul = (*),
     caml_int64_create_lo_mi_hi =
       (\<lambda>lo mi hi. word_of_int (lo mod 2 ^ 24 + mi mod 2 ^ 24 * 2 ^ 24 + hi mod 2 ^ 16 * 2 ^ 48)),
     caml_int64_create_lo_hi = (\<lambda>lo hi. word_of_int (lo mod 2 ^ 32 + hi mod 2 ^ 32 * 2 ^ 32)),
     caml_int64_lo32 = (\<lambda>x. sint (ucast x :: 32 word))\<rparr>"

interpretation wordInt64: int64_primitives wordInt64 "\<lambda>x. x"
  by unfold_locales (simp_all add: wordInt64_def)

end
