(* ===== verification/Int_Math_Props.thy ===== *)
theory Int_Math_Props imports Int_Math begin

text \<open>
  The counts and powers of \<^verbatim>\<open>base/src/runtime.js\<close> against their definitions: the population
  count by nibbles, leading and trailing zeros by halving, powers by the digits of the
  exponent in base 4.
\<close>

section \<open>Words as lists of nibbles\<close>

definition nibbles :: "nat list \<Rightarrow> nat" where
  "nibbles ds = horner_sum id (2 ^ 4) ds"

lemma nibbles_simps [simp]: "nibbles [] = 0" "nibbles (d # ds) = d + 16 * nibbles ds"
  by (simp_all add: nibbles_def)

lemma nibble_parts:
  assumes "d < 16"
  shows "take_bit 4 (d + 16 * r) = d" "drop_bit 4 (d + 16 * r) = (r :: nat)"
  using assms by (simp_all add: take_bit_eq_mod drop_bit_eq_div)

lemma nibble_split: "(x :: nat) = take_bit 4 x + 16 * drop_bit 4 x"
  by (simp add: take_bit_eq_mod drop_bit_eq_div)

lemma nibbles_shift_and:
  assumes "length ds = length ms" "\<forall>d \<in> set ds. d < 16" "\<forall>m \<in> set ms. m < 2 ^ (4 - j)" "j \<le> 4"
  shows "drop_bit j (nibbles ds) AND nibbles ms = nibbles (map2 (\<lambda>d m. drop_bit j d AND m) ds ms)"
  using assms
proof (induction ds ms rule: list_induct2)
  case (Cons d ds m ms)
  let ?Z = "d + 16 * nibbles ds"
  let ?X = "drop_bit j ?Z" and ?Y = "m + 16 * nibbles ms"
  have d: "d < 16" and m: "m < 2 ^ (4 - j)" using Cons.prems by auto
  have "(2 :: nat) ^ (4 - j) \<le> 2 ^ 4" by (rule power_increasing) simp_all
  then have m4: "m < 16" using m by simp
  have mm: "take_bit (4 - j) m = m" using m by (simp add: take_bit_nat_eq_self_iff)
  have "take_bit 4 (?X AND ?Y) = take_bit 4 ?X AND take_bit (4 - j) m"
    unfolding take_bit_and nibble_parts [OF m4] mm ..
  also have "\<dots> = take_bit (4 - j) ?X AND m"
  proof -
    have "take_bit 4 ?X AND take_bit (4 - j) m = take_bit (4 - j) (take_bit 4 ?X AND m)"
      by (simp add: bit_eq_iff bit_simps) auto
    then show ?thesis by (simp add: take_bit_and mm)
  qed
  also have "take_bit (4 - j) ?X = drop_bit j (take_bit 4 ?Z)" using Cons.prems(3) by (simp add: drop_bit_take_bit)
  also have "\<dots> = drop_bit j d" by (simp only: nibble_parts [OF d])
  finally have t: "take_bit 4 (?X AND ?Y) = drop_bit j d AND m" .
  have "drop_bit 4 ?X = drop_bit j (drop_bit 4 ?Z)" by (simp add: drop_bit_drop_bit add.commute)
  then have "drop_bit 4 (?X AND ?Y) = drop_bit j (nibbles ds) AND nibbles ms"
    unfolding drop_bit_and nibble_parts [OF d] nibble_parts [OF m4] by simp
  then show ?case using Cons.IH Cons.prems nibble_split [of "?X AND ?Y"] unfolding t by simp
qed simp

lemma nibbles_sub:
  assumes "length xs = length ds" "\<forall>(x, d) \<in> set (zip xs ds). x \<le> d"
  shows "nibbles xs \<le> nibbles ds \<and> nibbles ds - nibbles xs = nibbles (map2 (-) ds xs)"
  using assms by (induction xs ds rule: list_induct2) auto

lemma nibbles_add: "nibbles (map f ds) + nibbles (map g ds) = nibbles (map (\<lambda>d. f d + g d) ds)"
  by (induction ds) simp_all

lemma word_drop:
  assumes "n < 2 ^ 32" shows "drop_bit k (of_nat n :: 32 word) = of_nat (drop_bit k n)"
proof -
  have "drop_bit k n < 2 ^ 32" using assms by (simp add: drop_bit_eq_div order_le_less_trans [OF div_le_dividend])
  then show ?thesis using assms
    by (intro word_unat_eq_iff [THEN iffD2])
      (simp add: unat_drop_bit_eq unat_of_nat take_bit_nat_eq_self_iff flip: take_bit_eq_mod)
qed

definition nibbleCount :: "nat \<Rightarrow> nat" where
  "nibbleCount c = (let a = c - (drop_bit 1 c AND 5) in (a AND 3) + (drop_bit 2 a AND 3))"

lemma nibble_table:
  "\<forall>c \<in> set [0, 1, 2, 3, 4, 5, 6, 7, 8, 9, 10, 11, 12, 13, 14, 15 :: nat].
     drop_bit 1 c AND 5 \<le> c \<and> nibbleCount c = c mod 2 + c div 2 mod 2 + c div 4 mod 2 + c div 8"
  by (simp add: nibbleCount_def)

lemma nibbleCount_eq:
  assumes "c = of_bool p + 2 * of_bool q + 4 * of_bool r + 8 * of_bool s"
  shows "c < 16" "drop_bit 1 c AND 5 \<le> c" "nibbleCount c = of_bool p + of_bool q + of_bool r + of_bool s" "nibbleCount c \<le> 4"
proof -
  have c: "c \<in> set [0, 1, 2, 3, 4, 5, 6, 7, 8, 9, 10, 11, 12, 13, 14, 15]"
    and d: "c mod 2 + c div 2 mod 2 + c div 4 mod 2 + c div 8 = of_bool p + of_bool q + of_bool r + of_bool s"
    unfolding assms by (cases p; cases q; cases r; cases s; simp)+
  show "c < 16" using c by auto
  show "drop_bit 1 c AND 5 \<le> c" "nibbleCount c = of_bool p + of_bool q + of_bool r + of_bool s"
    using bspec [OF nibble_table c] d by simp_all
  then show "nibbleCount c \<le> 4" by simp
qed

definition nibble :: "32 word \<Rightarrow> nat \<Rightarrow> nat" where
  "nibble v i = of_bool (bit v (4 * i)) + 2 * of_bool (bit v (4 * i + 1)) + 4 * of_bool (bit v (4 * i + 2)) + 8 * of_bool (bit v (4 * i + 3))"

lemma word_nibbles: "v = of_nat (nibbles (map (nibble v) [0..<8]))"
proof -
  have n: "[0..<32] = [0, 1, 2, 3, 4, 5, 6, 7, 8, 9, 10, 11, 12, 13, 14, 15, 16, 17, 18, 19, 20, 21, 22, 23, 24, 25, 26, 27, 28, 29, 30, 31 :: nat]"
    "[0..<8] = [0, 1, 2, 3, 4, 5, 6, 7 :: nat]"
    by (simp_all add: upt_conv_Cons)
  have "nibbles (map (nibble v) [0..<8]) = horner_sum of_bool 2 (map (bit v) [0..<32])"
    by (simp add: n nibble_def numeral_2_eq_2 [symmetric])
  also have "\<dots> = horner_sum of_bool 2 (map (bit (unat v)) [0..<32])"
    by (intro arg_cong [where f = "horner_sum of_bool 2"] map_cong refl) (simp add: bit_unsigned_iff)
  also have "\<dots> = unat v" unfolding horner_sum_bit_eq_take_bit
    using unsigned_less [of v] by (simp add: take_bit_nat_eq_self_iff)
  finally show ?thesis by simp
qed


lemma nibbles_less: "\<forall>d \<in> set ds. d < 16 \<Longrightarrow> nibbles ds < 2 ^ (4 * length ds)"
proof (induction ds)
  case (Cons d ds)
  then have "d < 16" "nibbles ds + 1 \<le> 2 ^ (4 * length ds)" by auto
  from mult_le_mono2 [OF this(2), of 16] this(1) show ?case by (simp add: power_add)
qed simp

text \<open>A shift and a mask act on each nibble.\<close>

lemma word_shift_and:
  assumes "length ds = 8" "\<forall>d \<in> set ds. d < 16" "m < 2 ^ (4 - j)" "j \<le> 4"
  shows "drop_bit j (of_nat (nibbles ds) :: 32 word) AND of_nat (nibbles (replicate 8 m))
    = of_nat (nibbles (map (\<lambda>d. drop_bit j d AND m) ds))"
proof -
  have "nibbles ds < 2 ^ 32" using nibbles_less [OF assms(2)] assms(1) by simp
  then have "drop_bit j (of_nat (nibbles ds) :: 32 word) = of_nat (drop_bit j (nibbles ds))" by (rule word_drop)
  moreover have "drop_bit j (nibbles ds) AND nibbles (replicate 8 m) = nibbles (map2 (\<lambda>d m. drop_bit j d AND m) ds (replicate 8 m))"
    using assms by (intro nibbles_shift_and) auto
  moreover have "map2 (\<lambda>d m. drop_bit j d AND m) ds (replicate 8 m) = map (\<lambda>d. drop_bit j d AND m) ds"
    using assms(1) by (intro nth_equalityI) simp_all
  ultimately show ?thesis by (simp flip: of_nat_and_eq)
qed

lemma popcount_nibbles:
  fixes v :: "32 word"
  defines "e \<equiv> map (\<lambda>i. nibbleCount (nibble v i)) [0..<8]"
  shows "(let v = v - (drop_bit 1 v AND 0x55555555) in (v AND 0x33333333) + (drop_bit 2 v AND 0x33333333)) = of_nat (nibbles e)"
proof -
  define ds where "ds = map (nibble v) [0..<8]"
  define as where "as = map (\<lambda>d. d - (drop_bit 1 d AND 5)) ds"
  have v: "v = of_nat (nibbles ds)" unfolding ds_def by (rule word_nibbles)
  have ds: "length ds = 8" "\<forall>d \<in> set ds. d < 16" "\<forall>d \<in> set ds. drop_bit 1 d AND 5 \<le> d"
    using nibbleCount_eq(1,2) by (auto simp: ds_def nibble_def)
  have as: "length as = 8" "\<forall>d \<in> set as. d < 16" using ds by (auto simp: as_def)
  have r: "replicate 8 x = [x, x, x, x, x, x, x, x]" for x :: nat by (simp add: eval_nat_numeral)
  have "nibbles (replicate 8 5) = 0x55555555" "nibbles (replicate 8 3) = 0x33333333" unfolding r by simp_all
  then have m: "0x55555555 = (of_nat (nibbles (replicate 8 5)) :: 32 word)" "0x33333333 = (of_nat (nibbles (replicate 8 3)) :: 32 word)"
    by (simp_all only: of_nat_numeral)
  have "drop_bit 1 v AND 0x55555555 = of_nat (nibbles (map (\<lambda>d. drop_bit 1 d AND 5) ds))"
    unfolding m v using ds by (intro word_shift_and) simp_all
  moreover have "nibbles (map (\<lambda>d. drop_bit 1 d AND 5) ds) + nibbles as = nibbles ds"
    unfolding as_def nibbles_add using ds(3) by (simp add: map_idI)
  ultimately have v1: "v - (drop_bit 1 v AND 0x55555555) = of_nat (nibbles as)"
    unfolding v by (metis add_diff_cancel_left' of_nat_add)
  have 0: "drop_bit 0 (of_nat (nibbles as) :: 32 word) AND 0x33333333 = of_nat (nibbles (map (\<lambda>d. drop_bit 0 d AND 3) as))"
    unfolding m using as by (intro word_shift_and) simp_all
  have 2: "drop_bit 2 (of_nat (nibbles as) :: 32 word) AND 0x33333333 = of_nat (nibbles (map (\<lambda>d. drop_bit 2 d AND 3) as))"
    unfolding m using as by (intro word_shift_and) simp_all
  have "nibbles (map (\<lambda>d. drop_bit 0 d AND 3) as) + nibbles (map (\<lambda>d. drop_bit 2 d AND 3) as) = nibbles e"
    unfolding nibbles_add by (simp add: as_def ds_def e_def nibbleCount_def Let_def comp_def)
  then show ?thesis using 0 2 unfolding v1 Let_def by (simp flip: of_nat_add)
qed

lemma popcount_sum: "Base_int_math_int_popcount v = int (\<Sum>i<8. nibbleCount (nibble v i))"
proof -
  define e where "e i = nibbleCount (nibble v i)" for i
  have e: "e i \<le> 4" for i unfolding e_def nibble_def by (rule nibbleCount_eq(4)) (rule refl)
  have n: "[0..<8] = [0, 1, 2, 3, 4, 5, 6, 7 :: nat]" by (simp_all add: upt_conv_Cons)
  let ?N = "nibbles [e 0, e 1, e 2, e 3, e 4, e 5, e 6, e 7]" and ?M = "nibbles [e 1, e 2, e 3, e 4, e 5, e 6, e 7]"
  have b: "\<forall>d \<in> set [e 0, e 1, e 2, e 3, e 4, e 5, e 6, e 7]. d < 16" using e order_le_less_trans [OF e, of 16] by simp
  have l: "?N < 2 ^ 32" using nibbles_less [OF b] by simp
  have d: "drop_bit 4 ?N = ?M" using nibble_parts(2) [of "e 0" ?M] b by (simp only: nibbles_simps(2) [of "e 0"] list.set) blast
  define S where "S = [e 0 + e 1, e 1 + e 2, e 2 + e 3, e 3 + e 4, e 4 + e 5, e 5 + e 6, e 6 + e 7, e 7]"
  have sum: "?N + ?M = nibbles S" by (simp add: S_def)
  have S: "\<forall>d \<in> set S. d < 16" using add_mono [OF e e] e by (auto simp: S_def intro!: order_le_less_trans [OF add_mono [OF e e]] order_le_less_trans [OF e])
  have a: "x AND 15 = x" if "x < 16" for x :: nat
    using that take_bit_nat_eq_self_iff [of 4 x] by (simp add: take_bit_eq_mask mask_eq_exp_minus_1)
  have "nibbles S AND 0xF0F0F0F = nibbles [e 0 + e 1, 0, e 2 + e 3, 0, e 4 + e 5, 0, e 6 + e 7, 0]"
    using nibbles_shift_and [of S "[15, 0, 15, 0, 15, 0, 15, 0]" 0] S by (simp add: S_def a)
  moreover have "drop_bit 4 (of_nat ?N :: 32 word) = of_nat ?M" unfolding word_drop [OF l] d ..
  moreover have "(0xF0F0F0F :: 32 word) = of_nat 0xF0F0F0F" by simp
  ultimately have m: "(of_nat ?N + drop_bit 4 (of_nat ?N)) AND 0xF0F0F0F
    = (of_nat (nibbles [e 0 + e 1, 0, e 2 + e 3, 0, e 4 + e 5, 0, e 6 + e 7, 0]) :: 32 word)"
    by (simp only: of_nat_add [symmetric] of_nat_and_eq [symmetric] sum)
  define f where "f k = e (2 * k) + e (2 * k + 1)" for k
  have f: "f k \<le> 8" for k using add_mono [OF e e] by (simp add: f_def)
  define P where "P = (f 0 + 256 * f 1 + 65536 * f 2 + 16777216 * f 3) * 0x1010101"
  define L s K where "L = f 0 + 256 * (f 0 + f 1) + 65536 * (f 0 + f 1 + f 2)" and "s = f 0 + f 1 + f 2 + f 3"
    and "K = f 1 + f 2 + f 3 + 256 * (f 2 + f 3) + 65536 * f 3"
  have P: "P = L + 2 ^ 24 * s + 2 ^ 32 * K" by (simp add: P_def L_def s_def K_def)
  have L: "L < 2 ^ 24" "s \<le> 32" using f [of 0] f [of 1] f [of 2] f [of 3] by (simp_all add: L_def s_def)
  then have "(L + 2 ^ 24 * s) mod 2 ^ 32 = L + 2 ^ 24 * s" "(L + 2 ^ 24 * s) div 2 ^ 24 = s" by simp_all
  then have "P mod 2 ^ 32 div 2 ^ 24 = s" unfolding P mod_mult_self2 by simp
  then have u: "unat (drop_bit 24 (of_nat P :: 32 word)) = s"
    unfolding unat_drop_bit_eq unat_of_nat by (simp add: drop_bit_eq_div)
  have "of_nat (nibbles [e 0 + e 1, 0, e 2 + e 3, 0, e 4 + e 5, 0, e 6 + e 7, 0]) * 0x1010101 = (of_nat P :: 32 word)"
    by (simp add: P_def f_def)
  moreover have "nibbles (map (\<lambda>i. nibbleCount (nibble v i)) [0..<8]) = ?N" by (simp add: n e_def)
  ultimately have "Base_int_math_int_popcount v = int s"
    using popcount_nibbles [of v] unfolding Base_int_math_int_popcount_def Let_def
    by (simp only: m u uint_nat)
  then show ?thesis by (simp add: s_def f_def e_def eval_nat_numeral)
qed

section \<open>Counting bits\<close>

definition bitCount :: "'a::len word \<Rightarrow> int" where
  "bitCount w = int (card {i. i < LENGTH('a) \<and> bit w i})"

lemma bitCount_sum: "bitCount (w :: 'a::len word) = (\<Sum>i<LENGTH('a). of_bool (bit w i))"
proof -
  have "{i. i < LENGTH('a) \<and> bit w i} = {i \<in> {..<LENGTH('a)}. bit w i}" by auto
  then show ?thesis by (simp add: bitCount_def sum.If_cases of_bool_def Int_def conj_commute)
qed

text \<open>The population count is the number of bits that are set.\<close>

theorem popcount_correct: "Base_int_math_int_popcount v = bitCount v"
proof -
  have "nibbleCount (nibble v i) = (\<Sum>j<4. of_bool (bit v (4 * i + j)))" for i
    using nibbleCount_eq(3) [OF nibble_def [of v i]] by (simp add: eval_nat_numeral)
  then have "int (\<Sum>i<8. nibbleCount (nibble v i)) = (\<Sum>i<32. of_bool (bit v i))"
    by (simp add: eval_nat_numeral)
  then show ?thesis by (simp add: popcount_sum bitCount_sum)
qed

section \<open>Leading zeros\<close>

definition leadingZeros :: "'a::len word \<Rightarrow> int" where
  "leadingZeros w = int (card {i. i < LENGTH('a) \<and> drop_bit i w = 0})"

lemma bitlen_shift: "0 < x div 2 ^ k \<Longrightarrow> bitlen (x div 2 ^ k) = bitlen x - int k"
proof (induction k arbitrary: x)
  case (Suc k)
  have e: "x div 2 ^ Suc k = x div 2 div 2 ^ k" by (simp add: zdiv_zmult2_eq)
  then have "0 < x div 2" using Suc.prems by (metis div_by_0 int_div_less_self linorder_not_less not_less_iff_gr_or_eq pos_imp_zdiv_pos_iff zero_less_numeral zero_less_power div_0 zdiv_mono1 order.strict_trans2 pos_imp_zdiv_neg_iff)
  then show ?case using Suc.IH [of "x div 2"] Suc.prems compute_bitlen [of x] unfolding e by simp
qed simp

lemma leadingZeros_bitlen: "leadingZeros (w :: 'a::len word) = int LENGTH('a) - bitlen (uint w)"
proof -
  have "drop_bit i w = 0 \<longleftrightarrow> uint w < 2 ^ i" for i
  proof -
    have "drop_bit i w = 0 \<longleftrightarrow> uint (drop_bit i w) = 0" by (simp only: unsigned_eq_0_iff)
    also have "uint (drop_bit i w) = uint w div 2 ^ i" unfolding unsigned_drop_bit_eq using uint_lt2p [of w] by (simp add: drop_bit_eq_div take_bit_int_eq_self)
    finally show ?thesis by (simp add: zdiv_eq_0_iff) (smt (verit) uint_ge_0 zero_less_power)
  qed
  then have i: "drop_bit i w = 0 \<longleftrightarrow> bitlen (uint w) \<le> int i" for i by (simp add: bitlen_le_iff_power)
  have b: "bitlen (uint w) \<le> int LENGTH('a)" by (simp add: bitlen_le_iff_power uint_lt2p)
  have "{i. i < LENGTH('a) \<and> drop_bit i w = 0} = {nat (bitlen (uint w))..<LENGTH('a)}" unfolding i by auto
  then show ?thesis using b bitlen_nonneg [of "uint w"] by (simp add: leadingZeros_def of_nat_diff nat_le_iff)
qed

lemma clzStep_inv:
  assumes "0 \<le> x" "x < 2 ^ (2 * k)"
  obtains n' x' where "clzStep k (n, x) = (n', x')" "n' - bitlen x' = n - bitlen x" "0 \<le> x'" "x' < 2 ^ k"
proof (cases "x div 2 ^ k = 0")
  case True
  then have "x < 2 ^ k" using assms(1) zero_less_power [of "2 :: int" k] by (auto simp: zdiv_eq_0_iff)
  then show thesis using True assms(1) that [of n x] by (simp add: clzStep_def drop_bit_eq_div)
next
  case False
  then have p: "0 < x div 2 ^ k" using assms(1) pos_imp_zdiv_nonneg_iff [of "2 ^ k" x] by simp
  have "x div 2 ^ k * 2 ^ k \<le> x" by (simp add: minus_mod_eq_div_mult [symmetric])
  also have "x < 2 ^ k * 2 ^ k" using assms(2) by (simp add: mult_2 power_add)
  finally have "x div 2 ^ k * 2 ^ k < 2 ^ k * 2 ^ k" .
  then have "x div 2 ^ k < 2 ^ k" by (rule mult_right_less_imp_less) simp
  then show thesis using p that [of "n - int k" "x div 2 ^ k"] bitlen_shift [OF p]
    by (simp add: clzStep_def drop_bit_eq_div)
qed

lemma clz_last:
  assumes "0 \<le> x" "x < 4"
  shows "(if drop_bit 1 x \<noteq> 0 then n - 2 else n - x) = n - bitlen x"
proof -
  have b: "bitlen 0 = 0" "bitlen 1 = 1" "bitlen 2 = 2" "bitlen 3 = 2"
    by (simp_all add: compute_bitlen [of 3] compute_bitlen [of 2] compute_bitlen [of 1])
  have "x = 0 \<or> x = 1 \<or> x = 2 \<or> x = 3" using assms by auto
  then show ?thesis using b by (auto simp: drop_bit_eq_div)
qed

lemma clz16:
  assumes "0 \<le> x" "x < 2 ^ 32"
  shows "(let (n, x) = clzStep 2 (clzStep 4 (clzStep 8 (clzStep 16 (n, x)))) in if drop_bit 1 x \<noteq> 0 then n - 2 else n - x)
    = n - bitlen x"
proof -
  obtain n1 x1 where 1: "clzStep 16 (n, x) = (n1, x1)" "n1 - bitlen x1 = n - bitlen x" "0 \<le> x1" "x1 < 2 ^ 16"
    using clzStep_inv [of x 16 n] assms by auto
  obtain n2 x2 where 2: "clzStep 8 (n1, x1) = (n2, x2)" "n2 - bitlen x2 = n - bitlen x" "0 \<le> x2" "x2 < 2 ^ 8"
    using clzStep_inv [of x1 8 n1] 1 by auto
  obtain n3 x3 where 3: "clzStep 4 (n2, x2) = (n3, x3)" "n3 - bitlen x3 = n - bitlen x" "0 \<le> x3" "x3 < 2 ^ 4"
    using clzStep_inv [of x2 4 n2] 2 by auto
  obtain n4 x4 where 4: "clzStep 2 (n3, x3) = (n4, x4)" "n4 - bitlen x4 = n - bitlen x" "0 \<le> x4" "x4 < 2 ^ 2"
    using clzStep_inv [of x3 2 n3] 3 by auto
  show ?thesis using clz_last [of x4 n4] 4 by (simp add: 1(1) 2(1) 3(1) 4(1))
qed

lemma sint_cases: "sint (w :: 32 word) = (if sint w < 0 then uint w - 2 ^ 32 else uint w)"
proof -
  have "sint w = uint w - 2 ^ 32 * of_bool (bit (uint w) 31)"
    using signed_take_bit_eq_take_bit_minus [of 31 "uint w"] by (simp add: sint_uint take_bit_int_eq_self uint_lt2p [of w, simplified])
  then show ?thesis using uint_lt2p [of w] by (cases "bit (uint w) 31") simp_all
qed

text \<open>\<^verbatim>\<open>clz\<close> counts the leading zeros of an integer of either sign.\<close>

theorem int32_clz_correct: "Base_int_math_int32_clz w = leadingZeros w"
proof (cases "0 \<le> sint w")
  case True
  then have u: "sint w = uint w" using sint_cases [of w] by simp
  have "uint w < 2 ^ 32" using uint_lt2p [of w] by simp
  then show ?thesis using clz16 [of "uint w" 32] by (simp add: Base_int_math_int32_clz_def u leadingZeros_bitlen)
next
  case False
  have neg: "clzStep k (n, x) = (n - int k, drop_bit k x) \<and> drop_bit k x < 0" if "x < 0" for k n x
  proof -
    have d: "drop_bit k x < 0" using that by simp
    then have "drop_bit k x \<noteq> 0" by linarith
    then show ?thesis using d unfolding clzStep_def Let_def prod.case by (simp only: if_True simp_thms)
  qed
  have "uint w = sint w + 2 ^ 32" using False sint_cases [of w] by simp
  then have "2 ^ 31 \<le> uint w" using sint_ge [of w] by simp
  then have "32 \<le> bitlen (uint w)" by (simp add: bitlen_ge_iff_power)
  then have "leadingZeros w = 0" using bitlen_le_iff_power [of "uint w" 32] uint_lt2p [of w] by (simp add: leadingZeros_bitlen)
  moreover have "Base_int_math_int32_clz w = 0"
    using False neg [of "sint w" 16 32] neg [of "drop_bit 16 (sint w)" 8 16] neg [of "drop_bit 8 (drop_bit 16 (sint w))" 4 8]
      neg [of "drop_bit 4 (drop_bit 8 (drop_bit 16 (sint w)))" 2 4]
      neg [of "drop_bit 2 (drop_bit 4 (drop_bit 8 (drop_bit 16 (sint w))))" 1 2]
    by (simp add: Base_int_math_int32_clz_def del: drop_bit_drop_bit drop_bit_negative_int_iff)
  ultimately show ?thesis by simp
qed


section \<open>Trailing zeros\<close>

definition trailingZeros :: "'a::len word \<Rightarrow> int" where
  "trailingZeros w = int (card {i. i < LENGTH('a) \<and> take_bit (Suc i) w = 0})"

definition exact :: "nat \<Rightarrow> int \<Rightarrow> bool" where
  "exact r x \<longleftrightarrow> 2 ^ r dvd x \<and> \<not> 2 ^ Suc r dvd x"

lemma exact_le: "exact r x \<Longrightarrow> 2 ^ k dvd x \<longleftrightarrow> k \<le> r"
  unfolding exact_def by (meson dvd_trans le_imp_power_dvd not_less_eq_eq)

lemma exact_exists:
  assumes "x \<noteq> 0" obtains r where "exact r x"
proof -
  have "\<not> 2 ^ nat \<bar>x\<bar> dvd x"
  proof
    assume "2 ^ nat \<bar>x\<bar> dvd x"
    then have "\<bar>2 ^ nat \<bar>x\<bar>\<bar> \<le> \<bar>x\<bar>" using assms by (rule dvd_imp_le_int [rotated])
    moreover have "int (nat \<bar>x\<bar>) < 2 ^ nat \<bar>x\<bar>" by (rule of_nat_less_two_power)
    ultimately show False by simp
  qed
  then obtain k where "\<not> 2 ^ k dvd x" "\<forall>i<k. 2 ^ i dvd x" using ex_least_nat_le [of "\<lambda>k. \<not> 2 ^ k dvd x"] by blast
  then show thesis using that [of "k - 1"] by (cases k) (auto simp: exact_def)
qed

lemma ctzStep_inv:
  assumes x: "exact r x" "r < 2 * k"
  obtains n' x' r' where "ctzStep k (n, x) = (n', x')" "n' + int r' = n + int r" "exact r' x'" "r' < k"
proof (cases "k \<le> r")
  case True
  then have d: "2 ^ k dvd x" using exact_le [OF x(1)] by simp
  then obtain y where y: "x = 2 ^ k * y" by (rule dvdE)
  then have "exact (r - k) y" using x(1) True
    by (simp add: exact_def power_add [symmetric] dvd_mult_cancel_left flip: power_Suc)
      (metis (no_types, lifting) Suc_diff_le dvd_mult_cancel_left le_add_diff_inverse le_Suc_eq power_add power_eq_0_iff zero_neq_numeral)
  moreover have "ctzStep k (n, x) = (n + int k, y)"
    using d by (simp add: ctzStep_def take_bit_eq_mask [symmetric] take_bit_eq_0_iff drop_bit_eq_div y)
  ultimately show thesis using that [of "n + int k" y "r - k"] True x(2) by (simp add: of_nat_diff)
next
  case False
  then have "\<not> 2 ^ k dvd x" using exact_le [OF x(1)] by simp
  then have "ctzStep k (n, x) = (n, x)"
    by (simp add: ctzStep_def take_bit_eq_mask [symmetric] take_bit_eq_0_iff)
  then show thesis using that x(1) False by simp
qed

lemma ctz_last: "exact r x \<Longrightarrow> r < 2 \<Longrightarrow> n - (x AND 1) = n - 1 + int r"
  by (cases r) (auto simp: exact_def and_one_eq even_iff_mod_2_eq_zero less_Suc_eq numeral_2_eq_2)

lemma ctz16:
  assumes "exact r x" "r < 32"
  shows "(let (n, x) = ctzStep 2 (ctzStep 4 (ctzStep 8 (ctzStep 16 (n, x)))) in n - (x AND 1)) = n - 1 + int r"
proof -
  obtain n1 x1 r1 where 1: "ctzStep 16 (n, x) = (n1, x1)" "n1 + int r1 = n + int r" "exact r1 x1" "r1 < 16"
    using ctzStep_inv [of r x 16 n] assms by auto
  obtain n2 x2 r2 where 2: "ctzStep 8 (n1, x1) = (n2, x2)" "n2 + int r2 = n + int r" "exact r2 x2" "r2 < 8"
    using ctzStep_inv [of r1 x1 8 n1] 1 by auto
  obtain n3 x3 r3 where 3: "ctzStep 4 (n2, x2) = (n3, x3)" "n3 + int r3 = n + int r" "exact r3 x3" "r3 < 4"
    using ctzStep_inv [of r2 x2 4 n2] 2 by auto
  obtain n4 x4 r4 where 4: "ctzStep 2 (n3, x3) = (n4, x4)" "n4 + int r4 = n + int r" "exact r4 x4" "r4 < 2"
    using ctzStep_inv [of r3 x3 2 n3] 3 by auto
  show ?thesis using ctz_last [OF 4(3,4), of n4] 4(2) by (simp add: 1(1) 2(1) 3(1) 4(1))
qed

lemma trailingZeros_exact:
  assumes "exact r (uint w)" "w \<noteq> 0"
  shows "trailingZeros (w :: 'a::len word) = int r" "r < LENGTH('a)"
proof -
  have "uint w \<noteq> 0" using assms(2) by (simp only: unsigned_eq_0_iff not_False_eq_True)
  then have "0 < uint w" using uint_ge_0 [of w] by linarith
  then have "2 ^ r \<le> uint w" using assms(1) by (intro zdvd_imp_le) (simp_all add: exact_def)
  then have "(2 :: int) ^ r < 2 ^ LENGTH('a)" using uint_lt2p [of w] by (rule order_le_less_trans)
  then show r: "r < LENGTH('a)" by simp
  have "take_bit (Suc i) w = 0 \<longleftrightarrow> 2 ^ Suc i dvd uint w" if "i < LENGTH('a)" for i
  proof -
    have "take_bit (Suc i) w = 0 \<longleftrightarrow> uint (take_bit (Suc i) w) = 0" by (simp only: unsigned_eq_0_iff)
    also have "uint (take_bit (Suc i) w) = take_bit (Suc i) (uint w)"
      using that by (simp add: unsigned_take_bit_eq)
    finally show ?thesis by (simp add: take_bit_eq_0_iff)
  qed
  then have "{i. i < LENGTH('a) \<and> take_bit (Suc i) w = 0} = {..<r}"
    using r exact_le [OF assms(1), of "Suc i" for i] by (auto simp: Suc_le_eq simp del: power_Suc)
  then show "trailingZeros w = int r" by (simp add: trailingZeros_def)
qed

lemma trailingZeros_0: "trailingZeros (0 :: 'a::len word) = int LENGTH('a)"
  by (simp add: trailingZeros_def)

text \<open>\<^verbatim>\<open>ctz\<close> counts the trailing zeros of an integer of either sign.\<close>

theorem int32_ctz_correct: "Base_int_math_int32_ctz w = trailingZeros w"
proof (cases "w = 0")
  case False
  then obtain r where r: "exact r (uint w)" using exact_exists [of "uint w"] by (auto simp: unsigned_eq_0_iff)
  note z = trailingZeros_exact [OF r False]
  have "2 ^ k dvd sint w \<longleftrightarrow> 2 ^ k dvd uint w" if "k \<le> 32" for k
  proof -
    have "(2 :: int) ^ k dvd 2 ^ 32" using that by (rule le_imp_power_dvd)
    then show ?thesis using sint_cases [of w] dvd_diff_right_iff [of "2 ^ k" "2 ^ 32" "uint w"]
      by (metis dvd_diff_left_iff)
  qed
  from this [of r] this [of "Suc r"] have "exact r (sint w)" using r z(2) by (simp add: exact_def)
  then show ?thesis using ctz16 [of r "sint w" 1] z False by (simp add: Base_int_math_int32_ctz_def)
qed (simp add: Base_int_math_int32_ctz_def trailingZeros_0)


section \<open>Powers\<close>

lemma toInt32_id: "\<bar>x\<bar> < 2 ^ 31 \<Longrightarrow> toInt32 x = x"
  by (simp add: toInt32_def abs_less_iff)

lemma imul_exact: "\<bar>a * b\<bar> < 2 ^ 31 \<Longrightarrow> imul a b = a * b"
  by (simp add: imul_def nmul_safe toInt32_id)

lemma imul_0 [simp]: "imul 0 a = 0" "imul a 0 = 0"
  by (simp_all add: imul_exact)

lemma and_3: "e AND 3 = e mod 4" for e :: int
  using take_bit_eq_mask [of 2 e] by (simp add: take_bit_eq_mod mask_eq_exp_minus_1)

lemma powLoop_step:
  assumes "0 < e"
  shows "powLoop m1 m2 m3 res e =
    (let b = imul m1 m3; b2 = imul b b; b3 = imul b2 b
     in powLoop b b2 b3 (imul res (if e mod 4 = 0 then 1 else if e mod 4 = 1 then b else if e mod 4 = 2 then b2 else b3)) (e div 4))"
  using assms by (subst powLoop.simps) (simp add: and_3 drop_bit_eq_div Let_def)

lemma powLoop_0 [simp]: "powLoop m1 m2 m3 res 0 = Some res"
  by (subst powLoop.simps) simp

lemma powLoop_res0: "0 \<le> e \<Longrightarrow> powLoop m1 m2 m3 0 e = Some 0"
proof (induction "nat e" arbitrary: e m1 m2 m3 rule: less_induct)
  case less
  show ?case
  proof (cases "e = 0")
    case False
    then show ?thesis using less by (subst powLoop_step) (simp_all add: Let_def)
  qed simp
qed

lemma powLoop_base0: "0 < e \<Longrightarrow> m1 * m3 = 0 \<Longrightarrow> \<bar>res\<bar> < 2 ^ 31 \<Longrightarrow> powLoop m1 m2 m3 res e = Some 0"
proof (induction "nat e" arbitrary: e m1 m2 m3 rule: less_induct)
  case less
  have b: "imul m1 m3 = 0" using less.prems(2) by auto
  have r: "imul res 1 = res" using less.prems(3) by (simp add: imul_exact)
  show ?case
  proof (cases "e mod 4 = 0")
    case True
    then have "0 < e div 4" using less.prems(1) by presburger
    then show ?thesis using less.hyps [of "e div 4" 0 0 0] less.prems True
      by (subst powLoop_step) (simp_all add: Let_def b r)
  next
    case False
    then show ?thesis using less.prems powLoop_res0 [of "e div 4" 0 0 0]
      by (subst powLoop_step) (simp_all add: Let_def b)
  qed
qed

lemma powLoop_correct:
  assumes "0 \<le> e" "res \<noteq> 0" "m1 * m3 \<noteq> 0" "\<bar>res * (m1 * m3) ^ nat e\<bar> < 2 ^ 31"
  shows "powLoop m1 m2 m3 res e = Some (res * (m1 * m3) ^ nat e)"
  using assms
proof (induction "nat e" arbitrary: e m1 m2 m3 res rule: less_induct)
  case less
  define B where "B = m1 * m3"
  have B: "1 \<le> \<bar>B\<bar>" "1 \<le> \<bar>res\<bar>" using less.prems(2,3) unfolding B_def [symmetric] by linarith+
  show ?case
  proof (cases "e = 0")
    case False
    then have e: "0 < e" using less.prems(1) by simp
    have small: "\<bar>res * B ^ j\<bar> < 2 ^ 31 \<and> \<bar>B ^ j\<bar> < 2 ^ 31" if "j \<le> nat e" for j
    proof -
      have "\<bar>B\<bar> ^ j \<le> \<bar>B\<bar> ^ nat e" using that B(1) by (rule power_increasing)
      then have "\<bar>res\<bar> * \<bar>B\<bar> ^ j \<le> \<bar>res\<bar> * \<bar>B\<bar> ^ nat e" by (rule mult_left_mono) simp
      moreover have "1 * \<bar>B\<bar> ^ j \<le> \<bar>res\<bar> * \<bar>B\<bar> ^ j" using B(2) by (rule mult_right_mono) simp
      ultimately show ?thesis using less.prems(4) by (simp add: B_def [symmetric] abs_mult power_abs)
    qed
    have b: "imul m1 m3 = B" using small [of 1] e by (simp add: B_def imul_exact)
    have b2: "imul B B = B ^ 2" if "2 \<le> e" using small [of 2] that by (simp add: imul_exact power2_eq_square le_nat_iff)
    have b3: "imul (imul B B) B = B ^ 3" if "3 \<le> e"
      using small [of 3] that b2 by (simp add: imul_exact power2_eq_square power3_eq_cube le_nat_iff)
    define r where "r = imul res (if e mod 4 = 0 then 1 else if e mod 4 = 1 then B else if e mod 4 = 2 then imul B B else imul (imul B B) B)"
    have "nat (e mod 4) \<le> nat e" using e by (intro nat_mono zmod_le_nonneg_dividend) simp
    then have r: "r = res * B ^ nat (e mod 4)"
    proof -
      have "e mod 4 = 0 \<or> e mod 4 = 1 \<or> e mod 4 = 2 \<and> 2 \<le> e \<or> e mod 4 = 3 \<and> 3 \<le> e" using e by presburger
      then show ?thesis using small [of "nat (e mod 4)"] \<open>nat (e mod 4) \<le> nat e\<close> b2 b3
        by (elim disjE conjE) (simp_all add: r_def imul_exact)
    qed
    have step: "powLoop m1 m2 m3 res e = powLoop B (imul B B) (imul (imul B B) B) r (e div 4)"
      using e by (subst powLoop_step) (simp_all add: Let_def b r_def)
    have p: "r * (B ^ 4) ^ nat (e div 4) = res * B ^ nat e"
    proof -
      have "int (nat e) = int (nat (e mod 4) + 4 * nat (e div 4))" using e by simp
      then have "nat e = nat (e mod 4) + 4 * nat (e div 4)" by (simp only: of_nat_eq_iff)
      then show ?thesis by (simp add: r power_add power_mult)
    qed
    show ?thesis
    proof (cases "e div 4 = 0")
      case True
      then show ?thesis using p by (simp add: step B_def)
    next
      case e4: False
      then have "4 \<le> e" using e by presburger
      then have q: "B * imul (imul B B) B = B ^ 4" using b3 by (simp add: power4_eq_xxxx power3_eq_cube)
      have "powLoop B (imul B B) (imul (imul B B) B) r (e div 4) = Some (r * (B ^ 4) ^ nat (e div 4))"
      proof -
        have "\<bar>r * (B ^ 4) ^ nat (e div 4)\<bar> < 2 ^ 31" unfolding p using less.prems(4) by (simp only: B_def)
        moreover have "r \<noteq> 0" "B ^ 4 \<noteq> 0" using B by (auto simp: r)
        moreover have "nat (e div 4) < nat e" "0 \<le> e div 4" using e by auto
        ultimately show ?thesis using less.hyps [of "e div 4" r B "imul (imul B B) B" "imul B B"] unfolding q by blast
      qed
      then have "powLoop m1 m2 m3 res e = Some (res * B ^ nat e)" unfolding step p .
      then show ?thesis unfolding B_def .
    qed
  qed simp
qed

text \<open>C30: for an exponent that is not negative the power loop returns the power whenever it fits in a signed
  32-bit integer: the products that wrap or are rounded on the way are not used. Nothing is claimed
  of a power that does not fit: the product is rounded to 53 bits before it is
  wrapped, so that the result need not be the power modulo \<open>2 ^ 32\<close>.\<close>

theorem int_pow_correct:
  assumes "0 \<le> exponent" "\<bar>base ^ nat exponent\<bar> < 2 ^ 31"
  shows "Base_int_math_int_pow_stub base exponent = Some (base ^ nat exponent)"
proof (cases "base = 0 \<or> exponent = 0")
  case True
  then show ?thesis using assms powLoop_base0 [of exponent base 1 1 1]
    by (auto simp: Base_int_math_int_pow_stub_def power_0_left)
next
  case False
  then show ?thesis using assms powLoop_correct [of exponent 1 base 1 1] by (simp add: Base_int_math_int_pow_stub_def)
qed

theorem int_pow_correct_witness: "Base_int_math_int_pow_stub (-7) 11 = Some (-1977326743)"
  using int_pow_correct [of 11 "-7"] by simp

lemma int_pow_not_modular:
  "Base_int_math_int_pow_stub (2 ^ 31 - 1) 2 = Some 0" "(2 ^ 31 - 1) ^ 2 mod 2 ^ 32 = (1 :: int)"
proof -
  show "Base_int_math_int_pow_stub (2 ^ 31 - 1) 2 = Some 0"
    unfolding Base_int_math_int_pow_stub_def by (subst powLoop.simps, subst powLoop.simps) code_simp
  show "(2 ^ 31 - 1) ^ 2 mod 2 ^ 32 = (1 :: int)" by simp
qed

text \<open>A negative exponent never becomes 0 by shifting: the loop runs forever.\<close>

lemma powLoop_returns_nonneg:
  assumes "powLoop m1 m2 m3 res e = Some r" shows "0 \<le> e"
proof (rule powLoop.raw_induct [where P = "\<lambda>m1 m2 m3 res e r. 0 \<le> e", OF _ assms])
  fix f m1 m2 m3 res r and e :: int
  assume ih: "\<And>m1 m2 m3 res (e :: int) r. f m1 m2 m3 res e = Some r \<Longrightarrow> 0 \<le> e"
    and eq: "(if e = 0 then Some res
      else let m1 = imul m1 m3; m2 = imul m1 m1; m3 = imul m2 m1; d = e AND 3
        in f m1 m2 m3 (imul res (if d = 0 then 1 else if d = 1 then m1 else if d = 2 then m2 else m3)) (drop_bit 2 e)) = Some r"
  show "0 \<le> e"
  proof (cases "e = 0")
    case False
    then obtain a b c d where "f a b c d (drop_bit 2 e) = Some r" using eq by (auto simp: Let_def)
    from ih [OF this] show ?thesis by simp
  qed simp
qed

lemma int_pow_negative: "exponent < 0 \<Longrightarrow> Base_int_math_int_pow_stub base exponent = None"
  using powLoop_returns_nonneg [of base 1 1 1 exponent]
  by (cases "Base_int_math_int_pow_stub base exponent") (auto simp: Base_int_math_int_pow_stub_def)


section \<open>64-bit integers\<close>

context int64_primitives begin

lemma uint_drop: "uint (drop_bit k (w :: 64 word)) = drop_bit k (uint w)"
  unfolding unsigned_drop_bit_eq using uint_lt2p [of w] by (simp add: take_bit_int_eq_self)

lemma clzStep64: "clzStep64 P k (n, x) = (n', x') \<Longrightarrow> k < 64 \<Longrightarrow> clzStep k (n, uint (val x)) = (n', uint (val x'))"
proof -
  have "drop_bit k (val x) = 0 \<longleftrightarrow> drop_bit k (uint (val x)) = 0"
    by (simp only: uint_drop [symmetric] unsigned_eq_0_iff)
  then show "clzStep64 P k (n, x) = (n', x') \<Longrightarrow> k < 64 \<Longrightarrow> clzStep k (n, uint (val x)) = (n', uint (val x'))"
    by (auto simp: clzStep64_def clzStep_def Let_def shift zero uint_drop split: if_splits)
qed

lemma int32_small: "uint (val x) < 2 ^ 31 \<Longrightarrow> caml_int64_to_int32 P x = uint (val x)"
proof -
  assume a: "uint (val x) < 2 ^ 31"
  then have u: "uint (ucast (val x) :: 32 word) = uint (val x)" by (simp add: unsigned_ucast_eq take_bit_int_eq_self)
  have "\<not> sint (ucast (val x) :: 32 word) < 0"
    using sint_cases [of "ucast (val x)"] sint_ge [of "ucast (val x) :: 32 word"] a u by auto
  then show ?thesis using sint_cases [of "ucast (val x)"] by (simp add: int32 u)
qed

lemma clz: "Base_int_math_int64_clz P x = leadingZeros (val x)"
proof -
  obtain n0 x0 where s0: "clzStep64 P 32 (64, x) = (n0, x0)" by fastforce
  obtain n1 x1 where s1: "clzStep64 P 16 (n0, x0) = (n1, x1)" by fastforce
  obtain n2 x2 where s2: "clzStep64 P 8 (n1, x1) = (n2, x2)" by fastforce
  obtain n3 x3 where s3: "clzStep64 P 4 (n2, x2) = (n3, x3)" by fastforce
  obtain n4 x4 where s4: "clzStep64 P 2 (n3, x3) = (n4, x4)" by fastforce
  note c = clzStep64 [OF s0, simplified] clzStep64 [OF s1, simplified] clzStep64 [OF s2, simplified]
    clzStep64 [OF s3, simplified] clzStep64 [OF s4, simplified]
  have "uint (val x) < 2 ^ (2 * 32)" using uint_lt2p [of "val x"] by simp
  then obtain m y where y: "clzStep 32 (64, uint (val x)) = (m, y)" "m - bitlen y = 64 - bitlen (uint (val x))" "0 \<le> y" "y < 2 ^ 32"
    using clzStep_inv [of "uint (val x)" 32 64] by auto
  have r: "m = n0" "y = uint (val x0)" using y(1) c(1) by simp_all
  have f: "(if drop_bit 1 (uint (val x4)) \<noteq> 0 then n4 - 2 else n4 - uint (val x4)) = 64 - bitlen (uint (val x))"
    using clz16 [OF y(3,4), of n0] y(2) by (simp add: r c(2-5))
  have z: "caml_int64_is_zero P (caml_int64_shift_right_unsigned P x4 1) \<longleftrightarrow> drop_bit 1 (uint (val x4)) = 0"
    by (simp add: zero shift uint_drop [symmetric] unsigned_eq_0_iff)
  have "drop_bit 1 (uint (val x4)) = 0 \<Longrightarrow> uint (val x4) < 2 ^ 31" by (simp add: drop_bit_eq_div)
  then have "drop_bit 1 (uint (val x4)) = 0 \<Longrightarrow> caml_int64_to_int32 P x4 = uint (val x4)" using int32_small by blast
  then have "Base_int_math_int64_clz P x = (if drop_bit 1 (uint (val x4)) \<noteq> 0 then n4 - 2 else n4 - uint (val x4))"
    unfolding Base_int_math_int64_clz_def s0 s1 s2 s3 s4 Let_def prod.case z by auto
  then show ?thesis unfolding f leadingZeros_bitlen by simp
qed

lemma ctzStep64:
  assumes "ctzStep64 P m k (n, x) = (n', x')" "val m = mask k" "k < 64"
  shows "ctzStep k (n, uint (val x)) = (n', uint (val x'))"
proof -
  have "uint (take_bit k (val x)) = take_bit k (uint (val x))" using assms(3) by (simp add: unsigned_take_bit_eq)
  then have "val x AND mask k = 0 \<longleftrightarrow> uint (val x) AND mask k = 0"
    by (metis take_bit_eq_mask unsigned_eq_0_iff)
  then show ?thesis using assms
    by (auto simp: ctzStep64_def ctzStep_def Let_def shift zero land uint_drop split: if_splits)
qed

lemma ctz: "Base_int_math_int64_ctz P x = trailingZeros (val x)"
proof (cases "val x = 0")
  case False
  let ?small = "\<lambda>m. caml_int64_create_lo_mi_hi P m 0 0"
  let ?M = "caml_int64_create_lo_mi_hi P 0xFFFFFF 0x0000FF 0x0000"
  have m: "val ?M = mask 32" "val (?small 0x00FFFF) = mask 16" "val (?small 0x0000FF) = mask 8"
    "val (?small 0x00000F) = mask 4" "val (?small 0x000003) = mask 2" "val (?small 0x000001) = 1"
    by (simp_all add: create3 mask_eq_exp_minus_1)
  obtain n0 x0 where s0: "ctzStep64 P ?M 32 (1, x) = (n0, x0)" by fastforce
  obtain n1 x1 where s1: "ctzStep64 P (?small 0x00FFFF) 16 (n0, x0) = (n1, x1)" by fastforce
  obtain n2 x2 where s2: "ctzStep64 P (?small 0x0000FF) 8 (n1, x1) = (n2, x2)" by fastforce
  obtain n3 x3 where s3: "ctzStep64 P (?small 0x00000F) 4 (n2, x2) = (n3, x3)" by fastforce
  obtain n4 x4 where s4: "ctzStep64 P (?small 0x000003) 2 (n3, x3) = (n4, x4)" by fastforce
  have c: "ctzStep 32 (1, uint (val x)) = (n0, uint (val x0))" "ctzStep 16 (n0, uint (val x0)) = (n1, uint (val x1))"
    "ctzStep 8 (n1, uint (val x1)) = (n2, uint (val x2))" "ctzStep 4 (n2, uint (val x2)) = (n3, uint (val x3))"
    "ctzStep 2 (n3, uint (val x3)) = (n4, uint (val x4))"
    by (rule ctzStep64 [OF s0] ctzStep64 [OF s1] ctzStep64 [OF s2] ctzStep64 [OF s3] ctzStep64 [OF s4]; simp add: m)+
  obtain r where r: "exact r (uint (val x))" using exact_exists [of "uint (val x)"] False by (auto simp: unsigned_eq_0_iff)
  note z = trailingZeros_exact [OF r False]
  obtain r0 where r0: "n0 + int r0 = 1 + int r" "exact r0 (uint (val x0))" "r0 < 32"
    using ctzStep_inv [OF r, of 32 1] z(2) c(1) by auto
  have f: "n4 - (uint (val x4) AND 1) = int r" using ctz16 [OF r0(2,3), of n0] r0(1) by (simp add: c(2-5))
  have "uint (val (caml_int64_and P x4 (?small 0x000001))) = uint (val x4) AND 1"
    by (simp only: land m(6) unsigned_and_eq) simp
  moreover have "uint (val x4) AND 1 < 2 ^ 31" by (simp add: and_one_eq)
  ultimately have "caml_int64_to_int32 P (caml_int64_and P x4 (?small 0x000001)) = uint (val x4) AND 1"
    using int32_small by metis
  then show ?thesis using f z False
    unfolding Base_int_math_int64_ctz_def Let_def s0 s1 s2 s3 s4 prod.case zero by simp
qed (simp add: Base_int_math_int64_ctz_def zero trailingZeros_0)

lemma powLoop64:
  "\<exists>y. powLoop64 P m1 m2 m3 res e = Some y \<and> val y = val res * (val m1 * val m3) ^ unat (val e)"
proof (induction "unat (val e)" arbitrary: e m1 m2 m3 res rule: less_induct)
  case less
  show ?case
  proof (cases "val e = 0")
    case True
    then show ?thesis by (subst powLoop64.simps) (simp add: zero)
  next
    case False
    let ?b = "caml_int64_mul P m1 m3"
    let ?b2 = "caml_int64_mul P ?b ?b"
    let ?b3 = "caml_int64_mul P ?b2 ?b"
    let ?e = "caml_int64_shift_right_unsigned P e 2"
    define d where "d = caml_int64_lo32 P e AND 3"
    define t where "t = (if d = 0 then caml_int64_create_lo_hi P 1 0 else if d = 1 then ?b else if d = 2 then ?b2 else ?b3)"
    have d: "d = int (unat (val e) mod 4)"
    proof -
      define w where "w = (ucast (val e) :: 32 word)"
      have "sint w mod 4 = uint w mod 4" using sint_cases [of w] by (simp add: mod_diff_eq [symmetric] split: if_splits)
      also have "uint w = uint (val e) mod 2 ^ 32" by (simp add: w_def unsigned_ucast_eq take_bit_eq_mod)
      also have "uint (val e) mod 2 ^ 32 mod 4 = uint (val e) mod 4" by (rule mod_mod_cancel) simp
      finally have "sint w mod 4 = int (unat (val e)) mod 4" by (simp only: uint_nat)
      then show ?thesis unfolding d_def lo32 and_3 w_def [symmetric] by (simp only: zmod_int of_nat_numeral)
    qed
    have e4: "unat (val ?e) = unat (val e) div 4"
      by (simp add: shift drop_bit_eq_div unat_div_distrib)
    have t: "val t = (val m1 * val m3) ^ (unat (val e) mod 4)"
    proof -
      have "unat (val e) mod 4 \<in> {0, 1, 2, 3}" by auto
      then show ?thesis by (auto simp: t_def d mul create2 power2_eq_square power3_eq_cube)
    qed
    have "0 < unat (val e)" using False by (metis neq0_conv unsigned_eq_0_iff)
    then have "unat (val ?e) < unat (val e)" unfolding e4 by simp
    from less(1) [OF this] obtain y where y: "powLoop64 P ?b ?b2 ?b3 (caml_int64_mul P res t) ?e = Some y"
      "val y = val (caml_int64_mul P res t) * (val ?b * val ?b3) ^ unat (val ?e)" by blast
    have "powLoop64 P m1 m2 m3 res e = Some y"
      using y(1) False by (subst powLoop64.simps) (simp add: zero Let_def t_def flip: d_def)
    moreover have "val y = val res * (val m1 * val m3) ^ unat (val e)"
    proof -
      have "val ?b * val ?b3 = (val m1 * val m3) ^ 4" by (simp add: mul power4_eq_xxxx ac_simps)
      moreover have "x ^ (n mod 4) * (x ^ 4) ^ (n div 4) = x ^ n" for x :: "64 word" and n :: nat
        unfolding power_mult [symmetric] power_add [symmetric] mod_mult_div_eq ..
      ultimately show ?thesis unfolding y(2) mul [of res] t e4 by (simp only: mult.assoc)
    qed
    ultimately show ?thesis by blast
  qed
qed

lemma pow: "\<exists>y. Base_int_math_int64_pow_stub P base exponent = Some y \<and> val y = val base ^ unat (val exponent)"
  using powLoop64 [of base "caml_int64_create_lo_hi P 1 0" "caml_int64_create_lo_hi P 1 0" "caml_int64_create_lo_hi P 1 0" exponent]
  by (simp add: Base_int_math_int64_pow_stub_def Let_def create2)

end


lemma int64_pow_correct:
  assumes "int64_primitives P val"
  shows "\<exists>y. Base_int_math_int64_pow_stub P base exponent = Some y \<and> val y = val base ^ unat (val exponent)"
  by (rule int64_primitives.pow [OF assms])

text \<open>C31: on 64 bits the counts are the numbers of leading and trailing zeros, and the loop of the power always
  ends and returns the power modulo \<open>2 ^ 64\<close> for the exponent read without sign, for every
  implementation of the primitives that keeps their contract.\<close>

theorem int64_counts_correct:
  assumes "int64_primitives P val"
  shows "Base_int_math_int64_clz P x = leadingZeros (val x) \<and> Base_int_math_int64_ctz P x = trailingZeros (val x)
    \<and> (\<exists>y. Base_int_math_int64_pow_stub P base exponent = Some y \<and> val y = val base ^ unat (val exponent))"
  using int64_primitives.clz [OF assms] int64_primitives.ctz [OF assms] int64_pow_correct [OF assms] by simp

theorem int64_counts_correct_witness:
  "Base_int_math_int64_clz wordInt64 40 = leadingZeros (40 :: 64 word) \<and> Base_int_math_int64_ctz wordInt64 40 = trailingZeros (40 :: 64 word)
   \<and> (\<exists>y. Base_int_math_int64_pow_stub wordInt64 3 41 = Some y \<and> y = 3 ^ unat (41 :: 64 word))"
  by (rule int64_counts_correct [where val = "\<lambda>x. x"]) (rule wordInt64.int64_primitives_axioms)

end
