(* ===== verification/Bigstring.thy ===== *)
theory Bigstring imports Prelude "HOL-Library.Sublist" begin

text \<open>
  The stubs on bigstrings: \<^verbatim>\<open>base_bigstring/src/runtime.js\<close>, the end of
  \<^verbatim>\<open>core/core/src/runtime.js\<close> and \<^verbatim>\<open>bin_prot/src/runtime.js\<close>. Reading and writing one byte are
  primitives of the OCaml runtime, so the loops take them as arguments; a bigstring the
  code itself makes or takes apart is a record of its fields. What a loop has written
  before an access fails stays written: such a function returns the new contents and the
  outcome.
\<close>

section \<open>Loops over bytes\<close>

fun memsetFrom :: "('b \<Rightarrow> int \<Rightarrow> int \<Rightarrow> 'b result) \<Rightarrow> 'b \<Rightarrow> int \<Rightarrow> int \<Rightarrow> nat \<Rightarrow> 'b \<times> unit result" where
  "memsetFrom caml_ba_set_1 bigstring p v_char 0 = (bigstring, Inr ())"
| "memsetFrom caml_ba_set_1 bigstring p v_char (Suc n) =
     (case caml_ba_set_1 bigstring p v_char of
        Inl e \<Rightarrow> (bigstring, Inl e)
      | Inr b \<Rightarrow> memsetFrom caml_ba_set_1 b (p + 1) v_char n)"

definition bigstring_memset_stub ::
  "('b \<Rightarrow> int \<Rightarrow> int \<Rightarrow> 'b result) \<Rightarrow> 'b \<Rightarrow> int \<Rightarrow> int \<Rightarrow> int \<Rightarrow> 'b \<times> unit result" where
  "bigstring_memset_stub caml_ba_set_1 bigstring v_pos v_len v_char =
     memsetFrom caml_ba_set_1 bigstring v_pos v_char (nat v_len)"

fun memcmpFrom :: "(int \<Rightarrow> int result) \<Rightarrow> (int \<Rightarrow> int result) \<Rightarrow> int \<Rightarrow> int \<Rightarrow> nat \<Rightarrow> int result" where
  "memcmpFrom get1 get2 p1 p2 0 = Inr 0"
| "memcmpFrom get1 get2 p1 p2 (Suc n) =
     bindE (get1 p1) (\<lambda>a. bindE (get2 p2) (\<lambda>b.
       if a < b then Inr (-1) else if a > b then Inr 1 else memcmpFrom get1 get2 (p1 + 1) (p2 + 1) n))"

definition bigstring_memcmp_stub ::
  "('b \<Rightarrow> int \<Rightarrow> int result) \<Rightarrow> 'b \<Rightarrow> int \<Rightarrow> 'b \<Rightarrow> int \<Rightarrow> int \<Rightarrow> int result" where
  "bigstring_memcmp_stub caml_ba_get_1 v_s1 v_s1_pos v_s2 v_s2_pos v_len =
     memcmpFrom (caml_ba_get_1 v_s1) (caml_ba_get_1 v_s2) v_s1_pos v_s2_pos (nat v_len)"

definition bigstring_memcmp_bytes_stub ::
  "('b \<Rightarrow> int \<Rightarrow> int result) \<Rightarrow> ('c \<Rightarrow> int \<Rightarrow> int result) \<Rightarrow> 'b \<Rightarrow> int \<Rightarrow> 'c \<Rightarrow> int \<Rightarrow> int \<Rightarrow> int result" where
  "bigstring_memcmp_bytes_stub caml_ba_get_1 caml_bytes_get v_s1 v_s1_pos v_s2 v_s2_pos v_len =
     memcmpFrom (caml_ba_get_1 v_s1) (caml_bytes_get v_s2) v_s1_pos v_s2_pos (nat v_len)"

fun findFrom :: "(int \<Rightarrow> int result) \<Rightarrow> int \<Rightarrow> int \<Rightarrow> nat \<Rightarrow> int result" where
  "findFrom get chr pos 0 = Inr (-1)"
| "findFrom get chr pos (Suc n) =
     bindE (get pos) (\<lambda>c. if c = chr then Inr pos else findFrom get chr (pos + 1) n)"

definition bigstring_find :: "('b \<Rightarrow> int \<Rightarrow> int result) \<Rightarrow> 'b \<Rightarrow> int \<Rightarrow> int \<Rightarrow> int \<Rightarrow> int result" where
  "bigstring_find caml_ba_get_1 bs chr pos len = findFrom (caml_ba_get_1 bs) chr pos (nat len)"

text \<open>The two loops of the search: the inner one compares, the outer one moves on.\<close>

fun matchesAt :: "(int \<Rightarrow> int result) \<Rightarrow> (int \<Rightarrow> int result) \<Rightarrow> int \<Rightarrow> int \<Rightarrow> nat \<Rightarrow> bool result" where
  "matchesAt hay needle p q 0 = Inr True"
| "matchesAt hay needle p q (Suc n) =
     bindE (hay p) (\<lambda>a. bindE (needle q) (\<lambda>b.
       if a \<noteq> b then Inr False else matchesAt hay needle (p + 1) (q + 1) n))"

fun memmemFrom :: "(int \<Rightarrow> int result) \<Rightarrow> (int \<Rightarrow> int result) \<Rightarrow> int \<Rightarrow> int \<Rightarrow> nat \<Rightarrow> nat \<Rightarrow> int result" where
  "memmemFrom hay needle p q len 0 = Inr (-1)"
| "memmemFrom hay needle p q len (Suc n) =
     bindE (matchesAt hay needle p q len) (\<lambda>m. if m then Inr p else memmemFrom hay needle (p + 1) q len n)"

definition bigstring_memmem_bytecode ::
  "('b \<Rightarrow> int \<Rightarrow> int result) \<Rightarrow> 'b \<Rightarrow> 'b \<Rightarrow> int \<Rightarrow> int \<Rightarrow> int \<Rightarrow> int \<Rightarrow> int result" where
  "bigstring_memmem_bytecode caml_ba_get_1 haystack needle haystack_pos haystack_len needle_pos needle_len =
     (let lim = haystack_len - needle_len
      in memmemFrom (caml_ba_get_1 haystack) (caml_ba_get_1 needle) haystack_pos needle_pos (nat needle_len) (nat (lim + 1)))"

section \<open>Bigstrings as objects\<close>

record bigstring =
  bsKind :: int
  bsLayout :: int
  bsDims :: "int list"
  bsData :: "int list"
  bsDeallocated :: bool

definition bigstring_destroy_stub :: "bigstring \<Rightarrow> bigstring result" where
  "bigstring_destroy_stub v_bstr =
     (if bsDeallocated v_bstr then Inl InvalidArgument
      else Inr (v_bstr\<lparr>bsDeallocated := True, bsData := [], bsDims := [0]\<rparr>))"

text \<open>The old object is changed; the result is the old and the new one. A typed array starts with zeros,
  a negative length is a \<open>RangeError\<close>.\<close>

definition bigstring_realloc :: "bigstring \<Rightarrow> int \<Rightarrow> (bigstring \<times> bigstring) result" where
  "bigstring_realloc bigstring sz =
     (if bsDeallocated bigstring then Inl InvalidArgument
      else if sz < 0 then Inl RangeError
      else
        let slice = take (nat sz) (bsData bigstring);
            new_data = slice @ replicate (nat sz - length slice) 0;
            new_bigstring = \<lparr>bsKind = bsKind bigstring, bsLayout = bsLayout bigstring, bsDims = [sz],
              bsData = new_data, bsDeallocated = False\<rparr>
        in bindE (bigstring_destroy_stub bigstring) (\<lambda>old. Inr (old, new_bigstring)))"

section \<open>Arrays of floats in a buffer\<close>

definition caml_check_bound_bigstring :: "bigstring \<Rightarrow> int \<Rightarrow> unit result" where
  "caml_check_bound_bigstring bigstring i = throwIf (i mod 2 ^ 32 \<ge> int (length (bsData bigstring))) InvalidArgument"

text \<open>
  An OCaml array is a list whose first entry is its tag. The eight bytes of a \<^verbatim>\<open>Float64Array\<close>
  entry are read and written by \<open>dec\<close> and \<open>enc\<close>; \<open>caml_check_bound\<close> is the runtime's.
\<close>

fun floatsOf :: "(int list \<Rightarrow> 'f) \<Rightarrow> nat \<Rightarrow> int list \<Rightarrow> 'f list" where
  "floatsOf dec 0 bs = []"
| "floatsOf dec (Suc n) bs = dec (take 8 bs) # floatsOf dec n (drop 8 bs)"

definition bin_prot_blit_buf_float_array_stub ::
  "(int list \<Rightarrow> 'f) \<Rightarrow> ('f list \<Rightarrow> int \<Rightarrow> unit result) \<Rightarrow> int \<Rightarrow> bigstring \<Rightarrow> int \<Rightarrow> 'f list \<Rightarrow> int \<Rightarrow> 'f list result" where
  "bin_prot_blit_buf_float_array_stub dec caml_check_bound src_pos src dst_pos dst len =
     (if len = 0 then Inr dst
      else
        bindE (caml_check_bound dst dst_pos) (\<lambda>_.
        bindE (caml_check_bound dst (dst_pos + len - 1)) (\<lambda>_.
        bindE (caml_check_bound_bigstring src src_pos) (\<lambda>_.
        bindE (caml_check_bound_bigstring src (src_pos + len * 8 - 1)) (\<lambda>_.
        if len < 0 then Inl RangeError
        else
          let buffer = take (nat (len * 8)) (drop (nat src_pos) (bsData src));
              view = floatsOf dec (nat len) buffer
          in Inr (take (nat dst_pos + 1) dst @ view @ drop (nat dst_pos + 1 + nat len) dst))))))"

definition bin_prot_blit_float_array_buf_stub ::
  "('f \<Rightarrow> int list) \<Rightarrow> ('f list \<Rightarrow> int \<Rightarrow> unit result) \<Rightarrow> int \<Rightarrow> 'f list \<Rightarrow> int \<Rightarrow> bigstring \<Rightarrow> int \<Rightarrow> bigstring result" where
  "bin_prot_blit_float_array_buf_stub enc caml_check_bound src_pos src dst_pos dst len =
     (if len = 0 then Inr dst
      else
        bindE (caml_check_bound src src_pos) (\<lambda>_.
        bindE (caml_check_bound src (src_pos + len - 1)) (\<lambda>_.
        bindE (caml_check_bound_bigstring dst dst_pos) (\<lambda>_.
        bindE (caml_check_bound_bigstring dst (dst_pos + len * 8 - 1)) (\<lambda>_.
        let src_pos = src_pos + 1;
            float64_uint8 = concat (map enc (take (nat len) (drop (nat src_pos) src)));
            d = bsData dst
        in Inr (dst\<lparr>bsData := take (nat dst_pos) d @ float64_uint8 @ drop (nat dst_pos + length float64_uint8) d\<rparr>))))))"


section \<open>What the accessors promise\<close>

text \<open>
  The contract of the byte accessors: a bigstring holds a list of bytes; reading and writing
  outside it raise \<^verbatim>\<open>Invalid_argument\<close>.
\<close>

locale byte_reads =
  fixes get :: "'b \<Rightarrow> int \<Rightarrow> int result" and cont :: "'b \<Rightarrow> int list"
  assumes get: "get b i = (if 0 \<le> i \<and> i < int (length (cont b)) then Inr (cont b ! nat i) else Inl InvalidArgument)"

locale byte_access = byte_reads get cont
  for get :: "'b \<Rightarrow> int \<Rightarrow> int result" and cont :: "'b \<Rightarrow> int list" +
  fixes set_byte :: "'b \<Rightarrow> int \<Rightarrow> int \<Rightarrow> 'b result"
  assumes set_in: "0 \<le> i \<Longrightarrow> i < int (length (cont b)) \<Longrightarrow> \<exists>b'. set_byte b i c = Inr b' \<and> cont b' = (cont b)[nat i := c]"
    and set_out: "\<not> (0 \<le> i \<and> i < int (length (cont b))) \<Longrightarrow> set_byte b i c = Inl InvalidArgument"

text \<open>The accessors of the objects above.\<close>

definition bsGet :: "bigstring \<Rightarrow> int \<Rightarrow> int result" where
  "bsGet b i = (if 0 \<le> i \<and> i < int (length (bsData b)) then Inr (bsData b ! nat i) else Inl InvalidArgument)"

definition bsSet :: "bigstring \<Rightarrow> int \<Rightarrow> int \<Rightarrow> bigstring result" where
  "bsSet b i c =
     (if 0 \<le> i \<and> i < int (length (bsData b)) then Inr (b\<lparr>bsData := (bsData b)[nat i := c]\<rparr>) else Inl InvalidArgument)"

interpretation bs: byte_access bsGet bsData bsSet
  by unfold_locales (simp_all add: bsGet_def bsSet_def)

section \<open>What the loops compute\<close>

text \<open>The bytes from \<open>p\<close> on, \<open>n\<close> of them.\<close>

abbreviation slice :: "nat \<Rightarrow> nat \<Rightarrow> 'a list \<Rightarrow> 'a list" where
  "slice p n xs \<equiv> take n (drop p xs)"

lemma slice_Suc: "p < length xs \<Longrightarrow> slice p (Suc n) xs = xs ! p # slice (Suc p) n xs"
  by (simp add: Cons_nth_drop_Suc [symmetric])

definition reads :: "(int \<Rightarrow> int result) \<Rightarrow> int \<Rightarrow> int list \<Rightarrow> bool" where
  "reads f p xs \<longleftrightarrow> (\<forall>i < length xs. f (p + int i) = Inr (xs ! i))"

lemma reads_Nil [simp]: "reads f p []"
  by (simp add: reads_def)

lemma reads_Cons [simp]: "reads f p (x # xs) \<longleftrightarrow> f p = Inr x \<and> reads f (p + 1) xs"
  unfolding reads_def by (auto simp: less_Suc_eq_0_disj ac_simps)

fun lexCompare :: "int list \<Rightarrow> int list \<Rightarrow> int" where
  "lexCompare (a # as) (b # bs) = (if a < b then -1 else if a > b then 1 else lexCompare as bs)"
| "lexCompare as bs = 0"

lemma memcmpFrom_reads:
  "reads f p xs \<Longrightarrow> reads g q ys \<Longrightarrow> length xs = length ys \<Longrightarrow> memcmpFrom f g p q (length ys) = Inr (lexCompare xs ys)"
proof (induction xs arbitrary: ys p q)
  case (Cons x xs)
  then show ?case by (cases ys) auto
qed simp

lemma findFrom_reads:
  "reads f p xs \<Longrightarrow> findFrom f c p (length xs)
    = Inr (if c \<in> set xs then p + int (length (takeWhile (\<lambda>x. x \<noteq> c) xs)) else -1)"
  by (induction xs arbitrary: p) auto

lemma matchesAt_reads:
  "reads f p xs \<Longrightarrow> reads g q ys \<Longrightarrow> length ys \<le> length xs \<Longrightarrow> matchesAt f g p q (length ys) = Inr (prefix ys xs)"
proof (induction ys arbitrary: xs p q)
  case (Cons y ys)
  then show ?case by (cases xs) auto
qed simp

lemma memmemFrom_reads:
  "reads f p xs \<Longrightarrow> reads g q ys \<Longrightarrow> n + length ys \<le> Suc (length xs) \<Longrightarrow>
    memmemFrom f g p q (length ys) n = Inr (case List.find (\<lambda>i. prefix ys (drop i xs)) [0..<n] of None \<Rightarrow> -1 | Some i \<Rightarrow> p + int i)"
proof (induction n arbitrary: xs p)
  case (Suc n)
  have u: "[0..<Suc n] = 0 # map Suc [0..<n]" by (simp add: upt_conv_Cons map_Suc_upt)
  have f: "List.find P (map Suc is) = map_option Suc (List.find (\<lambda>i. P (Suc i)) is)" for P "is"
    by (induction "is") auto
  have m: "matchesAt f g p q (length ys) = Inr (prefix ys xs)" using Suc.prems by (intro matchesAt_reads) simp_all
  show ?case
  proof (cases "prefix ys xs")
    case False
    then have ne: "xs \<noteq> []" using Suc.prems(3) by (cases ys) auto
    then obtain x xs' where x: "xs = x # xs'" by (cases xs) auto
    have "memmemFrom f g (p + 1) q (length ys) n
      = Inr (case List.find (\<lambda>i. prefix ys (drop i xs')) [0..<n] of None \<Rightarrow> -1 | Some i \<Rightarrow> (p + 1) + int i)"
      using Suc.prems x by (intro Suc.IH) simp_all
    then show ?thesis using False unfolding u find.simps by (simp add: m f x split: option.split)
  qed (simp add: m u del: upt_Suc)
qed simp

context byte_reads begin

lemma reads_slice:
  assumes "0 \<le> p" "0 \<le> n" "p + n \<le> int (length (cont b))"
  shows "reads (get b) p (slice (nat p) (nat n) (cont b))" "length (slice (nat p) (nat n) (cont b)) = nat n"
proof -
  show l: "length (slice (nat p) (nat n) (cont b)) = nat n" using assms by simp
  show "reads (get b) p (slice (nat p) (nat n) (cont b))"
    unfolding reads_def l using assms by (auto simp: get nat_add_distrib)
qed

end

context byte_access begin

lemma memset:
  "p \<le> length (cont b) \<Longrightarrow>
    (case memsetFrom set_byte b (int p) c n of (b', r) \<Rightarrow>
      let k = min n (length (cont b) - p)
      in cont b' = take p (cont b) @ replicate k c @ drop (p + k) (cont b)
       \<and> r = (if k = n then Inr () else Inl InvalidArgument))"
proof (induction n arbitrary: p b)
  case (Suc n)
  show ?case
  proof (cases "p < length (cont b)")
    case True
    then obtain b' where b': "set_byte b (int p) c = Inr b'" "cont b' = (cont b)[p := c]"
      using set_in [of "int p" b c] by auto
    define k where "k = min n (length (cont b) - Suc p)"
    have "take (Suc p) ((cont b)[p := c]) = take p (cont b) @ [c]" using True by (simp add: take_Suc_conv_app_nth)
    moreover have "min (Suc n) (length (cont b) - p) = Suc k" using True by (auto simp: k_def min_def)
    moreover have "drop (Suc p + k) ((cont b)[p := c]) = drop (Suc (p + k)) (cont b)" by simp
    ultimately show ?thesis using Suc.IH [of "Suc p" b'] True b'
      by (auto simp: Let_def k_def [symmetric] add.commute split: prod.splits)
  next
    case False
    then show ?thesis using Suc.prems set_out [of "int p" b c] by (simp add: Let_def)
  qed
qed simp

end

section \<open>Properties\<close>

text \<open>C33: comparing two ranges inside their bigstrings orders their bytes lexicographically.\<close>

theorem memcmp_correct:
  assumes "byte_reads get cont" "0 \<le> p" "p + n \<le> int (length (cont s))" "0 \<le> q" "q + n \<le> int (length (cont t))" "0 \<le> n"
  shows "bigstring_memcmp_stub get s p t q n = Inr (lexCompare (slice (nat p) (nat n) (cont s)) (slice (nat q) (nat n) (cont t)))"
proof -
  note r = byte_reads.reads_slice [OF assms(1)]
  show ?thesis
    using memcmpFrom_reads [OF r(1) r(1)] r(2) assms unfolding bigstring_memcmp_stub_def by metis
qed

theorem memcmp_correct_witness:
  "bigstring_memcmp_stub bsGet \<lparr>bsKind = 12, bsLayout = 0, bsDims = [3], bsData = [7, 8, 9], bsDeallocated = False\<rparr> 1
     \<lparr>bsKind = 12, bsLayout = 0, bsDims = [3], bsData = [8, 8, 200], bsDeallocated = False\<rparr> 1 2 = Inr (-1)"
  using memcmp_correct [OF bs.byte_reads_axioms, of 1 2 "\<lparr>bsKind = 12, bsLayout = 0, bsDims = [3], bsData = [7, 8, 9], bsDeallocated = False\<rparr>"
      1 "\<lparr>bsKind = 12, bsLayout = 0, bsDims = [3], bsData = [8, 8, 200], bsDeallocated = False\<rparr>"] by (simp add: numeral_2_eq_2)

text \<open>C32: the search returns the first position of the needle inside the range of the haystack, and -1
  exactly when it does not occur there.\<close>

theorem memmem_correct:
  assumes "byte_reads get cont" "0 \<le> hp" "0 \<le> hn" "hp + hn \<le> int (length (cont h))"
    "0 \<le> np" "0 \<le> nn" "np + nn \<le> int (length (cont d))"
  shows "let hay = slice (nat hp) (nat hn) (cont h); needle = slice (nat np) (nat nn) (cont d)
    in if sublist needle hay
       then \<exists>i. bigstring_memmem_bytecode get h d hp hn np nn = Inr (hp + int i) \<and> prefix needle (drop i hay) \<and> (\<forall>j. prefix needle (drop j hay) \<longrightarrow> i \<le> j)
       else bigstring_memmem_bytecode get h d hp hn np nn = Inr (-1)"
proof -
  define hay needle where "hay = slice (nat hp) (nat hn) (cont h)" and "needle = slice (nat np) (nat nn) (cont d)"
  note r = byte_reads.reads_slice [OF assms(1)]
  have l: "length hay = nat hn" "length needle = nat nn" unfolding hay_def needle_def using r(2) assms by simp_all
  define n where "n = nat (hn - nn + 1)"
  have e: "bigstring_memmem_bytecode get h d hp hn np nn =
    Inr (case List.find (\<lambda>i. prefix needle (drop i hay)) [0..<n] of None \<Rightarrow> -1 | Some i \<Rightarrow> hp + int i)"
  proof (cases "n = 0")
    case False
    then have "n + length needle \<le> Suc (length hay)" using l assms by (simp add: n_def)
    from memmemFrom_reads [OF r(1) r(1), of hp hn h np nn d, folded hay_def needle_def, OF assms(2,3,4) assms(5-7) this]
    show ?thesis by (simp add: bigstring_memmem_bytecode_def Let_def n_def l)
  qed (simp add: bigstring_memmem_bytecode_def Let_def n_def)
  have range: "i < n" if "prefix needle (drop i hay)" "i \<le> length hay" for i
    using prefix_length_le [OF that(1)] that(2) l assms by (simp add: n_def)
  show ?thesis
  proof (cases "sublist needle hay")
    case True
    then obtain us vs where "hay = us @ needle @ vs" by (auto simp: sublist_def)
    then have "prefix needle (drop (length us) hay)" "length us \<le> length hay" by simp_all
    then obtain i where i: "List.find (\<lambda>i. prefix needle (drop i hay)) [0..<n] = Some i"
      using range [of "length us"] by (cases "List.find (\<lambda>i. prefix needle (drop i hay)) [0..<n]") (auto simp: find_None_iff)
    then have "prefix needle (drop i hay)" "\<forall>j<i. \<not> prefix needle (drop j hay)" by (auto simp: find_Some_iff)
    then show ?thesis using True i e unfolding hay_def [symmetric] needle_def [symmetric] Let_def by (auto simp: not_less [symmetric])
  next
    case False
    then have "\<not> prefix needle (drop i hay)" for i by (metis sublist_def append_take_drop_id prefix_def)
    then have "List.find (\<lambda>i. prefix needle (drop i hay)) [0..<n] = None" by (simp add: find_None_iff)
    then show ?thesis using False e unfolding hay_def [symmetric] needle_def [symmetric] Let_def by simp
  qed
qed

text \<open>Filling writes the character over the range and nothing else; a range that leaves the
  bigstring is written up to its end before \<^verbatim>\<open>Invalid_argument\<close> is raised.\<close>

theorem memset_correct:
  assumes "byte_access get cont set_byte" "0 \<le> p" "p \<le> int (length (cont b))" "0 \<le> n"
  shows "case bigstring_memset_stub set_byte b p n c of (b', r) \<Rightarrow>
    let k = min (nat n) (length (cont b) - nat p)
    in cont b' = take (nat p) (cont b) @ replicate k c @ drop (nat p + k) (cont b)
      \<and> r = (if p + n \<le> int (length (cont b)) then Inr () else Inl InvalidArgument)"
proof -
  have "min (nat n) (length (cont b) - nat p) = nat n \<longleftrightarrow> p + n \<le> int (length (cont b))"
    using assms(2-4) by auto
  then show ?thesis
    using byte_access.memset [OF assms(1), where p = "nat p" and b = b and c = c and n = "nat n"] assms(2-4) by (auto simp: bigstring_memset_stub_def Let_def split: prod.splits)
qed

theorem memset_correct_witness:
  "case bigstring_memset_stub bsSet \<lparr>bsKind = 12, bsLayout = 0, bsDims = [3], bsData = [7, 8, 9], bsDeallocated = False\<rparr> 1 5 0 of (b', r) \<Rightarrow>
    bsData b' = [7, 0, 0] \<and> r = Inl InvalidArgument"
  using memset_correct [OF bs.byte_access_axioms, of 1 "\<lparr>bsKind = 12, bsLayout = 0, bsDims = [3], bsData = [7, 8, 9], bsDeallocated = False\<rparr>" 5 0]
  by (simp add: Let_def numeral_2_eq_2 split: prod.splits)

theorem memmem_correct_witness:
  "\<exists>i. bigstring_memmem_bytecode bsGet \<lparr>bsKind = 12, bsLayout = 0, bsDims = [5], bsData = [1, 2, 1, 2, 3], bsDeallocated = False\<rparr>
      \<lparr>bsKind = 12, bsLayout = 0, bsDims = [2], bsData = [2, 3], bsDeallocated = False\<rparr> 1 4 0 2 = Inr (1 + int i)
    \<and> prefix [2, 3] (drop i [2, 1, 2, 3 :: int])"
proof -
  have s: "sublist [2, 3] [2, 1, 2, 3 :: int]" by (simp add: sublist_code)
  show ?thesis
    using memmem_correct [OF bs.byte_reads_axioms, of 1 4 "\<lparr>bsKind = 12, bsLayout = 0, bsDims = [5], bsData = [1, 2, 1, 2, 3], bsDeallocated = False\<rparr>"
        0 2 "\<lparr>bsKind = 12, bsLayout = 0, bsDims = [2], bsData = [2, 3], bsDeallocated = False\<rparr>"] s
    by (auto simp: Let_def)
qed

text \<open>C34: reallocating gives a bigstring of the new size that starts with the old bytes and continues
  with zeros, and takes the old one out of use: it is empty, and using it up again raises.\<close>

theorem bigstring_realloc_correct:
  assumes "\<not> bsDeallocated b" "0 \<le> n"
  shows "\<exists>old new. bigstring_realloc b n = Inr (old, new) \<and> bsDims new = [n] \<and> length (bsData new) = nat n
    \<and> (\<forall>i < nat n. bsData new ! i = (if i < length (bsData b) then bsData b ! i else 0)) \<and> \<not> bsDeallocated new
    \<and> bsData old = [] \<and> bigstring_destroy_stub old = Inl InvalidArgument \<and> bigstring_realloc old m = Inl InvalidArgument"
  using assms by (simp add: bigstring_realloc_def bigstring_destroy_stub_def nth_append)

theorem bigstring_realloc_correct_witness:
  "\<exists>old new. bigstring_realloc \<lparr>bsKind = 12, bsLayout = 0, bsDims = [2], bsData = [7, 8], bsDeallocated = False\<rparr> 3 = Inr (old, new)
    \<and> bsDims new = [3] \<and> length (bsData new) = 3 \<and> bigstring_realloc old 5 = Inl InvalidArgument"
  using bigstring_realloc_correct [of "\<lparr>bsKind = 12, bsLayout = 0, bsDims = [2], bsData = [7, 8], bsDeallocated = False\<rparr>" 3 5] by auto

lemma floatsOf_concat:
  "(\<And>x. length (enc x) = 8) \<Longrightarrow> (\<And>x. dec (enc x) = x) \<Longrightarrow> floatsOf dec (length fs) (concat (map enc fs) @ rest) = fs"
  by (induction fs) simp_all

lemma check_bigstring:
  "0 \<le> i \<Longrightarrow> i < int (length (bsData b)) \<Longrightarrow> length (bsData b) \<le> 2 ^ 32 \<Longrightarrow> caml_check_bound_bigstring b i = Inr ()"
  by (simp add: caml_check_bound_bigstring_def)

text \<open>Floats written into a buffer and read back from the same place are the floats written, in the
  place asked for, and the rest of the array is kept.\<close>

theorem float_array_roundtrip:
  assumes enc: "\<forall>x. length (enc x) = 8 \<and> dec (enc x) = x"
    and check: "\<forall>a i. check a i = (if 0 \<le> i \<and> i < int (length a) - 1 then Inr () else Inl InvalidArgument)"
    and a: "0 \<le> sp" "0 < n" "sp + n < int (length a)" and b: "0 \<le> dp" "dp + n * 8 \<le> int (length (bsData buf))" "length (bsData buf) \<le> 2 ^ 32"
    and c: "0 \<le> cp" "cp + n < int (length c)"
  shows "bindE (bin_prot_blit_float_array_buf_stub enc check sp a dp buf n) (\<lambda>buf. bin_prot_blit_buf_float_array_stub dec check dp buf cp c n)
    = Inr (take (nat cp + 1) c @ slice (nat sp + 1) (nat n) a @ drop (nat cp + 1 + nat n) c)"
proof -
  define fs where "fs = slice (nat sp + 1) (nat n) a"
  have l: "length fs = nat n" using a by (simp add: fs_def)
  have e: "length (concat (map enc fs)) = 8 * nat n" using enc by (simp add: length_concat l comp_def sum_list_triv)
  define buf' where "buf' = buf\<lparr>bsData := take (nat dp) (bsData buf) @ concat (map enc fs) @ drop (nat dp + length (concat (map enc fs))) (bsData buf)\<rparr>"
  have l': "length (bsData buf') = length (bsData buf)" using b a by (simp add: buf'_def e)
  have 1: "bin_prot_blit_float_array_buf_stub enc check sp a dp buf n = Inr buf'"
    using a b by (simp add: bin_prot_blit_float_array_buf_stub_def check check_bigstring buf'_def fs_def nat_add_distrib Let_def)
  have "take (nat (n * 8)) (drop (nat dp) (bsData buf')) = concat (map enc fs)"
    using a b e by (simp add: buf'_def nat_mult_distrib)
  then have "floatsOf dec (nat n) (take (nat (n * 8)) (drop (nat dp) (bsData buf'))) = fs"
    using floatsOf_concat [of enc dec fs "[]"] enc l by simp
  then have "bin_prot_blit_buf_float_array_stub dec check dp buf' cp c n = Inr (take (nat cp + 1) c @ fs @ drop (nat cp + 1 + nat n) c)"
    using a b c by (simp add: bin_prot_blit_buf_float_array_stub_def check check_bigstring l' Let_def)
  then show ?thesis by (simp add: 1 fs_def)
qed

theorem float_array_roundtrip_witness:
  "bindE (bin_prot_blit_float_array_buf_stub (\<lambda>x. replicate 8 x) (\<lambda>a i. if 0 \<le> i \<and> i < int (length a) - 1 then Inr () else Inl InvalidArgument)
       0 [0, 5, 6 :: int] 3 \<lparr>bsKind = 12, bsLayout = 0, bsDims = [20], bsData = replicate 20 0, bsDeallocated = False\<rparr> 2)
     (\<lambda>buf. bin_prot_blit_buf_float_array_stub hd (\<lambda>a i. if 0 \<le> i \<and> i < int (length a) - 1 then Inr () else Inl InvalidArgument) 3 buf 1 [0, 1, 2, 3] 2)
   = Inr [0, 1, 5, 6]"
  by (subst float_array_roundtrip) (simp_all add: take_Cons' drop_Cons')

end
