(* ===== verification/Strftime.thy ===== *)
theory Strftime imports Js_Date Js_Value begin

text \<open>
  \<^verbatim>\<open>core/core/src/strftime.js\<close>: formatting a date by a format string. A date is its time value, \<open>None\<close>
  being an invalid date; a number is an integer or NaN (\<open>None\<close>). What the host knows (the offset
  of the local time zone at an instant, the instant of a local time, the text of a date) is a
  parameter. The closure variables of a formatter are a record, which formatting returns
  updated. Directives call the formatter again on the formats of the locale; the calls nest
  at most as deep as the stack of the host, and running out of it is a \<open>RangeError\<close>.
\<close>

section \<open>The host and locales\<close>

record host =
  hOffset :: "int \<Rightarrow> int"
  hInstant :: "int \<Rightarrow> int option"
  hString :: "int \<Rightarrow> string"
  hStack :: nat

record strf_locale =
  days :: "string list"
  shortDays :: "string list"
  months :: "string list"
  shortMonths :: "string list"
  locAM :: string
  locPM :: string
  locam :: string
  locpm :: string
  formats :: "(char \<times> string) list"

definition DefaultLocale :: strf_locale where
  "DefaultLocale = \<lparr>
     days = [''Sunday'', ''Monday'', ''Tuesday'', ''Wednesday'', ''Thursday'', ''Friday'', ''Saturday''],
     shortDays = [''Sun'', ''Mon'', ''Tue'', ''Wed'', ''Thu'', ''Fri'', ''Sat''],
     months = [''January'', ''February'', ''March'', ''April'', ''May'', ''June'', ''July'', ''August'', ''September'',
       ''October'', ''November'', ''December''],
     shortMonths = [''Jan'', ''Feb'', ''Mar'', ''Apr'', ''May'', ''Jun'', ''Jul'', ''Aug'', ''Sep'', ''Oct'', ''Nov'', ''Dec''],
     locAM = ''AM'', locPM = ''PM'', locam = ''am'', locpm = ''pm'',
     formats = [(CHR ''D'', ''%m/%d/%y''), (CHR ''F'', ''%Y-%m-%d''), (CHR ''R'', ''%H:%M''), (CHR ''T'', ''%H:%M:%S''),
       (CHR ''X'', ''%T''), (CHR ''c'', ''%a %b %d %X %Y''), (CHR ''r'', ''%I:%M:%S %p''), (CHR ''v'', ''%e-%b-%Y''),
       (CHR ''x'', ''%D'')]\<rparr>"

section \<open>Reading a date\<close>

text \<open>A getter reads the local time of the host.\<close>

definition localMs :: "host \<Rightarrow> int \<Rightarrow> int" where
  "localMs H t = t - hOffset H t * 60000"

definition getter :: "host \<Rightarrow> (int \<Rightarrow> int) \<Rightarrow> int option \<Rightarrow> int option" where
  "getter H f d = map_option (\<lambda>t. f (localMs H t)) d"

abbreviation "getFullYear H \<equiv> getter H getUTCFullYear"
abbreviation "getMonth H \<equiv> getter H getUTCMonth"
abbreviation "getDate H \<equiv> getter H getUTCDate"
abbreviation "getHours H \<equiv> getter H getUTCHours"
abbreviation "getMinutes H \<equiv> getter H getUTCMinutes"
abbreviation "getSeconds H \<equiv> getter H getUTCSeconds"
abbreviation "getDay H \<equiv> getter H (\<lambda>l. (l div msPerDay + 4) mod 7)"

text \<open>\<^verbatim>\<open>Date.UTC\<close> and the constructor take the years 0 to 99 for 1900 to 1999.\<close>

definition fullYear :: "int \<Rightarrow> int" where
  "fullYear y = (if 0 \<le> y \<and> y \<le> 99 then 1900 + y else y)"

definition DateUTC :: "int option \<Rightarrow> int \<Rightarrow> int \<Rightarrow> int option" where
  "DateUTC y m d = Option.bind y (\<lambda>y. TimeClip (MakeDate (MakeDay (fullYear y) m d) 0))"

section \<open>Helpers\<close>

definition showNum :: "int option \<Rightarrow> string" where
  "showNum n = (case n of None \<Rightarrow> ''NaN'' | Some n \<Rightarrow> decInt n)"

text \<open>\<^verbatim>\<open>xs[n]\<close> appended to a string\<close>

definition showNth :: "string list \<Rightarrow> int option \<Rightarrow> string" where
  "showNth xs n = (case n of None \<Rightarrow> ''undefined''
     | Some n \<Rightarrow> if 0 \<le> n \<and> n < int (length xs) then xs ! nat n else ''undefined'')"

datatype padding = PadNull | PadNone | PadChar char

definition greater :: "int option \<Rightarrow> int \<Rightarrow> bool" where
  "greater n k = (case n of None \<Rightarrow> False | Some n \<Rightarrow> n > k)"

definition padTill2 :: "int option \<Rightarrow> padding \<Rightarrow> string" where
  "padTill2 numberToPad paddingChar =
     (if paddingChar = PadNone \<or> greater numberToPad 9 then showNum numberToPad
      else (case paddingChar of PadChar c \<Rightarrow> c | _ \<Rightarrow> CHR ''0'') # showNum numberToPad)"

definition padTill3 :: "int option \<Rightarrow> string" where
  "padTill3 numberToPad =
     (if greater numberToPad 99 then showNum numberToPad
      else if greater numberToPad 9 then ''0'' @ showNum numberToPad
      else ''00'' @ showNum numberToPad)"

definition hours12 :: "int option \<Rightarrow> int option" where
  "hours12 hour = (if hour = Some 0 then Some 12 else if greater hour 12 then map_option (\<lambda>h. h - 12) hour else hour)"

definition weekNumber :: "host \<Rightarrow> int option \<Rightarrow> bool \<Rightarrow> int option" where
  "weekNumber H date monday =
     Option.bind (getDay H date) (\<lambda>weekday.
       let weekday = (if monday then if weekday = 0 then 6 else weekday - 1 else weekday)
       in Option.bind (DateUTC (getFullYear H date) 0 1) (\<lambda>firstDayOfYearUtc.
          Option.bind (Option.bind (getMonth H date) (\<lambda>m. Option.bind (getDate H date) (DateUTC (getFullYear H date) m))) (\<lambda>dateUtc.
          let yday = floorQuot (dateUtc - firstDayOfYearUtc) 86400000
          in Some (floorQuot (yday + 7 - weekday) 7))))"

definition ordinal :: "int option \<Rightarrow> string" where
  "ordinal number = (case number of None \<Rightarrow> ''undefined'' | Some n \<Rightarrow>
     let i = tmod n 10; ii = tmod n 100
     in if ii \<ge> 11 \<and> ii \<le> 13 \<or> i = 0 \<or> i \<ge> 4 then ''th''
        else if i = 1 then ''st'' else if i = 2 then ''nd'' else if i = 3 then ''rd'' else ''undefined'')"

definition getTimestampToUtcOffsetFor :: "host \<Rightarrow> int option \<Rightarrow> int" where
  "getTimestampToUtcOffsetFor H date = (case date of None \<Rightarrow> 0 | Some t \<Rightarrow> hOffset H t * 60000)"

text \<open>The match of \<^verbatim>\<open>/\(([\w\s]+)\)/\<close>\<close>

definition isWordOrSpace :: "char \<Rightarrow> bool" where
  "isWordOrSpace c \<longleftrightarrow> isDigit c \<or> isWhite c \<or> c = CHR ''_''
     \<or> 65 \<le> (of_char c :: nat) \<and> (of_char c :: nat) \<le> 90 \<or> 97 \<le> (of_char c :: nat) \<and> (of_char c :: nat) \<le> 122"

fun parenthesized :: "string \<Rightarrow> string option" where
  "parenthesized [] = None"
| "parenthesized (c # s) =
     (let w = takeWhile isWordOrSpace s; r = dropWhile isWordOrSpace s
      in if c = CHR ''('' \<and> w \<noteq> [] \<and> r \<noteq> [] \<and> hd r = CHR '')'' then Some w else parenthesized s)"

section \<open>Directives\<close>

text \<open>What the directives of one call read: the closure's variables, the arguments and the format
  flags; \<open>proc\<close> is the formatter, called on a format of the locale.\<close>

record strf_ctx =
  cHost :: host
  cLocale :: strf_locale
  cOffset :: int
  cUtc :: bool
  cDate :: "int option"
  cTimestamp :: "int option"
  cPad :: padding
  cExtended :: bool

text \<open>A format the locale does not have is \<^verbatim>\<open>undefined\<close>, whose length throws.\<close>

definition nested :: "(string \<Rightarrow> string result) \<Rightarrow> strf_ctx \<Rightarrow> char \<Rightarrow> string result" where
  "nested proc C c = (case map_of (formats (cLocale C)) c of None \<Rightarrow> Inl TypeError | Some f \<Rightarrow> proc f)"

definition beforeNoon :: "strf_ctx \<Rightarrow> bool" where
  "beforeNoon C = (case getHours (cHost C) (cDate C) of None \<Rightarrow> False | Some h \<Rightarrow> h < 12)"

definition spacePad :: "padding \<Rightarrow> padding" where
  "spacePad p = (if p = PadNull then PadChar CHR '' '' else p)"

definition zoneOffset :: "strf_ctx \<Rightarrow> string" where
  "zoneOffset C =
     (if cUtc C \<and> cOffset C = 0 then (if cExtended C then ''+00:00'' else ''+0000'')
      else
        let off = (if cOffset C \<noteq> 0 then Some (truncQuot (cOffset C) (60 * 1000))
              else map_option (\<lambda>t. - hOffset (cHost C) t) (cDate C));
            sign = (case off of None \<Rightarrow> ''+'' | Some off \<Rightarrow> if off < 0 then ''-'' else ''+'');
            sep = (if cExtended C then '':'' else '''');
            hours = map_option (\<lambda>off. floorQuot \<bar>off\<bar> 60) off;
            mins = map_option (\<lambda>off. \<bar>tmod off 60\<bar>) off
        in sign @ padTill2 hours PadNull @ sep @ padTill2 mins PadNull)"

definition zoneName :: "strf_ctx \<Rightarrow> string" where
  "zoneName C =
     (if cUtc C \<and> cOffset C = 0 then ''GMT''
      else case Option.bind (cDate C) (\<lambda>t. parenthesized (hString (cHost C) t)) of None \<Rightarrow> '''' | Some s \<Rightarrow> s)"

definition directiveAS :: "(string \<Rightarrow> string result) \<Rightarrow> strf_ctx \<Rightarrow> char \<Rightarrow> string result option" where
  "directiveAS proc C c =
     (let H = cHost C; L = cLocale C; date = cDate C; padding = cPad C
      in if c = CHR ''A'' then Some (Inr (showNth (days L) (getDay H date)))
         else if c = CHR ''B'' then Some (Inr (showNth (months L) (getMonth H date)))
         else if c = CHR ''C'' then Some (Inr (padTill2 (map_option (\<lambda>y. floorQuot y 100) (getFullYear H date)) padding))
         else if c = CHR ''D'' then Some (nested proc C c)
         else if c = CHR ''F'' then Some (nested proc C c)
         else if c = CHR ''H'' then Some (Inr (padTill2 (getHours H date) padding))
         else if c = CHR ''I'' then Some (Inr (padTill2 (hours12 (getHours H date)) padding))
         else if c = CHR ''L'' then Some (Inr (padTill3 (map_option (\<lambda>t. tmod t 1000) (cTimestamp C))))
         else if c = CHR ''M'' then Some (Inr (padTill2 (getMinutes H date) padding))
         else if c = CHR ''P'' then Some (Inr (if beforeNoon C then locam L else locpm L))
         else if c = CHR ''R'' then Some (nested proc C c)
         else if c = CHR ''S'' then Some (Inr (padTill2 (getSeconds H date) padding))
         else None)"

definition directiveTc :: "(string \<Rightarrow> string result) \<Rightarrow> strf_ctx \<Rightarrow> char \<Rightarrow> string result option" where
  "directiveTc proc C c =
     (let H = cHost C; L = cLocale C; date = cDate C; padding = cPad C
      in if c = CHR ''T'' then Some (nested proc C c)
         else if c = CHR ''U'' then Some (Inr (padTill2 (weekNumber H date False) padding))
         else if c = CHR ''W'' then Some (Inr (padTill2 (weekNumber H date True) padding))
         else if c = CHR ''X'' then Some (nested proc C c)
         else if c = CHR ''Y'' then Some (Inr (showNum (getFullYear H date)))
         else if c = CHR ''Z'' then Some (Inr (zoneName C))
         else if c = CHR ''a'' then Some (Inr (showNth (shortDays L) (getDay H date)))
         else if c = CHR ''b'' then Some (Inr (showNth (shortMonths L) (getMonth H date)))
         else if c = CHR ''c'' then Some (nested proc C c)
         else None)"

text \<open>\<^verbatim>\<open>%j\<close>: the days since the start of the year, rounded up.\<close>

definition dayOfYear :: "host \<Rightarrow> int option \<Rightarrow> int option" where
  "dayOfYear H date =
     Option.bind date (\<lambda>t.
     Option.bind (Option.bind (getFullYear H date) (\<lambda>y. hInstant H (MakeDate (MakeDay (fullYear y) 0 1) 0))) (\<lambda>y.
       Some (- floorQuot (- (t - y)) (1000 * 60 * 60 * 24))))"

definition directiveDo :: "(string \<Rightarrow> string result) \<Rightarrow> strf_ctx \<Rightarrow> char \<Rightarrow> string result option" where
  "directiveDo proc C c =
     (let H = cHost C; L = cLocale C; date = cDate C; padding = cPad C
      in if c = CHR ''d'' then Some (Inr (padTill2 (getDate H date) padding))
         else if c = CHR ''e'' then Some (Inr (padTill2 (getDate H date) (spacePad padding)))
         else if c = CHR ''h'' then Some (Inr (showNth (shortMonths L) (getMonth H date)))
         else if c = CHR ''j'' then Some (Inr (padTill3 (dayOfYear H date)))
         else if c = CHR ''k'' then Some (Inr (padTill2 (getHours H date) (spacePad padding)))
         else if c = CHR ''l'' then Some (Inr (padTill2 (hours12 (getHours H date)) (spacePad padding)))
         else if c = CHR ''m'' then Some (Inr (padTill2 (map_option (\<lambda>m. m + 1) (getMonth H date)) padding))
         else if c = CHR ''n'' then Some (Inr [char_of (10 :: nat)])
         else if c = CHR ''o'' then Some (Inr (showNum (getDate H date) @ ordinal (getDate H date)))
         else None)"

definition directivePz :: "(string \<Rightarrow> string result) \<Rightarrow> strf_ctx \<Rightarrow> char \<Rightarrow> string result option" where
  "directivePz proc C c =
     (let H = cHost C; L = cLocale C; date = cDate C
      in if c = CHR ''p'' then Some (Inr (if beforeNoon C then locAM L else locPM L))
         else if c = CHR ''r'' then Some (nested proc C c)
         else if c = CHR ''s'' then Some (Inr (showNum (map_option (\<lambda>t. floorQuot t 1000) (cTimestamp C))))
         else if c = CHR ''t'' then Some (Inr [char_of (9 :: nat)])
         else if c = CHR ''u'' then Some (Inr (showNum (if getDay H date = Some 0 then Some 7 else getDay H date)))
         else if c = CHR ''v'' then Some (nested proc C c)
         else if c = CHR ''w'' then Some (Inr (showNum (getDay H date)))
         else if c = CHR ''x'' then Some (nested proc C c)
         else if c = CHR ''y'' then Some (Inr (drop 2 (showNum (getFullYear H date))))
         else if c = CHR ''z'' then Some (Inr (zoneOffset C))
         else None)"

definition directive :: "(string \<Rightarrow> string result) \<Rightarrow> strf_ctx \<Rightarrow> char \<Rightarrow> string result" where
  "directive proc C c =
     (case directiveAS proc C c of Some r \<Rightarrow> r | None \<Rightarrow>
      case directiveTc proc C c of Some r \<Rightarrow> r | None \<Rightarrow>
      case directiveDo proc C c of Some r \<Rightarrow> r | None \<Rightarrow>
      case directivePz proc C c of Some r \<Rightarrow> r | None \<Rightarrow> Inr [c])"

section \<open>The formatter\<close>

text \<open>The loop over the format: \<open>s\<close> says that a percent sign has been read; \<open>extendedTZ\<close> is never reset.\<close>

fun scan :: "(strf_ctx \<Rightarrow> char \<Rightarrow> string result) \<Rightarrow> strf_ctx \<Rightarrow> bool \<Rightarrow> string \<Rightarrow> string \<Rightarrow> string result" where
  "scan dir C s r [] = Inr r"
| "scan dir C s r (c # cs) =
     (if s then
        if c = CHR ''-'' then scan dir (C\<lparr>cPad := PadNone\<rparr>) s r cs
        else if c = CHR ''_'' then scan dir (C\<lparr>cPad := PadChar CHR '' ''\<rparr>) s r cs
        else if c = CHR ''0'' then scan dir (C\<lparr>cPad := PadChar CHR ''0''\<rparr>) s r cs
        else if c = CHR '':'' then scan dir (C\<lparr>cExtended := True\<rparr>) s r cs
        else bindE (dir C c) (\<lambda>t. scan dir (C\<lparr>cPad := PadNull\<rparr>) False (r @ t) cs)
      else if c = CHR ''%'' then scan dir C True r cs
      else scan dir C False (r @ [c]) cs)"

fun processFormat :: "nat \<Rightarrow> strf_ctx \<Rightarrow> string \<Rightarrow> string result" where
  "processFormat 0 C format = Inl RangeError"
| "processFormat (Suc n) C format =
     scan (directive (processFormat n C)) (C\<lparr>cPad := PadNull, cExtended := False\<rparr>) False '''' format"

record strf =
  sLocale :: strf_locale
  sOffset :: int
  sUtc :: bool
  sCachedTimestamp :: int
  sCachedDate :: "int option option"

definition Strftime :: "strf_locale option \<Rightarrow> int option \<Rightarrow> bool \<Rightarrow> strf" where
  "Strftime locale customTimezoneOffset useUtcTimezone =
     \<lparr>sLocale = (case locale of None \<Rightarrow> DefaultLocale | Some l \<Rightarrow> l),
      sOffset = (case customTimezoneOffset of None \<Rightarrow> 0 | Some o1 \<Rightarrow> o1), sUtc = useUtcTimezone,
      sCachedTimestamp = 0, sCachedDate = None\<rparr>"

definition defaultStrftime :: strf where
  "defaultStrftime = Strftime (Some DefaultLocale) (Some 0) False"

definition shifted :: "host \<Rightarrow> strf \<Rightarrow> int option \<Rightarrow> int option" where
  "shifted H S d = Option.bind d (\<lambda>t. TimeClip (t + getTimestampToUtcOffsetFor H d + sOffset S))"

definition run :: "host \<Rightarrow> strf \<Rightarrow> string \<Rightarrow> int option \<Rightarrow> int option \<Rightarrow> string result" where
  "run H S format date timestamp =
     processFormat (hStack H)
       \<lparr>cHost = H, cLocale = sLocale S, cOffset = sOffset S, cUtc = sUtc S, cDate = date, cTimestamp = timestamp,
        cPad = PadNull, cExtended = False\<rparr> format"

text \<open>
  \<open>now\<close> is \<^verbatim>\<open>Date.now()\<close>. Without a date the current one is used and kept; within the same millisecond
  the kept one is used, and \<^verbatim>\<open>timestamp\<close> is not assigned. There is no kept date only while the
  clock has not passed 1970; a directive then reads a property of \<^verbatim>\<open>undefined\<close>.
\<close>

definition strftime :: "host \<Rightarrow> int \<Rightarrow> strf \<Rightarrow> string \<Rightarrow> int option option \<Rightarrow> strf \<times> string result" where
  "strftime H now S format date =
     (case date of
        Some d \<Rightarrow> (S, run H S format (if sUtc S then shifted H S d else d) d)
      | None \<Rightarrow>
          if now > sCachedTimestamp S then
            let d = TimeClip now;
                S = S\<lparr>sCachedTimestamp := now, sCachedDate := Some (if sUtc S then shifted H S d else d)\<rparr>
            in (S, run H S format (the (sCachedDate S)) (Some now))
          else (case sCachedDate S of None \<Rightarrow> (S, Inl TypeError) | Some d \<Rightarrow> (S, run H S format d None)))"

section \<open>Making formatters\<close>

definition localize :: "strf \<Rightarrow> strf_locale option \<Rightarrow> strf" where
  "localize S locale = Strftime (Some (case locale of None \<Rightarrow> sLocale S | Some l \<Rightarrow> l)) (Some (sOffset S)) (sUtc S)"

text \<open>\<^verbatim>\<open>parseInt(s, 10)\<close>\<close>

definition parseInt10 :: "string \<Rightarrow> int option" where
  "parseInt10 s =
     (let s = dropWhile isWhite s;
          neg = (s \<noteq> [] \<and> hd s = CHR ''-'');
          s = (if s \<noteq> [] \<and> (hd s = CHR ''-'' \<or> hd s = CHR ''+'') then tl s else s);
          ds = takeWhile isDigit s
      in if ds = [] then None else Some (if neg then - int (valNat ds) else int (valNat ds)))"

datatype tz_arg = TzNumber int | TzString string | TzOther

definition timezone :: "strf \<Rightarrow> tz_arg \<Rightarrow> strf" where
  "timezone S zone =
     (case zone of
        TzString tz \<Rightarrow>
          let sign = (if tz \<noteq> [] \<and> hd tz = CHR ''-'' then -1 else 1);
              hours = parseInt10 (take 2 (drop 1 tz));
              minutes = parseInt10 (take 2 (drop 3 tz))
          in Strftime (Some (sLocale S))
               (Option.bind hours (\<lambda>h. Option.bind minutes (\<lambda>m. Some (sign * (60 * h + m) * 60 * 1000)))) True
      | TzNumber tz \<Rightarrow> Strftime (Some (sLocale S)) (Some (tz * 60 * 1000)) True
      | TzOther \<Rightarrow> Strftime (Some (sLocale S)) (Some (sOffset S)) (sUtc S))"

definition utc :: "strf \<Rightarrow> strf" where
  "utc S = Strftime (Some (sLocale S)) (Some (sOffset S)) True"

text \<open>The exported function and the deprecated ones; the warnings are not modelled. The formatter
  \<open>S\<close> is \<^verbatim>\<open>defaultStrftime\<close>, which keeps its cache; one made for a locale is used once.\<close>

definition adaptedStrftime ::
  "host \<Rightarrow> int \<Rightarrow> strf \<Rightarrow> string \<Rightarrow> int option option + strf_locale \<Rightarrow> strf_locale option \<Rightarrow> strf \<times> string result" where
  "adaptedStrftime H now S fmt d locale =
     (let (d, locale) = (case d of Inl d \<Rightarrow> (d, locale) | Inr l \<Rightarrow> (None, Some l))
      in case locale of
           None \<Rightarrow> strftime H now S fmt d
         | Some l \<Rightarrow> (S, snd (strftime H now (localize S (Some l)) fmt d)))"

definition deprecatedStrftime ::
  "host \<Rightarrow> int \<Rightarrow> strf \<Rightarrow> string \<Rightarrow> int option option \<Rightarrow> strf_locale option \<Rightarrow> strf \<times> string result" where
  "deprecatedStrftime H now S fmt d locale =
     (case locale of
        None \<Rightarrow> strftime H now S fmt d
      | Some l \<Rightarrow> (S, snd (strftime H now (localize S (Some l)) fmt d)))"

definition deprecatedStrftimeUTC ::
  "host \<Rightarrow> int \<Rightarrow> strf \<Rightarrow> string \<Rightarrow> int option option \<Rightarrow> strf_locale option \<Rightarrow> strf \<times> string result" where
  "deprecatedStrftimeUTC H now utcStrftime fmt d locale =
     (case locale of
        None \<Rightarrow> strftime H now utcStrftime fmt d
      | Some l \<Rightarrow> (utcStrftime, snd (strftime H now (localize utcStrftime (Some l)) fmt d)))"

text \<open>\<^verbatim>\<open>core/core/src/runtime.js\<close>: the time is a float of seconds; \<^verbatim>\<open>new Date\<close> truncates.\<close>

definition core_time_ns_format :: "host \<Rightarrow> int \<Rightarrow> strf \<Rightarrow> rat \<Rightarrow> string \<Rightarrow> strf \<times> string result" where
  "core_time_ns_format H now S time format =
     (let d = TimeClip (truncRat (fl (time * 1000))) in adaptedStrftime H now S format (Inl (Some d)) None)"

end
