(* ===== verification/Strftime_Props.thy ===== *)
theory Strftime_Props imports Strftime begin

text \<open>
  Formatting returns for every format; zone offsets are printed as they were read; what the UTC
  formatter prints and when it is the UTC time; week numbers count Sundays or Mondays; and
  three cases in which the output is not the documented one.
\<close>

section \<open>Formatting returns\<close>

lemma scan_returns:
  assumes "\<And>C c. c \<in> set cs \<Longrightarrow> cLocale C = L \<Longrightarrow> \<exists>t. dir C c = Inr t" "cLocale C = L"
  shows "\<exists>t. scan dir C s r cs = Inr t"
  using assms
proof (induction cs arbitrary: C s r)
  case (Cons c cs)
  have ih: "\<exists>t. scan dir C s r cs = Inr t" if "cLocale C = L" for C s r using Cons.prems(1) that by (intro Cons.IH) simp_all
  obtain t where "dir C c = Inr t" using Cons.prems by fastforce
  then show ?case using ih Cons.prems(2) by (cases "c = CHR ''%''"; cases s) simp_all
qed simp

text \<open>How deep the formats of the default locale nest.\<close>

definition rank :: "char \<Rightarrow> nat" where
  "rank c = (if c = CHR ''c'' then 3 else if c \<in> {CHR ''X'', CHR ''x''} then 2
     else if c \<in> {CHR ''D'', CHR ''F'', CHR ''R'', CHR ''T'', CHR ''r'', CHR ''v''} then 1 else 0)"

lemma format_rank:
  "map_of (formats DefaultLocale) c = Some f \<Longrightarrow> 0 < rank c \<and> (\<forall>x \<in> set f. rank x < rank c)"
proof -
  have "list_all (\<lambda>(c, f). 0 < rank c \<and> list_all (\<lambda>x. rank x < rank c) f) (formats DefaultLocale)" by code_simp
  then show "map_of (formats DefaultLocale) c = Some f \<Longrightarrow> 0 < rank c \<and> (\<forall>x \<in> set f. rank x < rank c)"
    by (auto simp: list_all_iff dest!: map_of_SomeD)
qed

lemma rank_format: "0 < rank c \<Longrightarrow> \<exists>f. map_of (formats DefaultLocale) c = Some f"
  by (auto simp: DefaultLocale_def rank_def split: if_splits)

lemmas directive_defs = directiveAS_def directiveTc_def directiveDo_def directivePz_def

lemma directive_parts_return:
  assumes "rank c = 0"
  shows "directiveAS proc C c = Some q \<Longrightarrow> \<exists>t. q = Inr t" "directiveTc proc C c = Some q \<Longrightarrow> \<exists>t. q = Inr t"
    "directiveDo proc C c = Some q \<Longrightarrow> \<exists>t. q = Inr t" "directivePz proc C c = Some q \<Longrightarrow> \<exists>t. q = Inr t"
  using assms by (auto simp: directive_defs Let_def rank_def split: if_splits)

lemma directive_returns:
  assumes "0 < rank c \<Longrightarrow> \<exists>t. nested proc C c = Inr t"
  shows "\<exists>t. directive proc C c = Inr t"
proof (cases "0 < rank c")
  case True
  then have "c \<in> {CHR ''c'', CHR ''X'', CHR ''x'', CHR ''D'', CHR ''F'', CHR ''R'', CHR ''T'', CHR ''r'', CHR ''v''}"
    by (auto simp: rank_def split: if_splits)
  then have "directive proc C c = nested proc C c"
    by (auto simp: directive_def directive_defs)
  then show ?thesis using assms True by simp
next
  case False
  then have "rank c = 0" by simp
  from directive_parts_return [OF this, of proc C] show ?thesis
    by (auto simp: directive_def split: option.split)
qed

lemma processFormat_returns:
  "cLocale C = DefaultLocale \<Longrightarrow> \<forall>c \<in> set f. rank c \<le> n \<Longrightarrow> \<exists>t. processFormat (Suc n) C f = Inr t"
proof (induction n arbitrary: f C)
  case 0
  then have "\<exists>t. directive (processFormat 0 C) C' c = Inr t" if "c \<in> set f" for C' c
    using that by (intro directive_returns) simp
  then show ?case using 0 unfolding processFormat.simps by (intro scan_returns [where L = DefaultLocale]) simp_all
next
  case (Suc n)
  have "\<exists>t. directive (processFormat (Suc n) C) C' c = Inr t" if "c \<in> set f" "cLocale C' = DefaultLocale" for C' c
  proof (rule directive_returns)
    assume "0 < rank c"
    then obtain g where g: "map_of (formats DefaultLocale) c = Some g" using rank_format by blast
    then have "\<forall>x \<in> set g. rank x \<le> n" using format_rank [OF g] Suc.prems(2) that(1) by fastforce
    then show "\<exists>t. nested (processFormat (Suc n) C) C' c = Inr t"
      using Suc.IH [OF Suc.prems(1)] that(2) g by (simp add: nested_def)
  qed
  then show ?case using Suc.prems unfolding processFormat.simps(2) [of "Suc n"] by (intro scan_returns [where L = DefaultLocale]) simp_all
qed

text \<open>C28: with the default locale formatting returns a string for every format and every date, valid or
  not, as soon as four calls fit on the stack: the formats of the locale nest three deep.\<close>

theorem strftime_returns:
  assumes "sLocale S = DefaultLocale" "4 \<le> hStack H"
  shows "\<exists>s. snd (strftime H now S format (Some d)) = Inr s"
proof -
  have r: "rank c \<le> 3" for c by (simp add: rank_def)
  obtain k where k: "hStack H = 4 + k" using assms(2) le_Suc_ex by blast
  have e: "hStack H = Suc (3 + k)" using k by simp
  have "\<forall>c \<in> set format. rank c \<le> 3 + k" using r by (meson le_add1 order_trans)
  then show ?thesis unfolding strftime_def run_def e option.case snd_conv
    by (intro processFormat_returns) (simp_all add: assms)
qed

theorem strftime_returns_witness:
  "\<exists>s. snd (strftime \<lparr>hOffset = \<lambda>t. 0, hInstant = Some, hString = \<lambda>t. '''', hStack = 4\<rparr> 5 defaultStrftime ''%c %q %z'' (Some None)) = Inr s"
  by (rule strftime_returns) (simp_all add: defaultStrftime_def Strftime_def)

section \<open>Zone offsets\<close>

definition twoDigits :: "nat \<Rightarrow> string" where
  "twoDigits n = padStart (decNat n) 2 CHR ''0''"

lemma digitChar_0: "digitChar 0 = CHR ''0''"
  by code_simp

lemma twoDigits_split: "n < 100 \<Longrightarrow> twoDigits n = [digitChar (n div 10), digitChar (n mod 10)]"
  using less_mult_imp_div_less [of n 10 10]
  by (simp add: twoDigits_def padStart_def decNat.simps [of n] decNat.simps [of "n div 10"] digitChar_0)

lemma digitChar_plain: "n < 10 \<Longrightarrow> \<not> isWhite (digitChar n) \<and> digitChar n \<noteq> CHR ''-'' \<and> digitChar n \<noteq> CHR ''+''"
proof -
  assume "n < 10"
  then have "isDigit (digitChar n)" by simp
  then have "48 \<le> (of_char (digitChar n) :: nat)" "(of_char (digitChar n) :: nat) \<le> 57" by (simp_all add: isDigit_def)
  moreover have "(of_char CHR ''-'' :: nat) = 45" "(of_char CHR ''+'' :: nat) = 43" by simp_all
  ultimately show ?thesis by (auto simp: isWhite_def simp del: of_char_digitChar)
qed

lemma parseInt10_twoDigits: "n < 100 \<Longrightarrow> parseInt10 (twoDigits n) = Some (int n)"
proof -
  assume n: "n < 100"
  have d: "n div 10 < 10" "n mod 10 < 10" using n by auto
  have "valNat (twoDigits n) = n"
    using d by (simp add: twoDigits_split [OF n] valNat_Cons)
  then show ?thesis
    using d digitChar_plain [OF d(1)] by (simp add: parseInt10_def twoDigits_split [OF n] Let_def)
qed

lemma padTill2_twoDigits: "n < 100 \<Longrightarrow> padTill2 (Some (int n)) PadNull = twoDigits n"
  by (simp add: padTill2_def greater_def showNum_def decInt_def twoDigits_def padStart_def decNat.simps [of n] decNat.simps [of "n div 10"])

text \<open>What \<^verbatim>\<open>run\<close> does with the format characters used below.\<close>

lemma directive_simps [simp]:
  "directive proc C CHR ''z'' = Inr (zoneOffset C)"
  "directive proc C CHR ''Y'' = Inr (showNum (getFullYear (cHost C) (cDate C)))"
  "directive proc C CHR ''m'' = Inr (padTill2 (map_option (\<lambda>m. m + 1) (getMonth (cHost C) (cDate C))) (cPad C))"
  "directive proc C CHR ''d'' = Inr (padTill2 (getDate (cHost C) (cDate C)) (cPad C))"
  "directive proc C CHR ''H'' = Inr (padTill2 (getHours (cHost C) (cDate C)) (cPad C))"
  "directive proc C CHR ''M'' = Inr (padTill2 (getMinutes (cHost C) (cDate C)) (cPad C))"
  "directive proc C CHR ''S'' = Inr (padTill2 (getSeconds (cHost C) (cDate C)) (cPad C))"
  "directive proc C CHR ''j'' = Inr (padTill3 (dayOfYear (cHost C) (cDate C)))"
  "directive proc C CHR ''s'' = Inr (showNum (map_option (\<lambda>t. floorQuot t 1000) (cTimestamp C)))"
  "directive proc C CHR ''U'' = Inr (padTill2 (weekNumber (cHost C) (cDate C) False) (cPad C))"
  by (simp_all add: directive_def directive_defs)

text \<open>C27: a formatter made for the zone \<^verbatim>\<open>+hhmm\<close> or \<^verbatim>\<open>-hhmm\<close> prints that zone for \<^verbatim>\<open>%z\<close>.\<close>

theorem timezone_roundtrip:
  assumes h: "h < 100" and m: "m < 60" and z: "z = sg # twoDigits h @ twoDigits m"
    and sg: "sg = CHR ''+'' \<or> sg = CHR ''-'' \<and> (h, m) \<noteq> (0, 0)" and H: "0 < hStack H"
  shows "snd (strftime H now (timezone S (TzString z)) ''%z'' (Some d)) = Inr z"
proof -
  define n where "n = 60 * int h + int m"
  define c where "c = (if sg = CHR ''-'' then - n else n) * 60000"
  have m': "m < 100" using m by simp
  note td = twoDigits_split [OF h] twoDigits_split [OF m']
  have t: "timezone S (TzString z) = Strftime (Some (sLocale S)) (Some c) True"
  proof -
    have "take 2 (drop 1 z) = twoDigits h" "take 2 (drop 3 z) = twoDigits m" "z \<noteq> []" "hd z = sg"
      by (simp_all add: z td)
    then show ?thesis
      by (simp add: timezone_def Let_def parseInt10_twoDigits [OF h] parseInt10_twoDigits [OF m'] c_def n_def algebra_simps)
  qed
  have n: "n div 60 = int h" "n mod 60 = int m" "0 \<le> n" "n < 6000" using m h by (simp_all add: n_def)
  have s: "sg = CHR ''-'' \<Longrightarrow> 0 < n" using sg by (auto simp: n_def)
  obtain k where k: "hStack H = Suc k" using H by (cases "hStack H") auto
  have out: "zoneOffset C = z" if C: "cUtc C" "cOffset C = c" "\<not> cExtended C" for C
  proof (cases "c = 0")
    case True
    then have "n = 0" by (auto simp: c_def split: if_splits)
    then have "h = 0" "m = 0" "sg = CHR ''+''" using n sg by auto
    then show ?thesis using C True
      by (simp add: zoneOffset_def z twoDigits_split digitChar_0)
  next
    case False
    have q: "truncQuot c 60000 = (if sg = CHR ''-'' then - n else n)"
    proof (cases "sg = CHR ''-''")
      case True
      have "- (n * 60000) = (- n) * 60000" by simp
      then show ?thesis using n(3,4) True s by (simp add: truncQuot_safe c_def tdiv_neg)
    next
      case False
      then show ?thesis using n(3,4) by (simp add: truncQuot_safe c_def)
    qed
    have f: "floorQuot \<bar>if sg = CHR ''-'' then - n else n\<bar> 60 = int h" "\<bar>tmod (if sg = CHR ''-'' then - n else n) 60\<bar> = int m"
      using n s by (simp_all add: floorQuot_safe tmod_neg)
    show ?thesis using C False f s sg n(3)
      by (auto simp: zoneOffset_def Let_def q padTill2_twoDigits h m' z)
  qed
  show ?thesis by (simp add: strftime_def run_def k t Strftime_def out)
qed

theorem timezone_roundtrip_witness:
  "snd (strftime \<lparr>hOffset = \<lambda>t. 300, hInstant = Some, hString = \<lambda>t. '''', hStack = 9\<rparr> 5 (timezone defaultStrftime (TzString ''-0730'')) ''%z'' (Some (Some 0))) = Inr ''-0730''"
proof -
  have "twoDigits 7 = ''07''" "twoDigits 30 = ''30''" by code_simp+
  then show ?thesis using timezone_roundtrip [of 7 30 "''-0730''" "CHR ''-''"] by simp
qed

section \<open>UTC\<close>

text \<open>The text of a time value in UTC.\<close>

definition isoText :: "int \<Rightarrow> string" where
  "isoText t =
     decInt (getUTCFullYear t) @ ''-'' @ twoDigits (nat (getUTCMonth t + 1)) @ ''-'' @ twoDigits (nat (getUTCDate t)) @ '' ''
       @ twoDigits (nat (getUTCHours t)) @ '':'' @ twoDigits (nat (getUTCMinutes t)) @ '':'' @ twoDigits (nat (getUTCSeconds t))"

lemma padTill2_nat: "0 \<le> n \<Longrightarrow> n < 100 \<Longrightarrow> padTill2 (Some n) PadNull = twoDigits (nat n)"
  using padTill2_twoDigits [of "nat n"] by simp

lemma utc_ranges:
  "0 \<le> getUTCMonth t + 1" "getUTCMonth t + 1 < 100" "0 \<le> getUTCDate t" "getUTCDate t < 100"
  "0 \<le> getUTCHours t" "getUTCHours t < 100" "0 \<le> getUTCMinutes t" "getUTCMinutes t < 100"
  "0 \<le> getUTCSeconds t" "getUTCSeconds t < 100"
proof -
  note d = date_of_day [of "t div msPerDay"]
  show "0 \<le> getUTCMonth t + 1" "getUTCMonth t + 1 < 100" "0 \<le> getUTCDate t" "getUTCDate t < 100"
    using d(1-4) MonthLength_range(2) [OF d(1,2)] by (simp_all add: getUTCMonth_def getUTCDate_def order_trans [OF d(4)] le_less_trans [OF d(4)] le_less_trans [OF MonthLength_range(2) [OF d(1,2)]])
  have m: "0 \<le> x mod k" "x mod k < 100" if "0 < k" "k \<le> 100" for x k :: int
    using that less_le_trans [OF pos_mod_bound [of k x], of 100] by simp_all
  show "0 \<le> getUTCHours t" "getUTCHours t < 100" "0 \<le> getUTCMinutes t" "getUTCMinutes t < 100"
    "0 \<le> getUTCSeconds t" "getUTCSeconds t < 100"
    unfolding getUTCHours_def getUTCMinutes_def getUTCSeconds_def by (rule m; simp)+
qed

text \<open>C29: the UTC formatter moves the date by the local offset and reads it in local time. It prints the
  UTC time exactly when the local offset is the same at the moved date; otherwise it is wrong by the
  difference, as around a change to or from daylight saving time.\<close>

theorem strftime_utc:
  assumes S: "sLocale S = DefaultLocale" "sOffset S = 0" and H: "2 \<le> hStack H"
    and t: "\<bar>t + hOffset H t * 60000\<bar> \<le> 8640000000000000"
  shows "snd (strftime H now (utc S) ''%F %T'' (Some (Some t)))
    = Inr (isoText (t + (hOffset H t - hOffset H (t + hOffset H t * 60000)) * 60000))"
proof -
  define d where "d = t + hOffset H t * 60000"
  define l where "l = t + (hOffset H t - hOffset H d) * 60000"
  obtain k where k: "hStack H = Suc (Suc k)" using H by (metis add_2_eq_Suc le_Suc_ex)
  have sh: "shifted H (utc S) (Some t) = Some d"
    using t by (simp add: shifted_def getTimestampToUtcOffsetFor_def TimeClip_def d_def utc_def Strftime_def S)
  have g: "getter H f (Some d) = Some (f l)" for f by (simp add: getter_def localMs_def d_def l_def algebra_simps)
  have F: "map_of (formats DefaultLocale) CHR ''F'' = Some ''%Y-%m-%d''" "map_of (formats DefaultLocale) CHR ''T'' = Some ''%H:%M:%S''"
    by (simp_all add: DefaultLocale_def)
  have n: "directive proc C CHR ''F'' = nested proc C CHR ''F''" "directive proc C CHR ''T'' = nested proc C CHR ''T''" for proc C
    by (simp_all add: directive_def directive_defs)
  have d: "processFormat (Suc k) C ''%Y-%m-%d'' = Inr (decInt (getUTCFullYear l) @ ''-'' @ twoDigits (nat (getUTCMonth l + 1)) @ ''-'' @ twoDigits (nat (getUTCDate l)))"
    and h: "processFormat (Suc k) C ''%H:%M:%S'' = Inr (twoDigits (nat (getUTCHours l)) @ '':'' @ twoDigits (nat (getUTCMinutes l)) @ '':'' @ twoDigits (nat (getUTCSeconds l)))"
    if "cHost C = H" "cDate C = Some d" for C
    using that by (simp_all add: g padTill2_nat utc_ranges showNum_def del: padTill2_def)
  have u: "sUtc (utc S)" "sLocale (utc S) = DefaultLocale" by (simp_all add: utc_def Strftime_def S)
  show ?thesis
    unfolding d_def [symmetric] l_def [symmetric]
    by (simp add: strftime_def sh run_def k n nested_def F processFormat.simps(2) [of "Suc k"] isoText_def u
        del: processFormat.simps) (simp add: d h del: processFormat.simps)
qed

theorem strftime_utc_witness:
  "snd (strftime \<lparr>hOffset = \<lambda>t. if t < 1000000 then 60 else 0, hInstant = Some, hString = \<lambda>t. '''', hStack = 9\<rparr> 5 (utc defaultStrftime) ''%F %T'' (Some (Some 0)))
    = Inr (isoText 3600000)"
proof -
  let ?H = "\<lparr>hOffset = \<lambda>t. if t < 1000000 then 60 else 0 :: int, hInstant = Some, hString = \<lambda>t. '''', hStack = 9\<rparr>"
  show ?thesis
    using strftime_utc [of defaultStrftime ?H 0 5] by (simp add: defaultStrftime_def Strftime_def)
qed

section \<open>Cases in which the output is not the documented one\<close>

text \<open>The flag \<^verbatim>\<open>:\<close> is not reset after the directive it precedes: a later \<^verbatim>\<open>%z\<close> is printed as \<^verbatim>\<open>%:z\<close>.\<close>

theorem extendedTZ_kept:
  assumes "sUtc S" "sOffset S = 0" "0 < hStack H"
  shows "snd (strftime H now S ''%:z %z'' (Some d)) = Inr ''+00:00 +00:00''"
proof -
  obtain k where "hStack H = Suc k" using assms by (cases "hStack H") auto
  then show ?thesis using assms by (simp add: strftime_def run_def zoneOffset_def)
qed

theorem extendedTZ_kept_witness:
  "snd (strftime \<lparr>hOffset = \<lambda>t. 300, hInstant = Some, hString = \<lambda>t. '''', hStack = 9\<rparr> 5 (utc defaultStrftime) ''%:z %z'' (Some (Some 0))) = Inr ''+00:00 +00:00''"
  by (rule extendedTZ_kept) (simp_all add: utc_def defaultStrftime_def Strftime_def)

text \<open>Without a date, the second call within a millisecond has no time stamp: \<^verbatim>\<open>%s\<close> prints \<^verbatim>\<open>NaN\<close>,
  whatever the first call printed.\<close>

theorem cached_timestamp_NaN:
  assumes "sCachedTimestamp S < now" "0 < hStack H"
  shows "snd (strftime H now (fst (strftime H now S format None)) ''%s'' None) = Inr ''NaN''"
proof -
  obtain k where "hStack H = Suc k" using assms by (cases "hStack H") auto
  then show ?thesis using assms(1) by (simp add: strftime_def Let_def run_def showNum_def)
qed

theorem cached_timestamp_NaN_witness:
  "snd (strftime \<lparr>hOffset = \<lambda>t. 0, hInstant = Some, hString = \<lambda>t. '''', hStack = 4\<rparr> 5
     (fst (strftime \<lparr>hOffset = \<lambda>t. 0, hInstant = Some, hString = \<lambda>t. '''', hStack = 4\<rparr> 5 defaultStrftime ''%s'' None)) ''%s'' None) = Inr ''NaN''"
  by (rule cached_timestamp_NaN) (simp_all add: defaultStrftime_def Strftime_def)

text \<open>\<^verbatim>\<open>%j\<close> rounds the days since the start of the year up: at midnight, local time, it is the
  number of the previous day, and \<^verbatim>\<open>000\<close> on the first of January.\<close>

theorem dayOfYear_midnight:
  assumes H: "hOffset H = (\<lambda>t. 0)" "hInstant H = Some" and d: "0 \<le> m" "m < 12" "1 \<le> d" "d \<le> MonthLength (InLeapYear y) m" "100 \<le> y"
    and t: "0 \<le> ms" "ms < msPerDay"
  shows "dayOfYear H (Some (MakeDate (MakeDay y m d) ms)) = Some (MonthStart (InLeapYear y) m + d - (if ms = 0 then 1 else 0))"
proof -
  have ge: "getFullYear H (Some (MakeDate (MakeDay y m d) ms)) = Some y"
    using t date_of_MakeDay(1) [OF d(1-4)] by (simp add: getter_def localMs_def H getUTCFullYear_def MakeDate_def)
  define n where "n = MonthStart (InLeapYear y) m + d - 1"
  have n: "0 \<le> n" "n < 366" using d MonthStart_range [OF d(1,2), of "InLeapYear y"] by (auto simp: n_def split: if_splits)
  have diff: "MakeDate (MakeDay y m d) ms - MakeDate (MakeDay y 0 1) 0 = n * 86400000 + ms"
    using d by (simp add: MakeDay_month MakeDate_def n_def msPerDay_def algebra_simps)
  have q: "- ((- (n * 86400000 + ms)) div 86400000) = (if ms = 0 then n else n + 1)"
  proof -
    have "(- (n * 86400000 + ms)) div 86400000 = (- ms) div 86400000 - n"
      using div_mult_self1 [of 86400000 "- ms" "- n"] by (simp add: algebra_simps)
    moreover have "(- ms) div 86400000 = (if ms = 0 then 0 else -1)"
      using t by (auto simp: msPerDay_def intro: int_div_neg_eq)
    ultimately show ?thesis by simp
  qed
  have "floorQuot (- (n * 86400000 + ms)) 86400000 = (- (n * 86400000 + ms)) div 86400000"
    using n t by (intro floorQuot_safe) (auto simp: msPerDay_def)
  then have f: "- floorQuot (- (n * 86400000 + ms)) 86400000 = n + 1 - (if ms = 0 then 1 else 0)"
    using q by (simp only:) simp
  have y: "fullYear y = y" using d(5) by (simp add: fullYear_def)
  have c: "1000 * 60 * 60 * 24 = (86400000 :: int)" by simp
  show ?thesis
    unfolding dayOfYear_def bind.simps ge H y diff c f by (simp add: n_def)
qed

theorem dayOfYear_midnight_witness:
  "dayOfYear \<lparr>hOffset = \<lambda>t. 0, hInstant = Some, hString = \<lambda>t. '''', hStack = 9\<rparr> (Some (MakeDate (MakeDay 2024 0 1) 0)) = Some 0"
  using dayOfYear_midnight [of "\<lparr>hOffset = \<lambda>t. 0, hInstant = Some, hString = \<lambda>t. '''', hStack = 9\<rparr>" 0 1 2024 0]
  by (simp add: MonthLength_def msPerDay_def)

section \<open>Week numbers\<close>

lemma card_multiples:
  fixes a b :: int
  assumes "a \<le> b + 1"
  shows "int (card {x \<in> {a..b}. x mod 7 = 0}) = b div 7 - (a - 1) div 7"
proof -
  have "{x \<in> {a..b}. x mod 7 = 0} = (*) 7 ` {(a - 1) div 7 + 1..b div 7}"
  proof (rule set_eqI)
    fix x :: int
    show "x \<in> {x \<in> {a..b}. x mod 7 = 0} \<longleftrightarrow> x \<in> (*) 7 ` {(a - 1) div 7 + 1..b div 7}"
    proof (cases "x mod 7 = 0")
      case True
      then obtain k where k: "x = 7 * k" by (auto elim: dvdE simp: mod_eq_0_iff_dvd)
      have "a \<le> 7 * k \<longleftrightarrow> (a - 1) div 7 + 1 \<le> k" "7 * k \<le> b \<longleftrightarrow> k \<le> b div 7" by presburger+
      then show ?thesis using True by (auto simp: k)
    next
      case False
      then show ?thesis by auto
    qed
  qed
  moreover have "card ((*) 7 ` {(a - 1) div 7 + 1..b div 7}) = card {(a - 1) div 7 + 1..b div 7}"
    by (rule card_image) (simp add: inj_on_def)
  moreover have "(a - 1) div 7 \<le> b div 7" using assms by (intro zdiv_mono1) auto
  ultimately show ?thesis by simp
qed

lemma card_weekdays:
  fixes J D k :: int
  assumes "J \<le> D"
  shows "int (card {x \<in> {J..D}. (x + k) mod 7 = 0}) = (D - J + 7 - (D + k) mod 7) div 7"
proof -
  have "{x \<in> {J..D}. (x + k) mod 7 = 0} = (\<lambda>x. x - k) ` {x \<in> {J + k..D + k}. x mod 7 = 0}"
  proof (rule set_eqI)
    fix x
    show "x \<in> {x \<in> {J..D}. (x + k) mod 7 = 0} \<longleftrightarrow> x \<in> (\<lambda>x. x - k) ` {x \<in> {J + k..D + k}. x mod 7 = 0}"
      by (auto simp: image_iff intro: exI [where x = "x + k"])
  qed
  moreover have "card ((\<lambda>x. x - k) ` {x \<in> {J + k..D + k}. x mod 7 = 0}) = card {x \<in> {J + k..D + k}. x mod 7 = 0}"
    by (rule card_image) (simp add: inj_on_def)
  moreover have "(D + k) div 7 - (J + k - 1) div 7 = (D - J + 7 - (D + k) mod 7) div 7"
  proof -
    have "D + k = 7 * ((D + k) div 7) + (D + k) mod 7" by simp
    then have e: "D - J + 7 - (D + k) mod 7 = (7 - (J + k)) + 7 * ((D + k) div 7)" by linarith
    have "(D - J + 7 - (D + k) mod 7) div 7 = ((7 - (J + k)) + 7 * ((D + k) div 7)) div 7" by (simp only: e)
    also have "\<dots> = (7 - (J + k)) div 7 + (D + k) div 7" by simp
    also have "(7 - (J + k)) div 7 = - ((J + k - 1) div 7)" 
    proof -
      have "(7 - x) div 7 = - ((x - 1) div 7)" for x :: int by presburger
      then show ?thesis .
    qed
    finally show ?thesis by linarith
  qed
  ultimately show ?thesis using card_multiples [of "J + k" "D + k"] assms by simp
qed

text \<open>C26: \<^verbatim>\<open>%U\<close> is the number of Sundays, \<^verbatim>\<open>%W\<close> the number of Mondays, of the year up to the date.
  (Day 0, the first of January 1970, is a Thursday.)\<close>

theorem weekNumber_counts:
  assumes D: "D = localMs H t div msPerDay" and J: "J = MakeDay (YearFromDay D) 0 1"
    and y: "100 \<le> YearFromDay D" "YearFromDay D \<le> 200000"
  shows "weekNumber H (Some t) monday
    = Some (int (card {x \<in> {J..D}. (x + 4) mod 7 = (if monday then 1 else 0)}))"
proof -
  define Y where "Y = YearFromDay D"
  have J': "J = DayFromYear Y" by (simp add: J Y_def MakeDay_month)
  have le: "J \<le> D" "D - J < 366"
    using YearFromDay_bounds [of D] DayFromYear_Suc [of Y] by (auto simp: J' Y_def DaysInYear_def split: if_splits)
  have b: "\<bar>J\<bar> < 99000000"
  proof -
    have "DayFromYear 100 = - 683003" "DayFromYear 200000 = 72328972" by code_simp+
    moreover have "DayFromYear 100 \<le> DayFromYear Y" "DayFromYear Y \<le> DayFromYear 200000"
      using y DayFromYear_strict_mono [of 100 Y] DayFromYear_strict_mono [of Y 200000] by (auto simp: Y_def le_less)
    ultimately show ?thesis by (simp add: J')
  qed
  have tc: "TimeClip (MakeDate J 0) = Some (J * msPerDay)" "TimeClip (MakeDate D 0) = Some (D * msPerDay)"
    using b le by (auto simp: TimeClip_def MakeDate_def msPerDay_def)
  have fy: "fullYear Y = Y" using y by (simp add: fullYear_def Y_def)
  have u: "DateUTC (Some Y) 0 1 = Some (J * msPerDay)" "DateUTC (Some Y) (MonthFromDay D) (DateFromDay D) = Some (D * msPerDay)"
    using tc date_of_day(5) [of D] J fy unfolding Y_def [symmetric] by (simp_all add: DateUTC_def)
  have g: "getFullYear H (Some t) = Some Y" "getMonth H (Some t) = Some (MonthFromDay D)" "getDate H (Some t) = Some (DateFromDay D)"
    "getDay H (Some t) = Some ((D + 4) mod 7)"
    by (simp_all add: getter_def getUTCFullYear_def getUTCMonth_def getUTCDate_def D Y_def)
  have f: "floorQuot (D * msPerDay - J * msPerDay) 86400000 = D - J"
  proof -
    have "D * msPerDay - J * msPerDay = (D - J) * 86400000" by (simp add: msPerDay_def algebra_simps)
    then show ?thesis using le by (simp add: floorQuot_safe)
  qed
  have r: "0 \<le> (D + 4) mod 7" "(D + 4) mod 7 < 7" by simp_all
  have w: "(if monday then if (D + 4) mod 7 = 0 then 6 else (D + 4) mod 7 - 1 else (D + 4) mod 7)
      = (D + (if monday then 3 else 4)) mod 7" (is "?w = _")
    by (auto; presburger)
  have q: "floorQuot (D - J + 7 - (D + (if monday then 3 else 4)) mod 7) 7 = (D - J + 7 - (D + (if monday then 3 else 4)) mod 7) div 7"
    using le pos_mod_bound [of 7 "D + (if monday then 3 else 4)"] pos_mod_sign [of 7 "D + (if monday then 3 else 4)"]
    by (intro floorQuot_safe) (auto simp del: pos_mod_bound pos_mod_sign)
  have s: "{x \<in> {J..D}. (x + 4) mod 7 = (if monday then 1 else 0)} = {x \<in> {J..D}. (x + (if monday then 3 else 4)) mod 7 = 0}"
    by (auto; presburger)
  show ?thesis
    unfolding weekNumber_def g bind.simps Let_def u f w q s
    using card_weekdays [OF le(1), of "if monday then 3 else 4"] by simp
qed

theorem weekNumber_counts_witness:
  "weekNumber \<lparr>hOffset = \<lambda>t. 0, hInstant = Some, hString = \<lambda>t. '''', hStack = 9\<rparr> (Some 0) True
    = Some (int (card {x \<in> {0..0 :: int}. (x + 4) mod 7 = 1}))"
proof -
  have "YearFromDay 0 = 1970" "MakeDay 1970 0 1 = 0" by code_simp+
  then show ?thesis
    using weekNumber_counts [of 0 "\<lparr>hOffset = \<lambda>t. 0, hInstant = Some, hString = \<lambda>t. '''', hStack = 9\<rparr>" 0 0 True]
    by (simp add: localMs_def)
qed

end
