(* ===== verification/Js_Regex.thy ===== *)
theory Js_Regex imports Js_String "HOL-Library.Sublist" begin

text \<open>
  Regular expressions of JavaScript: the backtracking matchers of the language specification
  with continuations, capture groups, greedy repetitions that refuse empty rounds and clear
  the groups inside, a lazy option, and the assertions the code uses. An expression that starts with \<^verbatim>\<open>^\<close> is
  run at the start of the string only.
\<close>

section \<open>Matching\<close>

datatype rx =
    Eps
  | One "char \<Rightarrow> bool"
  | Seq rx rx
  | Alt rx rx
  | Rep nat "nat option" rx
  | LazyOpt rx
  | Grp nat rx
  | AtEnd
  | NotAtEnd

type_synonym captures = "nat \<Rightarrow> string option"
type_synonym rx_state = "string \<times> captures"

primrec groups :: "rx \<Rightarrow> nat list" where
  "groups Eps = []"
| "groups (One P) = []"
| "groups (Seq a b) = groups a @ groups b"
| "groups (Alt a b) = groups a @ groups b"
| "groups (Rep lo hi a) = groups a"
| "groups (LazyOpt a) = groups a"
| "groups (Grp n a) = n # groups a"
| "groups AtEnd = []"
| "groups NotAtEnd = []"

definition clear :: "nat list \<Rightarrow> rx_state \<Rightarrow> rx_state" where
  "clear gs x = (fst x, \<lambda>i. if i \<in> set gs then None else snd x i)"

text \<open>At most \<open>n\<close> rounds: those that are required, and one for each character left.\<close>

fun rounds ::
  "nat \<Rightarrow> nat list \<Rightarrow> ((rx_state \<Rightarrow> rx_state option) \<Rightarrow> rx_state \<Rightarrow> rx_state option) \<Rightarrow> nat \<Rightarrow> nat option
    \<Rightarrow> (rx_state \<Rightarrow> rx_state option) \<Rightarrow> rx_state \<Rightarrow> rx_state option" where
  "rounds 0 gs f lo hi k x = (if lo = 0 then k x else None)"
| "rounds (Suc n) gs f lo hi k x =
     (if hi = Some 0 then k x
      else case f (\<lambda>y. if lo = 0 \<and> fst y = fst x then None
                       else rounds n gs f (lo - 1) (map_option (\<lambda>h. h - 1) hi) k y) (clear gs x) of
             Some r \<Rightarrow> Some r
           | None \<Rightarrow> if lo = 0 then k x else None)"

primrec matcher :: "rx \<Rightarrow> (rx_state \<Rightarrow> rx_state option) \<Rightarrow> rx_state \<Rightarrow> rx_state option" where
  "matcher Eps k x = k x"
| "matcher (One P) k x = (case fst x of [] \<Rightarrow> None | c # s \<Rightarrow> if P c then k (s, snd x) else None)"
| "matcher (Seq a b) k x = matcher a (matcher b k) x"
| "matcher (Alt a b) k x = (case matcher a k x of Some r \<Rightarrow> Some r | None \<Rightarrow> matcher b k x)"
| "matcher (Rep lo hi a) k x = rounds (lo + length (fst x)) (groups a) (matcher a) lo hi k x"
| "matcher (LazyOpt a) k x =
     (case k x of Some r \<Rightarrow> Some r
      | None \<Rightarrow> matcher a (\<lambda>y. if fst y = fst x then None else k y) (clear (groups a) x))"
| "matcher (Grp n a) k x =
     matcher a (\<lambda>y. k (fst y, (snd y)(n := Some (take (length (fst x) - length (fst y)) (fst x))))) x"
| "matcher AtEnd k x = (if fst x = [] then k x else None)"
| "matcher NotAtEnd k x = (if fst x = [] then None else k x)"

definition exec :: "rx \<Rightarrow> string \<Rightarrow> rx_state option" where
  "exec r s = matcher r Some (s, \<lambda>_. None)"

text \<open>\<^verbatim>\<open>s.matchAll(r)\<close> for an expression that does not match the empty string; \<^verbatim>\<open>r.test(s)\<close> of one
  that is not anchored.\<close>

function matchAll :: "rx \<Rightarrow> string \<Rightarrow> captures list" where
  "matchAll r s =
     (case exec r s of
        Some (t, c) \<Rightarrow> if length t < length s then c # matchAll r t else if s = [] then [] else matchAll r (tl s)
      | None \<Rightarrow> if s = [] then [] else matchAll r (tl s))"
  by auto
termination by (relation "measure (\<lambda>(r, s). length s)") auto

declare matchAll.simps [simp del]

fun occurs :: "rx \<Rightarrow> string \<Rightarrow> bool" where
  "occurs r [] = (exec r [] \<noteq> None)"
| "occurs r (c # s) = (exec r (c # s) \<noteq> None \<or> occurs r s)"

section \<open>Expressions\<close>

abbreviation opt :: "rx \<Rightarrow> rx" where "opt r \<equiv> Rep 0 (Some 1) r"
abbreviation star :: "rx \<Rightarrow> rx" where "star r \<equiv> Rep 0 None r"
abbreviation plus1 :: "rx \<Rightarrow> rx" where "plus1 r \<equiv> Rep 1 None r"
abbreviation times :: "nat \<Rightarrow> rx \<Rightarrow> rx" where "times n r \<equiv> Rep n (Some n) r"
abbreviation upTo :: "nat \<Rightarrow> nat \<Rightarrow> rx \<Rightarrow> rx" where "upTo m n r \<equiv> Rep m (Some n) r"

definition chr :: "char \<Rightarrow> rx" where "chr c = One (\<lambda>x. x = c)"
definition anyOf :: "string \<Rightarrow> rx" where "anyOf cs = One (\<lambda>x. x \<in> set cs)"
definition digit :: rx where "digit = One isDigit"

definition between :: "char \<Rightarrow> char \<Rightarrow> char \<Rightarrow> bool" where
  "between a b c \<longleftrightarrow> (of_char a :: nat) \<le> of_char c \<and> (of_char c :: nat) \<le> of_char b"

definition isAlpha :: "char \<Rightarrow> bool" where
  "isAlpha c \<longleftrightarrow> between CHR ''A'' CHR ''Z'' c \<or> between CHR ''a'' CHR ''z'' c"

primrec word :: "string \<Rightarrow> rx" where
  "word [] = Eps"
| "word (c # s) = Seq (chr c) (word s)"

primrec seqs :: "rx list \<Rightarrow> rx" where
  "seqs [] = Eps"
| "seqs (r # rs) = Seq r (seqs rs)"

fun alts :: "rx list \<Rightarrow> rx" where
  "alts [] = One (\<lambda>_. False)"
| "alts [r] = r"
| "alts (r # rs) = Alt r (alts rs)"

text \<open>The flag \<^verbatim>\<open>i\<close>: a class of ASCII characters takes both cases of its letters.\<close>

definition otherCase :: "char \<Rightarrow> char" where
  "otherCase c =
     (if between CHR ''A'' CHR ''Z'' c then char_of (of_char c + 32 :: nat)
      else if between CHR ''a'' CHR ''z'' c then char_of (of_char c - 32 :: nat) else c)"

primrec ignoreCase :: "rx \<Rightarrow> rx" where
  "ignoreCase Eps = Eps"
| "ignoreCase (One P) = One (\<lambda>c. P c \<or> P (otherCase c))"
| "ignoreCase (Seq a b) = Seq (ignoreCase a) (ignoreCase b)"
| "ignoreCase (Alt a b) = Alt (ignoreCase a) (ignoreCase b)"
| "ignoreCase (Rep lo hi a) = Rep lo hi (ignoreCase a)"
| "ignoreCase (LazyOpt a) = LazyOpt (ignoreCase a)"
| "ignoreCase (Grp n a) = Grp n (ignoreCase a)"
| "ignoreCase AtEnd = AtEnd"
| "ignoreCase NotAtEnd = NotAtEnd"

section \<open>The first way to match\<close>

text \<open>
  \<open>takes r x y\<close>: whatever follows, the matcher tries \<open>y\<close> first, so that if the rest
  succeeds there the result is that one. \<open>rejects r x\<close>: there is no way to match.
\<close>

definition takes :: "rx \<Rightarrow> rx_state \<Rightarrow> rx_state \<Rightarrow> bool" where
  "takes r x y \<longleftrightarrow> (\<forall>k z. k y = Some z \<longrightarrow> matcher r k x = Some z)"

definition rejects :: "rx \<Rightarrow> rx_state \<Rightarrow> bool" where
  "rejects r x \<longleftrightarrow> (\<forall>k. matcher r k x = None)"

named_theorems rx

lemma exec_takes: "takes r (s, \<lambda>_. None) y \<Longrightarrow> exec r s = Some y"
  unfolding takes_def exec_def by blast

lemma exec_rejects: "rejects r (s, \<lambda>_. None) \<Longrightarrow> exec r s = None"
  by (simp add: rejects_def exec_def)

lemma takes_Eps [rx]: "takes Eps x x"
  by (simp add: takes_def)

lemma takes_One [rx]: "P c \<Longrightarrow> takes (One P) (c # s, m) (s, m)"
  by (simp add: takes_def)

lemma takes_AtEnd [rx]: "takes AtEnd ([], m) ([], m)"
  by (simp add: takes_def)

lemma takes_NotAtEnd [rx]: "takes NotAtEnd (c # s, m) (c # s, m)"
  by (simp add: takes_def)

lemma takes_Seq: "takes a x y \<Longrightarrow> takes b y z \<Longrightarrow> takes (Seq a b) x z"
  by (simp add: takes_def)

lemma takes_Alt1: "takes a x y \<Longrightarrow> takes (Alt a b) x y"
  by (simp add: takes_def)

lemma takes_Alt2: "rejects a x \<Longrightarrow> takes b x y \<Longrightarrow> takes (Alt a b) x y"
  by (simp add: takes_def rejects_def)

lemma takes_Grp:
  "takes a (s @ t, m) (t, m') \<Longrightarrow> takes (Grp n a) (s @ t, m) (t, m'(n := Some s))"
  by (simp add: takes_def)

lemma rejects_One: "\<not> P c \<Longrightarrow> rejects (One P) (c # s, m)"
  by (simp add: rejects_def)

lemma rejects_One_Nil: "rejects (One P) ([], m)"
  by (simp add: rejects_def)

lemma rejects_Seq: "rejects a x \<Longrightarrow> rejects (Seq a b) x"
  by (simp add: rejects_def)

lemma rejects_Alt: "rejects a x \<Longrightarrow> rejects b x \<Longrightarrow> rejects (Alt a b) x"
  by (simp add: rejects_def)

lemma rejects_Grp: "rejects a x \<Longrightarrow> rejects (Grp n a) x"
  by (simp add: rejects_def)

lemma rejects_AtEnd: "rejects AtEnd (c # s, m)"
  by (simp add: rejects_def)

lemma rejects_Rep:
  assumes "rejects a (clear (groups a) x)" "0 < lo" "hi \<noteq> Some 0"
  shows "rejects (Rep lo hi a) x"
  using assms by (cases lo) (simp_all add: rejects_def)

text \<open>A matcher calls its continuation on what is left of the string only, so more rounds than
  \<open>rounds\<close> is given change nothing.\<close>

lemma rounds_cong:
  assumes f: "\<And>k k' x. (\<And>y. suffix (fst y) (fst x) \<Longrightarrow> k y = k' y) \<Longrightarrow> f k x = f k' x"
    and "\<And>y. suffix (fst y) (fst x) \<Longrightarrow> k y = k' y"
  shows "rounds n gs f lo hi k x = rounds n gs f lo hi k' x"
  using assms(2)
proof (induction n arbitrary: lo hi x)
  case (Suc n)
  have "rounds n gs f lo hi k y = rounds n gs f lo hi k' y" if "suffix (fst y) (fst x)" for lo hi y
    using that Suc.prems by (intro Suc.IH) (blast intro: suffix_order.trans)
  then have "f (\<lambda>y. if lo = 0 \<and> fst y = fst x then None else rounds n gs f (lo - 1) (map_option (\<lambda>h. h - 1) hi) k y) (clear gs x)
      = f (\<lambda>y. if lo = 0 \<and> fst y = fst x then None else rounds n gs f (lo - 1) (map_option (\<lambda>h. h - 1) hi) k' y) (clear gs x)"
    by (intro f) (simp add: clear_def)
  moreover have "k x = k' x" using Suc.prems by simp
  ultimately show ?case by (simp only: rounds.simps)
qed simp

lemma matcher_cong:
  "(\<And>y. suffix (fst y) (fst x) \<Longrightarrow> k y = k' y) \<Longrightarrow> matcher r k x = matcher r k' x"
proof (induction r arbitrary: k k' x)
  case (One P)
  show ?case
  proof (cases "fst x")
    case (Cons c s)
    then have "k (s, snd x) = k' (s, snd x)" by (intro One) (simp add: suffix_ConsI)
    then show ?thesis using Cons by simp
  qed simp
next
  case (Seq a b)
  show ?case unfolding matcher.simps
    by (rule Seq.IH(1), rule Seq.IH(2)) (use Seq.prems in \<open>blast intro: suffix_order.trans\<close>)
next
  case (Alt a b)
  have "matcher a k x = matcher a k' x" "matcher b k x = matcher b k' x" using Alt by blast+
  then show ?case by (simp only: matcher.simps)
next
  case (Rep lo hi a)
  show ?case unfolding matcher.simps by (rule rounds_cong, rule Rep.IH) (blast intro: Rep.prems)+
next
  case (LazyOpt a)
  have "matcher a (\<lambda>y. if fst y = fst x then None else k y) (clear (groups a) x)
      = matcher a (\<lambda>y. if fst y = fst x then None else k' y) (clear (groups a) x)"
    by (rule LazyOpt.IH) (use LazyOpt.prems in \<open>simp add: clear_def\<close>)
  moreover have "k x = k' x" by (rule LazyOpt.prems) simp
  ultimately show ?case by (simp only: matcher.simps)
next
  case (Grp n a)
  show ?case unfolding matcher.simps by (rule Grp.IH) (simp add: Grp.prems)
next
  case Eps
  have "k x = k' x" by (rule Eps) simp
  then show ?case by (simp only: matcher.simps)
next
  case AtEnd
  have "k x = k' x" by (rule AtEnd) simp
  then show ?case by (simp only: matcher.simps)
next
  case NotAtEnd
  have "k x = k' x" by (rule NotAtEnd) simp
  then show ?case by (simp only: matcher.simps)
qed

lemma rounds_None: "(\<And>x. f (\<lambda>_. None) x = None) \<Longrightarrow> rounds n gs f lo hi (\<lambda>_. None) x = None"
  by (induction n arbitrary: lo hi x) (simp_all cong: if_cong)

lemma matcher_None: "matcher r (\<lambda>_. None) x = None"
proof (induction r arbitrary: x)
  case (Seq a b)
  have "matcher b (\<lambda>_. None) = (\<lambda>_. None)" using Seq by blast
  then show ?case using Seq by simp
qed (simp_all add: rounds_None split: list.split cong: if_cong)

definition nextRound where
  "nextRound n gs a lo hi k x =
     matcher a (\<lambda>y. if lo = 0 \<and> fst y = fst x then None else rounds n gs (matcher a) (lo - 1) (map_option (\<lambda>h. h - 1) hi) k y) (clear gs x)"

lemma nextRound_Nil: "lo = 0 \<Longrightarrow> fst x = [] \<Longrightarrow> nextRound n gs a lo hi k x = None"
proof -
  assume a: "lo = 0" "fst x = []"
  then have "nextRound n gs a lo hi k x = matcher a (\<lambda>_. None) (clear gs x)"
    unfolding nextRound_def by (intro matcher_cong) (simp add: clear_def)
  then show ?thesis by (simp add: matcher_None)
qed

lemma rounds_Suc:
  "rounds (Suc n) gs (matcher a) lo hi k x =
     (if hi = Some 0 then k x else case nextRound n gs a lo hi k x of Some r \<Rightarrow> Some r | None \<Rightarrow> if lo = 0 then k x else None)"
  by (simp add: nextRound_def)

lemma suffix_shorter: "suffix s t \<Longrightarrow> s \<noteq> t \<Longrightarrow> length s < length t"
  by (auto simp: suffix_def)

lemma rounds_enough:
  assumes "lo + length (fst x) \<le> n" "lo + length (fst x) \<le> m"
  shows "rounds n gs (matcher a) lo hi k x = rounds m gs (matcher a) lo hi k x"
  using assms
proof (induction n arbitrary: m lo hi x)
  case 0
  then show ?case by (cases m) (simp_all add: rounds_Suc nextRound_Nil del: rounds.simps(2))
next
  case (Suc n)
  show ?case
  proof (cases m)
    case 0
    then show ?thesis using Suc.prems by (simp add: rounds_Suc nextRound_Nil del: rounds.simps(2))
  next
    case m: (Suc m')
    have "rounds n gs (matcher a) (lo - 1) hi' k y = rounds m' gs (matcher a) (lo - 1) hi' k y"
      if y: "suffix (fst y) (fst x)" "\<not> (lo = 0 \<and> fst y = fst x)" for y hi'
    proof -
      have "length (fst y) \<le> length (fst x)" "lo = 0 \<Longrightarrow> length (fst y) < length (fst x)"
        using y suffix_shorter [OF y(1)] suffix_length_le [OF y(1)] by auto
      then show ?thesis using Suc.prems m by (intro Suc.IH) (cases lo; simp)+
    qed
    then have "nextRound n gs a lo hi k x = nextRound m' gs a lo hi k x"
      unfolding nextRound_def by (intro matcher_cong) (auto simp: clear_def)
    then show ?thesis unfolding m rounds_Suc by (simp only:)
  qed
qed

lemma takes_suffix: "takes r x y \<Longrightarrow> suffix (fst y) (fst x)"
proof (rule ccontr)
  assume t: "takes r x y" and n: "\<not> suffix (fst y) (fst x)"
  have "matcher r (\<lambda>z. if suffix (fst z) (fst x) then None else Some z) x = matcher r (\<lambda>_. None) x"
    by (rule matcher_cong) simp
  then show False using t n unfolding takes_def by (simp add: matcher_None)
qed

lemma takes_Rep_stop:
  "hi = Some 0 \<or> rejects a (clear (groups a) x) \<Longrightarrow> takes (Rep 0 hi a) x x"
  by (cases "fst x") (auto simp: takes_def rejects_def)

lemma takes_Rep_step:
  assumes a: "takes a (clear (groups a) x) y" and r: "takes (Rep (lo - 1) (map_option (\<lambda>h. h - 1) hi) a) y z"
    and h: "hi \<noteq> Some 0" and e: "lo = 0 \<Longrightarrow> fst y \<noteq> fst x"
  shows "takes (Rep lo hi a) x z"
  unfolding takes_def
proof (intro allI impI)
  fix k :: "rx_state \<Rightarrow> rx_state option" and w assume w: "k z = Some w"
  have s: "suffix (fst y) (fst x)" using takes_suffix [OF a] by (simp add: clear_def)
  then have l: "length (fst y) \<le> length (fst x)" "lo = 0 \<Longrightarrow> length (fst y) < length (fst x)"
    using e suffix_shorter [OF s] suffix_length_le [OF s] by auto
  show "matcher (Rep lo hi a) k x = Some w"
  proof (cases "lo + length (fst x)")
    case 0
    then show ?thesis using l by simp
  next
    case (Suc n)
    have "matcher (Rep (lo - 1) (map_option (\<lambda>h. h - 1) hi) a) k y = Some w"
      using r w unfolding takes_def by blast
    moreover have "lo - 1 + length (fst y) \<le> n" using l Suc by (cases lo) auto
    ultimately have "rounds n (groups a) (matcher a) (lo - 1) (map_option (\<lambda>h. h - 1) hi) k y = Some w"
      unfolding matcher.simps by (subst rounds_enough [of _ _ n "lo - 1 + length (fst y)"]) auto
    then have "nextRound n (groups a) a lo hi k x = Some w"
      unfolding nextRound_def using e by (intro a [unfolded takes_def, rule_format]) auto
    then show ?thesis using h by (simp add: Suc rounds_Suc del: rounds.simps)
  qed
qed

lemma clear_Nil [simp]: "clear [] x = x"
  by (simp add: clear_def)

text \<open>A repeated class takes all characters of the class, up to the bound.\<close>

lemma takes_Rep_One:
  assumes "list_all P ds" "lo \<le> length ds" "case hi of None \<Rightarrow> True | Some h \<Rightarrow> length ds \<le> h"
    and "hi = Some (length ds) \<or> s = [] \<or> \<not> P (hd s)"
  shows "takes (Rep lo hi (One P)) (ds @ s, m) (s, m)"
  using assms
proof (induction ds arbitrary: lo hi)
  case Nil
  have "hi = Some 0 \<or> rejects (One P) (s, m)"
    using Nil by (cases s) (auto intro: rejects_One rejects_One_Nil)
  then show ?case using Nil by (auto intro: takes_Rep_stop)
next
  case (Cons c ds)
  show ?case
  proof (rule takes_Rep_step)
    show "takes (One P) (clear (groups (One P)) ((c # ds) @ s, m)) (ds @ s, m)" using Cons.prems by (simp add: takes_One)
    show "takes (Rep (lo - 1) (map_option (\<lambda>h. h - 1) hi) (One P)) (ds @ s, m) (s, m)"
      using Cons.prems by (intro Cons.IH) (auto split: option.splits)
    show "hi \<noteq> Some 0" using Cons.prems by auto
  qed simp
qed

end
