(* ===== verification/Iso_String.thy ===== *)
theory Iso_String imports Duration_Round begin

text \<open>
  The strings of the Temporal objects: \<^verbatim>\<open>ISOYearString\<close>, \<^verbatim>\<open>FormatSecondsStringPart\<close>, the offsets of
  time zones and the \<^verbatim>\<open>Temporal...ToString\<close> functions of \<^verbatim>\<open>temporal-polyfill.js\<close>. The identifiers
  of a calendar and a time zone, which may be objects of the program, are parameters.
\<close>

section \<open>Parts\<close>

definition ISOYearString :: "int \<Rightarrow> string" where
  "ISOYearString e =
     (if e < 0 \<or> e > 9999 then (if e < 0 then ''-'' else ''+'') @ sliceLast 6 (''000000'' @ decInt \<bar>e\<bar>)
      else sliceLast 4 (''0000'' @ decInt e))"

definition ISODateTimePartString :: "int \<Rightarrow> string" where
  "ISODateTimePartString e = sliceLast 2 (''00'' @ decInt e)"

definition FormatSecondsStringPart :: "int \<Rightarrow> int \<Rightarrow> int \<Rightarrow> int \<Rightarrow> precision \<Rightarrow> string" where
  "FormatSecondsStringPart e t r o1 n =
     (if n = PrecMinute then ''''
      else
        let a = '':'' @ ISODateTimePartString e;
            s = 1000000 * t + 1000 * r + o1
        in case n of
             PrecDigits d \<Rightarrow> if d = 0 then a else a @ ''.'' @ take (nat d) (padStart (decInt s) 9 CHR ''0'')
           | _ \<Rightarrow> if s = 0 then a else a @ ''.'' @ stripZeros (padStart (decInt s) 9 CHR ''0''))"

definition FormatCalendarAnnotation :: "string \<Rightarrow> calendar_name \<Rightarrow> string" where
  "FormatCalendarAnnotation e t =
     (if t = CalNever then ''''
      else if t = CalAuto \<and> e = ''iso8601'' then ''''
      else ''['' @ (if t = CalCritical then ''!'' else '''') @ ''u-ca='' @ e @ '']'')"

definition MaybeFormatCalendarAnnotation :: "string result \<Rightarrow> calendar_name \<Rightarrow> string result" where
  "MaybeFormatCalendarAnnotation e t = (if t = CalNever then Inr '''' else bindE e (\<lambda>e. Inr (FormatCalendarAnnotation e t)))"

section \<open>Offsets\<close>

definition FormatTimeZoneOffsetString :: "int \<Rightarrow> string" where
  "FormatTimeZoneOffsetString e =
     (let t = (if e < 0 then ''-'' else ''+'');
          r = \<bar>e\<bar>;
          o1 = tmod r 1000000000;
          n = tmod (floorQuot r 1000000000) 60;
          a = tmod (floorQuot r 60000000000) 60;
          i = ISODateTimePartString (floorQuot r 3600000000000);
          s = ISODateTimePartString a;
          l = ISODateTimePartString n;
          d = (if o1 \<noteq> 0 then '':'' @ l @ ''.'' @ stripZeros (padStart (decInt o1) 9 CHR ''0'')
               else if n \<noteq> 0 then '':'' @ l else '''')
      in t @ i @ '':'' @ s @ d)"

definition FormatISOTimeZoneOffsetString :: "int \<Rightarrow> string" where
  "FormatISOTimeZoneOffsetString t =
     (let r = toNumber (RoundNumberToIncrement t 60000000000 HalfExpand);
          o1 = (if r < 0 then ''-'' else ''+'');
          r = \<bar>r\<bar>;
          n = tmod (floorQuot r 60000000000) 60
      in o1 @ ISODateTimePartString (floorQuot r 3600000000000) @ '':'' @ ISODateTimePartString n)"

section \<open>Temporal objects\<close>

definition dateString :: "iso_date \<Rightarrow> string" where
  "dateString x = ISOYearString (year x) @ ''-'' @ ISODateTimePartString (month x) @ ''-'' @ ISODateTimePartString (day x)"

definition hourMinute :: "iso_time \<Rightarrow> string" where
  "hourMinute t = ISODateTimePartString (hour t) @ '':'' @ ISODateTimePartString (minute t)"

definition timeString :: "iso_time \<Rightarrow> precision \<Rightarrow> string" where
  "timeString t r = hourMinute t @ FormatSecondsStringPart (second t) (millisecond t) (microsecond t) (nanosecond t) r"

definition TemporalInstantToString :: "int \<Rightarrow> int \<Rightarrow> time_zone option \<Rightarrow> precision \<Rightarrow> string result" where
  "TemporalInstantToString now e t r =
     (let o1 = (case t of None \<Rightarrow> offsetZone now 0 | Some z \<Rightarrow> z)
      in bindE (GetPlainDateTimeFor now o1 e) (\<lambda>n.
         bindE (case t of None \<Rightarrow> Inr ''Z''
              | Some _ \<Rightarrow> bindE (GetOffsetNanosecondsFor o1 e) (\<lambda>x. Inr (FormatISOTimeZoneOffsetString x))) (\<lambda>g.
           Inr (dateString (dtDate n) @ ''T'' @ timeString (dtTime n) r @ g))))"

text \<open>A count of units and its letter, when it is not zero; all digits of a large count are printed.\<close>

definition durationPart :: "int \<Rightarrow> string \<Rightarrow> string" where
  "durationPart n u = (if n \<noteq> 0 then decInt \<bar>n\<bar> @ u else '''')"

definition TemporalDurationToString :: "int \<Rightarrow> duration \<Rightarrow> precision \<Rightarrow> (int \<times> tunit \<times> rounding_mode) option \<Rightarrow> string result" where
  "TemporalDurationToString now t r o1 =
     (let T = DurationSign (years t) (months t) (weeks t) (days t) (hours t) (minutes t) (seconds t)
                (milliseconds t) (microseconds t) (nanoseconds t);
          s = mkDuration 0 0 0 0 0 0 (seconds t) (milliseconds t) (microseconds t) (nanoseconds t)
      in bindE (case o1 of None \<Rightarrow> Inr s
              | Some (c, e, m) \<Rightarrow> bindE (RoundDuration now s c e m None) (\<lambda>(d, _). Inr d)) (\<lambda>s.
         let p = durationPart (years t) ''Y'' @ durationPart (months t) ''M'' @ durationPart (weeks t) ''W'' @ durationPart (days t) ''D'';
             f = durationPart (hours t) ''H'' @ durationPart (minutes t) ''M'';
             Y = TotalDurationNanoseconds 0 0 0 (seconds s) (milliseconds s) (microseconds s) (nanoseconds s) 0;
             (Y, I) = divmodBI Y 1000; (Y, S) = divmodBI Y 1000; (F, g) = divmodBI Y 1000;
             P = 1000000 * \<bar>g\<bar> + 1000 * \<bar>S\<bar> + \<bar>I\<bar>;
             Z = (case r of PrecAuto \<Rightarrow> if P \<noteq> 0 then stripZeros (padStart (decInt P) 9 CHR ''0'') else ''''
                  | PrecDigits d \<Rightarrow> if d \<noteq> 0 then take (nat d) (padStart (decInt P) 9 CHR ''0'') else ''''
                  | PrecMinute \<Rightarrow> '''');
             y = (if Z \<noteq> '''' then ''.'' @ Z else '''');
             y = (if F = 0 \<and> y = '''' \<and> r = PrecAuto then y else decInt (absBI F) @ y);
             f = (if y \<noteq> '''' then f @ y @ ''S'' else f);
             f = (if f \<noteq> '''' then ''T'' @ f else f)
         in Inr (if p \<noteq> '''' \<or> f \<noteq> '''' then (if T < 0 then ''-'' else '''') @ ''P'' @ p @ f else ''PT0S'')))"

definition TemporalDateToString :: "iso_date \<Rightarrow> string result \<Rightarrow> calendar_name \<Rightarrow> string result" where
  "TemporalDateToString e cal t =
     bindE (MaybeFormatCalendarAnnotation cal t) (\<lambda>c. Inr (dateString e @ c))"

definition TemporalDateTimeToString ::
  "int \<Rightarrow> iso_datetime \<Rightarrow> string result \<Rightarrow> precision \<Rightarrow> calendar_name \<Rightarrow> (int \<times> tunit \<times> rounding_mode) option \<Rightarrow> string result" where
  "TemporalDateTimeToString now e cal t r o1 =
     bindE (case o1 of None \<Rightarrow> Inr e
        | Some (c, u, m) \<Rightarrow>
            let x = dtDate e; y = dtTime e
            in RoundISODateTime (year x) (month x) (day x) (hour y) (minute y) (second y) (millisecond y)
              (microsecond y) (nanosecond y) c u m 86400000000000) (\<lambda>x.
     bindE (MaybeFormatCalendarAnnotation cal r) (\<lambda>c.
       Inr (dateString (dtDate x) @ ''T'' @ timeString (dtTime x) t @ c)))"

definition TemporalMonthDayToString :: "iso_date \<Rightarrow> string result \<Rightarrow> calendar_name \<Rightarrow> string result" where
  "TemporalMonthDayToString e cal t =
     (let r = ISODateTimePartString (month e) @ ''-'' @ ISODateTimePartString (day e)
      in bindE cal (\<lambda>o1.
         let r = (if t = CalAlways \<or> t = CalCritical \<or> o1 \<noteq> ''iso8601'' then ISOYearString (year e) @ ''-'' @ r else r)
         in Inr (r @ FormatCalendarAnnotation o1 t)))"

definition TemporalYearMonthToString :: "iso_date \<Rightarrow> string result \<Rightarrow> calendar_name \<Rightarrow> string result" where
  "TemporalYearMonthToString e cal t =
     (let r = ISOYearString (year e) @ ''-'' @ ISODateTimePartString (month e)
      in bindE cal (\<lambda>o1.
         let r = (if t = CalAlways \<or> t = CalCritical \<or> o1 \<noteq> ''iso8601'' then r @ ''-'' @ ISODateTimePartString (day e) else r)
         in Inr (r @ FormatCalendarAnnotation o1 t)))"

datatype show_name = ShowAuto | ShowNever | ShowCritical

definition TemporalZonedDateTimeToString ::
  "int \<Rightarrow> zoned \<Rightarrow> string result \<Rightarrow> string result \<Rightarrow> precision \<Rightarrow> calendar_name \<Rightarrow> show_name \<Rightarrow> show_name
    \<Rightarrow> (int \<times> tunit \<times> rounding_mode) option \<Rightarrow> string result" where
  "TemporalZonedDateTimeToString now e zoneId cal t r o1 a f =
     bindE (case f of None \<Rightarrow> Inr (zNs e)
        | Some (c, u, m) \<Rightarrow> bindE (RoundInstant (zNs e) c u m) newInstant) (\<lambda>y.
     bindE (GetPlainDateTimeFor now (zZone e) y) (\<lambda>w.
     bindE (if a \<noteq> ShowNever then bindE (GetOffsetNanosecondsFor (zZone e) y) (\<lambda>x. Inr (FormatISOTimeZoneOffsetString x))
            else Inr '''') (\<lambda>off.
     bindE (if o1 \<noteq> ShowNever then bindE zoneId (\<lambda>z. Inr (''['' @ (if o1 = ShowCritical then ''!'' else '''') @ z @ '']''))
            else Inr '''') (\<lambda>z.
     bindE (MaybeFormatCalendarAnnotation cal r) (\<lambda>c.
       Inr (dateString (dtDate w) @ ''T'' @ timeString (dtTime w) t @ off @ z @ c))))))"

section \<open>Two digits, four digits\<close>

definition digits :: "nat \<Rightarrow> nat \<Rightarrow> string" where
  "digits k n = padStart (decNat n) k CHR ''0''"

lemma digits_isDigit: "list_all isDigit (digits k n)"
  by (simp add: digits_def padStart_digits decNat_digits)

lemma valNat_digits [simp]: "valNat (digits k n) = n"
  by (simp add: digits_def)

lemma length_digits: "0 < k \<Longrightarrow> n < 10 ^ k \<Longrightarrow> length (digits k n) = k"
  using length_decNat [of k n] by (simp add: digits_def)

lemma ISODateTimePartString_digits: "0 \<le> e \<Longrightarrow> e < 100 \<Longrightarrow> ISODateTimePartString e = digits 2 (nat e)"
proof -
  assume e: "0 \<le> e" "e < 100"
  then have "length (decNat (nat e)) \<le> 2" by (intro length_decNat) auto
  from sliceLast_pad [OF this, of 2 "CHR ''0''"] show ?thesis
    using e by (simp add: ISODateTimePartString_def decInt_def digits_def numeral_2_eq_2)
qed

lemma ISOYearString_digits:
  assumes "\<bar>e\<bar> < 1000000"
  shows "ISOYearString e = (if 0 \<le> e \<and> e < 10000 then digits 4 (nat e)
    else (if e < 0 then CHR ''-'' else CHR ''+'') # digits 6 (nat \<bar>e\<bar>))"
proof (cases "0 \<le> e \<and> e < 10000")
  case True
  then have "length (decNat (nat e)) \<le> 4" by (intro length_decNat) auto
  from sliceLast_pad [OF this, of 4 "CHR ''0''"] show ?thesis
    using True by (simp add: ISOYearString_def decInt_def digits_def eval_nat_numeral)
next
  case False
  have "length (decNat (nat \<bar>e\<bar>)) \<le> 6" using assms by (intro length_decNat) auto
  from sliceLast_pad [OF this, of 6 "CHR ''0''"] show ?thesis
    using False by (auto simp: ISOYearString_def decInt_def digits_def eval_nat_numeral)
qed

end
