(* ===== verification/Iso_Parse.thy ===== *)
theory Iso_Parse imports Js_Regex Iso_String begin

text \<open>
  The grammar of ISO 8601 strings and the functions of \<^verbatim>\<open>temporal-polyfill.js\<close> that read them:
  dates and times, time-only strings, years and months, months and days, offsets, time zones,
  instants and durations. The minus sign U+2212, which the grammar takes for a hyphen, is
  outside the Latin-1 strings of the model. The names of time zones are checked by \<^verbatim>\<open>Intl\<close>,
  which is a parameter.
\<close>

section \<open>Grammar\<close>

text \<open>\<^verbatim>\<open>j\<close>, a part of the name of a time zone, and \<^verbatim>\<open>$\<close>, a name or an offset\<close>

definition alphaDash :: rx where "alphaDash = One (\<lambda>c. c = CHR ''-'' \<or> isAlpha c \<or> c = CHR ''_'')"
definition alphaDashDot :: rx where
  "alphaDashDot = One (\<lambda>c. c = CHR ''-'' \<or> isAlpha c \<or> c = CHR ''.'' \<or> c = CHR ''_'')"

definition rx_j :: rx where
  "rx_j = alts
     [Seq (chr CHR ''.'') alphaDash,
      seqs [chr CHR ''.'', chr CHR ''.'', upTo 1 12 alphaDashDot],
      seqs [chr CHR ''.'', alphaDash, upTo 0 12 alphaDashDot],
      Seq (One (\<lambda>c. isAlpha c \<or> c = CHR ''_'')) (upTo 0 13 alphaDashDot)]"

definition sign :: rx where "sign = anyOf ''+-''"

definition sixty :: rx where "sixty = Seq (anyOf ''012345'') digit"

definition separator :: rx where "separator = opt (chr CHR '':'')"

definition rx_tz :: rx where
  "rx_tz = alts
     [Seq rx_j (star (Seq (chr CHR ''/'') rx_j)),
      Seq (word ''Etc/GMT'') (Alt (chr CHR ''0'') (Seq (anyOf ''-+'') (upTo 1 2 digit))),
      seqs [word ''GMT'', opt (anyOf ''-+''), chr CHR ''0''],
      word ''EST5EDT'', word ''CST6CDT'', word ''MST7MDT'', word ''PST8PDT'',
      seqs [sign, anyOf ''012'', digit,
        opt (seqs [separator, sixty, opt (seqs [separator, sixty, opt (Seq (anyOf ''.,'') (upTo 1 9 digit))])])]]"

text \<open>\<^verbatim>\<open>k\<close>, \<^verbatim>\<open>U\<close>, \<^verbatim>\<open>A\<close>, \<^verbatim>\<open>L\<close>: years, months, days, dates\<close>

definition rx_year :: rx where "rx_year = Alt (Seq sign (times 6 digit)) (times 4 digit)"

definition rx_month :: rx where
  "rx_month = Alt (Seq (chr CHR ''0'') (One (between CHR ''1'' CHR ''9''))) (Seq (chr CHR ''1'') (anyOf ''012''))"

definition rx_day :: rx where
  "rx_day = alts [Seq (chr CHR ''0'') (One (between CHR ''1'' CHR ''9'')), Seq (anyOf ''12'') digit, Seq (chr CHR ''3'') (anyOf ''01'')]"

definition rx_date :: rx where
  "rx_date = Seq (Grp 1 rx_year)
     (Alt (seqs [chr CHR ''-'', Grp 2 rx_month, chr CHR ''-'', Grp 3 rx_day]) (Seq (Grp 4 rx_month) (Grp 5 rx_day)))"

text \<open>\<^verbatim>\<open>x\<close>, with groups from \<open>n\<close> on: a time; \<^verbatim>\<open>W\<close>: an offset; \<^verbatim>\<open>q\<close>: Z or an offset\<close>

definition twoDigit :: rx where "twoDigit = times 2 digit"

definition fraction :: "nat \<Rightarrow> rx" where "fraction n = opt (Seq (anyOf ''.,'') (Grp n (upTo 1 9 digit)))"

definition rx_time :: "nat \<Rightarrow> rx" where
  "rx_time n = Seq (Grp n twoDigit) (opt (Alt
     (seqs [chr CHR '':'', Grp (n + 1) twoDigit, opt (seqs [chr CHR '':'', Grp (n + 2) twoDigit, fraction (n + 3)])])
     (Seq (Grp (n + 4) twoDigit) (opt (Seq (Grp (n + 5) twoDigit) (fraction (n + 6)))))))"

definition hours24 :: rx where
  "hours24 = Alt (Seq (anyOf ''01'') digit) (Seq (chr CHR ''2'') (anyOf ''0123''))"

definition offsetMinutes :: "nat \<Rightarrow> rx" where
  "offsetMinutes n = seqs [separator, Grp n sixty, opt (seqs [separator, Grp (n + 1) sixty, fraction (n + 2)])]"

definition rx_offset :: "nat \<Rightarrow> rx" where
  "rx_offset n = seqs [Grp n sign, Grp (n + 1) hours24, opt (offsetMinutes (n + 2))]"

text \<open>The question mark that \<^verbatim>\<open>q\<close> appends to \<^verbatim>\<open>W\<close> makes the option at its end lazy.\<close>

definition rx_zone :: "nat \<Rightarrow> rx" where
  "rx_zone n = Alt (Grp n (anyOf ''zZ'')) (seqs [Grp (n + 1) sign, Grp (n + 2) hours24, LazyOpt (offsetMinutes (n + 3))])"

text \<open>\<^verbatim>\<open>H\<close>: an annotation in brackets\<close>

definition alnum :: "char \<Rightarrow> bool" where "alnum c \<longleftrightarrow> isAlpha c \<or> isDigit c"

definition rx_annotation :: "nat \<Rightarrow> rx" where
  "rx_annotation n = seqs [chr CHR ''['', opt (Grp n (chr CHR ''!'')),
     Grp (n + 1) (Seq (One (\<lambda>c. between CHR ''a'' CHR ''z'' c \<or> c = CHR ''_''))
       (star (One (\<lambda>c. between CHR ''a'' CHR ''z'' c \<or> isDigit c \<or> c = CHR ''_'' \<or> c = CHR ''-'')))),
     chr CHR ''='',
     Grp (n + 2) (Seq (plus1 (One alnum)) (star (Seq (chr CHR ''-'') (plus1 (One alnum))))),
     chr CHR '']'']"

definition annotations :: "nat \<Rightarrow> rx" where "annotations n = Grp n (star (rx_annotation (n + 1)))"

definition bracketed :: "rx \<Rightarrow> rx" where
  "bracketed r = opt (seqs [chr CHR ''['', opt (chr CHR ''!''), r, chr CHR '']''])"

text \<open>\<^verbatim>\<open>V\<close>, \<^verbatim>\<open>z\<close>, \<^verbatim>\<open>_\<close>, \<^verbatim>\<open>J\<close>, \<^verbatim>\<open>Q\<close>, \<^verbatim>\<open>ze\<close>: whole strings. \<^verbatim>\<open>\s\<close> is white space of the language.\<close>

definition white :: rx where "white = One isWhite"

definition rx_V :: rx where
  "rx_V = ignoreCase (seqs [rx_date,
     opt (seqs [Alt (chr CHR ''T'') (plus1 white), rx_time 6, opt (rx_zone 13)]),
     bracketed (Grp 19 rx_tz), annotations 20, AtEnd])"

definition rx_z :: rx where
  "rx_z = ignoreCase (seqs [opt (chr CHR ''T''), rx_time 1, opt (rx_zone 8), bracketed rx_tz, annotations 14, AtEnd])"

definition rx_yearMonth :: rx where
  "rx_yearMonth = seqs [Grp 1 rx_year, opt (chr CHR ''-''), Grp 2 rx_month, bracketed rx_tz, annotations 3, AtEnd]"

definition rx_monthDay :: rx where
  "rx_monthDay = seqs [opt (word ''--''), Grp 1 rx_month, opt (chr CHR ''-''), Grp 2 rx_day, bracketed rx_tz, annotations 3, AtEnd]"

definition counted :: "nat \<Rightarrow> char \<Rightarrow> rx" where
  "counted n c = opt (Seq (Grp n (plus1 digit)) (chr c))"

definition countedFraction :: "nat \<Rightarrow> char \<Rightarrow> rx" where
  "countedFraction n c = opt (seqs [Grp n (plus1 digit), opt (Seq (anyOf ''.,'') (Grp (n + 1) (upTo 1 9 digit))), chr c])"

definition rx_Q :: rx where
  "rx_Q = ignoreCase (seqs [opt (Grp 1 sign), chr CHR ''P'',
     counted 2 CHR ''Y'', counted 3 CHR ''M'', counted 4 CHR ''W'', counted 5 CHR ''D'',
     opt (seqs [chr CHR ''T'', NotAtEnd,
       countedFraction 6 CHR ''H'', countedFraction 8 CHR ''M'', countedFraction 10 CHR ''S'']),
     AtEnd])"

definition rx_ze :: rx where "rx_ze = Seq (rx_offset 1) AtEnd"

section \<open>Captured numbers\<close>

definition orElse :: "string option \<Rightarrow> string option \<Rightarrow> string option" where
  "orElse a b = (case a of None \<Rightarrow> b | Some s \<Rightarrow> if s = '''' then b else a)"

text \<open>\<^verbatim>\<open>ToIntegerOrInfinity\<close> of a group: \<^verbatim>\<open>undefined\<close> is 0; the groups are short, so that their value
  is finite.\<close>

definition captureInt :: "string option \<Rightarrow> int" where
  "captureInt c = (case ToIntegerOrInfinity (case c of None \<Rightarrow> Undefined | Some s \<Rightarrow> Str s) of
     Inr (Fin x) \<Rightarrow> \<lfloor>x\<rfloor> | _ \<Rightarrow> 0)"

text \<open>\<^verbatim>\<open>(group + "000000000").slice(i, i + 3)\<close>; \<^verbatim>\<open>undefined\<close> becomes a string that is no number.\<close>

definition nineDigits :: "string option \<Rightarrow> string" where
  "nineDigits c = (case c of None \<Rightarrow> ''undefined'' | Some s \<Rightarrow> s) @ ''000000000''"

definition slice3 :: "nat \<Rightarrow> string \<Rightarrow> int" where
  "slice3 i m = captureInt (Some (take 3 (drop i m)))"

definition isoTime :: "int \<Rightarrow> int \<Rightarrow> int \<Rightarrow> string \<Rightarrow> iso_time" where
  "isoTime h mi s m =
     \<lparr>hour = h, minute = mi, second = (if s = 60 then 59 else s), millisecond = slice3 0 m, microsecond = slice3 3 m, nanosecond = slice3 6 m\<rparr>"

text \<open>The loop over the annotations. In date-times the first calendar counts; in time-only strings
  no calendar is read.\<close>

fun readAnnotations :: "captures list \<Rightarrow> string option \<Rightarrow> string option result" where
  "readAnnotations [] cal = Inr cal"
| "readAnnotations (c # cs) cal =
     (if c 2 = Some ''u-ca'' then readAnnotations cs (case cal of None \<Rightarrow> c 3 | Some _ \<Rightarrow> cal)
      else if c 1 = Some ''!'' then Inl RangeError
      else readAnnotations cs cal)"

definition annotationsOf :: "string option \<Rightarrow> string option result" where
  "annotationsOf y = readAnnotations (matchAll (rx_annotation 1) (case y of None \<Rightarrow> '''' | Some s \<Rightarrow> s)) None"

section \<open>Dates and times\<close>

record iso_parsed =
  pDate :: iso_date
  pTime :: iso_time
  pHasTime :: bool
  pIanaName :: "string option"
  pOffset :: "string option"
  pZ :: bool
  pCalendar :: "string option"

text \<open>The offset, written anew from its groups\<close>

definition offsetText :: "captures \<Rightarrow> string option" where
  "offsetText t =
     (case (t 14, t 15) of
        (Some sg, Some hh) \<Rightarrow>
          let mm = the (orElse (t 16) (Some ''00''));
              ss = the (orElse (t 17) (Some ''00''));
              fr = the (orElse (t 18) (Some ''0''));
              T = (if sg = ''-'' then ''-'' else ''+'') @ hh @ '':'' @ mm;
              T = (if captureInt (Some fr) \<noteq> 0 then T @ '':'' @ ss @ ''.'' @ stripZeros fr
                   else if captureInt (Some ss) \<noteq> 0 then T @ '':'' @ ss else T)
          in Some (if T = ''-00:00'' then ''+00:00'' else T)
      | _ \<Rightarrow> None)"

definition ParseISODateTime :: "string \<Rightarrow> iso_parsed result" where
  "ParseISODateTime e =
     (case exec rx_V e of
        None \<Rightarrow> Inl RangeError
      | Some (_, t) \<Rightarrow>
          bindE (throwIf (t 1 = Some ''-000000'') RangeError) (\<lambda>_.
          let o1 = captureInt (t 1);
              n = captureInt (orElse (t 2) (t 4));
              a = captureInt (orElse (t 3) (t 5));
              x = isoTime (captureInt (t 6)) (captureInt (orElse (t 7) (t 10))) (captureInt (orElse (t 8) (t 11)))
                    (nineDigits (orElse (t 9) (t 12)))
          in bindE (annotationsOf (t 20)) (\<lambda>cal.
             bindE (RejectDateTime o1 n a (hour x) (minute x) (second x) (millisecond x) (microsecond x) (nanosecond x)) (\<lambda>_.
               Inr \<lparr>pDate = mkDate o1 n a, pTime = x, pHasTime = (t 6 \<noteq> None), pIanaName = t 19,
                    pOffset = (if t 13 \<noteq> None then None else offsetText t), pZ = (t 13 \<noteq> None), pCalendar = cal\<rparr>))))"

text \<open>Years and months: the day is read from a full date only, and there the calendar may be any.\<close>

definition ParseTemporalYearMonthString :: "string \<Rightarrow> (int \<times> int \<times> string option \<times> int option) result" where
  "ParseTemporalYearMonthString e =
     (case exec rx_yearMonth e of
        Some (_, t) \<Rightarrow>
          bindE (throwIf (t 1 = Some ''-000000'') RangeError) (\<lambda>_.
          bindE (annotationsOf (t 3)) (\<lambda>n.
          bindE (throwIf (n \<noteq> None \<and> n \<noteq> Some ''iso8601'') RangeError) (\<lambda>_.
            Inr (captureInt (t 1), captureInt (t 2), n, None))))
      | None \<Rightarrow>
          bindE (ParseISODateTime e) (\<lambda>p.
          bindE (throwIf (pZ p) RangeError) (\<lambda>_.
            Inr (year (pDate p), month (pDate p), pCalendar p, Some (day (pDate p))))))"

definition ParseTemporalMonthDayString :: "string \<Rightarrow> (int \<times> int \<times> string option \<times> int option) result" where
  "ParseTemporalMonthDayString e =
     (case exec rx_monthDay e of
        Some (_, t) \<Rightarrow>
          bindE (annotationsOf (t 3)) (\<lambda>n.
          bindE (throwIf (n \<noteq> None \<and> n \<noteq> Some ''iso8601'') RangeError) (\<lambda>_.
            Inr (captureInt (t 1), captureInt (t 2), n, None)))
      | None \<Rightarrow>
          bindE (ParseISODateTime e) (\<lambda>p.
          bindE (throwIf (pZ p) RangeError) (\<lambda>_.
            Inr (month (pDate p), day (pDate p), pCalendar p, Some (year (pDate p))))))"

text \<open>A time without the designator T must not read as a month and day or as a year and month.\<close>

definition ParseTemporalTimeString :: "string \<Rightarrow> iso_time result" where
  "ParseTemporalTimeString e =
     bindE (case exec rx_z e of
         Some (_, t) \<Rightarrow>
           bindE (annotationsOf (t 14)) (\<lambda>_.
           bindE (throwIf (t 8 \<noteq> None) RangeError) (\<lambda>_.
             Inr (isoTime (captureInt (t 1)) (captureInt (orElse (t 2) (t 5))) (captureInt (orElse (t 3) (t 6)))
               (nineDigits (orElse (t 4) (t 7))))))
       | None \<Rightarrow>
           bindE (ParseISODateTime e) (\<lambda>p.
           bindE (throwIf (\<not> pHasTime p) RangeError) (\<lambda>_.
           bindE (throwIf (pZ p) RangeError) (\<lambda>_. Inr (pTime p))))) (\<lambda>x.
     if occurs (seqs [anyOf ''tT '', digit, digit]) e then Inr x
     else case bindE (ParseTemporalMonthDayString e) (\<lambda>(m, d, _). RejectISODate 1972 m d) of
       Inr _ \<Rightarrow> Inl RangeError
     | Inl _ \<Rightarrow>
        (case bindE (ParseTemporalYearMonthString e) (\<lambda>(y, m, _). RejectISODate y m 1) of
           Inr _ \<Rightarrow> Inl RangeError
         | Inl _ \<Rightarrow> Inr x))"

section \<open>Offsets, zones and instants\<close>

definition IsTimeZoneOffsetString :: "string \<Rightarrow> bool" where
  "IsTimeZoneOffsetString e = (exec rx_ze e \<noteq> None)"

definition ParseTimeZoneOffsetString :: "string \<Rightarrow> int result" where
  "ParseTimeZoneOffsetString e =
     (case exec rx_ze e of
        None \<Rightarrow> Inl RangeError
      | Some (_, t) \<Rightarrow>
          Inr ((if t 1 = Some ''-'' then -1 else 1)
            * (1000000000 * (60 * (60 * captureInt (t 2) + captureInt (orElse (t 3) (Some ''0''))) + captureInt (orElse (t 4) (Some ''0'')))
               + captureInt (Some (take 9 (the (orElse (t 5) (Some ''0'')) @ ''000000000''))))))"

definition GetCanonicalTimeZoneIdentifier :: "(string \<Rightarrow> string result) \<Rightarrow> string \<Rightarrow> string result" where
  "GetCanonicalTimeZoneIdentifier intl e =
     (if IsTimeZoneOffsetString e
      then bindE (ParseTimeZoneOffsetString e) (\<lambda>n. Inr (FormatTimeZoneOffsetString n))
      else intl e)"

definition ParseTemporalTimeZone :: "(string \<Rightarrow> string result) \<Rightarrow> string \<Rightarrow> string result" where
  "ParseTemporalTimeZone intl e =
     bindE (if exec (ignoreCase (Seq rx_tz AtEnd)) e \<noteq> None then Inr (Some e, None, False)
            else case ParseISODateTime e of
                Inr p \<Rightarrow> if pZ p \<or> pOffset p \<noteq> None \<or> pIanaName p \<noteq> None then Inr (pIanaName p, pOffset p, pZ p) else Inl RangeError
              | Inl _ \<Rightarrow> Inl RangeError) (\<lambda>(t, r, o1).
     case t of
       Some name \<Rightarrow> GetCanonicalTimeZoneIdentifier intl name
     | None \<Rightarrow> if o1 then Inr ''UTC''
         else bindE (ParseTimeZoneOffsetString (the r)) (\<lambda>n. Inr (FormatTimeZoneOffsetString n)))"

definition ParseTemporalInstant :: "int \<Rightarrow> string \<Rightarrow> int result" where
  "ParseTemporalInstant now e =
     bindE (ParseISODateTime e) (\<lambda>p.
     bindE (throwIf (\<not> pZ p \<and> pOffset p = None) RangeError) (\<lambda>_.
     bindE (if pZ p then Inr 0 else ParseTimeZoneOffsetString (the (pOffset p))) (\<lambda>h.
     let x = pDate p; t = pTime p
     in bindE (BalanceISODateTime (year x) (month x) (day x) (hour t) (minute t) (second t) (millisecond t)
          (microsecond t) (nsub (nanosecond t) h)) (\<lambda>y.
        let x = dtDate y; t = dtTime y
        in orThrow RangeError (GetUTCEpochNanoseconds now (year x) (month x) (day x) (hour t) (minute t) (second t)
             (millisecond t) (microsecond t) (nanosecond t))))))"

section \<open>Durations\<close>

definition captureCount :: "int \<Rightarrow> string option \<Rightarrow> int result" where
  "captureCount r c = (case c of None \<Rightarrow> Inr 0 | Some s \<Rightarrow> bindE (ToIntegerWithTruncation (Str s)) (\<lambda>n. Inr (n * r)))"

definition fractionOf :: "int \<Rightarrow> string \<Rightarrow> int" where
  "fractionOf k s = k * captureInt (Some (take 9 (s @ ''000000000'')))"

definition ParseTemporalDurationString :: "string \<Rightarrow> duration result" where
  "ParseTemporalDurationString e =
     (case exec rx_Q e of
        None \<Rightarrow> Inl RangeError
      | Some (_, t) \<Rightarrow>
          if list_all (\<lambda>i. t i = None) [2..<12] then Inl RangeError
          else
            let r = (if t 1 = Some ''-'' then -1 else 1)
            in bindE (captureCount r (t 2)) (\<lambda>o1.
               bindE (captureCount r (t 3)) (\<lambda>n.
               bindE (captureCount r (t 4)) (\<lambda>a.
               bindE (captureCount r (t 5)) (\<lambda>i.
               bindE (captureCount r (t 6)) (\<lambda>s.
               bindE (case t 7 of
                   Some l \<Rightarrow>
                     if t 8 \<noteq> None \<or> t 9 \<noteq> None \<or> t 10 \<noteq> None \<or> t 11 \<noteq> None then Inl RangeError
                     else Inr (0, 0, fractionOf 3600 l * r)
                 | None \<Rightarrow>
                     bindE (captureCount r (t 8)) (\<lambda>u.
                     case t 9 of
                       Some m \<Rightarrow> if t 10 \<noteq> None \<or> t 11 \<noteq> None then Inl RangeError else Inr (u, 0, fractionOf 60 m * r)
                     | None \<Rightarrow> bindE (captureCount r (t 10)) (\<lambda>T.
                         Inr (u, T, case t 11 of None \<Rightarrow> 0 | Some h \<Rightarrow> fractionOf 1 h * r)))) (\<lambda>(u, T, p).
               let f = tmod p 1000;
                   y = tmod (truncQuot p 1000) 1000;
                   I = tmod (truncQuot p 1000000) 1000;
                   T = nadd T (tmod (truncQuot p 1000000000) 60);
                   u = nadd u (truncQuot p 60000000000)
               in bindE (RejectDuration o1 n a i s u T I y f) (\<lambda>_.
                    Inr (mkDuration o1 n a i s u T I y f)))))))))"

end
