(* ===== verification/Iso_Parse_Props.thy ===== *)
theory Iso_Parse_Props imports Iso_Parse begin

text \<open>
  Round trips: an offset, a date-time and an instant are read back from their strings.
\<close>

section \<open>Captured digits\<close>

lemma digit_char: "n < 10 \<Longrightarrow> (of_char (digitChar n) :: nat) = 48 + n \<and> isDigit (digitChar n)"
  by simp

lemma isDigit_plain: "isDigit c \<Longrightarrow> \<not> isWhite c \<and> c \<noteq> CHR ''-'' \<and> c \<noteq> CHR ''+'' \<and> c \<noteq> CHR ''x'' \<and> c \<noteq> CHR ''X''
    \<and> c \<noteq> CHR ''o'' \<and> c \<noteq> CHR ''O'' \<and> c \<noteq> CHR ''b'' \<and> c \<noteq> CHR ''B'' \<and> c \<noteq> CHR ''I'' \<and> c \<noteq> CHR '':'' \<and> c \<noteq> CHR ''.''"
  by (auto simp: isDigit_def isWhite_def)

lemma trimWhite_plain: "list_all (\<lambda>c. \<not> isWhite c) s \<Longrightarrow> trimWhite s = s"
proof -
  have d: "list_all (\<lambda>c. \<not> isWhite c) s \<Longrightarrow> dropWhile isWhite s = s" for s by (cases s) simp_all
  show "list_all (\<lambda>c. \<not> isWhite c) s \<Longrightarrow> trimWhite s = s" by (simp add: trimWhite_def d list_all_iff)
qed

lemma decimalLiteral_digits:
  assumes "list_all isDigit ds" "ds \<noteq> []"
  shows "decimalLiteral ds = Some (of_nat (valNat ds))"
proof -
  have t: "takeWhile isDigit ds = ds" "dropWhile isDigit ds = []" using assms by (simp_all add: list_all_iff)
  show ?thesis unfolding decimalLiteral_def t Let_def using assms by (simp add: exponentPart_def pow10_def)
qed

lemma numOfRat_int: "\<bar>n\<bar> \<le> 2 ^ 53 \<Longrightarrow> numOfRat (of_int n) = Fin (of_int n)"
proof -
  assume n: "\<bar>n\<bar> \<le> 2 ^ 53"
  have "\<bar>of_int n :: rat\<bar> \<le> 2 ^ 53" using n by (metis of_int_abs of_int_le_iff of_int_numeral of_int_power)
  moreover have "(2 ^ 53 :: rat) < 2 ^ 1024" by (intro power_strict_increasing) auto
  ultimately have "\<not> 2 ^ 1024 \<le> (of_int n :: rat)" "\<not> (of_int n :: rat) \<le> - (2 ^ 1024)" by linarith+
  then show ?thesis using n by (simp add: numOfRat_def fl_of_int Let_def)
qed

lemma signedLiteral_digits:
  assumes d: "list_all isDigit ds" "ds \<noteq> []" and v: "valNat ds \<le> 2 ^ 53"
  shows "signedLiteral ds = Fin (of_nat (valNat ds))" "signedLiteral (CHR ''-'' # ds) = Fin (- of_nat (valNat ds))"
    "signedLiteral (CHR ''+'' # ds) = Fin (of_nat (valNat ds))"
proof -
  obtain c t where ds: "ds = c # t" using d(2) by (cases ds) auto
  have c: "c \<noteq> CHR ''-''" "c \<noteq> CHR ''+''" "ds \<noteq> ''Infinity''" using d isDigit_plain [of c] by (auto simp: ds)
  have n: "numOfRat (of_nat (valNat ds)) = Fin (of_nat (valNat ds))" "numOfRat (- of_nat (valNat ds)) = Fin (- of_nat (valNat ds))"
    using numOfRat_int [of "int (valNat ds)"] numOfRat_int [of "- int (valNat ds)"] v by simp_all
  show "signedLiteral ds = Fin (of_nat (valNat ds))"
    using c ds decimalLiteral_digits [OF d] n by (simp add: signedLiteral_def Let_def)
  show "signedLiteral (CHR ''-'' # ds) = Fin (- of_nat (valNat ds))" "signedLiteral (CHR ''+'' # ds) = Fin (of_nat (valNat ds))"
    using c ds decimalLiteral_digits [OF d] n by (simp_all add: signedLiteral_def Let_def)
qed

lemma StringToNumber_digits:
  assumes d: "list_all isDigit ds" "ds \<noteq> []" and v: "valNat ds \<le> 2 ^ 53"
  shows "StringToNumber ds = Fin (of_nat (valNat ds))" "StringToNumber (CHR ''-'' # ds) = Fin (- of_nat (valNat ds))"
    "StringToNumber (CHR ''+'' # ds) = Fin (of_nat (valNat ds))"
proof -
  have "list_all (\<lambda>c. \<not> isWhite c) ds" using d isDigit_plain by (auto simp: list_all_iff)
  moreover have "\<not> isWhite CHR ''-''" "\<not> isWhite CHR ''+''" by (simp_all add: isWhite_def)
  ultimately have t: "trimWhite ds = ds" "trimWhite (CHR ''-'' # ds) = CHR ''-'' # ds" "trimWhite (CHR ''+'' # ds) = CHR ''+'' # ds"
    by (simp_all add: trimWhite_plain)
  note s = signedLiteral_digits [OF assms]
  show "StringToNumber ds = Fin (of_nat (valNat ds))"
    using d isDigit_plain s(1) unfolding StringToNumber_def t Let_def
    by (auto simp: list_all_iff split: list.splits)
  show "StringToNumber (CHR ''-'' # ds) = Fin (- of_nat (valNat ds))" "StringToNumber (CHR ''+'' # ds) = Fin (of_nat (valNat ds))"
    using d s(2,3) unfolding StringToNumber_def t Let_def by (auto split: list.splits)
qed

lemma captureInt_digits:
  assumes "list_all isDigit ds" "ds \<noteq> []" "length ds \<le> 9"
  shows "captureInt (Some ds) = int (valNat ds)" "captureInt (Some (CHR ''-'' # ds)) = - int (valNat ds)"
    "captureInt (Some (CHR ''+'' # ds)) = int (valNat ds)"
proof -
  have "valNat ds < 10 ^ length ds" by (rule valNat_less [OF assms(1)])
  also have "(10 :: nat) ^ length ds \<le> 10 ^ 9" using assms(3) by (intro power_increasing) auto
  finally have v: "valNat ds < 10 ^ 9" .
  then have v': "valNat ds \<le> 2 ^ 53" by simp
  have f: "sgn x * of_int \<lfloor>\<bar>x\<bar>\<rfloor> = (x :: rat)" if "x = of_int k" for x k
    using that by (simp add: sgn_if flip: of_int_abs)
  have g: "captureInt (Some s) = k" if "StringToNumber s = Fin (of_int k)" for s k
    using that f [of "of_int k" k] by (simp add: captureInt_def ToIntegerOrInfinity_def ToNumber_def)
  note n = StringToNumber_digits [OF assms(1,2) v']
  show "captureInt (Some ds) = int (valNat ds)" "captureInt (Some (CHR ''-'' # ds)) = - int (valNat ds)"
    "captureInt (Some (CHR ''+'' # ds)) = int (valNat ds)"
    by (rule g, simp add: n)+
qed

lemma digits_not_Nil [simp]: "digits k n \<noteq> []"
  by (simp add: digits_def padStart_def)

lemma captureInt_two: "n < 100 \<Longrightarrow> captureInt (Some (digits 2 n)) = int n"
  using captureInt_digits(1) [of "digits 2 n"] length_digits [of 2 n] by (fastforce simp: digits_isDigit)

lemma captureInt_nat:
  "0 \<le> n \<Longrightarrow> n < 100 \<Longrightarrow> captureInt (Some (digits 2 (nat n))) = n"
  "0 \<le> n \<Longrightarrow> n < 1000 \<Longrightarrow> captureInt (Some (digits 3 (nat n))) = n"
proof -
  show "0 \<le> n \<Longrightarrow> n < 100 \<Longrightarrow> captureInt (Some (digits 2 (nat n))) = n" using captureInt_two [of "nat n"] by simp
  have "length (digits 3 (nat n)) = 3" if "0 \<le> n" "n < 1000" using that by (intro length_digits) auto
  then show "0 \<le> n \<Longrightarrow> n < 1000 \<Longrightarrow> captureInt (Some (digits 3 (nat n))) = n"
    using captureInt_digits(1) [of "digits 3 (nat n)"] by (simp add: digits_isDigit)
qed

section \<open>Matching digits\<close>

lemma groups_simps [simp]:
  "groups (chr c) = []" "groups (anyOf cs) = []" "groups digit = []" "groups (fraction n) = [n]" "groups twoDigit = []"
  by (simp_all add: chr_def anyOf_def digit_def fraction_def twoDigit_def)

lemma clear_id: "\<forall>g \<in> set gs. m g = None \<Longrightarrow> clear gs (s, m) = (s, m)"
  by (auto simp: clear_def)

lemma takes_opt: "takes a (s, m) y \<Longrightarrow> fst y \<noteq> s \<Longrightarrow> \<forall>g \<in> set (groups a). m g = None \<Longrightarrow> takes (opt a) (s, m) y"
  by (rule takes_Rep_step [where y = y]) (auto simp: clear_id intro: takes_Rep_stop)

lemma takes_opt_none: "rejects a (s, m) \<Longrightarrow> \<forall>g \<in> set (groups a). m g = None \<Longrightarrow> takes (opt a) (s, m) (s, m)"
  by (rule takes_Rep_stop) (simp add: clear_id)

lemma takes_star_none: "rejects a (s, m) \<Longrightarrow> \<forall>g \<in> set (groups a). m g = None \<Longrightarrow> takes (star a) (s, m) (s, m)"
  by (rule takes_Rep_stop) (simp add: clear_id)

lemma takes_chr: "takes (chr c) (c # s, m) (s, m)"
  by (simp add: chr_def takes_One)

lemma takes_anyOf: "c \<in> set cs \<Longrightarrow> takes (anyOf cs) (c # s, m) (s, m)"
  by (simp add: anyOf_def takes_One)

lemma rejects_chr: "s = [] \<or> hd s \<noteq> c \<Longrightarrow> rejects (chr c) (s, m)"
  by (cases s) (auto simp: chr_def intro: rejects_One rejects_One_Nil)

lemma rejects_anyOf: "s = [] \<or> hd s \<notin> set cs \<Longrightarrow> rejects (anyOf cs) (s, m)"
  by (cases s) (auto simp: anyOf_def intro: rejects_One rejects_One_Nil)

lemma takes_seqs_Nil: "takes (seqs []) x x"
  by (simp add: takes_Eps)

lemma takes_seqs_Cons: "takes r x y \<Longrightarrow> takes (seqs rs) y z \<Longrightarrow> takes (seqs (r # rs)) x z"
  by (simp add: takes_Seq)

lemma rejects_seqs: "rejects r x \<Longrightarrow> rejects (seqs (r # rs)) x"
  by (simp add: rejects_Seq)

lemma takes_digits: "list_all isDigit ds \<Longrightarrow> length ds = n \<Longrightarrow> takes (times n digit) (ds @ s, m) (s, m)"
  unfolding digit_def by (rule takes_Rep_One) auto

lemma takes_twoDigit: "n < 100 \<Longrightarrow> takes (Grp g twoDigit) (digits 2 n @ s, m) (s, m(g := Some (digits 2 n)))"
  unfolding twoDigit_def by (intro takes_Grp takes_digits digits_isDigit length_digits) auto

lemma digits_2: "n < 100 \<Longrightarrow> digits 2 n = [digitChar (n div 10), digitChar (n mod 10)]"
proof -
  assume n: "n < 100"
  have "digitChar 0 = CHR ''0''" by code_simp
  then show ?thesis using n less_mult_imp_div_less [of n 10 10]
    by (simp add: digits_def padStart_def decNat.simps [of n] decNat.simps [of "n div 10"])
qed

lemma digitChar_values:
  "digitChar 0 = CHR ''0''" "digitChar 1 = CHR ''1''" "digitChar (Suc 0) = CHR ''1''" "digitChar 2 = CHR ''2''" "digitChar 3 = CHR ''3''"
  "digitChar 4 = CHR ''4''" "digitChar 5 = CHR ''5''"
  by code_simp+

lemma digitChar_inj: "a < 10 \<Longrightarrow> b < 10 \<Longrightarrow> digitChar a = digitChar b \<longleftrightarrow> a = b"
  by (metis digitVal_digitChar)

lemma digitChar_19: "0 < n \<Longrightarrow> n < 10 \<Longrightarrow> between CHR ''1'' CHR ''9'' (digitChar n)"
  by (simp add: between_def)

lemma takes_two:
  "n < 100 \<Longrightarrow> P (digitChar (n div 10)) \<Longrightarrow> Q (digitChar (n mod 10)) \<Longrightarrow> takes (Seq (One P) (One Q)) (digits 2 n @ s, m) (s, m)"
  by (simp add: digits_2) (meson takes_One takes_Seq)

lemma rejects_two: "n < 100 \<Longrightarrow> \<not> P (digitChar (n div 10)) \<Longrightarrow> rejects (Seq (One P) r) (digits 2 n @ s, m)"
  by (simp add: digits_2 rejects_Seq rejects_One)

lemma takes_month: "1 \<le> n \<Longrightarrow> n \<le> 12 \<Longrightarrow> takes rx_month (digits 2 n @ s, m) (s, m)"
proof (cases "n < 10")
  case True
  moreover assume "1 \<le> n"
  ultimately show ?thesis unfolding rx_month_def chr_def
    by (intro takes_Alt1 takes_two) (auto simp: digitChar_values digitChar_19)
next
  case False
  moreover assume "n \<le> 12"
  ultimately have n: "n = 10 \<or> n = 11 \<or> n = 12" by auto
  then show ?thesis unfolding rx_month_def chr_def anyOf_def
    by (intro takes_Alt2 takes_two rejects_two) (auto simp: digitChar_values)
qed

lemma takes_day: "1 \<le> n \<Longrightarrow> n \<le> 31 \<Longrightarrow> takes rx_day (digits 2 n @ s, m) (s, m)"
proof -
  assume n: "1 \<le> n" "n \<le> 31"
  show ?thesis
  proof (cases "n < 10")
    case True
    then show ?thesis using n unfolding rx_day_def chr_def alts.simps
      by (intro takes_Alt1 takes_two) (auto simp: digitChar_values digitChar_19)
  next
    case ge: False
    show ?thesis
    proof (cases "n < 30")
      case True
      then have "n div 10 = 1 \<or> n div 10 = 2" using ge by auto
      then show ?thesis using True unfolding rx_day_def chr_def alts.simps anyOf_def digit_def
        by (intro takes_Alt2 [OF rejects_two takes_Alt1 [OF takes_two]]) (auto simp: digitChar_values)
    next
      case False
      then have "n = 30 \<or> n = 31" using n by auto
      then show ?thesis unfolding rx_day_def chr_def alts.simps anyOf_def digit_def
        by (intro takes_Alt2 [OF rejects_two takes_Alt2 [OF rejects_two takes_two]]) (auto simp: digitChar_values)
    qed
  qed
qed

lemma takes_year:
  assumes "\<bar>e\<bar> < 1000000"
  shows "takes rx_year (ISOYearString e @ s, m) (s, m)"
proof (cases "0 \<le> e \<and> e < 10000")
  case True
  then have l: "length (digits 4 (nat e)) = 4" by (intro length_digits) auto
  then obtain c t where c: "digits 4 (nat e) = c # t" by (cases "digits 4 (nat e)") auto
  have "isDigit c" using digits_isDigit [of 4 "nat e"] c by simp
  then have "rejects (Seq sign (times 6 digit)) (digits 4 (nat e) @ s, m)"
    using isDigit_plain [of c] unfolding c sign_def by (intro rejects_Seq rejects_anyOf) auto
  then show ?thesis using True l digits_isDigit
    by (simp add: ISOYearString_digits [OF assms] rx_year_def takes_Alt2 takes_digits)
next
  case False
  have l: "length (digits 6 (nat \<bar>e\<bar>)) = 6" using assms by (intro length_digits) auto
  have "takes (Seq sign (times 6 digit)) (c # digits 6 (nat \<bar>e\<bar>) @ s, m) (s, m)" if "c \<in> {CHR ''+'', CHR ''-''}" for c
    using that unfolding sign_def by (intro takes_Seq [OF takes_anyOf takes_digits [OF digits_isDigit l]]) auto
  then have "takes (Seq sign (times 6 digit)) (ISOYearString e @ s, m) (s, m)"
    unfolding ISOYearString_digits [OF assms] if_not_P [OF False] by simp
  then show ?thesis unfolding rx_year_def by (rule takes_Alt1)
qed

lemma takes_date:
  assumes d: "validDate d" "\<bar>year d\<bar> < 1000000"
  shows "takes rx_date (dateString d @ s, m)
    (s, m(1 := Some (ISOYearString (year d)), 2 := Some (digits 2 (nat (month d))), 3 := Some (digits 2 (nat (day d)))))"
proof -
  have r: "1 \<le> month d" "month d \<le> 12" "1 \<le> day d" "day d \<le> 31"
    using d validDate_MonthLength [of d] MonthLength_range(2) [of "month d - 1" "InLeapYear (year d)"] by (auto simp: validDate_def)
  then have p: "ISODateTimePartString (month d) = digits 2 (nat (month d))" "ISODateTimePartString (day d) = digits 2 (nat (day d))"
    by (auto intro: ISODateTimePartString_digits)
  have mo: "1 \<le> nat (month d)" "nat (month d) \<le> 12" "1 \<le> nat (day d)" "nat (day d) \<le> 31" using r by auto
  show ?thesis
    unfolding rx_date_def dateString_def p append_assoc append_Cons append_Nil
    by (rule takes_Seq, rule takes_Grp, rule takes_year [OF d(2)], rule takes_Alt1,
        (rule takes_seqs_Cons takes_seqs_Nil takes_chr takes_Grp takes_month takes_day mo)+)
qed

section \<open>Times\<close>

text \<open>The fraction that \<open>FormatSecondsStringPart\<close> prints, if any\<close>

definition subNs :: "iso_time \<Rightarrow> int" where
  "subNs t = 1000000 * millisecond t + 1000 * microsecond t + nanosecond t"

definition fracText :: "iso_time \<Rightarrow> string option" where
  "fracText t = (if subNs t = 0 then None else Some (stripZeros (digits 9 (nat (subNs t)))))"

definition timeCaptures :: "nat \<Rightarrow> iso_time \<Rightarrow> captures \<Rightarrow> captures" where
  "timeCaptures g t m =
     (let m = m(g := Some (digits 2 (nat (hour t))), g + 1 := Some (digits 2 (nat (minute t))), g + 2 := Some (digits 2 (nat (second t))))
      in case fracText t of None \<Rightarrow> m | Some f \<Rightarrow> m(g + 3 := Some f))"

lemma validTime_ranges:
  "validTime t \<Longrightarrow> 0 \<le> hour t \<and> hour t < 24 \<and> 0 \<le> minute t \<and> minute t < 60 \<and> 0 \<le> second t \<and> second t < 60
    \<and> 0 \<le> millisecond t \<and> millisecond t < 1000 \<and> 0 \<le> microsecond t \<and> microsecond t < 1000 \<and> 0 \<le> nanosecond t \<and> nanosecond t < 1000"
  by (auto simp: validTime_def)

lemma subNs_range: "validTime t \<Longrightarrow> 0 \<le> subNs t \<and> subNs t < 1000000000"
  using validTime_ranges [of t] by (auto simp: subNs_def)

lemma stripZeros_digits:
  assumes "0 < n" "n < 10 ^ 9"
  shows "list_all isDigit (stripZeros (digits 9 n))" "stripZeros (digits 9 n) \<noteq> []" "length (stripZeros (digits 9 n)) \<le> 9"
proof -
  obtain k where k: "digits 9 n = stripZeros (digits 9 n) @ replicate k CHR ''0''" using stripZeros_append by blast
  have "list_all isDigit (digits 9 n)" "length (digits 9 n) = 9" using assms by (auto intro: digits_isDigit length_digits)
  then show "list_all isDigit (stripZeros (digits 9 n))" "length (stripZeros (digits 9 n)) \<le> 9"
    by (metis k list_all_append, metis k length_append le_add1)
  show "stripZeros (digits 9 n) \<noteq> []"
  proof
    assume "stripZeros (digits 9 n) = []"
    then have "valNat (digits 9 n) = valNat (replicate k CHR ''0'' @ [])" using k by simp
    then show False using assms unfolding valNat_replicate_0 by simp
  qed
qed

lemma fracText_digits:
  assumes "validTime t" "fracText t = Some f"
  shows "list_all isDigit f" "f \<noteq> []" "length f \<le> 9"
proof -
  have "0 < nat (subNs t)" "nat (subNs t) < 10 ^ 9" "f = stripZeros (digits 9 (nat (subNs t)))"
    using assms subNs_range [of t] by (auto simp: fracText_def split: if_splits)
  then show "list_all isDigit f" "f \<noteq> []" "length f \<le> 9" using stripZeros_digits by auto
qed

lemma timeString_auto:
  assumes "validTime t"
  shows "timeString t PrecAuto = digits 2 (nat (hour t)) @ '':'' @ digits 2 (nat (minute t)) @ '':'' @ digits 2 (nat (second t))
    @ (case fracText t of None \<Rightarrow> '''' | Some f \<Rightarrow> ''.'' @ f)"
  using validTime_ranges [OF assms] subNs_range [OF assms]
  by (auto simp: timeString_def hourMinute_def FormatSecondsStringPart_def ISODateTimePartString_digits fracText_def subNs_def
      decInt_def digits_def Let_def)

lemma takes_fraction:
  assumes t: "validTime t" and s: "s = [] \<or> \<not> isDigit (hd s) \<and> hd s \<notin> set ''.,''" and m: "m g = None"
  shows "takes (fraction g) ((case fracText t of None \<Rightarrow> '''' | Some f \<Rightarrow> ''.'' @ f) @ s, m)
    (s, case fracText t of None \<Rightarrow> m | Some f \<Rightarrow> m(g := Some f))"
proof (cases "fracText t")
  case None
  have "rejects (Seq (anyOf ''.,'') (Grp g (upTo 1 9 digit))) (s, m)"
    using s by (intro rejects_Seq rejects_anyOf) auto
  then show ?thesis unfolding fraction_def None option.case append_Nil by (rule takes_opt_none) (simp add: m)
next
  case (Some f)
  note f = fracText_digits [OF t Some]
  have "takes (upTo 1 9 digit) (f @ s, m) (s, m)"
    unfolding digit_def using f s by (intro takes_Rep_One) (auto simp: Suc_le_eq)
  then show ?thesis unfolding fraction_def Some option.case append_Cons append_Nil
    by (intro takes_opt takes_Seq [OF takes_anyOf] takes_Grp) (auto simp: m dest: arg_cong [of _ _ length])
qed

lemma takes_time:
  assumes t: "validTime t" and s: "s = [] \<or> \<not> isDigit (hd s) \<and> hd s \<notin> set ''.,''" and m: "\<forall>i \<in> {g..g + 6}. m i = None"
  shows "takes (rx_time g) (timeString t PrecAuto @ s, m) (s, timeCaptures g t m)"
proof -
  have r: "nat (hour t) < 100" "nat (minute t) < 100" "nat (second t) < 100" using validTime_ranges [OF t] by auto
  let ?f = "case fracText t of None \<Rightarrow> '''' | Some f \<Rightarrow> ''.'' @ f"
  let ?m = "m(g := Some (digits 2 (nat (hour t))))" and ?n = "m(g := Some (digits 2 (nat (hour t))), g + 1 := Some (digits 2 (nat (minute t))))"
  let ?o = "?n(g + 2 := Some (digits 2 (nat (second t))))"
  have f: "takes (fraction (g + 3)) (?f @ s, ?o) (s, timeCaptures g t m)"
    using takes_fraction [OF t s, of ?o "g + 3"] m by (cases "fracText t") (simp_all add: timeCaptures_def Let_def)
  have secs: "takes (opt (seqs [chr CHR '':'', Grp (g + 2) twoDigit, fraction (g + 3)])) ('':'' @ digits 2 (nat (second t)) @ ?f @ s, ?n) (s, timeCaptures g t m)"
    unfolding append_Cons append_Nil
    by (rule takes_opt, (rule takes_seqs_Cons takes_seqs_Nil takes_chr takes_twoDigit r f [unfolded append_Cons append_Nil])+)
      (use m in \<open>auto dest: arg_cong [of _ _ length]\<close>)
  show ?thesis
    unfolding rx_time_def timeString_auto [OF t] append_assoc append_Cons append_Nil
    by (rule takes_Seq, rule takes_twoDigit [OF r(1)], rule takes_opt, rule takes_Alt1,
        (rule takes_seqs_Cons takes_seqs_Nil takes_chr takes_twoDigit r secs [unfolded append_Cons append_Nil])+)
      (use m in \<open>auto dest: arg_cong [of _ _ length]\<close>)
qed

section \<open>Whole strings\<close>

text \<open>Case matters to none of the characters of dates and times but the designators.\<close>

lemma isAlpha_otherCase: "isAlpha (otherCase c) \<longleftrightarrow> isAlpha c"
  by (auto simp: isAlpha_def otherCase_def between_def)

lemma otherCase_id: "\<not> isAlpha c \<Longrightarrow> otherCase c = c"
  by (simp add: isAlpha_def otherCase_def)

lemma caseless:
  assumes "\<And>c. P c \<Longrightarrow> \<not> isAlpha c"
  shows "(\<lambda>c. P c \<or> P (otherCase c)) = P"
proof
  fix c
  show "(P c \<or> P (otherCase c)) = P c"
    using assms [of "otherCase c"] isAlpha_otherCase [of c] otherCase_id [of c] by (cases "isAlpha c") auto
qed

lemma ignoreCase_simps [simp]:
  "\<not> isAlpha c \<Longrightarrow> ignoreCase (chr c) = chr c"
  "list_all (\<lambda>c. \<not> isAlpha c) cs \<Longrightarrow> ignoreCase (anyOf cs) = anyOf cs"
  "ignoreCase digit = digit" "ignoreCase (seqs rs) = seqs (map ignoreCase rs)"
proof -
  show "\<not> isAlpha c \<Longrightarrow> ignoreCase (chr c) = chr c" using caseless [of "\<lambda>x. x = c"] by (simp add: chr_def)
  show "list_all (\<lambda>c. \<not> isAlpha c) cs \<Longrightarrow> ignoreCase (anyOf cs) = anyOf cs"
    unfolding anyOf_def ignoreCase.simps by (subst caseless) (auto simp: list_all_iff)
  have "isDigit c \<Longrightarrow> \<not> isAlpha c" for c by (auto simp: isDigit_def isAlpha_def between_def)
  then show "ignoreCase digit = digit" by (simp add: digit_def caseless)
  show "ignoreCase (seqs rs) = seqs (map ignoreCase rs)" by (induction rs) simp_all
qed

lemma not_isAlpha [simp]:
  "\<not> isAlpha CHR ''-''" "\<not> isAlpha CHR ''+''" "\<not> isAlpha CHR '':''" "\<not> isAlpha CHR ''.''" "\<not> isAlpha CHR '',''" "\<not> isAlpha CHR ''[''"
  "\<not> isAlpha CHR ''0''" "\<not> isAlpha CHR ''1''" "\<not> isAlpha CHR ''2''" "\<not> isAlpha CHR ''3''" "\<not> isAlpha CHR ''4''" "\<not> isAlpha CHR ''5''"
  by (simp_all add: isAlpha_def between_def)

lemma ignoreCase_date: "ignoreCase rx_date = rx_date"
proof -
  have b: "between CHR ''1'' CHR ''9'' c \<Longrightarrow> \<not> isAlpha c" for c by (auto simp: isAlpha_def between_def)
  show ?thesis by (simp add: rx_date_def rx_year_def rx_month_def rx_day_def sign_def caseless b)
qed

lemma ignoreCase_time: "ignoreCase (rx_time g) = rx_time g"
  by (simp add: rx_time_def twoDigit_def fraction_def)

lemma rejects_end:
  "rejects (ignoreCase (rx_zone g)) ([], m)" "rejects (ignoreCase (seqs (chr CHR ''['' # rs))) ([], m)" "rejects (ignoreCase (rx_annotation g)) ([], m)"
  by (auto simp: rx_zone_def sign_def rx_annotation_def anyOf_def chr_def
      intro!: rejects_Alt rejects_Grp rejects_Seq rejects_One_Nil)

lemma groups_ignoreCase [simp]: "groups (ignoreCase r) = groups r"
  by (induction r) simp_all

lemma groups_word [simp]: "groups (word s) = []"
  by (induction s) simp_all

lemma groups_parts [simp]:
  "groups rx_tz = []" "groups (rx_annotation g) = [g, g + 1, g + 2]" "groups (rx_time g) = [g, g + 1, g + 2, g + 3, g + 4, g + 5, g + 6]"
  "groups (rx_zone g) = [g, g + 1, g + 2, g + 3, g + 4, g + 5]"
  by (simp_all add: rx_tz_def rx_j_def alphaDash_def alphaDashDot_def sign_def separator_def sixty_def rx_annotation_def
      rx_time_def rx_zone_def hours24_def offsetMinutes_def)

lemma takes_brackets:
  assumes "\<forall>i \<in> set (groups r). m i = None"
  shows "takes (ignoreCase (bracketed r)) ([], m) ([], m)"
  unfolding bracketed_def ignoreCase.simps
  by (rule takes_opt_none, rule rejects_end(2)) (use assms in simp)

lemma takes_annotations:
  assumes "\<forall>i \<in> {g..g + 3}. m i = None"
  shows "takes (ignoreCase (annotations g)) ([], m) ([], m(g := Some []))"
proof -
  have "takes (star (ignoreCase (rx_annotation (g + 1)))) ([], m) ([], m)"
    by (rule takes_star_none) (use assms in \<open>auto intro: rejects_end(3)\<close>)
  from takes_Grp [of _ "[]" "[]", simplified, OF this] show ?thesis by (simp add: annotations_def)
qed

lemma takes_zone:
  assumes "\<forall>i \<in> {g..g + 5}. m i = None"
  shows "takes (opt (ignoreCase (rx_zone g))) ([], m) ([], m)" "takes (opt (ignoreCase (rx_zone g))) (''Z'', m) ([], m(g := Some ''Z''))"
proof -
  show "takes (opt (ignoreCase (rx_zone g))) ([], m) ([], m)"
    by (rule takes_opt_none) (use assms in \<open>auto intro: rejects_end(1)\<close>)
  have "takes (ignoreCase (Grp g (anyOf ''zZ''))) (''Z'' @ [], m) ([], m(g := Some ''Z''))"
    unfolding ignoreCase.simps anyOf_def by (rule takes_Grp) (auto intro: takes_One)
  then have "takes (ignoreCase (rx_zone g)) (''Z'', m) ([], m(g := Some ''Z''))"
    unfolding rx_zone_def ignoreCase.simps(5) by (simp add: takes_Alt1)
  then show "takes (opt (ignoreCase (rx_zone g))) (''Z'', m) ([], m(g := Some ''Z''))"
    by (rule takes_opt) (use assms in auto)
qed

text \<open>The groups of a date-time in ISO format, with \<open>z\<close> at its end or nothing.\<close>

definition dateTimeCaptures :: "iso_datetime \<Rightarrow> string \<Rightarrow> captures" where
  "dateTimeCaptures x z =
     (let d = dtDate x; m = timeCaptures 6 (dtTime x) ((\<lambda>_. None)
         (1 := Some (ISOYearString (year d)), 2 := Some (digits 2 (nat (month d))), 3 := Some (digits 2 (nat (day d)))))
      in (if z = [] then m else m(13 := Some z))(20 := Some []))"

lemma exec_V:
  assumes d: "validDateTime x" "\<bar>year (dtDate x)\<bar> < 1000000" and z: "z = '''' \<or> z = ''Z''"
  shows "exec rx_V (dateString (dtDate x) @ ''T'' @ timeString (dtTime x) PrecAuto @ z) = Some ([], dateTimeCaptures x z)"
proof -
  have v: "validDate (dtDate x)" "validTime (dtTime x)" using d by (simp_all add: validDateTime_def)
  let ?d = "dtDate x" and ?t = "dtTime x"
  let ?m = "(\<lambda>_. None)(1 := Some (ISOYearString (year ?d)), 2 := Some (digits 2 (nat (month ?d))), 3 := Some (digits 2 (nat (day ?d)))) :: captures"
  let ?n = "timeCaptures 6 ?t ?m"
  let ?o = "if z = [] then ?n else ?n(13 := Some z)"
  have n: "?n i = None" if "10 \<le> i" for i
    using that by (auto simp: timeCaptures_def Let_def split: option.split)
  have V: "rx_V = seqs [rx_date, opt (seqs [ignoreCase (Alt (chr CHR ''T'') (plus1 white)), rx_time 6, opt (ignoreCase (rx_zone 13))]),
      ignoreCase (bracketed (Grp 19 rx_tz)), ignoreCase (annotations 20), AtEnd]"
    by (simp add: rx_V_def ignoreCase_date ignoreCase_time)
  have T: "takes (ignoreCase (Alt (chr CHR ''T'') (plus1 white))) (CHR ''T'' # s, m) (s, m)" for s m
    by (auto simp: chr_def intro: takes_Alt1 takes_One)
  have zo: "takes (opt (ignoreCase (rx_zone 13))) (z, ?n) ([], ?o)"
    using z takes_zone [of 13 ?n] n by auto
  have ti: "takes (rx_time 6) (timeString ?t PrecAuto @ z, ?m) (z, ?n)"
    using z by (intro takes_time v) (auto simp: isDigit_def)
  have a: "takes (opt (seqs [ignoreCase (Alt (chr CHR ''T'') (plus1 white)), rx_time 6, opt (ignoreCase (rx_zone 13))]))
      (CHR ''T'' # timeString ?t PrecAuto @ z, ?m) ([], ?o)"
    by (rule takes_opt, (rule takes_seqs_Cons takes_seqs_Nil T ti zo)+) (auto simp: white_def)
  have b: "takes (ignoreCase (bracketed (Grp 19 rx_tz))) ([], ?o) ([], ?o)"
    using n [of 19] by (intro takes_brackets) simp
  have c: "takes (ignoreCase (annotations 20)) ([], ?o) ([], ?o(20 := Some []))"
  proof (rule takes_annotations, rule ballI)
    fix i :: nat assume "i \<in> {20..20 + 3}"
    then show "?o i = None" using n [of i] by (simp del: One_nat_def)
  qed
  have "takes rx_V (dateString ?d @ CHR ''T'' # timeString ?t PrecAuto @ z, \<lambda>_. None) ([], ?o(20 := Some []))"
    unfolding V
    by (rule takes_seqs_Cons, rule takes_date [OF v(1) d(2)], rule takes_seqs_Cons, rule a, rule takes_seqs_Cons, rule b,
        rule takes_seqs_Cons, rule c, rule takes_seqs_Cons, rule takes_AtEnd, rule takes_seqs_Nil)
  then show ?thesis unfolding dateTimeCaptures_def Let_def append_Cons append_Nil by (rule exec_takes)
qed

section \<open>Reading the fields\<close>

lemma matchAll_Nil: "matchAll (rx_annotation 1) [] = []"
  by (subst matchAll.simps) (simp add: exec_def rx_annotation_def chr_def)

lemma digits_9:
  assumes "0 \<le> a" "a < 1000" "0 \<le> b" "b < 1000" "0 \<le> c" "c < 1000"
  shows "digits 9 (nat (1000000 * a + 1000 * b + c)) = digits 3 (nat a) @ digits 3 (nat b) @ digits 3 (nat c)"
proof -
  have l: "length (digits 3 (nat a)) = 3" "length (digits 3 (nat b)) = 3" "length (digits 3 (nat c)) = 3"
    using assms by (auto intro!: length_digits)
  have e: "nat (1000000 * a + 1000 * b + c) = 1000000 * nat a + 1000 * nat b + nat c" using assms by (simp add: nat_add_distrib nat_mult_distrib)
  show ?thesis
    by (rule valNat_inj) (use assms l in \<open>auto simp: digits_isDigit valNat_append e intro!: length_digits\<close>)
qed

lemma take_nineDigits:
  assumes t: "validTime t"
  shows "isoTime h mi s (nineDigits (fracText t))
    = \<lparr>hour = h, minute = mi, second = (if s = 60 then 59 else s), millisecond = millisecond t, microsecond = microsecond t, nanosecond = nanosecond t\<rparr>"
proof (cases "fracText t")
  case None
  have "captureInt (Some ''und'') = 0" "captureInt (Some ''efi'') = 0" "captureInt (Some ''ned'') = 0" by code_simp+
  moreover have "millisecond t = 0 \<and> microsecond t = 0 \<and> nanosecond t = 0"
  proof -
    have "1000000 * millisecond t + 1000 * microsecond t + nanosecond t = 0" using None by (simp add: fracText_def subNs_def split: if_splits)
    moreover have "0 \<le> millisecond t" "0 \<le> microsecond t" "0 \<le> nanosecond t" using validTime_ranges [OF t] by simp_all
    ultimately show ?thesis by linarith
  qed
  ultimately show ?thesis by (simp add: None isoTime_def nineDigits_def slice3_def)
next
  case (Some f)
  let ?a = "digits 3 (nat (millisecond t))" and ?b = "digits 3 (nat (microsecond t))" and ?c = "digits 3 (nat (nanosecond t))"
  have l: "length ?a = 3" "length ?b = 3" "length ?c = 3" using validTime_ranges [OF t] by (auto intro!: length_digits)
  have "f = stripZeros (digits 9 (nat (subNs t)))" using Some by (simp add: fracText_def split: if_splits)
  moreover have "length (digits 9 (nat (subNs t))) = 9" using subNs_range [OF t] by (intro length_digits) auto
  ultimately have "take 9 (nineDigits (fracText t)) = digits 9 (nat (subNs t))"
    using take_stripZeros [of "digits 9 (nat (subNs t))" 9] by (simp add: Some nineDigits_def eval_nat_numeral)
  also have "\<dots> = ?a @ ?b @ ?c" unfolding subNs_def using validTime_ranges [OF t] by (intro digits_9) auto
  finally obtain r where r: "nineDigits (fracText t) = (?a @ ?b @ ?c) @ r" by (metis append_take_drop_id)
  have "captureInt (Some ?a) = millisecond t" "captureInt (Some ?b) = microsecond t" "captureInt (Some ?c) = nanosecond t"
    using validTime_ranges [OF t] by (auto intro!: captureInt_nat)
  then show ?thesis using l by (simp add: r isoTime_def slice3_def)
qed

lemma captureInt_year:
  assumes "\<bar>e\<bar> < 1000000"
  shows "captureInt (Some (ISOYearString e)) = e"
proof -
  have l: "length (digits 6 (nat \<bar>e\<bar>)) = 6" using assms by (intro length_digits) auto
  then have ne: "digits 6 (nat \<bar>e\<bar>) \<noteq> []" by (metis length_0_conv zero_neq_numeral)
  note six = captureInt_digits [OF digits_isDigit ne, unfolded l valNat_digits, simplified]
  show ?thesis
  proof (cases "0 \<le> e \<and> e < 10000")
    case True
    then have l4: "length (digits 4 (nat e)) = 4" by (intro length_digits) auto
    then have "digits 4 (nat e) \<noteq> []" by (metis length_0_conv zero_neq_numeral)
    from captureInt_digits(1) [OF digits_isDigit this, unfolded l4 valNat_digits] show ?thesis
      unfolding ISOYearString_digits [OF assms] if_P [OF True] using True by simp
  next
    case False
    show ?thesis
      unfolding ISOYearString_digits [OF assms] if_not_P [OF False] using six by (cases "e < 0") simp_all
  qed
qed

lemma year_not_negative_zero:
  assumes "\<bar>e\<bar> < 1000000"
  shows "ISOYearString e \<noteq> ''-000000''"
proof
  assume a: "ISOYearString e = ''-000000''"
  have "list_all isDigit ''000000''" "valNat ''000000'' = 0" by code_simp+
  then have "captureInt (Some ''-000000'') = 0" using captureInt_digits(2) [of "''000000''"] by simp
  then have "e = 0" using captureInt_year [OF assms] a by simp
  moreover have "ISOYearString 0 = ''0000''" by code_simp
  ultimately show False using a by simp
qed

lemma timeCaptures_apply:
  "timeCaptures g t m i = (if i = g then Some (digits 2 (nat (hour t))) else if i = g + 1 then Some (digits 2 (nat (minute t)))
     else if i = g + 2 then Some (digits 2 (nat (second t))) else if i = g + 3 then (case fracText t of None \<Rightarrow> m i | Some f \<Rightarrow> Some f) else m i)"
  by (cases "fracText t") (simp_all add: timeCaptures_def Let_def)

lemma dateTimeCaptures_apply:
  "dateTimeCaptures x z i = (if i = 20 then Some [] else if i = 13 \<and> z \<noteq> [] then Some z
     else timeCaptures 6 (dtTime x) ((\<lambda>_. None)
         (1 := Some (ISOYearString (year (dtDate x))), 2 := Some (digits 2 (nat (month (dtDate x)))), 3 := Some (digits 2 (nat (day (dtDate x)))))) i)"
  by (simp add: dateTimeCaptures_def Let_def)

lemma dateTimeCaptures_simps:
  "dateTimeCaptures x z 1 = Some (ISOYearString (year (dtDate x)))" "dateTimeCaptures x z 2 = Some (digits 2 (nat (month (dtDate x))))"
  "dateTimeCaptures x z 3 = Some (digits 2 (nat (day (dtDate x))))"
  "dateTimeCaptures x z 6 = Some (digits 2 (nat (hour (dtTime x))))" "dateTimeCaptures x z 7 = Some (digits 2 (nat (minute (dtTime x))))"
  "dateTimeCaptures x z 8 = Some (digits 2 (nat (second (dtTime x))))" "dateTimeCaptures x z 9 = fracText (dtTime x)"
  "dateTimeCaptures x z 12 = None" "dateTimeCaptures x z 13 = (if z = [] then None else Some z)" "dateTimeCaptures x z 14 = None"
  "dateTimeCaptures x z 19 = None" "dateTimeCaptures x z 20 = Some []"
  unfolding dateTimeCaptures_apply timeCaptures_apply by (simp_all split: option.split)

lemma orElse_digits: "orElse (Some (digits k n)) b = Some (digits k n)"
  by (simp add: orElse_def)

lemma ParseISODateTime_string:
  assumes x: "validDateTime x" "\<bar>year (dtDate x)\<bar> < 1000000" and z: "z = '''' \<or> z = ''Z''"
  shows "ParseISODateTime (dateString (dtDate x) @ ''T'' @ timeString (dtTime x) PrecAuto @ z)
    = Inr \<lparr>pDate = dtDate x, pTime = dtTime x, pHasTime = True, pIanaName = None, pOffset = None, pZ = (z \<noteq> ''''), pCalendar = None\<rparr>"
proof -
  let ?d = "dtDate x" and ?t = "dtTime x" and ?m = "dateTimeCaptures x z"
  have v: "validDate ?d" "validTime ?t" using x by (simp_all add: validDateTime_def)
  note r = validTime_ranges [OF v(2)]
  have dr: "1 \<le> month ?d" "month ?d \<le> 12" "1 \<le> day ?d" "day ?d \<le> 31"
    using v validDate_MonthLength [of ?d] MonthLength_range(2) [of "month ?d - 1" "InLeapYear (year ?d)"] by (auto simp: validDate_def)
  note g = dateTimeCaptures_simps
  have fo: "orElse (fracText ?t) None = fracText ?t"
    using fracText_digits(2) [OF v(2)] by (auto simp: orElse_def split: option.split)
  have y: "ISOYearString (year ?d) \<noteq> ''-000000''" by (rule year_not_negative_zero [OF x(2)])
  have time: "isoTime (captureInt (?m 6)) (captureInt (orElse (?m 7) (?m 10))) (captureInt (orElse (?m 8) (?m 11))) (nineDigits (orElse (?m 9) (?m 12))) = ?t"
    using r take_nineDigits [OF v(2)] by (simp add: g fo captureInt_nat orElse_digits)
  have date: "captureInt (?m 1) = year ?d" "captureInt (orElse (?m 2) (?m 4)) = month ?d" "captureInt (orElse (?m 3) (?m 5)) = day ?d"
    using dr by (simp_all only: g orElse_digits captureInt_year [OF x(2)]) (simp_all add: captureInt_nat)
  have rej: "RejectDateTime (year ?d) (month ?d) (day ?d) (hour ?t) (minute ?t) (second ?t) (millisecond ?t) (microsecond ?t) (nanosecond ?t) = Inr ()"
    using v RejectISODate_eq [of "year ?d" "month ?d" "day ?d"] RejectTime_iff [of "hour ?t" "minute ?t" "second ?t" "millisecond ?t" "microsecond ?t" "nanosecond ?t"]
    by (simp add: RejectDateTime_def)
  have ann: "annotationsOf (?m 20) = Inr None" by (simp only: g annotationsOf_def option.case matchAll_Nil readAnnotations.simps)
  have flags: "(?m 6 \<noteq> None) = True" "(?m 13 \<noteq> None) = (z \<noteq> [])" "(if z \<noteq> [] then None else offsetText ?m) = None" "?m 19 = None"
    by (simp_all add: g offsetText_def)
  have "?m 1 \<noteq> Some ''-000000''" using y by (simp only: g option.inject not_False_eq_True)
  then show ?thesis
    unfolding ParseISODateTime_def exec_V [OF x z] option.case prod.case date time Let_def ann rej flags bindE_Inr
    by simp
qed

text \<open>C36: a date-time with a valid date and time is read back from its string; the grammar puts no other
  reading first.\<close>

theorem datetime_roundtrip:
  assumes "validDateTime x" "\<bar>year (dtDate x)\<bar> < 1000000"
  shows "bindE (TemporalDateTimeToString now x (Inr ''iso8601'') PrecAuto CalAuto None) ParseISODateTime
    = Inr \<lparr>pDate = dtDate x, pTime = dtTime x, pHasTime = True, pIanaName = None, pOffset = None, pZ = False, pCalendar = None\<rparr>"
  using ParseISODateTime_string [OF assms, of "''''"]
  by (simp add: TemporalDateTimeToString_def MaybeFormatCalendarAnnotation_def FormatCalendarAnnotation_def)

theorem datetime_roundtrip_witness:
  "bindE (TemporalDateTimeToString 0 (datetimeOfNs 1500000001) (Inr ''iso8601'') PrecAuto CalAuto None) ParseISODateTime
    = Inr \<lparr>pDate = dtDate (datetimeOfNs 1500000001), pTime = dtTime (datetimeOfNs 1500000001), pHasTime = True, pIanaName = None, pOffset = None, pZ = False, pCalendar = None\<rparr>"
proof -
  have "year (dtDate (datetimeOfNs 1500000001)) = 1970" by code_simp
  then show ?thesis using datetime_roundtrip [of "datetimeOfNs 1500000001" 0] by simp
qed

text \<open>C35: every instant is read back from its string.\<close>

theorem instant_roundtrip:
  assumes "clockOk now" "inRange e"
  shows "bindE (TemporalInstantToString now e None PrecAuto) (ParseTemporalInstant now) = Inr e"
proof -
  define x where "x = datetimeOfNs e"
  have x: "validDateTime x" "datetimeNs x = e" by (simp_all add: x_def)
  have "nsMin - nsPerDay < e" "e < nsMax + nsPerDay" using assms(2) by (simp_all add: nsPerDay_def)
  then have dr: "dateInRange (dtDate x)" unfolding x_def by (rule datetimeOfNs_bounds)
  note b = dateInRange_bounds [OF dr]
  have y: "\<bar>year (dtDate x)\<bar> < 1000000" using b by (simp add: yearMin_def yearMax_def)
  have z: "GetPlainDateTimeFor now (offsetZone now 0) e = Inr x"
    using GetPlainDateTimeFor_eq [OF assms, of "offsetZone now 0" 0] by (simp add: offsetZone_def GetOffsetNanosecondsFor_def x_def)
  let ?d = "dtDate x" and ?t = "dtTime x"
  have v: "validDate ?d" "validTime ?t" using x(1) by (simp_all add: validDateTime_def)
  note r = validTime_ranges [OF v(2)]
  have f: "fieldsNs (hour ?t) (minute ?t) (second ?t) (millisecond ?t) (microsecond ?t) (nanosecond ?t) = timeNs ?t"
    by (simp add: fieldsNs_def timeNs_def)
  have n: "nsub (nanosecond ?t) 0 = nanosecond ?t" using r by (simp add: nsub_safe)
  have m: "1 \<le> month ?d" "month ?d \<le> 12" "1 \<le> day ?d" "day ?d \<le> 31"
    using v validDate_MonthLength [of ?d] MonthLength_range(2) [of "month ?d - 1" "InLeapYear (year ?d)"] by (auto simp: validDate_def)
  have bal: "BalanceISODateTime (year ?d) (month ?d) (day ?d) (hour ?t) (minute ?t) (second ?t) (millisecond ?t) (microsecond ?t) (nanosecond ?t) = Inr x"
  proof -
    have "BalanceISODateTime (year ?d) (month ?d) (day ?d) (hour ?t) (minute ?t) (second ?t) (millisecond ?t) (microsecond ?t) (nanosecond ?t)
        = Inr (datetimeOfNs (datetimeNs x))"
      using y m timeNs_range [OF v(2)]
      by (subst BalanceISODateTime_safe) (auto simp: f nsPerDay_def datetimeNs_def epochDay_def)
    then show ?thesis using x by (simp add: x_def)
  qed
  have utc: "GetUTCEpochNanoseconds now (year ?d) (month ?d) (day ?d) (hour ?t) (minute ?t) (second ?t) (millisecond ?t) (microsecond ?t) (nanosecond ?t) = Some e"
    using GetUTCEpochNanoseconds_valid [OF assms(1) v(2)] assms(2) x(2) by simp
  have p: "ParseISODateTime (dateString ?d @ ''T'' @ timeString ?t PrecAuto @ ''Z'')
      = Inr \<lparr>pDate = ?d, pTime = ?t, pHasTime = True, pIanaName = None, pOffset = None, pZ = True, pCalendar = None\<rparr>"
    using ParseISODateTime_string [OF x(1) y, of "''Z''"] by simp
  show ?thesis
    unfolding TemporalInstantToString_def Let_def option.case z bindE_Inr ParseTemporalInstant_def p
    by (simp add: n bal utc orThrow_def)
qed

theorem instant_roundtrip_witness: "bindE (TemporalInstantToString 0 (-1) None PrecAuto) (ParseTemporalInstant 0) = Inr (-1)"
  by (rule instant_roundtrip) (simp_all add: clockOk_def msPerDay_def nsMin_def nsMax_def)

section \<open>Offsets\<close>

lemma takes_sixty: "n < 60 \<Longrightarrow> takes sixty (digits 2 n @ s, m) (s, m)"
proof -
  assume n: "n < 60"
  then have "n div 10 < 6" by (simp add: less_mult_imp_div_less)
  then have "n div 10 \<in> {0, 1, 2, 3, 4, 5}" by auto
  then show ?thesis using n unfolding sixty_def anyOf_def digit_def
    by (intro takes_two) (auto simp: digitChar_values)
qed

lemma takes_hours24: "n < 24 \<Longrightarrow> takes hours24 (digits 2 n @ s, m) (s, m)"
proof (cases "n < 20")
  case True
  then have "n div 10 < 2" by (simp add: less_mult_imp_div_less)
  then have "n div 10 \<in> {0, 1}" by auto
  then show ?thesis using True unfolding hours24_def anyOf_def digit_def
    by (intro takes_Alt1 takes_two) (auto simp: digitChar_values)
next
  case False
  assume "n < 24"
  with False have "n = 20 \<or> n = 21 \<or> n = 22 \<or> n = 23" by auto
  then show ?thesis unfolding hours24_def anyOf_def chr_def
    by (intro takes_Alt2 takes_two rejects_two) (auto simp: digitChar_values)
qed

text \<open>The groups of an offset, printed with seconds and a fraction when they are not zero\<close>

definition offsetCaptures :: "string \<Rightarrow> nat \<Rightarrow> nat \<Rightarrow> nat \<Rightarrow> nat \<Rightarrow> captures" where
  "offsetCaptures sg h mi s f =
     (let m = (\<lambda>_. None)(1 := Some sg, 2 := Some (digits 2 h), 3 := Some (digits 2 mi));
          m' = (if s = 0 \<and> f = 0 then m else m(4 := Some (digits 2 s)))
      in if f = 0 then m' else m'(5 := Some (stripZeros (digits 9 f))))"

definition offsetString :: "string \<Rightarrow> nat \<Rightarrow> nat \<Rightarrow> nat \<Rightarrow> nat \<Rightarrow> string" where
  "offsetString sg h mi s f = sg @ digits 2 h @ '':'' @ digits 2 mi
     @ (if f \<noteq> 0 then '':'' @ digits 2 s @ ''.'' @ stripZeros (digits 9 f) else if s \<noteq> 0 then '':'' @ digits 2 s else '''')"

lemma exec_ze:
  assumes "sg = ''+'' \<or> sg = ''-''" "h < 24" "mi < 60" "s < 60" "f < 10 ^ 9"
  shows "exec rx_ze (offsetString sg h mi s f) = Some ([], offsetCaptures sg h mi s f)"
proof -
  let ?m = "(\<lambda>_. None)(1 := Some sg, 2 := Some (digits 2 h), 3 := Some (digits 2 mi)) :: captures"
  let ?tail = "if f \<noteq> 0 then '':'' @ digits 2 s @ ''.'' @ stripZeros (digits 9 f) else if s \<noteq> 0 then '':'' @ digits 2 s else ''''"
  have sep: "takes separator (CHR '':'' # t, m) (t, m)" for t m
    unfolding separator_def by (intro takes_opt takes_chr) auto
  have nosep: "takes separator ([], m) ([], m)" for m
    unfolding separator_def by (intro takes_opt_none rejects_chr) auto
  have g: "groups separator = []" "groups sixty = []" "groups hours24 = []" by (simp_all add: separator_def sixty_def hours24_def)
  have fr: "takes (fraction 5) (if f = 0 then '''' else ''.'' @ stripZeros (digits 9 f), m)
      ([], if f = 0 then m else m(5 := Some (stripZeros (digits 9 f))))" if "m 5 = None" for m
  proof (cases "f = 0")
    case True
    have "rejects (Seq (anyOf ''.,'') r) ([], m)" for r by (intro rejects_Seq rejects_anyOf) auto
    then show ?thesis unfolding fraction_def if_P [OF True] by (rule takes_opt_none) (simp add: that)
  next
    case False
    note d = stripZeros_digits [of f]
    have "takes (upTo 1 9 digit) (stripZeros (digits 9 f) @ [], m) ([], m)"
      unfolding digit_def using False assms(5) d by (intro takes_Rep_One) (auto simp: Suc_le_eq)
    then have "takes (Grp 5 (upTo 1 9 digit)) (stripZeros (digits 9 f), m) ([], m(5 := Some (stripZeros (digits 9 f))))"
      using takes_Grp [of "upTo 1 9 digit" "stripZeros (digits 9 f)" "[]" m m 5] by simp
    then have "takes (fraction 5) (CHR ''.'' # stripZeros (digits 9 f), m) ([], m(5 := Some (stripZeros (digits 9 f))))"
      unfolding fraction_def by (intro takes_opt takes_Seq [OF takes_anyOf]) (use that in auto)
    then show ?thesis using False by simp
  qed
  have tail: "takes (opt (seqs [separator, Grp 4 sixty, fraction 5])) (?tail, ?m) ([], offsetCaptures sg h mi s f)"
  proof (cases "s = 0 \<and> f = 0")
    case True
    have "rejects sixty ([], m)" for m unfolding sixty_def by (intro rejects_Seq rejects_anyOf) simp
    then have r: "rejects (seqs [separator, Grp 4 sixty, fraction 5]) ([], ?m)"
      by (auto simp: rejects_def separator_def takes_def)
    have e: "offsetCaptures sg h mi s f = ?m" "?tail = []" using True by (simp_all add: offsetCaptures_def)
    have "\<forall>i \<in> set (groups (seqs [separator, Grp 4 sixty, fraction 5])). ?m i = None" by (simp add: g)
    then show ?thesis unfolding e by (rule takes_opt_none [OF r])
  next
    case False
    have e: "?tail = CHR '':'' # digits 2 s @ (if f = 0 then '''' else ''.'' @ stripZeros (digits 9 f))" using False by auto
    have "takes (seqs [separator, Grp 4 sixty, fraction 5]) (?tail, ?m) ([], offsetCaptures sg h mi s f)"
      unfolding e by (rule takes_seqs_Cons, rule sep, rule takes_seqs_Cons, rule takes_Grp, rule takes_sixty [OF assms(4)],
        rule takes_seqs_Cons, rule fr, simp, cases "f = 0", use False in \<open>simp_all add: offsetCaptures_def takes_Eps\<close>)
    then show ?thesis by (rule takes_opt) (use False in \<open>auto simp: g\<close>)
  qed
  have n12: "(1::nat) + 1 = 2" "(1::nat) + 2 = 3" by simp_all
  have mins: "takes (opt (offsetMinutes 3)) (CHR '':'' # digits 2 mi @ ?tail, (\<lambda>_. None)(1 := Some sg, 2 := Some (digits 2 h))) ([], offsetCaptures sg h mi s f)"
  proof (rule takes_opt)
    show "takes (offsetMinutes 3) (CHR '':'' # digits 2 mi @ ?tail, (\<lambda>_. None)(1 := Some sg, 2 := Some (digits 2 h))) ([], offsetCaptures sg h mi s f)"
      unfolding offsetMinutes_def
      by (rule takes_seqs_Cons, rule sep, rule takes_seqs_Cons, rule takes_Grp, rule takes_sixty [OF assms(3)],
        rule takes_seqs_Cons, use tail in simp, rule takes_seqs_Nil)
  qed (simp_all add: offsetMinutes_def g)
  obtain c where c: "sg = [c]" "c \<in> set ''+-''" using assms(1) by auto
  have A: "takes (Grp 1 sign) ([c] @ digits 2 h @ CHR '':'' # digits 2 mi @ ?tail, \<lambda>_. None)
      (digits 2 h @ CHR '':'' # digits 2 mi @ ?tail, (\<lambda>_. None)(1 := Some [c]))"
    unfolding sign_def using c(2) by (intro takes_Grp) (simp add: takes_anyOf)
  have B: "takes (Grp 2 hours24) (digits 2 h @ CHR '':'' # digits 2 mi @ ?tail, (\<lambda>_. None)(1 := Some [c]))
      (CHR '':'' # digits 2 mi @ ?tail, (\<lambda>_. None)(1 := Some [c], 2 := Some (digits 2 h)))"
    by (rule takes_Grp, rule takes_hours24 [OF assms(2)])
  have "takes (seqs [Grp 1 sign, Grp 2 hours24, opt (offsetMinutes 3)]) (offsetString sg h mi s f, \<lambda>_. None) ([], offsetCaptures sg h mi s f)"
    unfolding offsetString_def c(1) append_Cons append_Nil
    by (rule takes_seqs_Cons, rule A [unfolded append_Cons append_Nil], rule takes_seqs_Cons, rule B [unfolded append_Cons append_Nil],
        rule takes_seqs_Cons, rule mins [unfolded append_Cons append_Nil c(1)], rule takes_seqs_Nil)
  then have "takes rx_ze (offsetString sg h mi s f, \<lambda>_. None) ([], offsetCaptures sg h mi s f)"
    unfolding rx_ze_def rx_offset_def n12 by (rule takes_Seq [OF _ takes_AtEnd])
  then show ?thesis by (rule exec_takes)
qed

lemma ParseTimeZoneOffsetString_string:
  assumes "sg = ''+'' \<or> sg = ''-''" "h < 24" "mi < 60" "s < 60" "f < 10 ^ 9"
  shows "ParseTimeZoneOffsetString (offsetString sg h mi s f)
    = Inr ((if sg = ''-'' then -1 else 1) * (1000000000 * (60 * (60 * int h + int mi) + int s) + int f))"
proof -
  let ?m = "offsetCaptures sg h mi s f"
  have m: "?m 1 = Some sg" "?m 2 = Some (digits 2 h)" "?m 3 = Some (digits 2 mi)"
    "?m 4 = (if s = 0 \<and> f = 0 then None else Some (digits 2 s))" "?m 5 = (if f = 0 then None else Some (stripZeros (digits 9 f)))"
    by (simp_all add: offsetCaptures_def Let_def)
  have z: "captureInt (Some ''0'') = 0" by (subst captureInt_digits) (simp_all add: valNat_def)
  have s4: "captureInt (orElse (?m 4) (Some ''0'')) = int s"
    using assms(4) by (simp add: m(4) orElse_digits captureInt_two z) (simp add: orElse_def z)
  have s3: "captureInt (orElse (?m 3) (Some ''0'')) = int mi" "captureInt (?m 2) = int h"
    using assms(2,3) by (simp_all add: m orElse_digits captureInt_two)
  have s5: "captureInt (Some (take 9 (the (orElse (?m 5) (Some ''0'')) @ ''000000000''))) = int f"
  proof (cases "f = 0")
    case True
    have "list_all isDigit ''000000000''" "valNat ''000000000'' = 0" by code_simp+
    then show ?thesis using captureInt_digits(1) [of "''000000000''"] by (simp add: m(5)[unfolded True] True orElse_def)
  next
    case False
    have l: "length (digits 9 f) = 9" using assms(5) by (intro length_digits) auto
    have "the (orElse (?m 5) (Some ''0'')) = stripZeros (digits 9 f)"
      using False stripZeros_digits(2) [of f] assms(5) by (simp add: m orElse_def)
    moreover have "take 9 (stripZeros (digits 9 f) @ ''000000000'') = digits 9 f"
      using take_stripZeros [of "digits 9 f" 9] l by (simp add: eval_nat_numeral)
    ultimately show ?thesis using captureInt_digits(1) [OF digits_isDigit, of 9 f] l by simp
  qed
  show ?thesis unfolding ParseTimeZoneOffsetString_def exec_ze [OF assms] option.case prod.case s3 s4 s5
    by (simp only: m option.inject)
qed

lemma offset_fields:
  fixes r :: int
  assumes "0 \<le> r" "r < nsPerDay"
  defines "h \<equiv> nat (r div 3600000000000)" and "mi \<equiv> nat (r div 60000000000 mod 60)" and "s \<equiv> nat (r div 1000000000 mod 60)" and "f \<equiv> nat (r mod 1000000000)"
  shows "h < 24" "mi < 60" "s < 60" "f < 10 ^ 9" "1000000000 * (60 * (60 * int h + int mi) + int s) + int f = r"
proof -
  have p: "0 \<le> r div 3600000000000" "0 \<le> r div 60000000000 mod 60" "0 \<le> r div 1000000000 mod 60" "0 \<le> r mod 1000000000"
    using assms(1) by simp_all
  have b: "r div 3600000000000 < 24" using assms(1,2) by (simp add: nsPerDay_def div_less_iff_less_mult)
  show "h < 24" "mi < 60" "s < 60" "f < 10 ^ 9" using p b by (auto simp: h_def mi_def s_def f_def nat_less_iff)
  have d: "r div 60000000000 = r div 1000000000 div 60" "r div 3600000000000 = r div 1000000000 div 60 div 60"
    by (simp_all add: zdiv_zmult2_eq [symmetric])
  define q where "q = r div 1000000000"
  have "60 * (60 * (q div 60 div 60) + q div 60 mod 60) + q mod 60 = q" by simp
  then show "1000000000 * (60 * (60 * int h + int mi) + int s) + int f = r"
    using p unfolding h_def mi_def s_def f_def by (simp add: d flip: q_def) (simp add: q_def)
qed

lemma FormatTimeZoneOffsetString_string:
  assumes "\<bar>e\<bar> < nsPerDay"
  shows "FormatTimeZoneOffsetString e = offsetString (if e < 0 then ''-'' else ''+'') (nat (\<bar>e\<bar> div 3600000000000))
    (nat (\<bar>e\<bar> div 60000000000 mod 60)) (nat (\<bar>e\<bar> div 1000000000 mod 60)) (nat (\<bar>e\<bar> mod 1000000000))"
proof -
  define r where "r = \<bar>e\<bar>"
  have r: "0 \<le> r" "r < nsPerDay" using assms by (simp_all add: r_def)
  have q: "floorQuot r k = r div k" if "0 < k" for k
    using r that by (intro floorQuot_safe) (simp_all add: nsPerDay_def)
  have t: "tmod (r div k) 60 = r div k mod 60" "tmod r k = r mod k" if "0 < k" for k
    using r(1) that by (simp_all add: pos_imp_zdiv_nonneg_iff)
  have p: "0 \<le> r div 3600000000000" "0 \<le> r div 60000000000 mod 60" "0 \<le> r div 1000000000 mod 60" "0 \<le> r mod 1000000000"
    "r div 3600000000000 < 100" "r div 60000000000 mod 60 < 60" "r div 1000000000 mod 60 < 60"
    using r by (simp_all add: nsPerDay_def div_less_iff_less_mult)
  then have p': "r div 60000000000 mod 60 < 100" "r div 1000000000 mod 60 < 100" by linarith+
  note part = ISODateTimePartString_digits [OF p(1,5)] ISODateTimePartString_digits [OF p(2) p'(1)] ISODateTimePartString_digits [OF p(3) p'(2)]
  show ?thesis
    unfolding FormatTimeZoneOffsetString_def offsetString_def r_def [symmetric] Let_def q [of 1000000000, simplified] q [of 60000000000, simplified]
      q [of 3600000000000, simplified] t [of 1000000000, simplified] t [of 60000000000, simplified] part
    using p(3,4) by (simp add: decInt_def digits_def nat_eq_iff2 le_less)
qed

text \<open>An offset of less than a day is read back from its string, to the nanosecond.\<close>

theorem offset_roundtrip:
  assumes "\<bar>e\<bar> < nsPerDay"
  shows "ParseTimeZoneOffsetString (FormatTimeZoneOffsetString e) = Inr e"
proof -
  note f = offset_fields [of "\<bar>e\<bar>", OF abs_ge_zero assms]
  show ?thesis
    unfolding FormatTimeZoneOffsetString_string [OF assms]
    by (subst ParseTimeZoneOffsetString_string [OF _ f(1-4)], use f(5) in \<open>simp_all only:\<close>) simp_all
qed

theorem offset_roundtrip_witness:
  "ParseTimeZoneOffsetString (FormatTimeZoneOffsetString (- 19800000000001)) = Inr (- 19800000000001)"
  by (rule offset_roundtrip) (simp add: nsPerDay_def)

section \<open>What is accepted\<close>

text \<open>C38: what the parser returns is a date that exists and a time of day, each field in its range.\<close>

theorem ParseISODateTime_valid:
  assumes "ParseISODateTime e = Inr p"
  shows "validDate (pDate p) \<and> validTime (pTime p)"
proof -
  obtain s t where x: "exec rx_V e = Some (s, t)" using assms by (cases "exec rx_V e") (auto simp: ParseISODateTime_def)
  show ?thesis
    using assms unfolding ParseISODateTime_def x option.case prod.case Let_def
    by (auto simp: bindE_eq_Inr_iff RejectDateTime_def RejectISODate_eq RejectTime_iff isoTime_def)
qed

theorem ParseISODateTime_valid_witness:
  "\<exists>p. ParseISODateTime ''1970-01-01T00:00:00.000000001Z'' = Inr p \<and> validDate (pDate p) \<and> validTime (pTime p)"
proof -
  have d: "datetimeOfNs 1 = \<lparr>dtDate = mkDate 1970 1 1, dtTime = timeOfNs 1\<rparr>" by code_simp
  have e: "dateString (mkDate 1970 1 1) @ ''T'' @ timeString (timeOfNs 1) PrecAuto @ ''Z'' = ''1970-01-01T00:00:00.000000001Z''" by code_simp
  have "ParseISODateTime (dateString (mkDate 1970 1 1) @ ''T'' @ timeString (timeOfNs 1) PrecAuto @ ''Z'') =
      Inr \<lparr>pDate = mkDate 1970 1 1, pTime = timeOfNs 1, pHasTime = True, pIanaName = None, pOffset = None, pZ = True, pCalendar = None\<rparr>"
    using ParseISODateTime_string [of "datetimeOfNs 1" "''Z''"] validDateTime_datetimeOfNs [of 1] unfolding d by simp
  note p = this [unfolded e]
  from p ParseISODateTime_valid [OF p] show ?thesis by blast
qed

text \<open>C39: the whole string is matched without regard to case, the annotations in it are then read with
  regard to case: a calendar annotation in capitals is accepted and ignored, even a critical
  one, where the grammar of annotations has small letters only.\<close>

theorem capital_annotation_ignored:
  "ParseISODateTime ''2020-02-29[!U-CA=hebrew]'' =
    Inr \<lparr>pDate = mkDate 2020 2 29, pTime = timeOfNs 0, pHasTime = False, pIanaName = None, pOffset = None, pZ = False, pCalendar = None\<rparr>"
proof -
  have "map_option (\<lambda>(s, t). map t [1, 2, 3, 4, 5, 6, 7, 8, 9, 10]) (exec rx_V ''2020-02-29[!U-CA=hebrew]'')
      = Some [Some ''2020'', Some ''02'', Some ''29'', None, None, None, None, None, None, None]" by code_simp
  moreover have "map_option (\<lambda>(s, t). map t [11, 12, 13, 14, 19, 20]) (exec rx_V ''2020-02-29[!U-CA=hebrew]'')
      = Some [None, None, None, None, None, Some ''[!U-CA=hebrew]'']" by code_simp
  ultimately obtain s t where x: "exec rx_V ''2020-02-29[!U-CA=hebrew]'' = Some (s, t)"
    and t: "t 1 = Some ''2020''" "t 2 = Some ''02''" "t 3 = Some ''29''" "t 6 = None" "t 7 = None" "t 8 = None"
      "t 9 = None" "t 10 = None" "t 11 = None" "t 12 = None" "t 13 = None" "t 14 = None" "t 19 = None" "t 20 = Some ''[!U-CA=hebrew]''"
    by (cases "exec rx_V ''2020-02-29[!U-CA=hebrew]''") auto
  have "matchAll (rx_annotation 1) ''[!U-CA=hebrew]'' = []" by code_simp
  then have a: "annotationsOf (t 20) = Inr None" by (simp add: t annotationsOf_def)
  have d: "list_all isDigit ''2020''" "valNat ''2020'' = 2020" "list_all isDigit ''02''" "valNat ''02'' = 2"
    "list_all isDigit ''29''" "valNat ''29'' = 29" by code_simp+
  have n: "captureInt (Some ''2020'') = 2020" "captureInt (Some ''02'') = 2" "captureInt (Some ''29'') = 29"
    using captureInt_digits(1) [OF d(1)] captureInt_digits(1) [OF d(3)] captureInt_digits(1) [OF d(5)] d(2,4,6) by simp_all
  have z: "captureInt None = 0" by code_simp
  have "fracText (timeOfNs 0) = None" by code_simp
  then have i: "isoTime 0 0 0 (nineDigits None) = timeOfNs 0"
    using take_nineDigits [of "timeOfNs 0" 0 0 0] by (simp add: timeOfNs_def validTime_def)
  have r: "RejectDateTime 2020 2 29 0 0 0 0 0 0 = Inr ()" by code_simp
  have f: "(t 6 \<noteq> None) = False" "(t 13 \<noteq> None) = False" "(if False then None else offsetText t) = None" "t 1 \<noteq> Some ''-000000''"
    unfolding t(1) by (simp_all add: t(4,11,12) offsetText_def)
  have oe: "orElse (t 2) (t 4) = Some ''02''" "orElse (t 3) (t 5) = Some ''29''" "orElse (t 7) (t 10) = None" "orElse (t 8) (t 11) = None" "orElse (t 9) (t 12) = None"
    by (simp_all add: t orElse_def)
  have ti: "timeOfNs 0 = \<lparr>hour = 0, minute = 0, second = 0, millisecond = 0, microsecond = 0, nanosecond = 0\<rparr>" by code_simp
  show ?thesis
    unfolding ParseISODateTime_def x option.case prod.case oe t(1) t(4) n z i a bindE_Inr Let_def
    using f by (simp add: ti r t)
qed

end
