(* ===== verification/Calendar_Protocol.thy ===== *)
theory Calendar_Protocol imports Iso_Parse Zoned begin

text \<open>
  Calendars as \<^verbatim>\<open>temporal-polyfill.js\<close> calls them. A calendar slot holds the identifier of a
  built-in calendar or an object of the program. A built-in calendar is called without checks;
  the functions \<^verbatim>\<open>CalendarYear\<close> ... check what an object returns. The built-in calendars are a
  parameter; the methods of \<^verbatim>\<open>iso8601\<close> are in the next theory.
\<close>

section \<open>Calendars\<close>

text \<open>An object is seen through the reads of its properties, which may be getters.\<close>

type_synonym reads = "string \<Rightarrow> jsval result"

definition ownReads :: "jsval \<Rightarrow> reads" where
  "ownReads e k = Inr (getProp e k)"

text \<open>
  The methods of an object: the getters by name, with any value as their result; those that
  should return a Temporal object return \<open>None\<close> when it is another value. The methods
  see the ISO date of a Temporal object, and the objects they make keep this calendar. A missing method is a
  \<open>TypeError\<close> of the call.
\<close>

record calendar_object =
  coId :: jsval
  coGet :: "string \<Rightarrow> iso_date \<Rightarrow> jsval result"
  coFields :: "string list \<Rightarrow> jsval list result"
  coMergeFields :: "jsval \<Rightarrow> jsval \<Rightarrow> jsval result"
  coDateAdd :: "iso_date \<Rightarrow> duration \<Rightarrow> jsval \<Rightarrow> iso_date option result"
  coDateUntil :: "iso_date \<Rightarrow> iso_date \<Rightarrow> jsval \<Rightarrow> duration option result"
  coDateFromFields :: "reads \<Rightarrow> jsval \<Rightarrow> iso_date option result"
  coYearMonthFromFields :: "reads \<Rightarrow> jsval \<Rightarrow> iso_date option result"
  coMonthDayFromFields :: "reads \<Rightarrow> jsval \<Rightarrow> iso_date option result"

record builtin_calendar =
  bcNumber :: "string \<Rightarrow> iso_date \<Rightarrow> int result"
  bcMonthCode :: "iso_date \<Rightarrow> string result"
  bcEra :: "iso_date \<Rightarrow> string option result"
  bcEraYear :: "iso_date \<Rightarrow> int option result"
  bcInLeapYear :: "iso_date \<Rightarrow> bool result"
  bcFields :: "string list \<Rightarrow> string list result"
  bcMergeFields :: "jsval \<Rightarrow> jsval \<Rightarrow> jsval result"
  bcDateAdd :: "iso_date \<Rightarrow> duration \<Rightarrow> jsval \<Rightarrow> iso_date result"
  bcDateUntil :: "iso_date \<Rightarrow> iso_date \<Rightarrow> jsval \<Rightarrow> duration result"
  bcDateFromFields :: "reads \<Rightarrow> jsval \<Rightarrow> iso_date result"
  bcYearMonthFromFields :: "reads \<Rightarrow> jsval \<Rightarrow> iso_date result"
  bcMonthDayFromFields :: "reads \<Rightarrow> jsval \<Rightarrow> iso_date result"

text \<open>Two references to one object are equal; \<open>nat\<close> is the identity of the object.\<close>

datatype calendar_slot = BuiltinCal string | CalObj nat calendar_object

type_synonym builtins = "string \<Rightarrow> builtin_calendar"

section \<open>What an object may return\<close>

definition integerResult :: "jsval \<Rightarrow> int result" where
  "integerResult r = (case r of
       Num n \<Rightarrow> (case n of Fin x \<Rightarrow> if IsIntegralNumber r then Inr \<lfloor>x\<rfloor> else Inl RangeError | _ \<Rightarrow> Inl RangeError)
     | _ \<Rightarrow> Inl TypeError)"

definition positiveResult :: "jsval \<Rightarrow> int result" where
  "positiveResult r = bindE (integerResult r) (\<lambda>n. if n < 1 then Inl RangeError else Inr n)"

definition stringResult :: "jsval \<Rightarrow> string result" where
  "stringResult r = (case r of Str s \<Rightarrow> Inr s | _ \<Rightarrow> Inl TypeError)"

definition objectResult :: "'a option result \<Rightarrow> 'a result" where
  "objectResult r = bindE r (orThrow TypeError)"

fun allStrings :: "jsval list \<Rightarrow> string list result" where
  "allStrings [] = Inr []"
| "allStrings (x # xs) = bindE (stringResult x) (\<lambda>s. bindE (allStrings xs) (\<lambda>o1. Inr (s # o1)))"

section \<open>Calls\<close>

definition CalendarFields :: "builtins \<Rightarrow> calendar_slot \<Rightarrow> string list \<Rightarrow> string list result" where
  "CalendarFields b e t = (case e of
       BuiltinCal id1 \<Rightarrow> bcFields (b id1) t
     | CalObj _ c \<Rightarrow> bindE (coFields c t) allStrings)"

definition CalendarMergeFields :: "builtins \<Rightarrow> calendar_slot \<Rightarrow> jsval \<Rightarrow> jsval \<Rightarrow> jsval result" where
  "CalendarMergeFields b e t r = (case e of
       BuiltinCal id1 \<Rightarrow> bcMergeFields (b id1) t r
     | CalObj _ c \<Rightarrow> bindE (coMergeFields c t r) (\<lambda>o1. if IsObject o1 then Inr o1 else Inl TypeError))"

definition CalendarDateAdd :: "builtins \<Rightarrow> calendar_slot \<Rightarrow> iso_date \<Rightarrow> duration \<Rightarrow> jsval \<Rightarrow> iso_date result" where
  "CalendarDateAdd b e t r o1 = (case e of
       BuiltinCal id1 \<Rightarrow> bcDateAdd (b id1) t r o1
     | CalObj _ c \<Rightarrow> objectResult (coDateAdd c t r o1))"

definition CalendarDateUntil :: "builtins \<Rightarrow> calendar_slot \<Rightarrow> iso_date \<Rightarrow> iso_date \<Rightarrow> jsval \<Rightarrow> duration result" where
  "CalendarDateUntil b e t r o1 = (case e of
       BuiltinCal id1 \<Rightarrow> bcDateUntil (b id1) t r o1
     | CalObj _ c \<Rightarrow> objectResult (coDateUntil c t r o1))"

definition CalendarYear :: "builtins \<Rightarrow> calendar_slot \<Rightarrow> iso_date \<Rightarrow> int result" where
  "CalendarYear b e t = (case e of
       BuiltinCal id1 \<Rightarrow> bcNumber (b id1) ''year'' t
     | CalObj _ c \<Rightarrow> bindE (coGet c ''year'' t) integerResult)"

definition CalendarMonth :: "builtins \<Rightarrow> calendar_slot \<Rightarrow> iso_date \<Rightarrow> int result" where
  "CalendarMonth b e t = (case e of
       BuiltinCal id1 \<Rightarrow> bcNumber (b id1) ''month'' t
     | CalObj _ c \<Rightarrow> bindE (coGet c ''month'' t) positiveResult)"

definition CalendarMonthCode :: "builtins \<Rightarrow> calendar_slot \<Rightarrow> iso_date \<Rightarrow> string result" where
  "CalendarMonthCode b e t = (case e of
       BuiltinCal id1 \<Rightarrow> bcMonthCode (b id1) t
     | CalObj _ c \<Rightarrow> bindE (coGet c ''monthCode'' t) stringResult)"

definition CalendarDay :: "builtins \<Rightarrow> calendar_slot \<Rightarrow> iso_date \<Rightarrow> int result" where
  "CalendarDay b e t = (case e of
       BuiltinCal id1 \<Rightarrow> bcNumber (b id1) ''day'' t
     | CalObj _ c \<Rightarrow> bindE (coGet c ''day'' t) positiveResult)"

definition CalendarEra :: "builtins \<Rightarrow> calendar_slot \<Rightarrow> iso_date \<Rightarrow> string option result" where
  "CalendarEra b e t = (case e of
       BuiltinCal id1 \<Rightarrow> bcEra (b id1) t
     | CalObj _ c \<Rightarrow> bindE (coGet c ''era'' t) (\<lambda>r.
         if r = Undefined then Inr None else bindE (stringResult r) (\<lambda>s. Inr (Some s))))"

definition CalendarEraYear :: "builtins \<Rightarrow> calendar_slot \<Rightarrow> iso_date \<Rightarrow> int option result" where
  "CalendarEraYear b e t = (case e of
       BuiltinCal id1 \<Rightarrow> bcEraYear (b id1) t
     | CalObj _ c \<Rightarrow> bindE (coGet c ''eraYear'' t) (\<lambda>r.
         if r = Undefined then Inr None else bindE (integerResult r) (\<lambda>n. Inr (Some n))))"

definition CalendarDayOfWeek :: "builtins \<Rightarrow> calendar_slot \<Rightarrow> iso_date \<Rightarrow> int result" where
  "CalendarDayOfWeek b e t = (case e of
       BuiltinCal id1 \<Rightarrow> bcNumber (b id1) ''dayOfWeek'' t
     | CalObj _ c \<Rightarrow> bindE (coGet c ''dayOfWeek'' t) positiveResult)"

definition CalendarDayOfYear :: "builtins \<Rightarrow> calendar_slot \<Rightarrow> iso_date \<Rightarrow> int result" where
  "CalendarDayOfYear b e t = (case e of
       BuiltinCal id1 \<Rightarrow> bcNumber (b id1) ''dayOfYear'' t
     | CalObj _ c \<Rightarrow> bindE (coGet c ''dayOfYear'' t) positiveResult)"

definition CalendarWeekOfYear :: "builtins \<Rightarrow> calendar_slot \<Rightarrow> iso_date \<Rightarrow> int result" where
  "CalendarWeekOfYear b e t = (case e of
       BuiltinCal id1 \<Rightarrow> bcNumber (b id1) ''weekOfYear'' t
     | CalObj _ c \<Rightarrow> bindE (coGet c ''weekOfYear'' t) positiveResult)"

definition CalendarYearOfWeek :: "builtins \<Rightarrow> calendar_slot \<Rightarrow> iso_date \<Rightarrow> int result" where
  "CalendarYearOfWeek b e t = (case e of
       BuiltinCal id1 \<Rightarrow> bcNumber (b id1) ''yearOfWeek'' t
     | CalObj _ c \<Rightarrow> bindE (coGet c ''yearOfWeek'' t) integerResult)"

definition CalendarDaysInWeek :: "builtins \<Rightarrow> calendar_slot \<Rightarrow> iso_date \<Rightarrow> int result" where
  "CalendarDaysInWeek b e t = (case e of
       BuiltinCal id1 \<Rightarrow> bcNumber (b id1) ''daysInWeek'' t
     | CalObj _ c \<Rightarrow> bindE (coGet c ''daysInWeek'' t) positiveResult)"

definition CalendarDaysInMonth :: "builtins \<Rightarrow> calendar_slot \<Rightarrow> iso_date \<Rightarrow> int result" where
  "CalendarDaysInMonth b e t = (case e of
       BuiltinCal id1 \<Rightarrow> bcNumber (b id1) ''daysInMonth'' t
     | CalObj _ c \<Rightarrow> bindE (coGet c ''daysInMonth'' t) positiveResult)"

definition CalendarDaysInYear :: "builtins \<Rightarrow> calendar_slot \<Rightarrow> iso_date \<Rightarrow> int result" where
  "CalendarDaysInYear b e t = (case e of
       BuiltinCal id1 \<Rightarrow> bcNumber (b id1) ''daysInYear'' t
     | CalObj _ c \<Rightarrow> bindE (coGet c ''daysInYear'' t) positiveResult)"

definition CalendarMonthsInYear :: "builtins \<Rightarrow> calendar_slot \<Rightarrow> iso_date \<Rightarrow> int result" where
  "CalendarMonthsInYear b e t = (case e of
       BuiltinCal id1 \<Rightarrow> bcNumber (b id1) ''monthsInYear'' t
     | CalObj _ c \<Rightarrow> bindE (coGet c ''monthsInYear'' t) positiveResult)"

definition CalendarInLeapYear :: "builtins \<Rightarrow> calendar_slot \<Rightarrow> iso_date \<Rightarrow> bool result" where
  "CalendarInLeapYear b e t = (case e of
       BuiltinCal id1 \<Rightarrow> bcInLeapYear (b id1) t
     | CalObj _ c \<Rightarrow> bindE (coGet c ''inLeapYear'' t) (\<lambda>r. case r of Bool x \<Rightarrow> Inr x | _ \<Rightarrow> Inl TypeError))"

definition CalendarDateFromFields :: "builtins \<Rightarrow> calendar_slot \<Rightarrow> reads \<Rightarrow> jsval \<Rightarrow> iso_date result" where
  "CalendarDateFromFields b e t r = (case e of
       BuiltinCal id1 \<Rightarrow> bcDateFromFields (b id1) t r
     | CalObj _ c \<Rightarrow> objectResult (coDateFromFields c t r))"

definition CalendarYearMonthFromFields :: "builtins \<Rightarrow> calendar_slot \<Rightarrow> reads \<Rightarrow> jsval \<Rightarrow> iso_date result" where
  "CalendarYearMonthFromFields b e t r = (case e of
       BuiltinCal id1 \<Rightarrow> bcYearMonthFromFields (b id1) t r
     | CalObj _ c \<Rightarrow> objectResult (coYearMonthFromFields c t r))"

definition CalendarMonthDayFromFields :: "builtins \<Rightarrow> calendar_slot \<Rightarrow> reads \<Rightarrow> jsval \<Rightarrow> iso_date result" where
  "CalendarMonthDayFromFields b e t r = (case e of
       BuiltinCal id1 \<Rightarrow> bcMonthDayFromFields (b id1) t r
     | CalObj _ c \<Rightarrow> objectResult (coMonthDayFromFields c t r))"

section \<open>Identifiers\<close>

definition builtinCalendars :: "string list" where
  "builtinCalendars = [''iso8601'', ''hebrew'', ''islamic'', ''islamic-umalqura'', ''islamic-tbla'', ''islamic-civil'',
     ''islamic-rgsa'', ''islamicc'', ''persian'', ''ethiopic'', ''ethioaa'', ''coptic'', ''chinese'', ''dangi'', ''roc'',
     ''indian'', ''buddhist'', ''japanese'', ''gregory'']"

definition IsBuiltinCalendar :: "string \<Rightarrow> bool" where
  "IsBuiltinCalendar e \<longleftrightarrow> ASCIILowercase e \<in> set builtinCalendars"

text \<open>The calendar a string names: an identifier, or the annotation of an ISO string, which may be a
  date-time, a year and month, or a month and day.\<close>

definition calendarOfString :: "string \<Rightarrow> string result" where
  "calendarOfString t =
     (if IsBuiltinCalendar t then Inr (ASCIILowercase t)
      else
        bindE (case ParseISODateTime t of
            Inr p \<Rightarrow> Inr (pCalendar p)
          | Inl _ \<Rightarrow> (case ParseTemporalYearMonthString t of
              Inr (_, _, c, _) \<Rightarrow> Inr c
            | Inl _ \<Rightarrow> bindE (ParseTemporalMonthDayString t) (\<lambda>(_, _, c, _). Inr c))) (\<lambda>r.
        let r = (case r of None \<Rightarrow> ''iso8601'' | Some c \<Rightarrow> c)
        in if IsBuiltinCalendar r then Inr (ASCIILowercase r) else Inl RangeError))"

text \<open>
  An argument for a calendar: a Temporal object that has one, an object with the methods of a
  calendar, another object, or a value that is converted to a string.
\<close>

datatype calendar_arg = HasCalendar calendar_slot | ProtocolObject nat calendar_object | OtherObject | NotObject jsval

definition ToTemporalCalendarSlotValue :: "calendar_arg \<Rightarrow> calendar_slot result" where
  "ToTemporalCalendarSlotValue e = (case e of
       HasCalendar c \<Rightarrow> Inr c
     | ProtocolObject n c \<Rightarrow> Inr (CalObj n c)
     | OtherObject \<Rightarrow> Inl TypeError
     | NotObject v \<Rightarrow> bindE (ToString v) (\<lambda>t. bindE (calendarOfString t) (\<lambda>s. Inr (BuiltinCal s))))"

definition ToTemporalCalendarIdentifier :: "calendar_slot \<Rightarrow> string result" where
  "ToTemporalCalendarIdentifier e = (case e of BuiltinCal s \<Rightarrow> Inr s | CalObj _ c \<Rightarrow> stringResult (coId c))"

definition sameCalendar :: "calendar_slot \<Rightarrow> calendar_slot \<Rightarrow> bool" where
  "sameCalendar e t = (case (e, t) of
       (BuiltinCal s, BuiltinCal s') \<Rightarrow> s = s' | (CalObj n _, CalObj n' _) \<Rightarrow> n = n' | _ \<Rightarrow> False)"

definition CalendarEquals :: "calendar_slot \<Rightarrow> calendar_slot \<Rightarrow> bool result" where
  "CalendarEquals e t =
     (if sameCalendar e t then Inr True
      else bindE (ToTemporalCalendarIdentifier e) (\<lambda>x. bindE (ToTemporalCalendarIdentifier t) (\<lambda>y. Inr (x = y))))"

definition ThrowIfCalendarsNotEqual :: "calendar_slot \<Rightarrow> calendar_slot \<Rightarrow> unit result" where
  "ThrowIfCalendarsNotEqual e t =
     (if sameCalendar e t then Inr ()
      else bindE (ToTemporalCalendarIdentifier e) (\<lambda>o1. bindE (ToTemporalCalendarIdentifier t) (\<lambda>n. throwIf (o1 \<noteq> n) RangeError)))"

definition ConsolidateCalendars :: "calendar_slot \<Rightarrow> calendar_slot \<Rightarrow> calendar_slot result" where
  "ConsolidateCalendars e t =
     (if sameCalendar e t then Inr t
      else bindE (ToTemporalCalendarIdentifier e) (\<lambda>r. bindE (ToTemporalCalendarIdentifier t) (\<lambda>o1.
        if r = o1 \<or> r = ''iso8601'' then Inr t
        else if o1 = ''iso8601'' then Inr e
        else Inl RangeError)))"

text \<open>
  The same for time zones, whose slots hold an identifier or an object with a property \<^verbatim>\<open>id\<close>
  and the two methods.
\<close>

datatype zone_slot = BuiltinTz string | TzObj nat jsval time_zone

datatype zone_arg = HasZone zone_slot | ZoneProtocol nat jsval time_zone | OtherZoneObject | NotZoneObject jsval

definition ToTemporalTimeZoneSlotValue :: "(string \<Rightarrow> string result) \<Rightarrow> zone_arg \<Rightarrow> zone_slot result" where
  "ToTemporalTimeZoneSlotValue canonical e = (case e of
       HasZone z \<Rightarrow> Inr z
     | ZoneProtocol n i m \<Rightarrow> Inr (TzObj n i m)
     | OtherZoneObject \<Rightarrow> Inl TypeError
     | NotZoneObject v \<Rightarrow> bindE (ToString v) (\<lambda>t. bindE (ParseTemporalTimeZone canonical t) (\<lambda>s. Inr (BuiltinTz s))))"

definition ToTemporalTimeZoneIdentifier :: "zone_slot \<Rightarrow> string result" where
  "ToTemporalTimeZoneIdentifier e = (case e of BuiltinTz s \<Rightarrow> Inr s | TzObj _ v _ \<Rightarrow> stringResult v)"

definition TimeZoneEquals :: "zone_slot \<Rightarrow> zone_slot \<Rightarrow> bool result" where
  "TimeZoneEquals e t =
     (if (case (e, t) of (BuiltinTz s, BuiltinTz s') \<Rightarrow> s = s' | (TzObj n _ _, TzObj n' _ _) \<Rightarrow> n = n' | _ \<Rightarrow> False) then Inr True
      else bindE (ToTemporalTimeZoneIdentifier e) (\<lambda>x. bindE (ToTemporalTimeZoneIdentifier t) (\<lambda>y. Inr (x = y))))"

text \<open>The methods of a zone; those of the built-in zones are a parameter.\<close>

definition zoneOf :: "(string \<Rightarrow> time_zone) \<Rightarrow> zone_slot \<Rightarrow> time_zone" where
  "zoneOf zs e = (case e of BuiltinTz s \<Rightarrow> zs s | TzObj _ _ m \<Rightarrow> m)"

section \<open>The arithmetic of dates on a calendar slot\<close>

text \<open>The operations that take a calendar with options already read call it with an options object
  or none.\<close>

definition calendarOf :: "builtins \<Rightarrow> calendar_slot \<Rightarrow> calendar" where
  "calendarOf b e = \<lparr>
     calDateAdd = (\<lambda>d v ov. CalendarDateAdd b e d v (case ov of Constrain \<Rightarrow> Undefined | Reject \<Rightarrow> plainObj [(''overflow'', Str ''reject'')])),
     calDateUntil = (\<lambda>x y u. CalendarDateUntil b e x y (plainObj [(''largestUnit'', Str (unitName u))]))\<rparr>"

section \<open>Safety\<close>

lemma integerResult_cases:
  "integerResult r = Inr n \<longleftrightarrow> r = Num (Fin (of_int n))"
proof
  assume a: "integerResult r = Inr n"
  then obtain x where r: "r = Num (Fin x)" "IsIntegralNumber r" "n = \<lfloor>x\<rfloor>"
    by (auto simp: integerResult_def split: jsval.splits jsnum.splits if_splits)
  then have "of_int \<lfloor>\<bar>x\<bar>\<rfloor> = \<bar>x\<bar>" by (simp add: IsIntegralNumber_def)
  then have "x = of_int \<lfloor>\<bar>x\<bar>\<rfloor> \<or> x = of_int (- \<lfloor>\<bar>x\<bar>\<rfloor>)" unfolding of_int_minus by linarith
  then obtain k where "x = of_int k" by blast
  then have "x = of_int n" using r(3) by simp
  then show "r = Num (Fin (of_int n))" using r by simp
next
  assume "r = Num (Fin (of_int n))"
  moreover have "of_int \<lfloor>\<bar>of_int n :: rat\<bar>\<rfloor> = \<bar>of_int n :: rat\<bar>" by (simp flip: of_int_abs)
  ultimately show "integerResult r = Inr n" by (simp add: integerResult_def IsIntegralNumber_def)
qed

lemma positiveResult_cases: "positiveResult r = Inr n \<longleftrightarrow> r = Num (Fin (of_int n)) \<and> 1 \<le> n"
  by (auto simp: positiveResult_def bindE_eq_Inr_iff integerResult_cases split: if_splits intro: exI [of _ n])

end
