(* ===== verification/Temporal_Fields.thy ===== *)
theory Temporal_Fields imports Calendar_Protocol "HOL-Library.List_Lexorder" "HOL-Library.Char_ord" begin

text \<open>
  Reading the fields of a property bag: the conversion each field has, defaults and required
  fields, the record of a time and the record of a duration. An object is seen through the
  reads of its properties, which may be getters.
\<close>

section \<open>The table of conversions\<close>

definition toNum :: "int result \<Rightarrow> jsval result" where
  "toNum r = bindE r (\<lambda>n. Inr (Num (Fin (of_int n))))"

definition numInt :: "jsval \<Rightarrow> int" where
  "numInt v = (case v of Num n \<Rightarrow> (case n of Fin x \<Rightarrow> \<lfloor>x\<rfloor> | _ \<Rightarrow> 0) | _ \<Rightarrow> 0)"

datatype conversion = Truncation | PositiveTruncation | StringOf | Integral | IntegerOrInfinity

definition conversions :: "(string \<times> conversion) list" where
  "conversions = [(''year'', Truncation), (''month'', PositiveTruncation), (''monthCode'', StringOf), (''day'', PositiveTruncation),
     (''hour'', Truncation), (''minute'', Truncation), (''second'', Truncation), (''millisecond'', Truncation),
     (''microsecond'', Truncation), (''nanosecond'', Truncation), (''years'', Integral), (''months'', Integral),
     (''weeks'', Integral), (''days'', Integral), (''hours'', Integral), (''minutes'', Integral), (''seconds'', Integral),
     (''milliseconds'', Integral), (''microseconds'', Integral), (''nanoseconds'', Integral), (''era'', StringOf),
     (''eraYear'', IntegerOrInfinity), (''offset'', StringOf)]"

fun convert :: "conversion \<Rightarrow> jsval \<Rightarrow> jsval result" where
  "convert Truncation v = toNum (ToIntegerWithTruncation v)"
| "convert PositiveTruncation v = toNum (ToPositiveIntegerWithTruncation v)"
| "convert StringOf v = bindE (ToString v) (\<lambda>s. Inr (Str s))"
| "convert Integral v = toNum (ToIntegerIfIntegral v)"
| "convert IntegerOrInfinity v = bindE (ToIntegerOrInfinity v) (\<lambda>n. Inr (Num n))"

definition fieldDefault :: "string \<Rightarrow> jsval" where
  "fieldDefault k =
     (if k \<in> {''hour'', ''minute'', ''second'', ''millisecond'', ''microsecond'', ''nanosecond''} then Num (Fin 0) else Undefined)"

section \<open>Fields\<close>

text \<open>The third argument of \<open>PrepareTemporalFields\<close>: \<^verbatim>\<open>"partial"\<close> or the required fields.\<close>

datatype required = Partial | Needs "string list"

text \<open>The loop; it returns whether a field was present and the properties of the result.\<close>

fun prepareFrom :: "reads \<Rightarrow> required \<Rightarrow> string list \<Rightarrow> bool \<Rightarrow> (string \<times> jsval) list \<Rightarrow> (bool \<times> (string \<times> jsval) list) result" where
  "prepareFrom e r [] a n = Inr (a, n)"
| "prepareFrom e r (k # ks) a n =
     bindE (e k) (\<lambda>t.
     if t \<noteq> Undefined then
       bindE (case map_of conversions k of Some c \<Rightarrow> convert c t | None \<Rightarrow> Inr t) (\<lambda>t.
         prepareFrom e r ks True (AList.update k t n))
     else (case r of
         Partial \<Rightarrow> prepareFrom e r ks a n
       | Needs rs \<Rightarrow> if k \<in> set rs then Inl TypeError else prepareFrom e r ks a (AList.update k (fieldDefault k) n)))"

definition PrepareTemporalFields :: "reads \<Rightarrow> string list \<Rightarrow> required \<Rightarrow> jsval result" where
  "PrepareTemporalFields e t r =
     bindE (prepareFrom e r (sort t) False []) (\<lambda>(a, n).
     bindE (throwIf (r = Partial \<and> \<not> a) TypeError) (\<lambda>_. Inr (plainObj n)))"

text \<open>The fields of a time; \<open>full\<close> (the mode \<^verbatim>\<open>"complete"\<close>) fills in the missing ones.\<close>

definition timeFields :: "string list" where
  "timeFields = [''hour'', ''microsecond'', ''millisecond'', ''minute'', ''nanosecond'', ''second'']"

definition ToTemporalTimeRecord :: "reads \<Rightarrow> bool \<Rightarrow> (string \<times> int) list result" where
  "ToTemporalTimeRecord e full =
     bindE (PrepareTemporalFields e timeFields Partial) (\<lambda>o1.
       Inr (List.map_filter (\<lambda>k. let v = getProp o1 k in
         if v \<noteq> Undefined then Some (k, numInt v) else if full then Some (k, 0) else None) timeFields))"

definition fieldOr0 :: "(string \<times> int) list \<Rightarrow> string \<Rightarrow> int" where
  "fieldOr0 n k = (case map_of n k of Some v \<Rightarrow> v | None \<Rightarrow> 0)"

definition timeOfRecord :: "(string \<times> int) list \<Rightarrow> iso_time" where
  "timeOfRecord n = (let g = fieldOr0 n in
     \<lparr>hour = g ''hour'', minute = g ''minute'', second = g ''second'', millisecond = g ''millisecond'',
      microsecond = g ''microsecond'', nanosecond = g ''nanosecond''\<rparr>)"

section \<open>Durations\<close>

text \<open>\<^verbatim>\<open>We\<close>: the plural names, sorted.\<close>

definition sortedUnits :: "string list" where
  "sortedUnits = [''days'', ''hours'', ''microseconds'', ''milliseconds'', ''minutes'', ''months'', ''nanoseconds'',
     ''seconds'', ''weeks'', ''years'']"

fun partialFrom :: "reads \<Rightarrow> string list \<Rightarrow> (string \<times> int) list result" where
  "partialFrom e [] = Inr []"
| "partialFrom e (k # ks) =
     bindE (e k) (\<lambda>v.
     if v = Undefined then partialFrom e ks
     else bindE (ToIntegerIfIntegral v) (\<lambda>n. bindE (partialFrom e ks) (\<lambda>t. Inr ((k, n) # t))))"

definition ToTemporalPartialDurationRecord :: "reads \<Rightarrow> (string \<times> int) list result" where
  "ToTemporalPartialDurationRecord e =
     bindE (partialFrom e sortedUnits) (\<lambda>t. if t = [] then Inl TypeError else Inr t)"

text \<open>An argument for a duration: a duration, another object, or a value that is converted to a string.\<close>

datatype duration_arg = IsDuration duration | DurationBag reads | DurationValue jsval

definition durationOfRecord :: "(string \<times> int) list \<Rightarrow> duration" where
  "durationOfRecord t = (let g = fieldOr0 t in
     mkDuration (g ''years'') (g ''months'') (g ''weeks'') (g ''days'') (g ''hours'') (g ''minutes'') (g ''seconds'')
       (g ''milliseconds'') (g ''microseconds'') (g ''nanoseconds''))"

definition ToTemporalDurationRecord :: "duration_arg \<Rightarrow> duration result" where
  "ToTemporalDurationRecord e = (case e of
       DurationValue v \<Rightarrow> bindE (ToString v) ParseTemporalDurationString
     | IsDuration d \<Rightarrow> Inr d
     | DurationBag r \<Rightarrow>
         bindE (ToTemporalPartialDurationRecord r) (\<lambda>t. let d = durationOfRecord t in
         bindE (RejectDuration (years d) (months d) (weeks d) (days d) (hours d) (minutes d) (seconds d)
           (milliseconds d) (microseconds d) (nanoseconds d)) (\<lambda>_. Inr d)))"

definition ToTemporalDuration :: "duration_arg \<Rightarrow> duration result" where
  "ToTemporalDuration e = (case e of
       IsDuration d \<Rightarrow> Inr d
     | _ \<Rightarrow> bindE (ToTemporalDurationRecord e) (\<lambda>d.
         CreateDuration (years d) (months d) (weeks d) (days d) (hours d) (minutes d) (seconds d)
           (milliseconds d) (microseconds d) (nanoseconds d)))"

end
