(* ===== verification/Iso8601_Calendar.thy ===== *)
theory Iso8601_Calendar imports Temporal_Fields begin

text \<open>
  The table \<^verbatim>\<open>Ot.iso8601\<close> of the built-in ISO calendar and the methods of the class \<open>Calendar\<close>
  that use it: dates, years and months, months and days from their fields, month codes, merging
  of fields, and the getters.
\<close>

section \<open>Month codes\<close>

text \<open>\<^verbatim>\<open>monthCodeNumberPart\<close> converts the rest of the code as a Number of any kind but \<open>NaN\<close>.\<close>

definition monthCodeNumberPart :: "string \<Rightarrow> jsnum result" where
  "monthCodeNumberPart e =
     (if take 1 e \<noteq> ''M'' then Inl RangeError
      else let t = StringToNumber (drop 1 e) in if t = NaN then Inl RangeError else Inr t)"

definition buildMonthCode :: "jsnum \<Rightarrow> bool \<Rightarrow> string" where
  "buildMonthCode e t = ''M'' @ padStart (numToString e) 2 CHR ''0'' @ (if t then ''L'' else [])"

text \<open>The month of the result is a Number: a month code may hold a fraction.\<close>

definition resolveNonLunisolarMonth :: "int option \<Rightarrow> string option \<Rightarrow> overflow option \<Rightarrow> int \<Rightarrow> (rat \<times> string) result" where
  "resolveNonLunisolarMonth m code t r = (case code of
       None \<Rightarrow> (case m of
           None \<Rightarrow> Inl TypeError
         | Some o1 \<Rightarrow>
             bindE (if t = Some Reject then RejectToRange o1 1 r else Inr ()) (\<lambda>_.
             let o1 = (if t = Some Constrain then ConstrainToRange o1 1 r else o1)
             in Inr (of_int o1, buildMonthCode (Fin (of_int o1)) False)))
     | Some n \<Rightarrow>
         bindE (monthCodeNumberPart n) (\<lambda>e.
         bindE (throwIf (case m of None \<Rightarrow> False | Some o1 \<Rightarrow> Fin (of_int o1) \<noteq> e) RangeError) (\<lambda>_.
         bindE (throwIf (n \<noteq> buildMonthCode e False) RangeError) (\<lambda>_.
         case e of
           Fin x \<Rightarrow> if x < 1 \<or> x > of_int r then Inl RangeError else Inr (x, n)
         | _ \<Rightarrow> Inl RangeError))))"

section \<open>Dates from fields\<close>

text \<open>
  The year, month and day of a new object. With a fractional month the table of month lengths
  has no entry: no day is too large for the check, and clamping gives the day \<open>NaN\<close> (\<open>None\<close>).
\<close>

type_synonym raw_date = "int \<times> rat \<times> int option"

definition RegulateRaw :: "int \<Rightarrow> rat \<Rightarrow> int \<Rightarrow> overflow \<Rightarrow> raw_date result" where
  "RegulateRaw a i s n =
     (if i = of_int \<lfloor>i\<rfloor> then bindE (RegulateISODate a \<lfloor>i\<rfloor> s n) (\<lambda>x. Inr (year x, of_int (month x), Some (day x)))
      else case n of
        Reject \<Rightarrow> if i < 1 \<or> i > 12 \<or> s < 1 then Inl RangeError else Inr (a, i, Some s)
      | Constrain \<Rightarrow> let i' = min 12 (max 1 i)
          in Inr (a, i', if i' = of_int \<lfloor>i'\<rfloor> then Some (ConstrainToRange s 1 (ISODaysInMonth a \<lfloor>i'\<rfloor>)) else None))"

text \<open>\<^verbatim>\<open>RejectISODate\<close> and \<^verbatim>\<open>RejectDateRange\<close> on such values; \<^verbatim>\<open>Date\<close> truncates the month.\<close>

definition RejectRaw :: "int \<Rightarrow> raw_date \<Rightarrow> unit result" where
  "RejectRaw now x = (case x of (y, m, d) \<Rightarrow>
     (if m = of_int \<lfloor>m\<rfloor> then
        (case d of Some d \<Rightarrow> RejectISODate y \<lfloor>m\<rfloor> d | None \<Rightarrow> RejectToRange \<lfloor>m\<rfloor> 1 12)
      else if m < 1 \<or> m > 12 \<or> (case d of None \<Rightarrow> False | Some n \<Rightarrow> n < 1) then Inl RangeError else Inr ()))"

definition RejectRawRange :: "int \<Rightarrow> raw_date \<Rightarrow> unit result" where
  "RejectRawRange now x = (case x of (y, m, d) \<Rightarrow>
     (case d of
        Some d \<Rightarrow> RejectDateRange now y (truncRat (m - 1) + 1) d
      | None \<Rightarrow> bindE (RejectToRange y yearMin yearMax) (\<lambda>_. throwIf (y = yearMin \<or> y = yearMax) RangeError)))"

definition CreateRaw :: "int \<Rightarrow> raw_date \<Rightarrow> raw_date result" where
  "CreateRaw now x = bindE (RejectRaw now x) (\<lambda>_. bindE (RejectRawRange now x) (\<lambda>_. Inr x))"

definition intField :: "jsval \<Rightarrow> string \<Rightarrow> int option" where
  "intField o1 k = (let v = getProp o1 k in if v = Undefined then None else Some (numInt v))"

definition strField :: "jsval \<Rightarrow> string \<Rightarrow> string option" where
  "strField o1 k = (case getProp o1 k of Str s \<Rightarrow> Some s | _ \<Rightarrow> None)"

definition iso8601_dateFromFields :: "int \<Rightarrow> reads \<Rightarrow> jsval \<Rightarrow> raw_date result" where
  "iso8601_dateFromFields now e t =
     bindE (PrepareTemporalFields e [''day'', ''month'', ''monthCode'', ''year''] (Needs [''year'', ''day''])) (\<lambda>o1.
     bindE (ToTemporalOverflow t) (\<lambda>n.
     bindE (resolveNonLunisolarMonth (intField o1 ''month'') (strField o1 ''monthCode'') None 12) (\<lambda>(i, _).
     bindE (RegulateRaw (numInt (getProp o1 ''year'')) i (numInt (getProp o1 ''day'')) n) (CreateRaw now))))"

definition RegulateISOYearMonth :: "int \<Rightarrow> rat \<Rightarrow> overflow \<Rightarrow> (int \<times> rat) result" where
  "RegulateISOYearMonth e t r = (case r of
       Reject \<Rightarrow> bindE (RejectRaw e (e, t, Some 1)) (\<lambda>_. Inr (e, t))
     | Constrain \<Rightarrow> Inr (e, min 12 (max 1 t)))"

definition iso8601_yearMonthFromFields :: "reads \<Rightarrow> jsval \<Rightarrow> raw_date result" where
  "iso8601_yearMonthFromFields e t =
     bindE (PrepareTemporalFields e [''month'', ''monthCode'', ''year''] (Needs [''year''])) (\<lambda>o1.
     bindE (ToTemporalOverflow t) (\<lambda>n.
     bindE (resolveNonLunisolarMonth (intField o1 ''month'') (strField o1 ''monthCode'') None 12) (\<lambda>(i, _).
     bindE (RegulateISOYearMonth (numInt (getProp o1 ''year'')) i n) (\<lambda>(a, i).
     bindE (RejectRaw a (a, i, Some 1)) (\<lambda>_.
     bindE (RejectToRange a yearMin yearMax) (\<lambda>_.
     bindE (throwIf (a = yearMin \<and> (i < 4 \<or> i > 12) \<or> a = yearMax \<and> (i < 1 \<or> i > 9)) RangeError) (\<lambda>_.
       Inr (a, i, Some 1))))))))"

definition iso8601_monthDayFromFields :: "int \<Rightarrow> reads \<Rightarrow> jsval \<Rightarrow> raw_date result" where
  "iso8601_monthDayFromFields now e t =
     bindE (PrepareTemporalFields e [''day'', ''month'', ''monthCode'', ''year''] (Needs [''day''])) (\<lambda>o1.
     bindE (ToTemporalOverflow t) (\<lambda>n.
     let m = intField o1 ''month''; l = intField o1 ''year''; code = strField o1 ''monthCode''
     in bindE (throwIf (m \<noteq> None \<and> l = None \<and> code = None) TypeError) (\<lambda>_.
        bindE (resolveNonLunisolarMonth m code None 12) (\<lambda>(i, _).
        bindE (orThrow AssertError (if code = None then l else Some 1972)) (\<lambda>a.
        bindE (RegulateRaw a i (numInt (getProp o1 ''day'')) n) (\<lambda>(_, i, s). CreateRaw now (1972, i, s)))))))"

section \<open>Merging fields\<close>

definition iso8601_fields :: "string list \<Rightarrow> string list" where
  "iso8601_fields e = e"

text \<open>The keys to ignore, in the order of a \<^verbatim>\<open>Set\<close>: without repetitions.\<close>

definition addKey :: "string list \<Rightarrow> string \<Rightarrow> string list" where
  "addKey t k = (if k \<in> set t then t else t @ [k])"

definition iso8601_fieldKeysToIgnore :: "string list \<Rightarrow> string list" where
  "iso8601_fieldKeysToIgnore e =
     foldl (\<lambda>t o1. let t = addKey t o1
       in if o1 = ''month'' then addKey t ''monthCode'' else if o1 = ''monthCode'' then addKey t ''month'' else t) [] e"

text \<open>The names \<^verbatim>\<open>Calendar.prototype.fields\<close> accepts, each once.\<close>

fun fieldsFrom :: "string list \<Rightarrow> jsval list \<Rightarrow> string list result" where
  "fieldsFrom r [] = Inr []"
| "fieldsFrom r (x # xs) = (case x of
       Str s \<Rightarrow> if s \<in> set r then bindE (fieldsFrom (removeAll s r) xs) (\<lambda>t. Inr (s # t)) else Inl RangeError
     | _ \<Rightarrow> Inl TypeError)"

definition Calendar_fields :: "(string list \<Rightarrow> string list) \<Rightarrow> jsval list \<Rightarrow> string list result" where
  "Calendar_fields tableFields e =
     bindE (fieldsFrom [''year'', ''month'', ''monthCode'', ''day'', ''hour'', ''minute'', ''second'', ''millisecond'',
       ''microsecond'', ''nanosecond''] e) (\<lambda>t. Inr (tableFields t))"

text \<open>\<^verbatim>\<open>ToObject\<close>: the properties of a string are its characters.\<close>

definition ToObject :: "jsval \<Rightarrow> jsval result" where
  "ToObject e = (case e of
       Undefined \<Rightarrow> Inl TypeError | Null \<Rightarrow> Inl TypeError | Obj _ _ \<Rightarrow> Inr e
     | Str s \<Rightarrow> Inr (plainObj (map (\<lambda>i. (decNat i, Str [s ! i])) [0..<length s]))
     | _ \<Rightarrow> Inr (plainObj []))"

text \<open>The keys of \<open>o1\<close> keep their order; a key of \<open>a\<close> that is ignored in \<open>o1\<close> takes its place.\<close>

definition Calendar_mergeFields :: "(string list \<Rightarrow> string list) \<Rightarrow> jsval \<Rightarrow> jsval \<Rightarrow> jsval result" where
  "Calendar_mergeFields keysToIgnore e t =
     bindE (ToObject e) (\<lambda>r.
     bindE (CopyDataProperties [] r [] [Undefined]) (\<lambda>o1.
     bindE (ToObject t) (\<lambda>n.
     bindE (CopyDataProperties [] n [] [Undefined]) (\<lambda>a.
     let s = keysToIgnore (map fst a);
         l = foldl (\<lambda>l k. let v = getProp (plainObj (if k \<in> set s then a else o1)) k
               in if v \<noteq> Undefined then AList.update k v l else l) [] (map fst o1)
     in bindE (CopyDataProperties l (plainObj a) [] []) (\<lambda>l. Inr (plainObj l))))))"

section \<open>Getters\<close>

definition iso8601_monthCode :: "iso_date \<Rightarrow> string" where
  "iso8601_monthCode e = buildMonthCode (Fin (of_int (month e))) False"

definition iso8601_dayOfWeek :: "iso_date \<Rightarrow> int" where
  "iso8601_dayOfWeek e = DayOfWeek (year e) (month e) (day e)"

definition iso8601_dayOfYear :: "iso_date \<Rightarrow> int" where
  "iso8601_dayOfYear e = DayOfYear (year e) (month e) (day e)"

definition iso8601_weekOfYear :: "iso_date \<Rightarrow> int" where
  "iso8601_weekOfYear e = week (WeekOfYear (year e) (month e) (day e))"

definition iso8601_yearOfWeek :: "iso_date \<Rightarrow> int" where
  "iso8601_yearOfWeek e = week_year (WeekOfYear (year e) (month e) (day e))"

definition iso8601_daysInMonth :: "iso_date \<Rightarrow> int" where
  "iso8601_daysInMonth e = ISODaysInMonth (year e) (month e)"

definition iso8601_daysInYear :: "iso_date \<Rightarrow> int" where
  "iso8601_daysInYear e = (if LeapYear (Some (year e)) then 366 else 365)"

definition iso8601_inLeapYear :: "iso_date \<Rightarrow> bool" where
  "iso8601_inLeapYear e = LeapYear (Some (year e))"

text \<open>The getters that give a number, by name.\<close>

definition iso8601_number :: "string \<Rightarrow> iso_date \<Rightarrow> int result" where
  "iso8601_number k e =
     (if k = ''year'' then Inr (year e) else if k = ''month'' then Inr (month e) else if k = ''day'' then Inr (day e)
      else if k = ''dayOfWeek'' then Inr (iso8601_dayOfWeek e) else if k = ''dayOfYear'' then Inr (iso8601_dayOfYear e)
      else if k = ''weekOfYear'' then Inr (iso8601_weekOfYear e) else if k = ''yearOfWeek'' then Inr (iso8601_yearOfWeek e)
      else if k = ''daysInWeek'' then Inr 7 else if k = ''daysInMonth'' then Inr (iso8601_daysInMonth e)
      else if k = ''daysInYear'' then Inr (iso8601_daysInYear e) else if k = ''monthsInYear'' then Inr 12
      else Inl TypeError)"

section \<open>The calendar\<close>

text \<open>
  The rest of the development computes with whole months and days: a date with a fractional
  month, which the code goes on with, is outside the model.
\<close>

definition wholeDate :: "raw_date \<Rightarrow> iso_date result" where
  "wholeDate x = (case x of (y, m, d) \<Rightarrow>
     (case d of Some d \<Rightarrow> if m = of_int \<lfloor>m\<rfloor> then Inr (mkDate y \<lfloor>m\<rfloor> d) else Inl OutsideModel | None \<Rightarrow> Inl OutsideModel))"

definition isoBuiltin :: "int \<Rightarrow> builtin_calendar" where
  "isoBuiltin now = \<lparr>
     bcNumber = iso8601_number,
     bcMonthCode = (\<lambda>e. Inr (iso8601_monthCode e)),
     bcEra = (\<lambda>e. Inr None), bcEraYear = (\<lambda>e. Inr None),
     bcInLeapYear = (\<lambda>e. Inr (iso8601_inLeapYear e)),
     bcFields = (\<lambda>t. Calendar_fields iso8601_fields (map Str t)),
     bcMergeFields = Calendar_mergeFields iso8601_fieldKeysToIgnore,
     bcDateAdd = (\<lambda>e d ov. bindE (GetOptionsObject ov) (\<lambda>r. bindE (ToTemporalOverflow r) (Calendar_dateAdd now e d))),
     bcDateUntil = (\<lambda>x y ov. bindE (GetOptionsObject ov) (\<lambda>r.
       bindE (GetTemporalUnit r ''largestUnit'' ''date'' (Default ''auto'') []) (\<lambda>u.
       Calendar_dateUntil x y (case Option.bind u unitOfName of Some v \<Rightarrow> v | None \<Rightarrow> Day)))),
     bcDateFromFields = (\<lambda>e ov. bindE (GetOptionsObject ov) (\<lambda>r.
       bindE (iso8601_dateFromFields now e r) wholeDate)),
     bcYearMonthFromFields = (\<lambda>e ov. bindE (GetOptionsObject ov) (\<lambda>r.
       bindE (iso8601_yearMonthFromFields e r) wholeDate)),
     bcMonthDayFromFields = (\<lambda>e ov. bindE (GetOptionsObject ov) (\<lambda>r.
       bindE (iso8601_monthDayFromFields now e r) wholeDate))\<rparr>"

end
