(* ===== verification/Temporal_Objects.thy ===== *)
theory Temporal_Objects imports Iso8601_Calendar Duration_Round begin

text \<open>
  The objects of \<^verbatim>\<open>Temporal\<close>, their getters, and the conversions of an argument to one of
  them: \<^verbatim>\<open>ToTemporalDate\<close>, \<^verbatim>\<open>ToTemporalDateTime\<close>, ... What the host and the program supply
  (built-in calendars and zones, the names of zones, what a value is as an argument, the clock)
  is a record of parameters.
\<close>

section \<open>Objects and arguments\<close>

datatype tobject =
    PlainDate iso_date calendar_slot
  | PlainDateTime iso_datetime calendar_slot
  | PlainTime iso_time
  | PlainYearMonth iso_date calendar_slot
  | PlainMonthDay iso_date calendar_slot
  | ZonedDateTime int zone_slot calendar_slot
  | TemporalInstant int
  | TemporalDuration duration

text \<open>An argument: a Temporal object, another object with the reads of its properties and the
  string it converts to, or a value that is no object.\<close>

datatype js_arg = Temporal tobject | Bag reads "string result" | Prim jsval

record host =
  hBuiltins :: builtins
  hZones :: "string \<Rightarrow> time_zone"
  hCanonical :: "string \<Rightarrow> string result"
  hArg :: "jsval \<Rightarrow> js_arg"
  hCalendarArg :: "jsval \<Rightarrow> calendar_arg"
  hZoneArg :: "jsval \<Rightarrow> zone_arg"
  hNow :: int

abbreviation isoSlot :: calendar_slot where "isoSlot \<equiv> BuiltinCal ''iso8601''"

definition createDate :: "host \<Rightarrow> iso_date \<Rightarrow> iso_date result" where
  "createDate h d = CreateTemporalDate (hNow h) (year d) (month d) (day d)"

definition createDateTime :: "host \<Rightarrow> iso_date \<Rightarrow> iso_time \<Rightarrow> iso_datetime result" where
  "createDateTime h d t = CreateTemporalDateTime (hNow h) (year d) (month d) (day d) (hour t) (minute t) (second t)
     (millisecond t) (microsecond t) (nanosecond t)"

definition newPlainTime :: "iso_time \<Rightarrow> iso_time result" where
  "newPlainTime t = bindE (RejectTime (hour t) (minute t) (second t) (millisecond t) (microsecond t) (nanosecond t))
     (\<lambda>_. Inr t)"

definition TemporalDateTimeToDate :: "host \<Rightarrow> iso_datetime \<Rightarrow> iso_date result" where
  "TemporalDateTimeToDate h e = createDate h (dtDate e)"

definition TemporalDateTimeToTime :: "iso_datetime \<Rightarrow> iso_time result" where
  "TemporalDateTimeToTime e = newPlainTime (dtTime e)"

definition GetOffsetStringFor :: "time_zone \<Rightarrow> int \<Rightarrow> string result" where
  "GetOffsetStringFor e t = bindE (GetOffsetNanosecondsFor e t) (\<lambda>n. Inr (FormatTimeZoneOffsetString n))"

definition zoneMethods :: "host \<Rightarrow> zone_slot \<Rightarrow> time_zone" where
  "zoneMethods h z = zoneOf (hZones h) z"

definition calendarMethods :: "host \<Rightarrow> calendar_slot \<Rightarrow> calendar" where
  "calendarMethods h c = calendarOf (hBuiltins h) c"

definition zonedOf :: "host \<Rightarrow> int \<Rightarrow> zone_slot \<Rightarrow> calendar_slot \<Rightarrow> zoned" where
  "zonedOf h n z c = \<lparr>zNs = n, zZone = zoneMethods h z, zCal = calendarMethods h c\<rparr>"

text \<open>\<^verbatim>\<open>dateTime(this)\<close> of a zoned date-time.\<close>

definition dateTime :: "host \<Rightarrow> int \<Rightarrow> zone_slot \<Rightarrow> iso_datetime result" where
  "dateTime h n z = GetPlainDateTimeFor (hNow h) (zoneMethods h z) n"

section \<open>Getters\<close>

definition intVal :: "int result \<Rightarrow> jsval result" where
  "intVal r = bindE r (\<lambda>n. Inr (Num (Fin (of_int n))))"

definition strVal :: "string result \<Rightarrow> jsval result" where
  "strVal r = bindE r (\<lambda>s. Inr (Str s))"

text \<open>The getters that ask the calendar, by name. Methods are not values: their names read as undefined.\<close>

definition calendarProperty :: "builtins \<Rightarrow> calendar_slot \<Rightarrow> iso_date \<Rightarrow> string \<Rightarrow> jsval result" where
  "calendarProperty b c d k =
     (if k = ''calendarId'' then strVal (ToTemporalCalendarIdentifier c)
      else if k = ''era'' then bindE (CalendarEra b c d) (\<lambda>x. Inr (case x of None \<Rightarrow> Undefined | Some s \<Rightarrow> Str s))
      else if k = ''eraYear'' then bindE (CalendarEraYear b c d) (\<lambda>x. Inr (case x of None \<Rightarrow> Undefined | Some n \<Rightarrow> Num (Fin (of_int n))))
      else if k = ''year'' then intVal (CalendarYear b c d)
      else if k = ''month'' then intVal (CalendarMonth b c d)
      else if k = ''monthCode'' then strVal (CalendarMonthCode b c d)
      else if k = ''day'' then intVal (CalendarDay b c d)
      else if k = ''dayOfWeek'' then intVal (CalendarDayOfWeek b c d)
      else if k = ''dayOfYear'' then intVal (CalendarDayOfYear b c d)
      else if k = ''weekOfYear'' then intVal (CalendarWeekOfYear b c d)
      else if k = ''yearOfWeek'' then intVal (CalendarYearOfWeek b c d)
      else if k = ''daysInWeek'' then intVal (CalendarDaysInWeek b c d)
      else if k = ''daysInMonth'' then intVal (CalendarDaysInMonth b c d)
      else if k = ''daysInYear'' then intVal (CalendarDaysInYear b c d)
      else if k = ''monthsInYear'' then intVal (CalendarMonthsInYear b c d)
      else if k = ''inLeapYear'' then bindE (CalendarInLeapYear b c d) (\<lambda>x. Inr (Bool x))
      else Inr Undefined)"

definition PlainDate_get :: "builtins \<Rightarrow> iso_date \<Rightarrow> calendar_slot \<Rightarrow> string \<Rightarrow> jsval result" where
  "PlainDate_get b d c k = calendarProperty b c d k"

definition timeProperty :: "iso_time \<Rightarrow> string \<Rightarrow> int option" where
  "timeProperty t k = map_of [(''hour'', hour t), (''minute'', minute t), (''second'', second t),
     (''millisecond'', millisecond t), (''microsecond'', microsecond t), (''nanosecond'', nanosecond t)] k"

definition PlainTime_get :: "iso_time \<Rightarrow> string \<Rightarrow> jsval result" where
  "PlainTime_get t k = Inr (case timeProperty t k of None \<Rightarrow> Undefined | Some n \<Rightarrow> Num (Fin (of_int n)))"

definition PlainDateTime_get :: "builtins \<Rightarrow> iso_datetime \<Rightarrow> calendar_slot \<Rightarrow> string \<Rightarrow> jsval result" where
  "PlainDateTime_get b x c k = (case timeProperty (dtTime x) k of
       Some n \<Rightarrow> Inr (Num (Fin (of_int n)))
     | None \<Rightarrow> calendarProperty b c (dtDate x) k)"

definition PlainYearMonth_get :: "builtins \<Rightarrow> iso_date \<Rightarrow> calendar_slot \<Rightarrow> string \<Rightarrow> jsval result" where
  "PlainYearMonth_get b d c k =
     (if k \<in> {''year'', ''month'', ''monthCode'', ''calendarId'', ''era'', ''eraYear'', ''daysInMonth'', ''daysInYear'',
        ''monthsInYear'', ''inLeapYear''} then calendarProperty b c d k else Inr Undefined)"

definition PlainMonthDay_get :: "builtins \<Rightarrow> iso_date \<Rightarrow> calendar_slot \<Rightarrow> string \<Rightarrow> jsval result" where
  "PlainMonthDay_get b d c k =
     (if k \<in> {''monthCode'', ''day'', ''calendarId''} then calendarProperty b c d k else Inr Undefined)"

definition Instant_get :: "int \<Rightarrow> string \<Rightarrow> jsval result" where
  "Instant_get n k = Inr
     (if k = ''epochSeconds'' then Num (Fin (of_int (toNumber (BigIntFloorDiv n 1000000000))))
      else if k = ''epochMilliseconds'' then Num (Fin (of_int (toNumber (BigIntFloorDiv n 1000000))))
      else if k = ''epochMicroseconds'' then Big (BigIntFloorDiv n 1000)
      else if k = ''epochNanoseconds'' then Big n else Undefined)"

definition durationSignOf :: "duration \<Rightarrow> int" where
  "durationSignOf d = DurationSign (years d) (months d) (weeks d) (days d) (hours d) (minutes d) (seconds d)
     (milliseconds d) (microseconds d) (nanoseconds d)"

definition Duration_get :: "duration \<Rightarrow> string \<Rightarrow> jsval result" where
  "Duration_get d k =
     (if k = ''blank'' then Inr (Bool (durationSignOf d = 0))
      else Inr (case map_of [(''years'', years d), (''months'', months d), (''weeks'', weeks d), (''days'', days d),
          (''hours'', hours d), (''minutes'', minutes d), (''seconds'', seconds d), (''milliseconds'', milliseconds d),
          (''microseconds'', microseconds d), (''nanoseconds'', nanoseconds d), (''sign'', durationSignOf d)] k of
        None \<Rightarrow> Undefined | Some n \<Rightarrow> Num (Fin (of_int n))))"

text \<open>The length of the day in wall-clock time, as a Number of hours.\<close>

definition hoursInDay :: "host \<Rightarrow> int \<Rightarrow> zone_slot \<Rightarrow> rat result" where
  "hoursInDay h n z =
     bindE (dateTime h n z) (\<lambda>t.
     let d = dtDate t; u = zoneMethods h z; midnight = mkTime 0 0 0 0 0 0
     in bindE (createDateTime h d midnight) (\<lambda>m.
        bindE (AddISODate (year d) (month d) (day d) 0 0 0 1 Reject) (\<lambda>c.
        bindE (createDateTime h c midnight) (\<lambda>x.
        bindE (bindE (GetInstantFor (hNow h) (isoCalendar (hNow h)) u m Compatible) epochOf) (\<lambda>T.
        bindE (bindE (GetInstantFor (hNow h) (isoCalendar (hNow h)) u x Compatible) epochOf) (\<lambda>p.
          Inr (BigIntDivideToNumber (p - T) 3600000000000)))))))"

definition ZonedDateTime_get :: "host \<Rightarrow> int \<Rightarrow> zone_slot \<Rightarrow> calendar_slot \<Rightarrow> string \<Rightarrow> jsval result" where
  "ZonedDateTime_get h n z c k =
     (if k = ''calendarId'' then strVal (ToTemporalCalendarIdentifier c)
      else if k = ''timeZoneId'' then strVal (ToTemporalTimeZoneIdentifier z)
      else if k \<in> {''epochSeconds'', ''epochMilliseconds'', ''epochMicroseconds'', ''epochNanoseconds''} then Instant_get n k
      else if k = ''hoursInDay'' then bindE (hoursInDay h n z) (\<lambda>x. Inr (Num (Fin x)))
      else if k = ''offset'' then strVal (GetOffsetStringFor (zoneMethods h z) n)
      else if k = ''offsetNanoseconds'' then intVal (GetOffsetNanosecondsFor (zoneMethods h z) n)
      else if k \<in> {''year'', ''month'', ''monthCode'', ''day'', ''hour'', ''minute'', ''second'', ''millisecond'', ''microsecond'',
          ''nanosecond'', ''era'', ''eraYear'', ''dayOfWeek'', ''dayOfYear'', ''weekOfYear'', ''yearOfWeek'', ''daysInWeek'',
          ''daysInMonth'', ''daysInYear'', ''monthsInYear'', ''inLeapYear''}
        then bindE (dateTime h n z) (\<lambda>x. PlainDateTime_get (hBuiltins h) x c k)
      else Inr Undefined)"

fun propertyOf :: "host \<Rightarrow> tobject \<Rightarrow> reads" where
  "propertyOf h (PlainDate d c) = PlainDate_get (hBuiltins h) d c"
| "propertyOf h (PlainDateTime x c) = PlainDateTime_get (hBuiltins h) x c"
| "propertyOf h (PlainTime t) = PlainTime_get t"
| "propertyOf h (PlainYearMonth d c) = PlainYearMonth_get (hBuiltins h) d c"
| "propertyOf h (PlainMonthDay d c) = PlainMonthDay_get (hBuiltins h) d c"
| "propertyOf h (ZonedDateTime n z c) = ZonedDateTime_get h n z c"
| "propertyOf h (TemporalInstant n) = Instant_get n"
| "propertyOf h (TemporalDuration d) = Duration_get d"

end
