(* ===== verification/Temporal_Conversions.thy ===== *)
theory Temporal_Conversions imports Temporal_Objects begin

text \<open>
  Conversions of an argument to a date, a date-time, a time, a year and month, a month and day,
  an instant, a duration, a zoned date-time, or the object that a duration is relative to.
\<close>

section \<open>Strings of objects\<close>

definition TemporalTimeToString :: "iso_time \<Rightarrow> precision \<Rightarrow> (int \<times> tunit \<times> rounding_mode) option \<Rightarrow> string result" where
  "TemporalTimeToString e t r =
     bindE (case r of None \<Rightarrow> Inr e
        | Some (c, u, m) \<Rightarrow>
            bindE (RoundTime (hour e) (minute e) (second e) (millisecond e) (microsecond e) (nanosecond e) c u m 86400000000000)
              (\<lambda>b. Inr (iso_time.truncate b))) (\<lambda>x. Inr (timeString x t))"

text \<open>\<^verbatim>\<open>toString()\<close> without options\<close>

fun stringOfObject :: "host \<Rightarrow> tobject \<Rightarrow> string result" where
  "stringOfObject h (PlainDate d c) = TemporalDateToString d (ToTemporalCalendarIdentifier c) CalAuto"
| "stringOfObject h (PlainDateTime x c) =
     TemporalDateTimeToString (hNow h) x (ToTemporalCalendarIdentifier c) PrecAuto CalAuto (Some (1, Nanosecond, Trunc))"
| "stringOfObject h (PlainTime t) = TemporalTimeToString t PrecAuto (Some (1, Nanosecond, Trunc))"
| "stringOfObject h (PlainYearMonth d c) = TemporalYearMonthToString d (ToTemporalCalendarIdentifier c) CalAuto"
| "stringOfObject h (PlainMonthDay d c) = TemporalMonthDayToString d (ToTemporalCalendarIdentifier c) CalAuto"
| "stringOfObject h (ZonedDateTime n z c) =
     TemporalZonedDateTimeToString (hNow h) (zonedOf h n z c) (ToTemporalTimeZoneIdentifier z) (ToTemporalCalendarIdentifier c)
       PrecAuto CalAuto ShowAuto ShowAuto (Some (1, Nanosecond, Trunc))"
| "stringOfObject h (TemporalInstant n) =
     bindE (bindE (RoundInstant n 1 Nanosecond Trunc) newInstant) (\<lambda>m. TemporalInstantToString (hNow h) m None PrecAuto)"
| "stringOfObject h (TemporalDuration d) = TemporalDurationToString (hNow h) d PrecAuto (Some (1, Nanosecond, Trunc))"

fun stringOfArg :: "host \<Rightarrow> js_arg \<Rightarrow> string result" where
  "stringOfArg h (Temporal ob) = stringOfObject h ob"
| "stringOfArg h (Bag r s) = s"
| "stringOfArg h (Prim v) = ToString v"

section \<open>Calendars and zones of an object\<close>

text \<open>The reads of an argument that is an object\<close>

fun readsOf :: "host \<Rightarrow> js_arg \<Rightarrow> reads" where
  "readsOf h (Temporal ob) = propertyOf h ob"
| "readsOf h (Bag r s) = r"
| "readsOf h (Prim v) = ownReads v"

fun calendarSlot :: "tobject \<Rightarrow> calendar_slot option" where
  "calendarSlot (PlainDate d c) = Some c"
| "calendarSlot (PlainDateTime x c) = Some c"
| "calendarSlot (PlainYearMonth d c) = Some c"
| "calendarSlot (PlainMonthDay d c) = Some c"
| "calendarSlot (ZonedDateTime n z c) = Some c"
| "calendarSlot (PlainTime t) = None"
| "calendarSlot (TemporalInstant n) = None"
| "calendarSlot (TemporalDuration d) = None"

definition slotOfArg :: "js_arg \<Rightarrow> calendar_slot option" where
  "slotOfArg e = (case e of Temporal ob \<Rightarrow> calendarSlot ob | _ \<Rightarrow> None)"

definition GetTemporalCalendarSlotValueWithISODefault :: "host \<Rightarrow> js_arg \<Rightarrow> calendar_slot result" where
  "GetTemporalCalendarSlotValueWithISODefault h e = (case slotOfArg e of
       Some c \<Rightarrow> Inr c
     | None \<Rightarrow> bindE (readsOf h e ''calendar'') (\<lambda>t.
         if t = Undefined then Inr isoSlot else ToTemporalCalendarSlotValue (hCalendarArg h t)))"

text \<open>The calendar a string names, checked.\<close>

definition stringCalendar :: "string option \<Rightarrow> calendar_slot result" where
  "stringCalendar c =
     (let d = (case c of None \<Rightarrow> ''iso8601'' | Some s \<Rightarrow> s)
      in if IsBuiltinCalendar d then Inr (BuiltinCal (ASCIILowercase d)) else Inl RangeError)"

definition zoneSlotOf :: "host \<Rightarrow> jsval \<Rightarrow> zone_slot result" where
  "zoneSlotOf h v = ToTemporalTimeZoneSlotValue (hCanonical h) (hZoneArg h v)"

definition dateTimeFields :: "string list" where
  "dateTimeFields = [''day'', ''hour'', ''microsecond'', ''millisecond'', ''minute'', ''month'', ''monthCode'', ''nanosecond'',
     ''second'', ''year'']"

section \<open>Conversions\<close>

definition ToTemporalDate :: "host \<Rightarrow> js_arg \<Rightarrow> jsval \<Rightarrow> (iso_date \<times> calendar_slot) result" where
  "ToTemporalDate h e t =
     (let ofDateTime = (\<lambda>x c. bindE (ToTemporalOverflow t) (\<lambda>_. bindE (createDate h (dtDate x)) (\<lambda>d. Inr (d, c))));
          ofFields = (\<lambda>_. bindE (GetTemporalCalendarSlotValueWithISODefault h e) (\<lambda>c.
            bindE (CalendarFields (hBuiltins h) c [''day'', ''month'', ''monthCode'', ''year'']) (\<lambda>ks.
            bindE (PrepareTemporalFields (readsOf h e) ks (Needs [])) (\<lambda>f.
            bindE (CalendarDateFromFields (hBuiltins h) c (ownReads f) t) (\<lambda>d. Inr (d, c))))))
      in case e of
        Temporal ob \<Rightarrow> (case ob of
            PlainDate d c \<Rightarrow> Inr (d, c)
          | ZonedDateTime n z c \<Rightarrow> bindE (ToTemporalOverflow t) (\<lambda>_. bindE (dateTime h n z) (\<lambda>x. ofDateTime x c))
          | PlainDateTime x c \<Rightarrow> ofDateTime x c
          | _ \<Rightarrow> ofFields ())
      | Bag _ _ \<Rightarrow> ofFields ()
      | Prim v \<Rightarrow>
          bindE (ToTemporalOverflow t) (\<lambda>_. bindE (ToString v) (\<lambda>s. bindE (ParseISODateTime s) (\<lambda>p.
          bindE (throwIf (pZ p) RangeError) (\<lambda>_. bindE (stringCalendar (pCalendar p)) (\<lambda>c.
          bindE (createDate h (pDate p)) (\<lambda>d. Inr (d, c))))))))"

definition InterpretTemporalDateTimeFields :: "host \<Rightarrow> calendar_slot \<Rightarrow> jsval \<Rightarrow> jsval \<Rightarrow> iso_datetime result" where
  "InterpretTemporalDateTimeFields h e t r =
     bindE (ToTemporalTimeRecord (ownReads t) True) (\<lambda>n. let x = timeOfRecord n in
     bindE (ToTemporalOverflow r) (\<lambda>ov.
     bindE (CalendarDateFromFields (hBuiltins h) e (ownReads t) r) (\<lambda>u.
     bindE (RegulateTime (hour x) (minute x) (second x) (millisecond x) (microsecond x) (nanosecond x) ov) (\<lambda>y.
       Inr \<lparr>dtDate = u, dtTime = y\<rparr>))))"

definition ToTemporalDateTime :: "host \<Rightarrow> js_arg \<Rightarrow> jsval \<Rightarrow> (iso_datetime \<times> calendar_slot) result" where
  "ToTemporalDateTime h e t =
     (let create = (\<lambda>x c. bindE (createDateTime h (dtDate x) (dtTime x)) (\<lambda>y. Inr (y, c)));
          ofFields = (\<lambda>_. bindE (GetTemporalCalendarSlotValueWithISODefault h e) (\<lambda>c.
            bindE (CalendarFields (hBuiltins h) c dateTimeFields) (\<lambda>ks.
            bindE (PrepareTemporalFields (readsOf h e) ks (Needs [])) (\<lambda>f.
            bindE (InterpretTemporalDateTimeFields h c f t) (\<lambda>x. create x c)))))
      in case e of
        Temporal ob \<Rightarrow> (case ob of
            PlainDateTime x c \<Rightarrow> Inr (x, c)
          | ZonedDateTime n z c \<Rightarrow> bindE (ToTemporalOverflow t) (\<lambda>_. bindE (dateTime h n z) (\<lambda>x. Inr (x, c)))
          | PlainDate d c \<Rightarrow> bindE (ToTemporalOverflow t) (\<lambda>_. create \<lparr>dtDate = d, dtTime = mkTime 0 0 0 0 0 0\<rparr> c)
          | _ \<Rightarrow> ofFields ())
      | Bag _ _ \<Rightarrow> ofFields ()
      | Prim v \<Rightarrow>
          bindE (ToTemporalOverflow t) (\<lambda>_. bindE (ToString v) (\<lambda>s. bindE (ParseISODateTime s) (\<lambda>p.
          bindE (throwIf (pZ p) RangeError) (\<lambda>_.
          let d = pDate p; x = pTime p
          in bindE (RejectDateTime (year d) (month d) (day d) (hour x) (minute x) (second x) (millisecond x)
               (microsecond x) (nanosecond x)) (\<lambda>_.
             bindE (stringCalendar (pCalendar p)) (\<lambda>c. create \<lparr>dtDate = d, dtTime = x\<rparr> c)))))))"

fun durationArg :: "host \<Rightarrow> js_arg \<Rightarrow> duration_arg" where
  "durationArg h (Temporal ob) = (case ob of TemporalDuration d \<Rightarrow> IsDuration d | _ \<Rightarrow> DurationBag (propertyOf h ob))"
| "durationArg h (Bag r s) = DurationBag r"
| "durationArg h (Prim v) = DurationValue v"

definition ToTemporalInstant :: "host \<Rightarrow> js_arg \<Rightarrow> int result" where
  "ToTemporalInstant h e =
     (case e of
        Temporal (TemporalInstant n) \<Rightarrow> Inr n
      | Temporal (ZonedDateTime n z c) \<Rightarrow> newInstant n
      | _ \<Rightarrow> bindE (stringOfArg h e) (\<lambda>s. bindE (ParseTemporalInstant (hNow h) s) newInstant))"

definition ToTemporalMonthDay :: "host \<Rightarrow> js_arg \<Rightarrow> jsval \<Rightarrow> (iso_date \<times> calendar_slot) result" where
  "ToTemporalMonthDay h e t =
     (let ofFields = (\<lambda>_.
        bindE (case slotOfArg e of
            Some c \<Rightarrow> Inr (c, False)
          | None \<Rightarrow> bindE (readsOf h e ''calendar'') (\<lambda>v.
              bindE (if v = Undefined then ToTemporalCalendarSlotValue (NotObject (Str ''iso8601''))
                     else ToTemporalCalendarSlotValue (hCalendarArg h v)) (\<lambda>c. Inr (c, v = Undefined)))) (\<lambda>(c, o6).
        bindE (CalendarFields (hBuiltins h) c [''day'', ''month'', ''monthCode'', ''year'']) (\<lambda>ks.
        bindE (PrepareTemporalFields (readsOf h e) ks (Needs [])) (\<lambda>f.
        let f = (if o6 \<and> getProp f ''month'' \<noteq> Undefined \<and> getProp f ''monthCode'' = Undefined \<and> getProp f ''year'' = Undefined
                 then (case f of Obj ps sl \<Rightarrow> Obj (AList.update ''year'' (Num (Fin 1972)) ps) sl | _ \<Rightarrow> f) else f)
        in bindE (CalendarMonthDayFromFields (hBuiltins h) c (ownReads f) t) (\<lambda>d. Inr (d, c))))))
      in case e of
        Temporal ob \<Rightarrow> (case ob of PlainMonthDay d c \<Rightarrow> Inr (d, c) | _ \<Rightarrow> ofFields ())
      | Bag _ _ \<Rightarrow> ofFields ()
      | Prim v \<Rightarrow>
          bindE (ToTemporalOverflow t) (\<lambda>_. bindE (ToString v) (\<lambda>s.
          bindE (ParseTemporalMonthDayString s) (\<lambda>(m, d, cal, y).
          bindE (stringCalendar cal) (\<lambda>c.
          case y of
            None \<Rightarrow>
              bindE (RejectISODate 1972 m d) (\<lambda>_. bindE (CreateTemporalMonthDay (hNow h) m d 1972) (\<lambda>x. Inr (x, c)))
          | Some y \<Rightarrow>
              bindE (CreateTemporalMonthDay (hNow h) m d y) (\<lambda>x.
              bindE (CalendarMonthDayFromFields (hBuiltins h) c (propertyOf h (PlainMonthDay x c)) Undefined)
                (\<lambda>d. Inr (d, c))))))))"

definition ToTemporalTime :: "host \<Rightarrow> js_arg \<Rightarrow> overflow \<Rightarrow> iso_time result" where
  "ToTemporalTime h e t =
     (let ofFields = (\<lambda>_.
        bindE (ToTemporalTimeRecord (readsOf h e) True) (\<lambda>n. let x = timeOfRecord n in
        bindE (RegulateTime (hour x) (minute x) (second x) (millisecond x) (microsecond x) (nanosecond x) t) newPlainTime))
      in case e of
        Temporal ob \<Rightarrow> (case ob of
            PlainTime x \<Rightarrow> Inr x
          | ZonedDateTime n z c \<Rightarrow> bindE (dateTime h n z) (\<lambda>x. newPlainTime (dtTime x))
          | PlainDateTime x c \<Rightarrow> newPlainTime (dtTime x)
          | _ \<Rightarrow> ofFields ())
      | Bag _ _ \<Rightarrow> ofFields ()
      | Prim v \<Rightarrow> bindE (ToString v) (\<lambda>s. bindE (ParseTemporalTimeString s) newPlainTime))"

definition ToTemporalYearMonth :: "host \<Rightarrow> js_arg \<Rightarrow> jsval \<Rightarrow> (iso_date \<times> calendar_slot) result" where
  "ToTemporalYearMonth h e t =
     (let ofFields = (\<lambda>_.
        bindE (GetTemporalCalendarSlotValueWithISODefault h e) (\<lambda>c.
        bindE (CalendarFields (hBuiltins h) c [''month'', ''monthCode'', ''year'']) (\<lambda>ks.
        bindE (PrepareTemporalFields (readsOf h e) ks (Needs [])) (\<lambda>f.
        bindE (CalendarYearMonthFromFields (hBuiltins h) c (ownReads f) t) (\<lambda>d. Inr (d, c))))))
      in case e of
        Temporal ob \<Rightarrow> (case ob of PlainYearMonth d c \<Rightarrow> Inr (d, c) | _ \<Rightarrow> ofFields ())
      | Bag _ _ \<Rightarrow> ofFields ()
      | Prim v \<Rightarrow>
          bindE (ToTemporalOverflow t) (\<lambda>_. bindE (ToString v) (\<lambda>s.
          bindE (ParseTemporalYearMonthString s) (\<lambda>(y, m, cal, d).
          bindE (stringCalendar cal) (\<lambda>c.
          case d of
            None \<Rightarrow> bindE (RejectISODate y m 1) (\<lambda>_. bindE (CreateTemporalYearMonth y m 1) (\<lambda>x. Inr (x, c)))
          | Some d \<Rightarrow>
              bindE (CreateTemporalYearMonth y m d) (\<lambda>x.
              bindE (CalendarYearMonthFromFields (hBuiltins h) c (propertyOf h (PlainYearMonth x c)) Undefined)
                (\<lambda>d. Inr (d, c))))))))"

section \<open>Zoned date-times\<close>

definition interpretOffset ::
  "host \<Rightarrow> iso_datetime \<Rightarrow> offset_behaviour \<Rightarrow> int \<Rightarrow> zone_slot \<Rightarrow> disambiguation \<Rightarrow> offset_option \<Rightarrow> bool \<Rightarrow> int result" where
  "interpretOffset h x b n z dis ofs match =
     (let d = dtDate x; t = dtTime x
      in InterpretISODateTimeOffset (hNow h) (year d) (month d) (day d) (hour t) (minute t) (second t) (millisecond t)
           (microsecond t) (nanosecond t) b n (zoneMethods h z) dis ofs match)"

definition createZoned :: "int \<Rightarrow> zone_slot \<Rightarrow> calendar_slot \<Rightarrow> tobject result" where
  "createZoned n z c = bindE (ValidateEpochNanoseconds n) (\<lambda>_. Inr (ZonedDateTime n z c))"

text \<open>The offset of a string or bag is parsed only when it decides.\<close>

definition offsetValue :: "offset_behaviour \<Rightarrow> string option \<Rightarrow> int result" where
  "offsetValue b s = (if b = OffsetOption then ParseTimeZoneOffsetString (case s of Some x \<Rightarrow> x | None \<Rightarrow> ''undefined'') else Inr 0)"

definition ToTemporalZonedDateTime :: "host \<Rightarrow> js_arg \<Rightarrow> jsval \<Rightarrow> tobject result" where
  "ToTemporalZonedDateTime h e t =
     (let finish = (\<lambda>x b s z c dis ofs match. bindE (offsetValue b s) (\<lambda>n.
            bindE (interpretOffset h x b n z dis ofs match) (\<lambda>m. createZoned m z c)));
          ofFields = (\<lambda>_.
            bindE (GetTemporalCalendarSlotValueWithISODefault h e) (\<lambda>c.
            bindE (CalendarFields (hBuiltins h) c dateTimeFields) (\<lambda>ks.
            bindE (PrepareTemporalFields (readsOf h e) (ks @ [''timeZone'', ''offset'']) (Needs [''timeZone''])) (\<lambda>f.
            bindE (zoneSlotOf h (getProp f ''timeZone'')) (\<lambda>z.
            let s = strField f ''offset''; b = (if s = None then OffsetWall else OffsetOption)
            in bindE (ToTemporalDisambiguation t) (\<lambda>dis.
               bindE (ToTemporalOffset t OffsetReject) (\<lambda>ofs.
               bindE (InterpretTemporalDateTimeFields h c f t) (\<lambda>x. finish x b s z c dis ofs False))))))))
      in case e of
        Temporal ob \<Rightarrow> (case ob of ZonedDateTime n z c \<Rightarrow> Inr ob | _ \<Rightarrow> ofFields ())
      | Bag _ _ \<Rightarrow> ofFields ()
      | Prim v \<Rightarrow>
          bindE (ToString v) (\<lambda>s. bindE (ParseISODateTime s) (\<lambda>p.
          bindE (orThrow RangeError (pIanaName p)) (\<lambda>name.
          bindE (zoneSlotOf h (Str name)) (\<lambda>z.
          let b = (if pZ p then OffsetExact else if pOffset p = None then OffsetWall else OffsetOption)
          in bindE (stringCalendar (pCalendar p)) (\<lambda>c.
             bindE (ToTemporalDisambiguation t) (\<lambda>dis.
             bindE (ToTemporalOffset t OffsetReject) (\<lambda>ofs.
             bindE (ToTemporalOverflow t) (\<lambda>_.
               finish \<lparr>dtDate = pDate p, dtTime = pTime p\<rparr> b (pOffset p) z c dis ofs True)))))))))"

text \<open>The object a duration is relative to: none, a date or a zoned date-time.\<close>

definition ToRelativeTemporalObject :: "host \<Rightarrow> jsval \<Rightarrow> tobject option result" where
  "ToRelativeTemporalObject h e =
     (let t = getProp e ''relativeTo''; a = hArg h t;
          finish = (\<lambda>x c z b s match. case z of
              None \<Rightarrow> bindE (createDate h (dtDate x)) (\<lambda>d. Inr (Some (PlainDate d c)))
            | Some z \<Rightarrow> bindE (offsetValue b s) (\<lambda>n.
                bindE (interpretOffset h x b n z Compatible OffsetReject match) (\<lambda>m.
                bindE (createZoned m z c) (\<lambda>o1. Inr (Some o1)))));
          ofFields = (\<lambda>_.
            bindE (GetTemporalCalendarSlotValueWithISODefault h a) (\<lambda>c.
            bindE (CalendarFields (hBuiltins h) c dateTimeFields) (\<lambda>ks.
            bindE (PrepareTemporalFields (readsOf h a) (ks @ [''timeZone'', ''offset'']) (Needs [])) (\<lambda>f.
            bindE (InterpretTemporalDateTimeFields h c f (plainObj [(''overflow'', Str ''constrain'')])) (\<lambda>x.
            let s = strField f ''offset''; b = (if s = None then OffsetWall else OffsetOption);
                v = getProp f ''timeZone''
            in bindE (if v = Undefined then Inr None else bindE (zoneSlotOf h v) (\<lambda>z. Inr (Some z))) (\<lambda>z.
                 finish x c z b s False))))))
      in if t = Undefined then Inr None
         else case a of
           Temporal ob \<Rightarrow> (case ob of
               ZonedDateTime n z c \<Rightarrow> Inr (Some ob)
             | PlainDate d c \<Rightarrow> Inr (Some ob)
             | PlainDateTime x c \<Rightarrow> bindE (TemporalDateTimeToDate h x) (\<lambda>d. Inr (Some (PlainDate d c)))
             | _ \<Rightarrow> ofFields ())
         | Bag _ _ \<Rightarrow> ofFields ()
         | Prim v \<Rightarrow>
             bindE (ToString v) (\<lambda>s. bindE (ParseISODateTime s) (\<lambda>p.
             bindE (case pIanaName p of
                 Some name \<Rightarrow> bindE (zoneSlotOf h (Str name)) (\<lambda>z. Inr (Some z))
               | None \<Rightarrow> if pZ p then Inl RangeError else Inr None) (\<lambda>z.
             let b = (if pIanaName p \<noteq> None \<and> pZ p then OffsetExact
                      else if pIanaName p \<noteq> None \<and> pOffset p = None then OffsetWall else OffsetOption)
             in bindE (stringCalendar (pCalendar p)) (\<lambda>c.
                  finish \<lparr>dtDate = pDate p, dtTime = pTime p\<rparr> c z b (pOffset p) True)))))"

end
