(* ===== verification/Temporal_Operations.thy ===== *)
theory Temporal_Operations imports Temporal_Conversions begin

text \<open>
  The operations behind \<^verbatim>\<open>until\<close>, \<^verbatim>\<open>since\<close>, \<^verbatim>\<open>add\<close> and \<^verbatim>\<open>subtract\<close> of every class: the functions
  \<^verbatim>\<open>DifferenceTemporal...\<close> and \<^verbatim>\<open>AddDurationToOrSubtractDurationFrom...\<close>. They convert their
  argument, read their options and combine the arithmetic of the other theories.
\<close>

section \<open>Options passed to a calendar\<close>

definition setProp :: "jsval \<Rightarrow> string \<Rightarrow> jsval \<Rightarrow> jsval" where
  "setProp e k v = (case e of Obj ps sl \<Rightarrow> Obj (AList.update k v ps) sl | _ \<Rightarrow> e)"

text \<open>
  The arithmetic takes an overflow option; here \<open>Constrain\<close> stands for a call of the calendar
  without options and \<open>Reject\<close> for a call with the options object of the caller, which the
  calendar reads only when it is called.
\<close>

definition calendarWith :: "host \<Rightarrow> calendar_slot \<Rightarrow> jsval \<Rightarrow> calendar" where
  "calendarWith h e opts = \<lparr>
     calDateAdd = (\<lambda>d v ov. CalendarDateAdd (hBuiltins h) e d v (case ov of Constrain \<Rightarrow> Undefined | Reject \<Rightarrow> opts)),
     calDateUntil = (\<lambda>x y u. CalendarDateUntil (hBuiltins h) e x y (setProp opts ''largestUnit'' (Str (unitName u))))\<rparr>"

definition relativeOf :: "host \<Rightarrow> tobject \<Rightarrow> relative option" where
  "relativeOf h ob = (case ob of
       PlainDate d c \<Rightarrow> Some (RelDate d (calendarMethods h c))
     | ZonedDateTime n z c \<Rightarrow> Some (RelZoned (zonedOf h n z c))
     | _ \<Rightarrow> None)"

text \<open>\<^verbatim>\<open>new Temporal.Duration(k * years, ...)\<close>\<close>

definition scaledDuration :: "int \<Rightarrow> duration \<Rightarrow> duration result" where
  "scaledDuration k d = CreateDuration (k * years d) (k * months d) (k * weeks d) (k * days d) (k * hours d)
     (k * minutes d) (k * seconds d) (k * milliseconds d) (k * microseconds d) (k * nanoseconds d)"

definition signOfOp :: "op \<Rightarrow> int" where
  "signOfOp e = (case e of Since \<Rightarrow> -1 | Until \<Rightarrow> 1)"

text \<open>The date fields of one duration with the balanced time of another.\<close>

definition withBalanced :: "duration \<Rightarrow> int \<Rightarrow> balanced \<Rightarrow> duration" where
  "withBalanced d n b = mkDuration (years d) (months d) (weeks d) n (bHours b) (bMinutes b) (bSeconds b)
     (bMilliseconds b) (bMicroseconds b) (bNanoseconds b)"

section \<open>Differences\<close>

definition DifferenceTemporalInstant :: "host \<Rightarrow> op \<Rightarrow> int \<Rightarrow> js_arg \<Rightarrow> jsval \<Rightarrow> duration result" where
  "DifferenceTemporalInstant h e t r o1 =
     bindE (ToTemporalInstant h r) (\<lambda>i.
     bindE (CopyOptions o1) (\<lambda>c.
     bindE (GetDifferenceSettings e c ''time'' [] Nanosecond Second) (\<lambda>s.
     bindE (DifferenceInstant (hNow h) t i (roundingIncrement s) (smallestUnit s) (largestUnit s) (roundingMode s)) (\<lambda>b.
       scaledDuration (signOfOp e) (withBalanced (mkDuration 0 0 0 0 0 0 0 0 0 0) 0 b)))))"

definition DifferenceTemporalPlainDate ::
  "host \<Rightarrow> op \<Rightarrow> iso_date \<Rightarrow> calendar_slot \<Rightarrow> js_arg \<Rightarrow> jsval \<Rightarrow> duration result" where
  "DifferenceTemporalPlainDate h e t i r o1 =
     bindE (ToTemporalDate h r Undefined) (\<lambda>(a, ac).
     bindE (ThrowIfCalendarsNotEqual i ac) (\<lambda>_.
     bindE (CopyOptions o1) (\<lambda>s.
     bindE (GetDifferenceSettings e s ''date'' [] Day Day) (\<lambda>l.
     bindE (CalendarDateUntil (hBuiltins h) i t a (setProp s ''largestUnit'' (Str (unitName (largestUnit l))))) (\<lambda>u.
     bindE (if smallestUnit l = Day \<and> roundingIncrement l = 1 then Inr u
            else bindE (RoundDuration (hNow h) (mkDuration (years u) (months u) (weeks u) (days u) 0 0 0 0 0 0)
              (roundingIncrement l) (smallestUnit l) (roundingMode l) (relativeOf h (PlainDate t i))) (\<lambda>(d, _). Inr d)) (\<lambda>d.
       scaledDuration (signOfOp e) (mkDuration (years d) (months d) (weeks d) (days d) 0 0 0 0 0 0)))))))"

definition DifferenceTemporalPlainDateTime ::
  "host \<Rightarrow> op \<Rightarrow> iso_datetime \<Rightarrow> calendar_slot \<Rightarrow> js_arg \<Rightarrow> jsval \<Rightarrow> duration result" where
  "DifferenceTemporalPlainDateTime h e t f r o1 =
     bindE (ToTemporalDateTime h r Undefined) (\<lambda>(a, ac).
     bindE (ThrowIfCalendarsNotEqual f ac) (\<lambda>_.
     bindE (CopyOptions o1) (\<lambda>y.
     bindE (GetDifferenceSettings e y ''datetime'' [] Nanosecond Day) (\<lambda>I.
     bindE (DifferenceISODateTime (hNow h) (calendarWith h f y) t a (largestUnit I)) (\<lambda>d.
     bindE (TemporalDateTimeToDate h t) (\<lambda>M.
     bindE (RoundDuration (hNow h) d (roundingIncrement I) (smallestUnit I) (roundingMode I) (relativeOf h (PlainDate M f))) (\<lambda>(d, _).
     bindE (BalanceDurationPlain (days d) (hours d) (minutes d) (seconds d) (milliseconds d) (microseconds d) (nanoseconds d)
       (largestUnit I)) (\<lambda>b.
       scaledDuration (signOfOp e) (withBalanced d (bDays b) b)))))))))"

definition DifferenceTemporalPlainTime :: "host \<Rightarrow> op \<Rightarrow> iso_time \<Rightarrow> js_arg \<Rightarrow> jsval \<Rightarrow> duration result" where
  "DifferenceTemporalPlainTime h e t r o1 =
     bindE (ToTemporalTime h r Constrain) (\<lambda>a.
     bindE (CopyOptions o1) (\<lambda>c.
     bindE (GetDifferenceSettings e c ''time'' [] Nanosecond Hour) (\<lambda>i.
     bindE (DifferenceTime (hour t) (minute t) (second t) (millisecond t) (microsecond t) (nanosecond t)
       (hour a) (minute a) (second a) (millisecond a) (microsecond a) (nanosecond a)) (\<lambda>x.
     bindE (RoundDuration (hNow h) (mkDuration 0 0 0 0 (tdHours x) (tdMinutes x) (tdSeconds x) (tdMilliseconds x)
       (tdMicroseconds x) (tdNanoseconds x)) (roundingIncrement i) (smallestUnit i) (roundingMode i) None) (\<lambda>(d, _).
     bindE (BalanceDurationPlain 0 (hours d) (minutes d) (seconds d) (milliseconds d) (microseconds d) (nanoseconds d)
       (largestUnit i)) (\<lambda>b.
       scaledDuration (signOfOp e) (withBalanced (mkDuration 0 0 0 0 0 0 0 0 0 0) 0 b)))))))"

definition DifferenceTemporalPlainYearMonth ::
  "host \<Rightarrow> op \<Rightarrow> iso_date \<Rightarrow> calendar_slot \<Rightarrow> js_arg \<Rightarrow> jsval \<Rightarrow> duration result" where
  "DifferenceTemporalPlainYearMonth h e t i r o1 =
     bindE (ToTemporalYearMonth h r Undefined) (\<lambda>(a, ac).
     bindE (ThrowIfCalendarsNotEqual i ac) (\<lambda>_.
     bindE (CopyOptions o1) (\<lambda>s.
     bindE (GetDifferenceSettings e s ''date'' [''week'', ''day''] Month Year) (\<lambda>l.
     let b = hBuiltins h; s = setProp s ''largestUnit'' (Str (unitName (largestUnit l)))
     in bindE (CalendarFields b i [''monthCode'', ''year'']) (\<lambda>d.
        bindE (PrepareTemporalFields (propertyOf h (PlainYearMonth t i)) d (Needs [])) (\<lambda>m.
        bindE (CalendarDateFromFields b i (ownReads (setProp m ''day'' (Num (Fin 1)))) Undefined) (\<lambda>c.
        bindE (PrepareTemporalFields (propertyOf h (PlainYearMonth a ac)) d (Needs [])) (\<lambda>n.
        bindE (CalendarDateFromFields b i (ownReads (setProp n ''day'' (Num (Fin 1)))) Undefined) (\<lambda>u.
        bindE (CalendarDateUntil b i c u s) (\<lambda>v.
        bindE (if smallestUnit l = Month \<and> roundingIncrement l = 1 then Inr v
               else bindE (RoundDuration (hNow h) (mkDuration (years v) (months v) 0 0 0 0 0 0 0 0)
                 (roundingIncrement l) (smallestUnit l) (roundingMode l) (relativeOf h (PlainDate c i))) (\<lambda>(d, _). Inr d)) (\<lambda>d.
          scaledDuration (signOfOp e) (mkDuration (years d) (months d) 0 0 0 0 0 0 0 0))))))))))))"

definition DifferenceTemporalZonedDateTime ::
  "host \<Rightarrow> op \<Rightarrow> int \<Rightarrow> zone_slot \<Rightarrow> calendar_slot \<Rightarrow> js_arg \<Rightarrow> jsval \<Rightarrow> duration result" where
  "DifferenceTemporalZonedDateTime h e m z s r o1 =
     bindE (ToTemporalZonedDateTime h r Undefined) (\<lambda>ob. case ob of
       ZonedDateTime c z2 s2 \<Rightarrow>
         bindE (ThrowIfCalendarsNotEqual s s2) (\<lambda>_.
         bindE (CopyOptions o1) (\<lambda>l.
         bindE (GetDifferenceSettings e l ''datetime'' [] Nanosecond Hour) (\<lambda>d.
         if largestUnit d \<notin> {Year, Month, Week, Day} then
           bindE (DifferenceInstant (hNow h) m c (roundingIncrement d) (smallestUnit d) (largestUnit d) (roundingMode d)) (\<lambda>b.
             scaledDuration (signOfOp e) (withBalanced (mkDuration 0 0 0 0 0 0 0 0 0 0) 0 b))
         else
           bindE (TimeZoneEquals z z2) (\<lambda>q.
           bindE (throwIf (\<not> q) RangeError) (\<lambda>_.
           bindE (DifferenceZonedDateTime (hNow h) m c (zoneMethods h z)
             (calendarWith h s (setProp l ''largestUnit'' (Str (unitName (largestUnit d))))) (largestUnit d)) (\<lambda>x.
           let rel = relativeOf h (ZonedDateTime m z s)
           in bindE (RoundDuration (hNow h) x (roundingIncrement d) (smallestUnit d) (roundingMode d) rel) (\<lambda>(x, _).
              bindE (AdjustRoundedDurationDays (hNow h) x (roundingIncrement d) (smallestUnit d) (roundingMode d) rel)
                (scaledDuration (signOfOp e))))))))) 
     | _ \<Rightarrow> Inl AssertError)"

section \<open>Sums\<close>

datatype sum_op = Add | Subtract

definition signOfSum :: "sum_op \<Rightarrow> int" where
  "signOfSum e = (case e of Subtract \<Rightarrow> -1 | Add \<Rightarrow> 1)"

definition scaled :: "int \<Rightarrow> duration \<Rightarrow> duration" where
  "scaled k d = mkDuration (k * years d) (k * months d) (k * weeks d) (k * days d) (k * hours d)
     (k * minutes d) (k * seconds d) (k * milliseconds d) (k * microseconds d) (k * nanoseconds d)"

definition AddDurationToOrSubtractDurationFromDuration ::
  "host \<Rightarrow> sum_op \<Rightarrow> duration \<Rightarrow> js_arg \<Rightarrow> jsval \<Rightarrow> duration result" where
  "AddDurationToOrSubtractDurationFromDuration h e t r o1 =
     bindE (ToTemporalDurationRecord (durationArg h r)) (\<lambda>a.
     bindE (GetOptionsObject o1) (\<lambda>ov.
     bindE (ToRelativeTemporalObject h ov) (\<lambda>p.
     bindE (AddDuration (hNow h) t (scaled (signOfSum e) a) (Option.bind p (relativeOf h))) checkDuration)))"

definition ToLimitedTemporalDuration :: "duration_arg \<Rightarrow> duration result" where
  "ToLimitedTemporalDuration e =
     bindE (ToTemporalDurationRecord e) (\<lambda>r.
     bindE (throwIf (years r \<noteq> 0 \<or> months r \<noteq> 0 \<or> weeks r \<noteq> 0 \<or> days r \<noteq> 0) RangeError) (\<lambda>_. Inr r))"

definition AddDurationToOrSubtractDurationFromInstant :: "host \<Rightarrow> sum_op \<Rightarrow> int \<Rightarrow> js_arg \<Rightarrow> int result" where
  "AddDurationToOrSubtractDurationFromInstant h e t r =
     bindE (ToLimitedTemporalDuration (durationArg h r)) (\<lambda>d. let d = scaled (signOfSum e) d in
     bindE (AddInstant t (hours d) (minutes d) (seconds d) (milliseconds d) (microseconds d) (nanoseconds d)) newInstant)"

definition AddDurationToOrSubtractDurationFromPlainDateTime ::
  "host \<Rightarrow> sum_op \<Rightarrow> iso_datetime \<Rightarrow> calendar_slot \<Rightarrow> js_arg \<Rightarrow> jsval \<Rightarrow> iso_datetime result" where
  "AddDurationToOrSubtractDurationFromPlainDateTime h e t c r o1 =
     bindE (ToTemporalDurationRecord (durationArg h r)) (\<lambda>d.
     bindE (GetOptionsObject o1) (\<lambda>ov.
     bindE (AddDateTime (hNow h) (calendarWith h c ov) t (scaled (signOfSum e) d) Reject) (\<lambda>x.
       createDateTime h (dtDate x) (dtTime x))))"

definition AddDurationToOrSubtractDurationFromPlainTime :: "host \<Rightarrow> sum_op \<Rightarrow> iso_time \<Rightarrow> js_arg \<Rightarrow> iso_time result" where
  "AddDurationToOrSubtractDurationFromPlainTime h e t r =
     bindE (ToTemporalDurationRecord (durationArg h r)) (\<lambda>d.
     let d = scaled (signOfSum e) d;
         x = AddTime (hour t) (minute t) (second t) (millisecond t) (microsecond t) (nanosecond t)
           (hours d) (minutes d) (seconds d) (milliseconds d) (microseconds d) (nanoseconds d)
     in bindE (RegulateTime (hour x) (minute x) (second x) (millisecond x) (microsecond x) (nanosecond x) Reject) newPlainTime)"

definition AddDurationToOrSubtractDurationFromPlainYearMonth ::
  "host \<Rightarrow> sum_op \<Rightarrow> iso_date \<Rightarrow> calendar_slot \<Rightarrow> js_arg \<Rightarrow> jsval \<Rightarrow> iso_date result" where
  "AddDurationToOrSubtractDurationFromPlainYearMonth h e t y r o1 =
     bindE (ToTemporalDurationRecord (durationArg h r)) (\<lambda>n.
     let n = scaled (signOfSum e) n; b = hBuiltins h
     in bindE (BalanceDurationPlain (days n) (hours n) (minutes n) (seconds n) (milliseconds n) (microseconds n)
          (nanoseconds n) Day) (\<lambda>k.
        let l = bDays k
        in bindE (GetOptionsObject o1) (\<lambda>f.
           bindE (CalendarFields b y [''monthCode'', ''year'']) (\<lambda>I.
           bindE (PrepareTemporalFields (propertyOf h (PlainYearMonth t y)) I (Needs [])) (\<lambda>g.
           bindE (CalendarDateFromFields b y (ownReads (setProp g ''day'' (Num (Fin 1)))) Undefined) (\<lambda>w.
           bindE (if DurationSign (years n) (months n) (weeks n) l 0 0 0 0 0 0 < 0
                  then
                    bindE (CalendarDateAdd b y w (mkDuration 0 1 0 0 0 0 0 0 0 0) Undefined) (\<lambda>x.
                    bindE (CalendarDateAdd b y x (mkDuration 0 0 0 (-1) 0 0 0 0 0 0) Undefined) (\<lambda>u.
                    bindE (CalendarDay b y u) (\<lambda>day1.
                      CalendarDateFromFields b y (ownReads (setProp g ''day'' (Num (Fin (of_int day1))))) Undefined)))
                  else Inr w) (\<lambda>w.
           bindE (CreateDuration (years n) (months n) (weeks n) l 0 0 0 0 0 0) (\<lambda>C.
           bindE (CopyOptions f) (\<lambda>O1.
           bindE (CalendarDateAdd b y w C f) (\<lambda>v.
           bindE (PrepareTemporalFields (propertyOf h (PlainDate v y)) I (Needs [])) (\<lambda>F.
             CalendarYearMonthFromFields b y (ownReads F) O1)))))))))))"

definition AddDurationToOrSubtractDurationFromZonedDateTime ::
  "host \<Rightarrow> sum_op \<Rightarrow> int \<Rightarrow> zone_slot \<Rightarrow> calendar_slot \<Rightarrow> js_arg \<Rightarrow> jsval \<Rightarrow> tobject result" where
  "AddDurationToOrSubtractDurationFromZonedDateTime h e t y I r o1 =
     bindE (ToTemporalDurationRecord (durationArg h r)) (\<lambda>d.
     bindE (GetOptionsObject o1) (\<lambda>f.
     bindE (AddZonedDateTime (hNow h) t (zoneMethods h y) (calendarWith h I f) (scaled (signOfSum e) d) Reject) (\<lambda>n.
       createZoned n y I)))"

end
