(* ===== verification/Plain_Classes.thy ===== *)
theory Plain_Classes imports Temporal_Operations begin

text \<open>
  The classes without a time zone: the constructors and methods of \<^verbatim>\<open>PlainDate\<close>,
  \<^verbatim>\<open>PlainDateTime\<close>, \<^verbatim>\<open>PlainTime\<close>, \<^verbatim>\<open>PlainYearMonth\<close> and \<^verbatim>\<open>PlainMonthDay\<close>. A method takes the slots of
  its receiver, which is of the class; another receiver is a \<open>TypeError\<close> before anything else.
\<close>

section \<open>What the methods share\<close>

definition objectArg :: "js_arg \<Rightarrow> unit result" where
  "objectArg e = (case e of Prim _ \<Rightarrow> Inl TypeError | _ \<Rightarrow> Inr ())"

text \<open>\<^verbatim>\<open>RejectTemporalLikeObject\<close> on an argument: an object with a calendar, a zone or a time of day,
  or with a property of these names.\<close>

definition rejectTemporalLike :: "host \<Rightarrow> js_arg \<Rightarrow> unit result" where
  "rejectTemporalLike h e =
     bindE (throwIf (slotOfArg e \<noteq> None) TypeError) (\<lambda>_.
     bindE (throwIf (case e of Temporal (PlainTime _) \<Rightarrow> True | _ \<Rightarrow> False) TypeError) (\<lambda>_.
     bindE (readsOf h e ''calendar'') (\<lambda>v. bindE (throwIf (v \<noteq> Undefined) TypeError) (\<lambda>_.
     bindE (readsOf h e ''timeZone'') (\<lambda>v. throwIf (v \<noteq> Undefined) TypeError)))))"

text \<open>The body of every \<^verbatim>\<open>with\<close>: the fields of the receiver, those of the argument over them, and
  the options, passed to \<open>k\<close>. The receiver of a zoned date-time has one field more, which is required.\<close>

definition withFields ::
  "host \<Rightarrow> tobject \<Rightarrow> calendar_slot \<Rightarrow> string list \<Rightarrow> string list \<Rightarrow> js_arg \<Rightarrow> jsval \<Rightarrow> (jsval \<Rightarrow> jsval \<Rightarrow> 'a result) \<Rightarrow> 'a result" where
  "withFields h this o1 names extra e t k =
     (let b = hBuiltins h
      in bindE (objectArg e) (\<lambda>_. bindE (rejectTemporalLike h e) (\<lambda>_. bindE (GetOptionsObject t) (\<lambda>r.
         bindE (CalendarFields b o1 names) (\<lambda>n. let n = n @ extra in
         bindE (PrepareTemporalFields (propertyOf h this) n (Needs extra)) (\<lambda>a.
         bindE (PrepareTemporalFields (readsOf h e) n Partial) (\<lambda>p.
         bindE (CalendarMergeFields b o1 a p) (\<lambda>a.
         bindE (PrepareTemporalFields (ownReads a) n (Needs extra)) (\<lambda>a. k a r)))))))))"

text \<open>The fields a conversion to a year and month or a month and day asks for.\<close>

definition fieldsOfObject :: "host \<Rightarrow> tobject \<Rightarrow> calendar_slot \<Rightarrow> string list \<Rightarrow> jsval result" where
  "fieldsOfObject h this e names =
     bindE (CalendarFields (hBuiltins h) e names) (\<lambda>ks. PrepareTemporalFields (propertyOf h this) ks (Needs []))"

definition toYearMonth :: "host \<Rightarrow> tobject \<Rightarrow> calendar_slot \<Rightarrow> iso_date result" where
  "toYearMonth h this e = bindE (fieldsOfObject h this e [''monthCode'', ''year''])
     (\<lambda>f. CalendarYearMonthFromFields (hBuiltins h) e (ownReads f) Undefined)"

definition toMonthDay :: "host \<Rightarrow> tobject \<Rightarrow> calendar_slot \<Rightarrow> iso_date result" where
  "toMonthDay h this e = bindE (fieldsOfObject h this e [''day'', ''monthCode''])
     (\<lambda>f. CalendarMonthDayFromFields (hBuiltins h) e (ownReads f) Undefined)"

text \<open>\<^verbatim>\<open>toPlainDate\<close> of a year and month or a month and day, with the missing field from the argument.\<close>

definition completeDate :: "host \<Rightarrow> tobject \<Rightarrow> calendar_slot \<Rightarrow> string list \<Rightarrow> string list \<Rightarrow> js_arg \<Rightarrow> iso_date result" where
  "completeDate h this t names missing e =
     (let b = hBuiltins h
      in bindE (objectArg e) (\<lambda>_. bindE (CalendarFields b t names) (\<lambda>r.
         bindE (PrepareTemporalFields (propertyOf h this) r (Needs [])) (\<lambda>o1.
         bindE (CalendarFields b t missing) (\<lambda>n.
         bindE (PrepareTemporalFields (readsOf h e) n (Needs [])) (\<lambda>p.
         bindE (CalendarMergeFields b t o1 p) (\<lambda>a.
         bindE (PrepareTemporalFields (ownReads a) (remdups (r @ n)) (Needs [])) (\<lambda>a.
           CalendarDateFromFields b t (ownReads a) (CreateOnePropObject ''overflow'' (Str ''reject''))))))))))"

text \<open>The options of \<^verbatim>\<open>round\<close>, which may be the name of a unit.\<close>

definition optionsOrString :: "string \<Rightarrow> jsval \<Rightarrow> jsval result" where
  "optionsOrString k e = (case e of Undefined \<Rightarrow> Inl TypeError | Str s \<Rightarrow> Inr (CreateOnePropObject k e) | _ \<Rightarrow> GetOptionsObject e)"

definition roundSettings :: "jsval \<Rightarrow> string list \<Rightarrow> (int \<times> rounding_mode \<times> tunit) result" where
  "roundSettings e ext =
     bindE (optionsOrString ''smallestUnit'' e) (\<lambda>t.
     bindE (ToTemporalRoundingIncrement t) (\<lambda>r.
     bindE (ToTemporalRoundingMode t HalfExpand) (\<lambda>o1.
     bindE (GetTemporalUnit t ''smallestUnit'' ''time'' Required ext) (\<lambda>n.
       Inr (r, o1, decodeUnit (the n))))))"

text \<open>The table of maxima where a day may be rounded to.\<close>

definition validateRound :: "int \<Rightarrow> tunit \<Rightarrow> unit result" where
  "validateRound r n = (if n = Day then ValidateTemporalRoundingIncrement r 1 True else checkIncrement r n)"

text \<open>The options of \<^verbatim>\<open>toString\<close> for a time; an hour is too large a unit.\<close>

definition timeStringSettings :: "jsval \<Rightarrow> (precision \<times> rounding_mode \<times> tunit option) result" where
  "timeStringSettings t =
     bindE (ToFractionalSecondDigits t) (\<lambda>r.
     bindE (ToTemporalRoundingMode t Trunc) (\<lambda>o1.
     bindE (GetTemporalUnit t ''smallestUnit'' ''time'' NoDefault []) (\<lambda>n. let n = Option.bind n unitOfName in
     bindE (throwIf (n = Some Hour) RangeError) (\<lambda>_. Inr (r, o1, n)))))"

definition calendarArg :: "host \<Rightarrow> jsval \<Rightarrow> calendar_slot result" where
  "calendarArg h v = (if v = Undefined then Inr isoSlot else ToTemporalCalendarSlotValue (hCalendarArg h v))"

definition intOr0 :: "(jsval \<Rightarrow> int result) \<Rightarrow> jsval \<Rightarrow> int result" where
  "intOr0 f v = (if v = Undefined then Inr 0 else f v)"

fun mapE :: "('a \<Rightarrow> 'b result) \<Rightarrow> 'a list \<Rightarrow> 'b list result" where
  "mapE f [] = Inr []"
| "mapE f (x # xs) = bindE (f x) (\<lambda>y. bindE (mapE f xs) (\<lambda>ys. Inr (y # ys)))"

text \<open>The instant of a wall-clock time in a zone, and the zoned date-time at it.\<close>

definition instantFor :: "host \<Rightarrow> zone_slot \<Rightarrow> calendar_slot \<Rightarrow> iso_datetime \<Rightarrow> disambiguation \<Rightarrow> int result" where
  "instantFor h z c x dis = bindE (GetInstantFor (hNow h) (calendarMethods h c) (zoneMethods h z) x dis) epochOf"

definition zonedAt :: "host \<Rightarrow> zone_slot \<Rightarrow> calendar_slot \<Rightarrow> iso_datetime \<Rightarrow> disambiguation \<Rightarrow> tobject result" where
  "zonedAt h z c x dis = bindE (instantFor h z c x dis) (\<lambda>n. createZoned n z c)"

definition midnight :: iso_time where "midnight = mkTime 0 0 0 0 0 0"

section \<open>\<^verbatim>\<open>PlainDate\<close>\<close>

definition PlainDate_new :: "host \<Rightarrow> jsval \<Rightarrow> jsval \<Rightarrow> jsval \<Rightarrow> jsval \<Rightarrow> (iso_date \<times> calendar_slot) result" where
  "PlainDate_new h e t r o1 =
     bindE (ToIntegerWithTruncation e) (\<lambda>y. bindE (ToIntegerWithTruncation t) (\<lambda>m. bindE (ToIntegerWithTruncation r) (\<lambda>d.
     bindE (calendarArg h o1) (\<lambda>c. bindE (CreateTemporalDate (hNow h) y m d) (\<lambda>x. Inr (x, c))))))"

definition dateFields :: "string list" where
  "dateFields = [''day'', ''month'', ''monthCode'', ''year'']"

definition PlainDate_with :: "host \<Rightarrow> iso_date \<Rightarrow> calendar_slot \<Rightarrow> js_arg \<Rightarrow> jsval \<Rightarrow> iso_date result" where
  "PlainDate_with h d c e t = withFields h (PlainDate d c) c dateFields [] e t
     (\<lambda>a r. CalendarDateFromFields (hBuiltins h) c (ownReads a) r)"

definition PlainDate_withCalendar :: "host \<Rightarrow> iso_date \<Rightarrow> jsval \<Rightarrow> (iso_date \<times> calendar_slot) result" where
  "PlainDate_withCalendar h d e =
     bindE (ToTemporalCalendarSlotValue (hCalendarArg h e)) (\<lambda>t. bindE (createDate h d) (\<lambda>x. Inr (x, t)))"

definition PlainDate_add :: "host \<Rightarrow> iso_date \<Rightarrow> calendar_slot \<Rightarrow> js_arg \<Rightarrow> jsval \<Rightarrow> iso_date result" where
  "PlainDate_add h d c e t =
     bindE (ToTemporalDuration (durationArg h e)) (\<lambda>r. bindE (GetOptionsObject t) (\<lambda>o1. CalendarDateAdd (hBuiltins h) c d r o1))"

definition PlainDate_subtract :: "host \<Rightarrow> iso_date \<Rightarrow> calendar_slot \<Rightarrow> js_arg \<Rightarrow> jsval \<Rightarrow> iso_date result" where
  "PlainDate_subtract h d c e t =
     bindE (ToTemporalDuration (durationArg h e)) (\<lambda>r. bindE (CreateNegatedTemporalDuration r) (\<lambda>r.
     bindE (GetOptionsObject t) (\<lambda>o1. CalendarDateAdd (hBuiltins h) c d r o1)))"

definition PlainDate_equals :: "host \<Rightarrow> iso_date \<Rightarrow> calendar_slot \<Rightarrow> js_arg \<Rightarrow> bool result" where
  "PlainDate_equals h d c e =
     bindE (ToTemporalDate h e Undefined) (\<lambda>(t, tc).
     if year d \<noteq> year t \<or> month d \<noteq> month t \<or> day d \<noteq> day t then Inr False else CalendarEquals c tc)"

definition PlainDate_toString :: "host \<Rightarrow> iso_date \<Rightarrow> calendar_slot \<Rightarrow> jsval \<Rightarrow> string result" where
  "PlainDate_toString h d c e =
     bindE (GetOptionsObject e) (\<lambda>t. bindE (ToCalendarNameOption t) (\<lambda>s.
       TemporalDateToString d (ToTemporalCalendarIdentifier c) s))"

definition PlainDate_toPlainDateTime :: "host \<Rightarrow> iso_date \<Rightarrow> jsval \<Rightarrow> iso_datetime result" where
  "PlainDate_toPlainDateTime h d e =
     (if e = Undefined then createDateTime h d midnight
      else bindE (ToTemporalTime h (hArg h e) Constrain) (\<lambda>a. createDateTime h d a))"

text \<open>The argument is a time zone, or an object with a time zone and a time.\<close>

definition PlainDate_toZonedDateTime :: "host \<Rightarrow> iso_date \<Rightarrow> calendar_slot \<Rightarrow> jsval \<Rightarrow> tobject result" where
  "PlainDate_toZonedDateTime h d y e =
     bindE (if IsObject e \<and> \<not> IsTemporalTimeZone e
            then bindE (readsOf h (hArg h e) ''timeZone'') (\<lambda>v.
              if v = Undefined then bindE (zoneSlotOf h e) (\<lambda>z. Inr (z, Undefined))
              else bindE (zoneSlotOf h v) (\<lambda>z. bindE (readsOf h (hArg h e) ''plainTime'') (\<lambda>r. Inr (z, r))))
            else bindE (zoneSlotOf h e) (\<lambda>z. Inr (z, Undefined))) (\<lambda>(z, r).
     bindE (if r = Undefined then Inr midnight else ToTemporalTime h (hArg h r) Constrain) (\<lambda>x.
     bindE (createDateTime h d x) (\<lambda>x. zonedAt h z y x Compatible)))"

definition PlainDate_toPlainYearMonth :: "host \<Rightarrow> iso_date \<Rightarrow> calendar_slot \<Rightarrow> iso_date result" where
  "PlainDate_toPlainYearMonth h d c = toYearMonth h (PlainDate d c) c"

definition PlainDate_toPlainMonthDay :: "host \<Rightarrow> iso_date \<Rightarrow> calendar_slot \<Rightarrow> iso_date result" where
  "PlainDate_toPlainMonthDay h d c = toMonthDay h (PlainDate d c) c"

definition dateISOFields :: "iso_date \<Rightarrow> (string \<times> int) list" where
  "dateISOFields d = [(''isoDay'', day d), (''isoMonth'', month d), (''isoYear'', year d)]"

definition PlainDate_getISOFields :: "iso_date \<Rightarrow> calendar_slot \<Rightarrow> calendar_slot \<times> (string \<times> int) list" where
  "PlainDate_getISOFields d c = (c, dateISOFields d)"

definition PlainDate_from :: "host \<Rightarrow> js_arg \<Rightarrow> jsval \<Rightarrow> (iso_date \<times> calendar_slot) result" where
  "PlainDate_from h e t =
     bindE (GetOptionsObject t) (\<lambda>r. case e of
         Temporal (PlainDate d c) \<Rightarrow> bindE (ToTemporalOverflow r) (\<lambda>_. bindE (createDate h d) (\<lambda>x. Inr (x, c)))
       | _ \<Rightarrow> ToTemporalDate h e r)"

definition PlainDate_compare :: "host \<Rightarrow> js_arg \<Rightarrow> js_arg \<Rightarrow> int result" where
  "PlainDate_compare h e t =
     bindE (ToTemporalDate h e Undefined) (\<lambda>(r, _). bindE (ToTemporalDate h t Undefined) (\<lambda>(o1, _).
       Inr (CompareISODate (year r) (month r) (day r) (year o1) (month o1) (day o1))))"

section \<open>\<^verbatim>\<open>PlainDateTime\<close>\<close>

definition PlainDateTime_new :: "host \<Rightarrow> jsval list \<Rightarrow> jsval list \<Rightarrow> jsval \<Rightarrow> (iso_datetime \<times> calendar_slot) result" where
  "PlainDateTime_new h date time cal =
     bindE (mapE ToIntegerWithTruncation date) (\<lambda>ds. bindE (mapE (intOr0 ToIntegerWithTruncation) time) (\<lambda>ts.
     bindE (calendarArg h cal) (\<lambda>c.
     bindE (CreateTemporalDateTime (hNow h) (ds ! 0) (ds ! 1) (ds ! 2) (ts ! 0) (ts ! 1) (ts ! 2) (ts ! 3) (ts ! 4) (ts ! 5))
       (\<lambda>x. Inr (x, c)))))"

definition PlainDateTime_with :: "host \<Rightarrow> iso_datetime \<Rightarrow> calendar_slot \<Rightarrow> js_arg \<Rightarrow> jsval \<Rightarrow> iso_datetime result" where
  "PlainDateTime_with h x c e t = withFields h (PlainDateTime x c) c dateTimeFields [] e t
     (\<lambda>a r. bindE (InterpretTemporalDateTimeFields h c a r) (\<lambda>y. createDateTime h (dtDate y) (dtTime y)))"

definition PlainDateTime_withPlainTime :: "host \<Rightarrow> iso_datetime \<Rightarrow> jsval \<Rightarrow> iso_datetime result" where
  "PlainDateTime_withPlainTime h x e =
     (if e = Undefined then createDateTime h (dtDate x) midnight
      else bindE (ToTemporalTime h (hArg h e) Constrain) (\<lambda>a. createDateTime h (dtDate x) a))"

definition PlainDateTime_withPlainDate :: "host \<Rightarrow> iso_datetime \<Rightarrow> calendar_slot \<Rightarrow> js_arg \<Rightarrow> (iso_datetime \<times> calendar_slot) result" where
  "PlainDateTime_withPlainDate h x c e =
     bindE (ToTemporalDate h e Undefined) (\<lambda>(t, a). bindE (ConsolidateCalendars c a) (\<lambda>a.
     bindE (createDateTime h t (dtTime x)) (\<lambda>y. Inr (y, a))))"

definition PlainDateTime_withCalendar :: "host \<Rightarrow> iso_datetime \<Rightarrow> jsval \<Rightarrow> (iso_datetime \<times> calendar_slot) result" where
  "PlainDateTime_withCalendar h x e =
     bindE (ToTemporalCalendarSlotValue (hCalendarArg h e)) (\<lambda>t.
     bindE (createDateTime h (dtDate x) (dtTime x)) (\<lambda>y. Inr (y, t)))"

definition PlainDateTime_round :: "host \<Rightarrow> iso_datetime \<Rightarrow> jsval \<Rightarrow> iso_datetime result" where
  "PlainDateTime_round h x e =
     bindE (roundSettings e [''day'']) (\<lambda>(r, o1, n). bindE (validateRound r n) (\<lambda>_.
     let d = dtDate x; t = dtTime x
     in bindE (RoundISODateTime (year d) (month d) (day d) (hour t) (minute t) (second t) (millisecond t) (microsecond t)
          (nanosecond t) r n o1 86400000000000) (\<lambda>y. createDateTime h (dtDate y) (dtTime y))))"

definition PlainDateTime_equals :: "host \<Rightarrow> iso_datetime \<Rightarrow> calendar_slot \<Rightarrow> js_arg \<Rightarrow> bool result" where
  "PlainDateTime_equals h x c e =
     bindE (ToTemporalDateTime h e Undefined) (\<lambda>(t, tc). if x \<noteq> t then Inr False else CalendarEquals c tc)"

definition PlainDateTime_toString :: "host \<Rightarrow> iso_datetime \<Rightarrow> calendar_slot \<Rightarrow> jsval \<Rightarrow> string result" where
  "PlainDateTime_toString h x c e =
     bindE (GetOptionsObject e) (\<lambda>t. bindE (ToCalendarNameOption t) (\<lambda>r.
     bindE (timeStringSettings t) (\<lambda>(o1, n, a). bindE (ToSecondsStringPrecisionRecord a o1) (\<lambda>p.
       TemporalDateTimeToString (hNow h) x (ToTemporalCalendarIdentifier c) (precision p) r
         (Some (spIncrement p, spUnit p, n))))))"

definition PlainDateTime_toZonedDateTime :: "host \<Rightarrow> iso_datetime \<Rightarrow> calendar_slot \<Rightarrow> jsval \<Rightarrow> jsval \<Rightarrow> tobject result" where
  "PlainDateTime_toZonedDateTime h x c e t =
     bindE (zoneSlotOf h e) (\<lambda>r. bindE (GetOptionsObject t) (\<lambda>o1. bindE (ToTemporalDisambiguation o1) (\<lambda>d.
       zonedAt h r c x d)))"

definition PlainDateTime_toPlainYearMonth :: "host \<Rightarrow> iso_datetime \<Rightarrow> calendar_slot \<Rightarrow> iso_date result" where
  "PlainDateTime_toPlainYearMonth h x c = toYearMonth h (PlainDateTime x c) c"

definition PlainDateTime_toPlainMonthDay :: "host \<Rightarrow> iso_datetime \<Rightarrow> calendar_slot \<Rightarrow> iso_date result" where
  "PlainDateTime_toPlainMonthDay h x c = toMonthDay h (PlainDateTime x c) c"

definition timeISOFields :: "iso_time \<Rightarrow> (string \<times> int) list" where
  "timeISOFields t = [(''isoHour'', hour t), (''isoMicrosecond'', microsecond t), (''isoMillisecond'', millisecond t),
     (''isoMinute'', minute t), (''isoNanosecond'', nanosecond t), (''isoSecond'', second t)]"

definition PlainDateTime_getISOFields :: "iso_datetime \<Rightarrow> calendar_slot \<Rightarrow> calendar_slot \<times> (string \<times> int) list" where
  "PlainDateTime_getISOFields x c = (c, dateISOFields (dtDate x) @ timeISOFields (dtTime x))"

definition PlainDateTime_from :: "host \<Rightarrow> js_arg \<Rightarrow> jsval \<Rightarrow> (iso_datetime \<times> calendar_slot) result" where
  "PlainDateTime_from h e t =
     bindE (GetOptionsObject t) (\<lambda>r. case e of
         Temporal (PlainDateTime x c) \<Rightarrow>
           bindE (ToTemporalOverflow r) (\<lambda>_. bindE (createDateTime h (dtDate x) (dtTime x)) (\<lambda>y. Inr (y, c)))
       | _ \<Rightarrow> ToTemporalDateTime h e r)"

text \<open>The loop over the slots.\<close>

fun compareSlots :: "(int \<times> int) list \<Rightarrow> int" where
  "compareSlots [] = 0"
| "compareSlots ((t, n) # ps) = (if t \<noteq> n then ComparisonResult (t - n) else compareSlots ps)"

definition dateSlots :: "iso_date \<Rightarrow> int list" where
  "dateSlots d = [year d, month d, day d]"

definition timeSlots :: "iso_time \<Rightarrow> int list" where
  "timeSlots t = [hour t, minute t, second t, millisecond t, microsecond t, nanosecond t]"

definition PlainDateTime_compare :: "host \<Rightarrow> js_arg \<Rightarrow> js_arg \<Rightarrow> int result" where
  "PlainDateTime_compare h e t =
     bindE (ToTemporalDateTime h e Undefined) (\<lambda>(r, _). bindE (ToTemporalDateTime h t Undefined) (\<lambda>(o1, _).
       Inr (compareSlots (zip (dateSlots (dtDate r) @ timeSlots (dtTime r)) (dateSlots (dtDate o1) @ timeSlots (dtTime o1))))))"

section \<open>\<^verbatim>\<open>PlainTime\<close>\<close>

definition timeOfList :: "int list \<Rightarrow> iso_time" where
  "timeOfList ts = mkTime (ts ! 0) (ts ! 1) (ts ! 2) (ts ! 3) (ts ! 4) (ts ! 5)"

definition PlainTime_new :: "jsval list \<Rightarrow> iso_time result" where
  "PlainTime_new vs = bindE (mapE (intOr0 ToIntegerWithTruncation) vs) (\<lambda>ts. newPlainTime (timeOfList ts))"

definition PlainTime_with :: "host \<Rightarrow> iso_time \<Rightarrow> js_arg \<Rightarrow> jsval \<Rightarrow> iso_time result" where
  "PlainTime_with h x e t =
     bindE (objectArg e) (\<lambda>_. bindE (rejectTemporalLike h e) (\<lambda>_.
     bindE (GetOptionsObject t) (\<lambda>r. bindE (ToTemporalOverflow r) (\<lambda>r.
     bindE (ToTemporalTimeRecord (readsOf h e) False) (\<lambda>o1.
     bindE (ToTemporalTimeRecord (PlainTime_get x) True) (\<lambda>n.
     let y = timeOfRecord (o1 @ n)
     in bindE (RegulateTime (hour y) (minute y) (second y) (millisecond y) (microsecond y) (nanosecond y) r) newPlainTime))))))"

definition PlainTime_round :: "iso_time \<Rightarrow> jsval \<Rightarrow> iso_time result" where
  "PlainTime_round x e =
     bindE (roundSettings e []) (\<lambda>(r, o1, n). bindE (checkIncrement r n) (\<lambda>_.
     bindE (RoundTime (hour x) (minute x) (second x) (millisecond x) (microsecond x) (nanosecond x) r n o1 86400000000000)
       (\<lambda>b. newPlainTime (iso_time.truncate b))))"

definition PlainTime_equals :: "host \<Rightarrow> iso_time \<Rightarrow> js_arg \<Rightarrow> bool result" where
  "PlainTime_equals h x e = bindE (ToTemporalTime h e Constrain) (\<lambda>t. Inr (x = t))"

definition PlainTime_toString :: "iso_time \<Rightarrow> jsval \<Rightarrow> string result" where
  "PlainTime_toString x e =
     bindE (GetOptionsObject e) (\<lambda>t. bindE (timeStringSettings t) (\<lambda>(r, o1, n). bindE (ToSecondsStringPrecisionRecord n r) (\<lambda>p.
       TemporalTimeToString x (precision p) (Some (spIncrement p, spUnit p, o1)))))"

definition PlainTime_toPlainDateTime :: "host \<Rightarrow> iso_time \<Rightarrow> js_arg \<Rightarrow> (iso_datetime \<times> calendar_slot) result" where
  "PlainTime_toPlainDateTime h x e =
     bindE (ToTemporalDate h e Undefined) (\<lambda>(t, c). bindE (createDateTime h t x) (\<lambda>y. Inr (y, c)))"

definition PlainTime_toZonedDateTime :: "host \<Rightarrow> iso_time \<Rightarrow> js_arg \<Rightarrow> tobject result" where
  "PlainTime_toZonedDateTime h x e =
     bindE (objectArg e) (\<lambda>_. bindE (readsOf h e ''plainDate'') (\<lambda>t. bindE (throwIf (t = Undefined) TypeError) (\<lambda>_.
     bindE (ToTemporalDate h (hArg h t) Undefined) (\<lambda>(r, c).
     bindE (readsOf h e ''timeZone'') (\<lambda>o1. bindE (throwIf (o1 = Undefined) TypeError) (\<lambda>_.
     bindE (zoneSlotOf h o1) (\<lambda>a. bindE (createDateTime h r x) (\<lambda>y. zonedAt h a c y Compatible))))))))"

definition PlainTime_from :: "host \<Rightarrow> js_arg \<Rightarrow> jsval \<Rightarrow> iso_time result" where
  "PlainTime_from h e t =
     bindE (GetOptionsObject t) (\<lambda>r. bindE (ToTemporalOverflow r) (\<lambda>r. case e of
         Temporal (PlainTime x) \<Rightarrow> newPlainTime x
       | _ \<Rightarrow> ToTemporalTime h e r))"

definition PlainTime_compare :: "host \<Rightarrow> js_arg \<Rightarrow> js_arg \<Rightarrow> int result" where
  "PlainTime_compare h e t =
     bindE (ToTemporalTime h e Constrain) (\<lambda>r. bindE (ToTemporalTime h t Constrain) (\<lambda>o1.
       Inr (compareSlots (zip (timeSlots r) (timeSlots o1)))))"

section \<open>\<^verbatim>\<open>PlainYearMonth\<close>\<close>

definition PlainYearMonth_new :: "host \<Rightarrow> jsval \<Rightarrow> jsval \<Rightarrow> jsval \<Rightarrow> jsval \<Rightarrow> (iso_date \<times> calendar_slot) result" where
  "PlainYearMonth_new h e t r o1 =
     bindE (ToIntegerWithTruncation e) (\<lambda>y. bindE (ToIntegerWithTruncation t) (\<lambda>m. bindE (calendarArg h r) (\<lambda>c.
     bindE (if o1 = Undefined then Inr 1 else ToIntegerWithTruncation o1) (\<lambda>d.
     bindE (CreateTemporalYearMonth y m d) (\<lambda>x. Inr (x, c))))))"

definition PlainYearMonth_with :: "host \<Rightarrow> iso_date \<Rightarrow> calendar_slot \<Rightarrow> js_arg \<Rightarrow> jsval \<Rightarrow> iso_date result" where
  "PlainYearMonth_with h d c e t = withFields h (PlainYearMonth d c) c [''month'', ''monthCode'', ''year''] [] e t
     (\<lambda>a r. CalendarYearMonthFromFields (hBuiltins h) c (ownReads a) r)"

definition PlainYearMonth_equals :: "host \<Rightarrow> iso_date \<Rightarrow> calendar_slot \<Rightarrow> js_arg \<Rightarrow> bool result" where
  "PlainYearMonth_equals h d c e =
     bindE (ToTemporalYearMonth h e Undefined) (\<lambda>(t, tc). if dateSlots d \<noteq> dateSlots t then Inr False else CalendarEquals c tc)"

definition PlainYearMonth_toString :: "host \<Rightarrow> iso_date \<Rightarrow> calendar_slot \<Rightarrow> jsval \<Rightarrow> string result" where
  "PlainYearMonth_toString h d c e =
     bindE (GetOptionsObject e) (\<lambda>t. bindE (ToCalendarNameOption t) (\<lambda>s.
       TemporalYearMonthToString d (ToTemporalCalendarIdentifier c) s))"

definition PlainYearMonth_toPlainDate :: "host \<Rightarrow> iso_date \<Rightarrow> calendar_slot \<Rightarrow> js_arg \<Rightarrow> iso_date result" where
  "PlainYearMonth_toPlainDate h d c e = completeDate h (PlainYearMonth d c) c [''monthCode'', ''year''] [''day''] e"

definition PlainYearMonth_getISOFields :: "iso_date \<Rightarrow> calendar_slot \<Rightarrow> calendar_slot \<times> (string \<times> int) list" where
  "PlainYearMonth_getISOFields d c = (c, dateISOFields d)"

definition PlainYearMonth_from :: "host \<Rightarrow> js_arg \<Rightarrow> jsval \<Rightarrow> (iso_date \<times> calendar_slot) result" where
  "PlainYearMonth_from h e t =
     bindE (GetOptionsObject t) (\<lambda>r. case e of
         Temporal (PlainYearMonth d c) \<Rightarrow>
           bindE (ToTemporalOverflow r) (\<lambda>_. bindE (CreateTemporalYearMonth (year d) (month d) (day d)) (\<lambda>x. Inr (x, c)))
       | _ \<Rightarrow> ToTemporalYearMonth h e r)"

definition PlainYearMonth_compare :: "host \<Rightarrow> js_arg \<Rightarrow> js_arg \<Rightarrow> int result" where
  "PlainYearMonth_compare h e t =
     bindE (ToTemporalYearMonth h e Undefined) (\<lambda>(r, _). bindE (ToTemporalYearMonth h t Undefined) (\<lambda>(o1, _).
       Inr (CompareISODate (year r) (month r) (day r) (year o1) (month o1) (day o1))))"

section \<open>\<^verbatim>\<open>PlainMonthDay\<close>\<close>

definition PlainMonthDay_new :: "host \<Rightarrow> jsval \<Rightarrow> jsval \<Rightarrow> jsval \<Rightarrow> jsval \<Rightarrow> (iso_date \<times> calendar_slot) result" where
  "PlainMonthDay_new h e t r o1 =
     bindE (ToIntegerWithTruncation e) (\<lambda>m. bindE (ToIntegerWithTruncation t) (\<lambda>d. bindE (calendarArg h r) (\<lambda>c.
     bindE (if o1 = Undefined then Inr 1972 else ToIntegerWithTruncation o1) (\<lambda>y.
     bindE (CreateTemporalMonthDay (hNow h) m d y) (\<lambda>x. Inr (x, c))))))"

definition PlainMonthDay_with :: "host \<Rightarrow> iso_date \<Rightarrow> calendar_slot \<Rightarrow> js_arg \<Rightarrow> jsval \<Rightarrow> iso_date result" where
  "PlainMonthDay_with h d c e t = withFields h (PlainMonthDay d c) c dateFields [] e t
     (\<lambda>a r. CalendarMonthDayFromFields (hBuiltins h) c (ownReads a) r)"

definition PlainMonthDay_equals :: "host \<Rightarrow> iso_date \<Rightarrow> calendar_slot \<Rightarrow> js_arg \<Rightarrow> bool result" where
  "PlainMonthDay_equals h d c e =
     bindE (ToTemporalMonthDay h e Undefined) (\<lambda>(t, tc). if dateSlots d \<noteq> dateSlots t then Inr False else CalendarEquals c tc)"

definition PlainMonthDay_toString :: "host \<Rightarrow> iso_date \<Rightarrow> calendar_slot \<Rightarrow> jsval \<Rightarrow> string result" where
  "PlainMonthDay_toString h d c e =
     bindE (GetOptionsObject e) (\<lambda>t. bindE (ToCalendarNameOption t) (\<lambda>s.
       TemporalMonthDayToString d (ToTemporalCalendarIdentifier c) s))"

definition PlainMonthDay_toPlainDate :: "host \<Rightarrow> iso_date \<Rightarrow> calendar_slot \<Rightarrow> js_arg \<Rightarrow> iso_date result" where
  "PlainMonthDay_toPlainDate h d c e = completeDate h (PlainMonthDay d c) c [''day'', ''monthCode''] [''year''] e"

definition PlainMonthDay_getISOFields :: "iso_date \<Rightarrow> calendar_slot \<Rightarrow> calendar_slot \<times> (string \<times> int) list" where
  "PlainMonthDay_getISOFields d c = (c, dateISOFields d)"

definition PlainMonthDay_from :: "host \<Rightarrow> js_arg \<Rightarrow> jsval \<Rightarrow> (iso_date \<times> calendar_slot) result" where
  "PlainMonthDay_from h e t =
     bindE (GetOptionsObject t) (\<lambda>r. case e of
         Temporal (PlainMonthDay d c) \<Rightarrow>
           bindE (ToTemporalOverflow r) (\<lambda>_. bindE (CreateTemporalMonthDay (hNow h) (month d) (day d) (year d)) (\<lambda>x. Inr (x, c)))
       | _ \<Rightarrow> ToTemporalMonthDay h e r)"

end
