(* ===== verification/Named_Zones.thy ===== *)
theory Named_Zones imports Zoned Iso_Parse "HOL-Library.Code_Target_Int" begin

text \<open>
  Time zones with a name: reading the local time that \<^verbatim>\<open>Intl.DateTimeFormat\<close> prints, the offset
  it stands for, the instants of a wall-clock time, and the search for transitions. What the
  host prints for a zone is a parameter, as is the clock.
\<close>

section \<open>Reading the host's local time\<close>

text \<open>\<^verbatim>\<open>e.split(/[^\w]+/)\<close>\<close>

definition isWordChar :: "char \<Rightarrow> bool" where
  "isWordChar c \<longleftrightarrow> isAlpha c \<or> isDigit c \<or> c = CHR ''_''"

function splitWords :: "string \<Rightarrow> string list" where
  "splitWords s = takeWhile isWordChar s #
     (let r = dropWhile isWordChar s in if r = [] then [] else splitWords (dropWhile (\<lambda>c. \<not> isWordChar c) r))"
  by auto
termination
proof (relation "measure length")
  fix s :: string and r assume r: "r = dropWhile isWordChar s" "r \<noteq> []"
  obtain c t where ct: "r = c # t" using r(2) by (cases r) blast+
  then have "\<not> isWordChar c" using r(1) hd_dropWhile [of isWordChar s] by (metis list.sel(1) list.discI)
  then have "length (dropWhile (\<lambda>c. \<not> isWordChar c) r) \<le> length t" by (simp add: ct length_dropWhile_le)
  also have "length t < length r" by (simp add: ct)
  also have "length r \<le> length s" by (simp add: r(1) length_dropWhile_le)
  finally show "(dropWhile (\<lambda>c. \<not> isWordChar c) r, s) \<in> measure length" by simp
qed simp

declare splitWords.simps [simp del]

definition toUpperCase :: "string \<Rightarrow> string" where
  "toUpperCase = map (\<lambda>c. let n = of_char c :: nat in if 97 \<le> n \<and> n \<le> 122 then char_of (n - 32) else c)"

text \<open>A word is a Number: digits, or a literal such as 1e3 or 0x10; a finite one is an integer.\<close>

definition finiteInt :: "string \<Rightarrow> int result" where
  "finiteInt s = (case StringToNumber s of Fin x \<Rightarrow> Inr \<lfloor>x\<rfloor> | _ \<Rightarrow> Inl RangeError)"

definition parseFromEnUsFormat :: "string \<Rightarrow> (int \<times> int \<times> int \<times> int \<times> int \<times> int) result" where
  "parseFromEnUsFormat e =
     (let t = splitWords e
      in bindE (throwIf (length t \<noteq> 7) RangeError) (\<lambda>_.
         let a = toUpperCase (t ! 3)
         in bindE (throwIf (a \<notin> {''B'', ''BC'', ''A'', ''AD''}) RangeError) (\<lambda>_.
            bindE (finiteInt (t ! 2)) (\<lambda>n. let n = (if a \<in> {''B'', ''BC''} then 1 - n else n) in
            bindE (finiteInt (t ! 0)) (\<lambda>r. bindE (finiteInt (t ! 1)) (\<lambda>o1.
            bindE (finiteInt (t ! 4)) (\<lambda>i. let i = (if i = 24 then 0 else i) in
            bindE (finiteInt (t ! 5)) (\<lambda>s. bindE (finiteInt (t ! 6)) (\<lambda>l.
              Inr (n, r, o1, i, s, l))))))))))"

section \<open>Offsets\<close>

text \<open>What the host prints for the zone at a time value.\<close>

type_synonym formatter = "int \<Rightarrow> string result"

definition GetNamedTimeZoneDateTimeParts :: "formatter \<Rightarrow> int \<Rightarrow> iso_datetime result" where
  "GetNamedTimeZoneDateTimeParts fmt t =
     bindE (orThrow RangeError (GetISOPartsFromEpoch t)) (\<lambda>p.
     bindE (fmt (epochMilliseconds p)) (\<lambda>r.
     bindE (parseFromEnUsFormat r) (\<lambda>(i, s, l, d, m, c).
       let x = dtTime (parts p)
       in BalanceISODateTime i s l d m c (millisecond x) (microsecond x) (nanosecond x))))"

text \<open>The year is taken modulo 400, so that the time is in the range of \<open>GetUTCEpochNanoseconds\<close>;
  a time out of range would make the sum of \<^verbatim>\<open>null\<close> and a BigInt throw.\<close>

definition GetNamedTimeZoneOffsetNanoseconds :: "int \<Rightarrow> formatter \<Rightarrow> int \<Rightarrow> int result" where
  "GetNamedTimeZoneOffsetNanoseconds now fmt r =
     bindE (GetNamedTimeZoneDateTimeParts fmt r) (\<lambda>x.
     let o1 = year (dtDate x); y = dtTime x;
         h = tmod o1 400; u = tdiv (o1 - h) 400; T = 146097 * nsPerDay
     in bindE (orThrow TypeError (GetUTCEpochNanoseconds now h (month (dtDate x)) (day (dtDate x)) (hour y) (minute y)
          (second y) (millisecond y) (microsecond y) (nanosecond y))) (\<lambda>p.
          Inr (toNumber (p + T * u - r))))"

text \<open>The instants of a wall-clock time: each offset a day before and a day after is tried.\<close>

fun mapInstants :: "(int \<Rightarrow> iso_datetime result) \<Rightarrow> int \<Rightarrow> iso_datetime \<Rightarrow> int list \<Rightarrow> int list result" where
  "mapInstants f c x [] = Inr []"
| "mapInstants f c x (h # hs) =
     bindE (f (c - h)) (\<lambda>T. bindE (mapInstants f c x hs) (\<lambda>l. Inr (if x = T then (c - h) # l else l)))"

definition GetNamedTimeZoneEpochNanoseconds :: "int \<Rightarrow> formatter \<Rightarrow> iso_datetime \<Rightarrow> int list result" where
  "GetNamedTimeZoneEpochNanoseconds now fmt x =
     (let d = dtDate x; y = dtTime x
      in bindE (orThrow RangeError (GetUTCEpochNanoseconds now (year d) (month d) (day d) (hour y) (minute y) (second y)
           (millisecond y) (microsecond y) (nanosecond y))) (\<lambda>c.
         let h = (if c - nsPerDay < nsMin then c else c - nsPerDay);
             u = (if c + nsPerDay > nsMax then c else c + nsPerDay)
         in bindE (GetNamedTimeZoneOffsetNanoseconds now fmt h) (\<lambda>T.
            bindE (GetNamedTimeZoneOffsetNanoseconds now fmt u) (\<lambda>p.
              mapInstants (GetNamedTimeZoneDateTimeParts fmt) c x (if T = p then [T] else [T, p])))))"

fun newInstants :: "int list \<Rightarrow> int list result" where
  "newInstants [] = Inr []"
| "newInstants (e # es) = bindE (newInstant e) (\<lambda>i. bindE (newInstants es) (\<lambda>l. Inr (i # l)))"

text \<open>The methods of \<open>TimeZone\<close> for an identifier: an offset, or a name the host knows.\<close>

definition TimeZone_getOffsetNanosecondsFor :: "int \<Rightarrow> formatter \<Rightarrow> string \<Rightarrow> int \<Rightarrow> int result" where
  "TimeZone_getOffsetNanosecondsFor now fmt r t =
     (if IsTimeZoneOffsetString r then ParseTimeZoneOffsetString r else GetNamedTimeZoneOffsetNanoseconds now fmt t)"

definition TimeZone_getPossibleInstantsFor :: "int \<Rightarrow> formatter \<Rightarrow> string \<Rightarrow> iso_datetime \<Rightarrow> int list result" where
  "TimeZone_getPossibleInstantsFor now fmt n r =
     (if IsTimeZoneOffsetString n
      then
        let d = dtDate r; c = dtTime r
        in bindE (orThrow RangeError (GetUTCEpochNanoseconds now (year d) (month d) (day d) (hour c) (minute c)
             (second c) (millisecond c) (microsecond c) (nanosecond c))) (\<lambda>t.
           bindE (ParseTimeZoneOffsetString n) (\<lambda>a. bindE (newInstant (t - a)) (\<lambda>i. Inr [i])))
      else bindE (GetNamedTimeZoneEpochNanoseconds now fmt r) newInstants)"

definition builtinZone :: "int \<Rightarrow> (string \<Rightarrow> formatter) \<Rightarrow> string \<Rightarrow> time_zone" where
  "builtinZone now intl n =
     BuiltinZone (TimeZone_getOffsetNanosecondsFor now (intl n) n) (TimeZone_getPossibleInstantsFor now (intl n) n)"

section \<open>The clock\<close>

text \<open>\<^verbatim>\<open>Ve\<close>: the time in nanoseconds; the sub-millisecond part \<open>t\<close> is taken from the reading
  before and is the state of the closure.\<close>

definition Ve :: "int \<Rightarrow> int \<Rightarrow> int \<times> int" where
  "Ve ms t = (let o1 = ms * 1000000 + t
     in (if o1 > nsMax then nsMax else if o1 < nsMin then nsMin else o1, tmod ms 1000000))"

definition afterLatestPossibleTzdbRuleChange :: "int \<Rightarrow> int" where
  "afterLatestPossibleTzdbRuleChange now = now + nsPerDay * 3660"

section \<open>Transitions\<close>

definition beforeFirstRule :: int where "beforeFirstRule = - 388152 * 10000000000000"

definition fourteenDays :: int where "fourteenDays = nsPerDay * 14"

definition leapYearNs :: int where "leapYearNs = nsPerDay * 366"

definition maxJSBI :: "int \<Rightarrow> int \<Rightarrow> int" where
  "maxJSBI t r = (if t < r then r else t)"

lemma tdiv_mid: "i + 1 < s \<Longrightarrow> i < tdiv (i + s) 2 \<and> tdiv (i + s) 2 < (s :: int)"
  by (cases "0 \<le> i + s") (auto simp: tdiv_pos tdiv_neg)

text \<open>The loop of \<open>bisect\<close>: the value at the middle must be one of the values at the ends.\<close>

function bisectLoop :: "(int \<Rightarrow> int result) \<Rightarrow> int \<Rightarrow> int \<Rightarrow> int \<Rightarrow> int \<Rightarrow> int result" where
  "bisectLoop t i s l d =
     (if s - i > 1
      then let m = tdiv (i + s) 2
           in bindE (t m) (\<lambda>v.
                if v = l then bisectLoop t m s v d
                else if v \<noteq> d then Inl AssertError
                else bisectLoop t i m l v)
      else Inr s)"
  by auto
termination
proof (relation "measure (\<lambda>(t, i, s, l, d). nat (s - i))")
  fix i s m :: int assume "s - i > 1" "m = tdiv (i + s) 2"
  then have "i < m \<and> m < s" using tdiv_mid [of i s] by simp
  then show "((t, m, s, v, d), t, i, s, l, d) \<in> measure (\<lambda>(t, i, s, l, d). nat (s - i))"
    "((t, i, m, l, v), t, i, s, l, d) \<in> measure (\<lambda>(t, i, s, l, d). nat (s - i))"
    for t :: "int \<Rightarrow> int result" and v d l :: int by auto
qed simp

declare bisectLoop.simps [simp del]

definition bisect :: "(int \<Rightarrow> int result) \<Rightarrow> int \<Rightarrow> int \<Rightarrow> int option \<Rightarrow> int option \<Rightarrow> int result" where
  "bisect t r o1 n a =
     bindE (case n of None \<Rightarrow> t r | Some l \<Rightarrow> Inr l) (\<lambda>l.
     bindE (case a of None \<Rightarrow> t o1 | Some d \<Rightarrow> Inr d) (\<lambda>d. bisectLoop t r o1 l d))"

text \<open>The search in steps of fourteen days: an interval with different offsets at its ends, or none.\<close>

function nextLoop :: "(int \<Rightarrow> int result) \<Rightarrow> int \<Rightarrow> int \<Rightarrow> int \<Rightarrow> (int \<times> int \<times> int) option result" where
  "nextLoop off i n a =
     (if a < n
      then let s = a + fourteenDays
           in if s > nsMax then Inr None
              else bindE (off s) (\<lambda>l. if i = l then nextLoop off i n s else Inr (Some (a, s, l)))
      else Inr None)"
  by auto
termination
  by (relation "measure (\<lambda>(off, i, n, a). nat (n - a))") (auto simp: fourteenDays_def nsPerDay_def)

declare nextLoop.simps [simp del]

text \<open>\<open>clock\<close> is the value of \<open>afterLatestPossibleTzdbRuleChange\<close> at the call.\<close>

definition GetNamedTimeZoneNextTransition :: "(int \<Rightarrow> int result) \<Rightarrow> int \<Rightarrow> int \<Rightarrow> int option result" where
  "GetNamedTimeZoneNextTransition off clock r =
     (let r = (if r < beforeFirstRule then beforeFirstRule else r);
          n = maxJSBI clock (r + leapYearNs); a = maxJSBI beforeFirstRule r
      in bindE (off a) (\<lambda>i.
         bindE (nextLoop off i n a) (\<lambda>x. case x of
           None \<Rightarrow> Inr None
         | Some (a, s, l) \<Rightarrow> bindE (bisect off a s (Some i) (Some l)) (\<lambda>t. Inr (Some t)))))"

datatype search = BeforeRules | Unchanged | Changed int int int

function prevLoop :: "(int \<Rightarrow> int result) \<Rightarrow> int \<Rightarrow> int \<Rightarrow> int \<Rightarrow> search result" where
  "prevLoop off l i s =
     (if s > i
      then let d = s - fourteenDays
           in if d < beforeFirstRule then Inr BeforeRules
              else bindE (off d) (\<lambda>m. if l = m then prevLoop off l i d else Inr (Changed d s m))
      else Inr Unchanged)"
  by auto
termination
  by (relation "measure (\<lambda>(off, l, i, s). nat (s - i))") (auto simp: fourteenDays_def nsPerDay_def)

declare prevLoop.simps [simp del]

text \<open>2088-01-01T00Z, the last year with rules for Morocco\<close>

definition moroccoLimit :: int where "moroccoLimit = 3723753600 * 1000000000"

text \<open>\<open>clock\<close> stands for the readings of the calls within one call.\<close>

function GetNamedTimeZonePreviousTransition :: "(int \<Rightarrow> int result) \<Rightarrow> int \<Rightarrow> string \<Rightarrow> int \<Rightarrow> int option result" where
  "GetNamedTimeZonePreviousTransition off clock t r =
     (let a = (r > clock); i = (if a then r - leapYearNs else beforeFirstRule)
      in if t \<in> {''Africa/Casablanca'', ''Africa/El_Aaiun''} \<and> moroccoLimit < r
         then GetNamedTimeZonePreviousTransition off clock t moroccoLimit
         else
           let s = r - 1
           in if s < beforeFirstRule then Inr None
              else bindE (off s) (\<lambda>l.
                bindE (prevLoop off l i s) (\<lambda>x. case x of
                    BeforeRules \<Rightarrow> Inr None
                  | Changed d s m \<Rightarrow> bindE (bisect off d s (Some m) (Some l)) (\<lambda>t. Inr (Some t))
                  | Unchanged \<Rightarrow>
                      if a then GetNamedTimeZonePreviousTransition off clock t (clock - nsPerDay) else Inr None)))"
  by pat_completeness auto
termination
  by (relation "measure (\<lambda>(off, clock, t, r). (if t \<in> {''Africa/Casablanca'', ''Africa/El_Aaiun''} \<and> moroccoLimit < r
        then 2 else 0) + (if r > clock then 1 else 0 :: nat))")
    (auto simp: nsPerDay_def)

declare GetNamedTimeZonePreviousTransition.simps [simp del]

text \<open>The methods of \<open>TimeZone\<close>; zones with an offset have no transitions.\<close>

definition TimeZone_getNextTransition :: "int \<Rightarrow> formatter \<Rightarrow> int \<Rightarrow> string \<Rightarrow> int \<Rightarrow> int option result" where
  "TimeZone_getNextTransition now fmt clock r o1 =
     (if IsTimeZoneOffsetString r \<or> r = ''UTC'' then Inr None
      else bindE (GetNamedTimeZoneNextTransition (GetNamedTimeZoneOffsetNanoseconds now fmt) clock o1) (\<lambda>x. case x of
             None \<Rightarrow> Inr None | Some n \<Rightarrow> bindE (newInstant n) (\<lambda>i. Inr (Some i))))"

definition TimeZone_getPreviousTransition :: "int \<Rightarrow> formatter \<Rightarrow> int \<Rightarrow> string \<Rightarrow> int \<Rightarrow> int option result" where
  "TimeZone_getPreviousTransition now fmt clock r o1 =
     (if IsTimeZoneOffsetString r \<or> r = ''UTC'' then Inr None
      else bindE (GetNamedTimeZonePreviousTransition (GetNamedTimeZoneOffsetNanoseconds now fmt) clock r o1) (\<lambda>x. case x of
             None \<Rightarrow> Inr None | Some n \<Rightarrow> bindE (newInstant n) (\<lambda>i. Inr (Some i))))"

end
