(* ===== verification/Exact_Classes.thy ===== *)
theory Exact_Classes imports Plain_Classes Named_Zones begin

text \<open>
  The classes of exact time and of durations: \<^verbatim>\<open>Instant\<close>, \<^verbatim>\<open>ZonedDateTime\<close>, \<^verbatim>\<open>Duration\<close>, the
  methods of \<^verbatim>\<open>TimeZone\<close> that take objects, and \<^verbatim>\<open>Temporal.Now\<close>.
\<close>

section \<open>\<^verbatim>\<open>Instant\<close>\<close>

text \<open>\<^verbatim>\<open>BigInt(s)\<close> of a string: white space, a sign and digits, or a literal with a prefix.\<close>

definition radixBigInt :: "nat \<Rightarrow> string \<Rightarrow> int option" where
  "radixBigInt b ds =
     (if ds \<noteq> [] \<and> list_all (\<lambda>c. radixDigit c < b) ds
      then Some (int (foldl (\<lambda>a c. b * a + radixDigit c) 0 ds)) else None)"

definition signedBigInt :: "string \<Rightarrow> int option" where
  "signedBigInt t =
     (let u = (if t \<noteq> [] \<and> (hd t = CHR ''-'' \<or> hd t = CHR ''+'') then tl t else t)
      in if u \<noteq> [] \<and> list_all isDigit u
         then Some ((if hd t = CHR ''-'' then -1 else 1) * int (valNat u)) else None)"

definition StringToBigInt :: "string \<Rightarrow> int option" where
  "StringToBigInt s =
     (let t = trimWhite s
      in case t of
           [] \<Rightarrow> Some 0
         | c # d # ds \<Rightarrow>
             if c = CHR ''0'' \<and> (d = CHR ''x'' \<or> d = CHR ''X'') then radixBigInt 16 ds
             else if c = CHR ''0'' \<and> (d = CHR ''o'' \<or> d = CHR ''O'') then radixBigInt 8 ds
             else if c = CHR ''0'' \<and> (d = CHR ''b'' \<or> d = CHR ''B'') then radixBigInt 2 ds
             else signedBigInt t
         | _ \<Rightarrow> signedBigInt t)"

text \<open>An object without a conversion of its own becomes its string, which is no integer; a Temporal
  object but a calendar or a time zone throws.\<close>

definition ToBigInt :: "jsval \<Rightarrow> int result" where
  "ToBigInt t = (case t of
       Big n \<Rightarrow> Inr n
     | Bool b \<Rightarrow> Inr (if b then 1 else 0)
     | Str s \<Rightarrow> orThrow SyntaxError (StringToBigInt s)
     | Obj _ _ \<Rightarrow> if HasSlot t [] \<and> \<not> IsTemporalCalendar t \<and> \<not> IsTemporalTimeZone t then Inl TypeError
                  else bindE (ToString t) (\<lambda>s. orThrow SyntaxError (StringToBigInt s))
     | _ \<Rightarrow> Inl TypeError)"

text \<open>\<^verbatim>\<open>BigInt(x)\<close> of a Number\<close>

definition BigIntOfNumber :: "jsnum \<Rightarrow> int result" where
  "BigIntOfNumber n = (case n of Fin x \<Rightarrow> if x = of_int \<lfloor>x\<rfloor> then Inr \<lfloor>x\<rfloor> else Inl RangeError | _ \<Rightarrow> Inl RangeError)"

definition Instant_new :: "jsval \<Rightarrow> int result" where
  "Instant_new e = bindE (ToBigInt e) newInstant"

text \<open>The table of maxima is the length of a day, which an increment may reach.\<close>

definition dayIncrement :: "tunit \<Rightarrow> int option" where
  "dayIncrement a = (case a of Hour \<Rightarrow> Some 24 | Minute \<Rightarrow> Some 1440 | Second \<Rightarrow> Some 86400 | Millisecond \<Rightarrow> Some 86400000
     | Microsecond \<Rightarrow> Some 86400000000 | Nanosecond \<Rightarrow> Some 86400000000000 | _ \<Rightarrow> None)"

definition Instant_round :: "int \<Rightarrow> jsval \<Rightarrow> int result" where
  "Instant_round n e =
     bindE (roundSettings e []) (\<lambda>(r, o1, a).
     bindE (orThrow AssertError (dayIncrement a)) (\<lambda>m. bindE (ValidateTemporalRoundingIncrement r m True) (\<lambda>_.
     bindE (RoundInstant n r a o1) newInstant)))"

definition Instant_equals :: "host \<Rightarrow> int \<Rightarrow> js_arg \<Rightarrow> bool result" where
  "Instant_equals h n t = bindE (ToTemporalInstant h t) (\<lambda>r. Inr (n = r))"

definition Instant_toString :: "host \<Rightarrow> int \<Rightarrow> jsval \<Rightarrow> string result" where
  "Instant_toString h n e =
     bindE (GetOptionsObject e) (\<lambda>t. bindE (timeStringSettings t) (\<lambda>(r, o1, a).
     let i = getProp t ''timeZone''
     in bindE (if i = Undefined then Inr None else bindE (zoneSlotOf h i) (\<lambda>z. Inr (Some z))) (\<lambda>z.
        bindE (ToSecondsStringPrecisionRecord a r) (\<lambda>p.
        bindE (RoundInstant n (spIncrement p) (spUnit p) o1) (\<lambda>m. bindE (newInstant m) (\<lambda>m.
          TemporalInstantToString (hNow h) m (map_option (zoneMethods h) z) (precision p)))))))"

definition Instant_toZonedDateTime :: "host \<Rightarrow> int \<Rightarrow> js_arg \<Rightarrow> tobject result" where
  "Instant_toZonedDateTime h n e =
     bindE (objectArg e) (\<lambda>_.
     bindE (readsOf h e ''calendar'') (\<lambda>t. bindE (throwIf (t = Undefined) TypeError) (\<lambda>_.
     bindE (ToTemporalCalendarSlotValue (hCalendarArg h t)) (\<lambda>r.
     bindE (readsOf h e ''timeZone'') (\<lambda>o1. bindE (throwIf (o1 = Undefined) TypeError) (\<lambda>_.
     bindE (zoneSlotOf h o1) (\<lambda>a. createZoned n a r)))))))"

definition Instant_toZonedDateTimeISO :: "host \<Rightarrow> int \<Rightarrow> jsval \<Rightarrow> tobject result" where
  "Instant_toZonedDateTimeISO h n e = bindE (zoneSlotOf h e) (\<lambda>t. createZoned n t isoSlot)"

definition fromEpoch :: "int \<Rightarrow> int \<Rightarrow> int result" where
  "fromEpoch r k = (let o1 = r * k in bindE (ValidateEpochNanoseconds o1) (\<lambda>_. newInstant o1))"

definition Instant_fromEpochSeconds :: "jsval \<Rightarrow> int result" where
  "Instant_fromEpochSeconds t = bindE (ToNumber t) (\<lambda>r. bindE (BigIntOfNumber r) (\<lambda>r. fromEpoch r 1000000000))"

definition Instant_fromEpochMilliseconds :: "jsval \<Rightarrow> int result" where
  "Instant_fromEpochMilliseconds t = bindE (ToNumber t) (\<lambda>r. bindE (BigIntOfNumber r) (\<lambda>r. fromEpoch r 1000000))"

definition Instant_fromEpochMicroseconds :: "jsval \<Rightarrow> int result" where
  "Instant_fromEpochMicroseconds t = bindE (ToBigInt t) (\<lambda>r. fromEpoch r 1000)"

definition Instant_fromEpochNanoseconds :: "jsval \<Rightarrow> int result" where
  "Instant_fromEpochNanoseconds t = bindE (ToBigInt t) (\<lambda>r. fromEpoch r 1)"

definition Instant_from :: "host \<Rightarrow> js_arg \<Rightarrow> int result" where
  "Instant_from h e = (case e of Temporal (TemporalInstant n) \<Rightarrow> newInstant n | _ \<Rightarrow> ToTemporalInstant h e)"

definition compareBI :: "int \<Rightarrow> int \<Rightarrow> int" where
  "compareBI i s = (if i < s then -1 else if i > s then 1 else 0)"

definition Instant_compare :: "host \<Rightarrow> js_arg \<Rightarrow> js_arg \<Rightarrow> int result" where
  "Instant_compare h t r =
     bindE (ToTemporalInstant h t) (\<lambda>i. bindE (ToTemporalInstant h r) (\<lambda>s. Inr (compareBI i s)))"

section \<open>\<^verbatim>\<open>ZonedDateTime\<close>\<close>

definition ZonedDateTime_new :: "host \<Rightarrow> jsval \<Rightarrow> jsval \<Rightarrow> jsval \<Rightarrow> tobject result" where
  "ZonedDateTime_new h e t r =
     bindE (ToBigInt e) (\<lambda>n. bindE (zoneSlotOf h t) (\<lambda>z. bindE (calendarArg h r) (\<lambda>c. createZoned n z c)))"

definition ZonedDateTime_with :: "host \<Rightarrow> int \<Rightarrow> zone_slot \<Rightarrow> calendar_slot \<Rightarrow> js_arg \<Rightarrow> jsval \<Rightarrow> tobject result" where
  "ZonedDateTime_with h n z c e t = withFields h (ZonedDateTime n z c) c dateTimeFields [''offset''] e t
     (\<lambda>a r. bindE (ToTemporalDisambiguation r) (\<lambda>i. bindE (ToTemporalOffset r OffsetPrefer) (\<lambda>s.
        bindE (InterpretTemporalDateTimeFields h c a r) (\<lambda>x.
        bindE (ParseTimeZoneOffsetString (case getProp a ''offset'' of Str s \<Rightarrow> s | _ \<Rightarrow> ''undefined'')) (\<lambda>I.
        bindE (interpretOffset h x OffsetOption I z i s False) (\<lambda>m. createZoned m z c))))))"

definition ZonedDateTime_withPlainDate :: "host \<Rightarrow> int \<Rightarrow> zone_slot \<Rightarrow> calendar_slot \<Rightarrow> js_arg \<Rightarrow> tobject result" where
  "ZonedDateTime_withPlainDate h n z c e =
     bindE (ToTemporalDate h e Undefined) (\<lambda>(t, f). bindE (dateTime h n z) (\<lambda>y.
     bindE (ConsolidateCalendars c f) (\<lambda>f. bindE (createDateTime h t (dtTime y)) (\<lambda>x. zonedAt h z f x Compatible))))"

definition ZonedDateTime_withPlainTime :: "host \<Rightarrow> int \<Rightarrow> zone_slot \<Rightarrow> calendar_slot \<Rightarrow> jsval \<Rightarrow> tobject result" where
  "ZonedDateTime_withPlainTime h n z c e =
     bindE (if e = Undefined then Inr midnight else ToTemporalTime h (hArg h e) Constrain) (\<lambda>r.
     bindE (dateTime h n z) (\<lambda>o1. bindE (createDateTime h (dtDate o1) r) (\<lambda>x. zonedAt h z c x Compatible)))"

definition ZonedDateTime_withTimeZone :: "host \<Rightarrow> int \<Rightarrow> calendar_slot \<Rightarrow> jsval \<Rightarrow> tobject result" where
  "ZonedDateTime_withTimeZone h n c e = bindE (zoneSlotOf h e) (\<lambda>t. createZoned n t c)"

definition ZonedDateTime_withCalendar :: "host \<Rightarrow> int \<Rightarrow> zone_slot \<Rightarrow> jsval \<Rightarrow> tobject result" where
  "ZonedDateTime_withCalendar h n z e = bindE (ToTemporalCalendarSlotValue (hCalendarArg h e)) (\<lambda>t. createZoned n z t)"

text \<open>Rounding: the length of the day is the time from midnight to the day added to it in the
  calendar of the object; midnight is a date-time of the ISO calendar.\<close>

definition ZonedDateTime_round :: "host \<Rightarrow> int \<Rightarrow> zone_slot \<Rightarrow> calendar_slot \<Rightarrow> jsval \<Rightarrow> tobject result" where
  "ZonedDateTime_round h n z c e =
     bindE (roundSettings e [''day'']) (\<lambda>(o1, a, f). bindE (validateRound o1 f) (\<lambda>_.
     bindE (dateTime h n z) (\<lambda>I. bindE (createDateTime h (dtDate I) midnight) (\<lambda>m.
     bindE (instantFor h z isoSlot m Compatible) (\<lambda>P.
     bindE (AddZonedDateTime (hNow h) P (zoneMethods h z) (calendarMethods h c) (mkDuration 0 0 0 1 0 0 0 0 0 0) Constrain) (\<lambda>Z.
     let B = Z - P
     in bindE (throwIf (B \<le> 0) RangeError) (\<lambda>_.
        let d = dtDate I; t = dtTime I
        in bindE (RoundISODateTime (year d) (month d) (day d) (hour t) (minute t) (second t) (millisecond t)
             (microsecond t) (nanosecond t) o1 f a (toNumber B)) (\<lambda>x.
           bindE (GetOffsetNanosecondsFor (zoneMethods h z) n) (\<lambda>v.
           bindE (interpretOffset h x OffsetOption v z Compatible OffsetPrefer False) (\<lambda>k. createZoned k z c))))))))))"

definition ZonedDateTime_equals :: "host \<Rightarrow> int \<Rightarrow> zone_slot \<Rightarrow> calendar_slot \<Rightarrow> js_arg \<Rightarrow> bool result" where
  "ZonedDateTime_equals h n z c t =
     bindE (ToTemporalZonedDateTime h t Undefined) (\<lambda>r. case r of
         ZonedDateTime m z2 c2 \<Rightarrow>
           if n \<noteq> m then Inr False
           else bindE (TimeZoneEquals z z2) (\<lambda>q. if q then CalendarEquals c c2 else Inr False)
       | _ \<Rightarrow> Inl AssertError)"

definition decodeShow :: "string option \<Rightarrow> show_name" where
  "decodeShow s = (if s = Some ''never'' then ShowNever else if s = Some ''critical'' then ShowCritical else ShowAuto)"

definition ToShowOffsetOption :: "jsval \<Rightarrow> show_name result" where
  "ToShowOffsetOption e = bindE (GetOption e ''offset'' [''auto'', ''never''] (Some ''auto'')) (\<lambda>s. Inr (decodeShow s))"

definition ToTimeZoneNameOption :: "jsval \<Rightarrow> show_name result" where
  "ToTimeZoneNameOption e =
     bindE (GetOption e ''timeZoneName'' [''auto'', ''never'', ''critical''] (Some ''auto'')) (\<lambda>s. Inr (decodeShow s))"

definition ZonedDateTime_toString :: "host \<Rightarrow> int \<Rightarrow> zone_slot \<Rightarrow> calendar_slot \<Rightarrow> jsval \<Rightarrow> string result" where
  "ZonedDateTime_toString h n z c e =
     bindE (GetOptionsObject e) (\<lambda>t. bindE (ToCalendarNameOption t) (\<lambda>r. bindE (ToFractionalSecondDigits t) (\<lambda>o1.
     bindE (ToShowOffsetOption t) (\<lambda>off. bindE (ToTemporalRoundingMode t Trunc) (\<lambda>a.
     bindE (GetTemporalUnit t ''smallestUnit'' ''time'' NoDefault []) (\<lambda>i. let i = Option.bind i unitOfName in
     bindE (throwIf (i = Some Hour) RangeError) (\<lambda>_. bindE (ToTimeZoneNameOption t) (\<lambda>s.
     bindE (ToSecondsStringPrecisionRecord i o1) (\<lambda>p.
       TemporalZonedDateTimeToString (hNow h) (zonedOf h n z c) (ToTemporalTimeZoneIdentifier z) (ToTemporalCalendarIdentifier c)
         (precision p) r s off (Some (spIncrement p, spUnit p, a)))))))))))"

definition ZonedDateTime_startOfDay :: "host \<Rightarrow> int \<Rightarrow> zone_slot \<Rightarrow> calendar_slot \<Rightarrow> tobject result" where
  "ZonedDateTime_startOfDay h n z c =
     bindE (dateTime h n z) (\<lambda>e. bindE (createDateTime h (dtDate e) midnight) (\<lambda>x. zonedAt h z c x Compatible))"

definition ZonedDateTime_toPlainDate :: "host \<Rightarrow> int \<Rightarrow> zone_slot \<Rightarrow> iso_date result" where
  "ZonedDateTime_toPlainDate h n z = bindE (dateTime h n z) (TemporalDateTimeToDate h)"

definition ZonedDateTime_toPlainTime :: "host \<Rightarrow> int \<Rightarrow> zone_slot \<Rightarrow> iso_time result" where
  "ZonedDateTime_toPlainTime h n z = bindE (dateTime h n z) TemporalDateTimeToTime"

definition ZonedDateTime_toPlainYearMonth :: "host \<Rightarrow> int \<Rightarrow> zone_slot \<Rightarrow> calendar_slot \<Rightarrow> iso_date result" where
  "ZonedDateTime_toPlainYearMonth h n z c = toYearMonth h (ZonedDateTime n z c) c"

definition ZonedDateTime_toPlainMonthDay :: "host \<Rightarrow> int \<Rightarrow> zone_slot \<Rightarrow> calendar_slot \<Rightarrow> iso_date result" where
  "ZonedDateTime_toPlainMonthDay h n z c = toMonthDay h (ZonedDateTime n z c) c"

definition ZonedDateTime_getISOFields ::
  "host \<Rightarrow> int \<Rightarrow> zone_slot \<Rightarrow> calendar_slot \<Rightarrow> (calendar_slot \<times> (string \<times> int) list \<times> string \<times> zone_slot) result" where
  "ZonedDateTime_getISOFields h n z c =
     bindE (dateTime h n z) (\<lambda>e. bindE (GetOffsetStringFor (zoneMethods h z) n) (\<lambda>s.
       Inr (c, dateISOFields (dtDate e) @ timeISOFields (dtTime e), s, z)))"

definition ZonedDateTime_from :: "host \<Rightarrow> js_arg \<Rightarrow> jsval \<Rightarrow> tobject result" where
  "ZonedDateTime_from h e t =
     bindE (GetOptionsObject t) (\<lambda>r. case e of
         Temporal (ZonedDateTime n z c) \<Rightarrow>
           bindE (ToTemporalDisambiguation r) (\<lambda>_. bindE (ToTemporalOffset r OffsetReject) (\<lambda>_.
           bindE (ToTemporalOverflow r) (\<lambda>_. createZoned n z c)))
       | _ \<Rightarrow> ToTemporalZonedDateTime h e r)"

definition ZonedDateTime_compare :: "host \<Rightarrow> js_arg \<Rightarrow> js_arg \<Rightarrow> int result" where
  "ZonedDateTime_compare h t r =
     bindE (ToTemporalZonedDateTime h t Undefined) (\<lambda>o1. bindE (ToTemporalZonedDateTime h r Undefined) (\<lambda>a.
     case (o1, a) of (ZonedDateTime i _ _, ZonedDateTime s _ _) \<Rightarrow> Inr (compareBI i s) | _ \<Rightarrow> Inl AssertError))"

section \<open>\<^verbatim>\<open>Duration\<close>\<close>

text \<open>\<^verbatim>\<open>with\<close>: the fields of the argument over those of the receiver.\<close>

definition Duration_with :: "host \<Rightarrow> duration \<Rightarrow> js_arg \<Rightarrow> duration result" where
  "Duration_with h d e =
     bindE (PrepareTemporalFields (readsOf h e) sortedUnits Partial) (\<lambda>t.
     let f = (\<lambda>k x. let v = getProp t k in if v = Undefined then x else numInt v)
     in CreateDuration (f ''years'' (years d)) (f ''months'' (months d)) (f ''weeks'' (weeks d)) (f ''days'' (days d))
          (f ''hours'' (hours d)) (f ''minutes'' (minutes d)) (f ''seconds'' (seconds d)) (f ''milliseconds'' (milliseconds d))
          (f ''microseconds'' (microseconds d)) (f ''nanoseconds'' (nanoseconds d)))"

definition Duration_abs :: "duration \<Rightarrow> duration result" where
  "Duration_abs d = CreateDuration \<bar>years d\<bar> \<bar>months d\<bar> \<bar>weeks d\<bar> \<bar>days d\<bar> \<bar>hours d\<bar> \<bar>minutes d\<bar> \<bar>seconds d\<bar>
     \<bar>milliseconds d\<bar> \<bar>microseconds d\<bar> \<bar>nanoseconds d\<bar>"

text \<open>The loops of \<^verbatim>\<open>BalanceDurationRelative\<close>: while the rest \<open>f\<close> has the days of a unit \<open>y\<close> from \<open>c\<close>,
  move on; the last position and the days of the next unit are kept.\<close>

partial_function (option) balanceUnits ::
  "calendar \<Rightarrow> duration \<Rightarrow> int \<Rightarrow> iso_date \<Rightarrow> iso_date \<Rightarrow> int \<Rightarrow> int \<Rightarrow> int \<Rightarrow> (iso_date \<times> int \<times> int) result option" where
  "balanceUnits m y d c r o1 f h =
     (if \<bar>f\<bar> \<ge> \<bar>o1\<bar>
      then (case MoveRelativeDate m r y of
              Inl e \<Rightarrow> Some (Inl e)
            | Inr (r', o2) \<Rightarrow> balanceUnits m y d r r' o2 (f - o1) (h + d))
      else Some (Inr (c, f, h)))"

definition balanceBy :: "calendar \<Rightarrow> duration \<Rightarrow> int \<Rightarrow> iso_date \<Rightarrow> int \<Rightarrow> int \<Rightarrow> (iso_date \<times> int \<times> int) result" where
  "balanceBy m y d c f h =
     bindE (MoveRelativeDate m c y) (\<lambda>(r, o1). loopResult (balanceUnits m y d c r o1 f h))"

text \<open>The months of a year are counted by the calendar.\<close>

partial_function (option) balanceMonths ::
  "calendar \<Rightarrow> duration \<Rightarrow> int \<Rightarrow> iso_date \<Rightarrow> int \<Rightarrow> int \<Rightarrow> int \<Rightarrow> (int \<times> int) result option" where
  "balanceMonths m y d r l u h =
     (if \<bar>u\<bar> \<ge> \<bar>l\<bar>
      then (case bindE (calDateAdd m r y Constrain) (\<lambda>r'. bindE (calDateUntil m r r' Month) (\<lambda>s. Inr (r', months s))) of
              Inl e \<Rightarrow> Some (Inl e)
            | Inr (r', l') \<Rightarrow> balanceMonths m y d r' l' (u - l) (h + d))
      else Some (Inr (u, h)))"

definition BalanceDurationRelative ::
  "int \<Rightarrow> int \<Rightarrow> int \<Rightarrow> int \<Rightarrow> int \<Rightarrow> tunit \<Rightarrow> relative option \<Rightarrow> date_duration result" where
  "BalanceDurationRelative now t r o1 n a i =
     (let l = DurationSign t r o1 n 0 0 0 0 0 0
      in if l = 0 then Inr (dateDuration t r o1 n)
         else
           bindE (case i of None \<Rightarrow> Inr None | Some x \<Rightarrow> bindE (relativeDate now x) (\<lambda>x. Inr (Some x))) (\<lambda>cm.
           bindE (CreateDuration l 0 0 0 0 0 0 0 0 0) (\<lambda>y.
           bindE (CreateDuration 0 l 0 0 0 0 0 0 0 0) (\<lambda>I.
           bindE (CreateDuration 0 0 l 0 0 0 0 0 0 0) (\<lambda>S.
           bindE (case a of
               Year \<Rightarrow>
                 bindE (orThrow RangeError cm) (\<lambda>(c, m).
                 bindE (balanceBy m y l c n t) (\<lambda>(c, f, h).
                 bindE (balanceBy m I l c f r) (\<lambda>(c, f, u).
                 bindE (calDateAdd m c y Constrain) (\<lambda>c'. bindE (calDateUntil m c c' Month) (\<lambda>s.
                 bindE (loopResult (balanceMonths m y l c' (months s) u h)) (\<lambda>(u, h). Inr (h, u, o1, f)))))))
             | Month \<Rightarrow>
                 bindE (orThrow RangeError cm) (\<lambda>(c, m).
                 bindE (balanceBy m I l c n r) (\<lambda>(c, f, u). Inr (t, u, o1, f)))
             | Week \<Rightarrow>
                 bindE (orThrow RangeError cm) (\<lambda>(c, m).
                 bindE (balanceBy m S l c n o1) (\<lambda>(c, f, T). Inr (t, r, T, f)))
             | _ \<Rightarrow> Inr (t, r, o1, n))
             (\<lambda>(h, u, T, f). Inr (dateDuration (toNumber h) (toNumber u) (toNumber T) (toNumber f))))))))"

text \<open>The options of \<^verbatim>\<open>round\<close>: the largest and the smallest unit, of which one must be given.\<close>

definition durationRoundSettings ::
  "host \<Rightarrow> duration \<Rightarrow> jsval \<Rightarrow> (tunit \<times> tobject option \<times> int \<times> rounding_mode \<times> tunit) result" where
  "durationRoundSettings h d t =
     bindE (optionsOrString ''smallestUnit'' t) (\<lambda>u.
     bindE (GetTemporalUnit u ''largestUnit'' ''datetime'' NoDefault [''auto'']) (\<lambda>T.
     bindE (ToRelativeTemporalObject h u) (\<lambda>f.
     bindE (ToTemporalRoundingIncrement u) (\<lambda>y.
     bindE (ToTemporalRoundingMode u HalfExpand) (\<lambda>I.
     bindE (GetTemporalUnit u ''smallestUnit'' ''datetime'' NoDefault []) (\<lambda>S0.
     let S = (case S0 of None \<Rightarrow> Nanosecond | Some s \<Rightarrow> decodeUnit s);
         l = LargerOfTwoTemporalUnits (largestOf d) S;
         T1 = (case T of None \<Rightarrow> l | Some s \<Rightarrow> if s = ''auto'' then l else decodeUnit s)
     in bindE (throwIf (S0 = None \<and> T = None) RangeError) (\<lambda>_.
        bindE (throwIf (LargerOfTwoTemporalUnits T1 S \<noteq> T1) RangeError) (\<lambda>_.
        bindE (checkIncrement y S) (\<lambda>_. Inr (T1, f, y, I, S))))))))))"

definition Duration_round :: "host \<Rightarrow> duration \<Rightarrow> jsval \<Rightarrow> duration result" where
  "Duration_round h d t =
     bindE (durationRoundSettings h d t) (\<lambda>(T, f, y, I, S).
     let now = hNow h; rel = Option.bind f (relativeOf h)
     in bindE (UnbalanceDurationRelative now (years d) (months d) (weeks d) (days d) T rel) (\<lambda>b.
        bindE (RoundDuration now (mkDuration (years b) (months b) (weeks b) (days b) (hours d) (minutes d) (seconds d)
          (milliseconds d) (microseconds d) (nanoseconds d)) y S I rel) (\<lambda>(x, _).
        bindE (AdjustRoundedDurationDays now x y S I rel) (\<lambda>x.
        bindE (BalanceDuration now (days x) (hours x) (minutes x) (seconds x) (milliseconds x) (microseconds x) (nanoseconds x)
          T (relativeZoned rel)) (\<lambda>v.
        bindE (BalanceDurationRelative now (years x) (months x) (weeks x) (bDays v) T rel) (\<lambda>w.
          CreateDuration (years w) (months w) (weeks w) (days w) (bHours v) (bMinutes v) (bSeconds v)
            (bMilliseconds v) (bMicroseconds v) (bNanoseconds v)))))))"

definition Duration_total :: "host \<Rightarrow> duration \<Rightarrow> jsval \<Rightarrow> jsnum result" where
  "Duration_total h d e =
     bindE (optionsOrString ''unit'' e) (\<lambda>c. bindE (ToRelativeTemporalObject h c) (\<lambda>f.
     bindE (GetTemporalUnit c ''unit'' ''datetime'' Required []) (\<lambda>u.
     let u = decodeUnit (the u); now = hNow h; rel = Option.bind f (relativeOf h)
     in bindE (UnbalanceDurationRelative now (years d) (months d) (weeks d) (days d) u rel) (\<lambda>b.
        bindE (case relativeZoned rel of None \<Rightarrow> Inr None
               | Some z \<Rightarrow> bindE (MoveRelativeZonedDateTime now z (years b) (months b) (weeks b) 0) (\<lambda>T. Inr (Some T))) (\<lambda>T.
        bindE (BalancePossiblyInfiniteDuration now (days b) (hours d) (minutes d) (seconds d) (milliseconds d) (microseconds d)
          (nanoseconds d) u T) (\<lambda>p. case p of
            PositiveOverflow \<Rightarrow> Inr Infinity
          | NegativeOverflow \<Rightarrow> Inr NegInfinity
          | Finite v \<Rightarrow>
              bindE (RoundDuration now (mkDuration (years b) (months b) (weeks b) (bDays v) (bHours v) (bMinutes v) (bSeconds v)
                (bMilliseconds v) (bMicroseconds v) (bNanoseconds v)) 1 u Trunc rel) (\<lambda>(_, total). Inr (Fin total))))))))"

definition Duration_toString :: "host \<Rightarrow> duration \<Rightarrow> jsval \<Rightarrow> string result" where
  "Duration_toString h d e =
     bindE (GetOptionsObject e) (\<lambda>t. bindE (ToFractionalSecondDigits t) (\<lambda>r. bindE (ToTemporalRoundingMode t Trunc) (\<lambda>o1.
     bindE (GetTemporalUnit t ''smallestUnit'' ''time'' NoDefault []) (\<lambda>n. let n = Option.bind n unitOfName in
     bindE (throwIf (n = Some Hour \<or> n = Some Minute) RangeError) (\<lambda>_. bindE (ToSecondsStringPrecisionRecord n r) (\<lambda>p.
       TemporalDurationToString (hNow h) d (precision p) (Some (spIncrement p, spUnit p, o1))))))))"

definition Duration_from :: "host \<Rightarrow> js_arg \<Rightarrow> duration result" where
  "Duration_from h e = (case e of Temporal (TemporalDuration d) \<Rightarrow> checkDuration d | _ \<Rightarrow> ToTemporalDuration (durationArg h e))"

text \<open>The days of a duration for a comparison: unbalanced when either has calendar units.\<close>

definition comparedDays :: "int \<Rightarrow> bool \<Rightarrow> duration \<Rightarrow> relative option \<Rightarrow> int result" where
  "comparedDays now b d i =
     (if b then bindE (UnbalanceDurationRelative now (years d) (months d) (weeks d) (days d) Day i) (\<lambda>x. Inr (days x))
      else Inr (days d))"

definition Duration_compare :: "host \<Rightarrow> js_arg \<Rightarrow> js_arg \<Rightarrow> jsval \<Rightarrow> int result" where
  "Duration_compare h t r o1 =
     bindE (ToTemporalDuration (durationArg h t)) (\<lambda>n. bindE (ToTemporalDuration (durationArg h r)) (\<lambda>a.
     bindE (GetOptionsObject o1) (\<lambda>v. bindE (ToRelativeTemporalObject h v) (\<lambda>f.
     let now = hNow h; i = Option.bind f (relativeOf h); z = relativeZoned i;
         b = (\<not> (years n = 0 \<and> years a = 0 \<and> months n = 0 \<and> months a = 0 \<and> weeks n = 0 \<and> weeks a = 0))
     in bindE (CalculateOffsetShift now z (years n) (months n) (weeks n) (days n)) (\<lambda>j.
        bindE (CalculateOffsetShift now z (years a) (months a) (weeks a) (days a)) (\<lambda>k.
        bindE (comparedDays now b n i) (\<lambda>m. bindE (comparedDays now b a i) (\<lambda>g.
        let x = TotalDurationNanoseconds m (hours n) (minutes n) (seconds n) (milliseconds n) (microseconds n) (nanoseconds n) j;
            y = TotalDurationNanoseconds g (hours a) (minutes a) (seconds a) (milliseconds a) (microseconds a) (nanoseconds a) k
        in Inr (ComparisonResult (toNumber (x - y)))))))))))"

section \<open>\<^verbatim>\<open>TimeZone\<close> and \<^verbatim>\<open>Now\<close>\<close>

definition TimeZone_getPlainDateTimeFor :: "host \<Rightarrow> time_zone \<Rightarrow> js_arg \<Rightarrow> jsval \<Rightarrow> (iso_datetime \<times> calendar_slot) result" where
  "TimeZone_getPlainDateTimeFor h this e t =
     bindE (ToTemporalInstant h e) (\<lambda>n. bindE (calendarArg h t) (\<lambda>c.
     bindE (GetPlainDateTimeFor (hNow h) this n) (\<lambda>x. Inr (x, c))))"

definition TimeZone_getInstantFor :: "host \<Rightarrow> time_zone \<Rightarrow> js_arg \<Rightarrow> jsval \<Rightarrow> int option result" where
  "TimeZone_getInstantFor h this e t =
     bindE (ToTemporalDateTime h e Undefined) (\<lambda>(x, c). bindE (GetOptionsObject t) (\<lambda>r.
     bindE (ToTemporalDisambiguation r) (\<lambda>d. GetInstantFor (hNow h) (calendarMethods h c) this x d)))"

definition TimeZone_getOffsetStringFor :: "host \<Rightarrow> time_zone \<Rightarrow> js_arg \<Rightarrow> string result" where
  "TimeZone_getOffsetStringFor h this e = bindE (ToTemporalInstant h e) (GetOffsetStringFor this)"

text \<open>The zone of the system and the reading of the clock are parameters.\<close>

definition nowZone :: "host \<Rightarrow> string \<Rightarrow> jsval \<Rightarrow> zone_slot result" where
  "nowZone h system t = zoneSlotOf h (if t = Undefined then Str system else t)"

definition Now_plainDateTime :: "host \<Rightarrow> string \<Rightarrow> int \<Rightarrow> jsval \<Rightarrow> jsval \<Rightarrow> (iso_datetime \<times> calendar_slot) result" where
  "Now_plainDateTime h system v e t =
     bindE (nowZone h system t) (\<lambda>r. bindE (ToTemporalCalendarSlotValue (hCalendarArg h e)) (\<lambda>c.
     bindE (newInstant v) (\<lambda>n. bindE (dateTime h n r) (\<lambda>x. Inr (x, c)))))"

definition Now_plainDateTimeISO :: "host \<Rightarrow> string \<Rightarrow> int \<Rightarrow> jsval \<Rightarrow> iso_datetime result" where
  "Now_plainDateTimeISO h system v e =
     bindE (nowZone h system e) (\<lambda>r. bindE (newInstant v) (\<lambda>n. dateTime h n r))"

definition Now_zonedDateTime :: "host \<Rightarrow> string \<Rightarrow> int \<Rightarrow> jsval \<Rightarrow> jsval \<Rightarrow> tobject result" where
  "Now_zonedDateTime h system v e t =
     bindE (nowZone h system t) (\<lambda>r. bindE (ToTemporalCalendarSlotValue (hCalendarArg h e)) (\<lambda>c. createZoned v r c))"

definition Now_plainDateISO :: "host \<Rightarrow> string \<Rightarrow> int \<Rightarrow> jsval \<Rightarrow> iso_date result" where
  "Now_plainDateISO h system v e = bindE (Now_plainDateTimeISO h system v e) (TemporalDateTimeToDate h)"

definition Now_plainTimeISO :: "host \<Rightarrow> string \<Rightarrow> int \<Rightarrow> jsval \<Rightarrow> iso_time result" where
  "Now_plainTimeISO h system v e = bindE (Now_plainDateTimeISO h system v e) TemporalDateTimeToTime"

end
