(* ===== verification/Class_Props.thy ===== *)
theory Class_Props imports Exact_Classes Iso_Parse_Props begin

text \<open>
  Properties of the methods as the program calls them: arguments converted, options read, the
  calendar called, the arithmetic done.
\<close>

section \<open>Hosts\<close>

text \<open>A host whose ISO calendar is the one of the code.\<close>

definition isoHost :: "host \<Rightarrow> bool" where
  "isoHost h \<longleftrightarrow> clockOk (hNow h) \<and> hBuiltins h ''iso8601'' = isoBuiltin (hNow h)"

text \<open>A host with nothing but the ISO calendar.\<close>

definition isoOnly :: host where
  "isoOnly = \<lparr>hBuiltins = (\<lambda>_. isoBuiltin 0), hZones = (\<lambda>_. offsetZone 0 0), hCanonical = Inr, hArg = Prim,
     hCalendarArg = NotObject, hZoneArg = NotZoneObject, hNow = 0\<rparr>"

lemma isoHost_isoOnly: "isoHost isoOnly"
  by (simp add: isoHost_def isoOnly_def clockOk_def msPerDay_def)

section \<open>Order\<close>

lemma compareSlots_append:
  "length xs = length ys \<Longrightarrow> compareSlots (zip (xs @ as) (ys @ bs)) = (if xs = ys then compareSlots (zip as bs) else compareSlots (zip xs ys))"
  by (induction xs ys rule: list_induct2) auto

lemma ComparisonResult_sgn: "ComparisonResult n = sgn n"
  by (simp add: ComparisonResult_def sgn_if)

lemma compareSlots_date: "compareSlots (zip (dateSlots x) (dateSlots y)) = CompareISODate (year x) (month x) (day x) (year y) (month y) (day y)"
  by (simp add: dateSlots_def CompareISODate_def)

lemma dateSlots_inject [simp]: "dateSlots x = dateSlots y \<longleftrightarrow> x = (y :: iso_date)"
  by (cases x; cases y) (simp add: dateSlots_def)

lemma timeSlots_inject [simp]: "timeSlots x = timeSlots y \<longleftrightarrow> x = (y :: iso_time)"
  by (cases x; cases y) (simp add: timeSlots_def)

lemma compareSlots_time:
  assumes x: "validTime x" and y: "validTime y"
  shows "compareSlots (zip (timeSlots x) (timeSlots y)) = sgn (timeNs x - timeNs y)"
proof -
  note r = validTime_ranges [OF x] validTime_ranges [OF y]
  show ?thesis using x y
    by (auto simp: timeSlots_def ComparisonResult_sgn timeNs_def fieldsNs_def validTime_def sgn_if)
qed

text \<open>Comparing two date-times compares the nanoseconds they stand for, whatever their calendars.\<close>

theorem PlainDateTime_compare_correct:
  assumes x: "validDateTime x" and y: "validDateTime y"
  shows "PlainDateTime_compare h (Temporal (PlainDateTime x c)) (Temporal (PlainDateTime y c')) = Inr (sgn (datetimeNs x - datetimeNs y))"
proof -
  let ?d = "epochDay (dtDate x) - epochDay (dtDate y)" and ?t = "timeNs (dtTime x) - timeNs (dtTime y)"
  have v: "validDate (dtDate x)" "validDate (dtDate y)" "validTime (dtTime x)" "validTime (dtTime y)"
    using x y by (simp_all add: validDateTime_def)
  have t: "\<bar>?t\<bar> < nsPerDay" using v(3,4) timeNs_range by (smt (verit))
  have "length (dateSlots (dtDate x)) = length (dateSlots (dtDate y))" by (simp add: dateSlots_def)
  note a = compareSlots_append [OF this, unfolded compareSlots_date dateSlots_inject]
  have "datetimeNs x - datetimeNs y = ?d * nsPerDay + ?t" by (simp add: datetimeNs_def algebra_simps)
  also have "sgn \<dots> = (if ?d = 0 then sgn ?t else sgn ?d)"
    using t by (auto simp: sgn_if nsPerDay_def)
  also have "\<dots> = compareSlots (zip (dateSlots (dtDate x) @ timeSlots (dtTime x)) (dateSlots (dtDate y) @ timeSlots (dtTime y)))"
    unfolding a by (simp add: v compareSlots_time CompareISODate_epochDay epochDay_inject)
  finally show ?thesis by (simp add: PlainDateTime_compare_def ToTemporalDateTime_def)
qed

section \<open>Instants\<close>

definition durationNs :: "duration \<Rightarrow> int" where
  "durationNs d = fieldsNs (hours d) (minutes d) (seconds d) (milliseconds d) (microseconds d) (nanoseconds d)"

lemma Instant_sum:
  assumes "years d = 0" "months d = 0" "weeks d = 0" "days d = 0"
  shows "AddDurationToOrSubtractDurationFromInstant h e t (Temporal (TemporalDuration d))
    = newInstant (t + signOfSum e * durationNs d)"
  using assms
  by (simp add: AddDurationToOrSubtractDurationFromInstant_def ToLimitedTemporalDuration_def ToTemporalDurationRecord_def throwIf_def
      AddInstant_eq newInstant_eq scaled_def durationNs_def fieldsNs_def Let_def algebra_simps)

text \<open>C4: subtracting from an instant the duration that was added to it gives the instant back, and
  a duration with days or calendar units is refused.\<close>

theorem instant_add_subtract:
  assumes "inRange t" "AddDurationToOrSubtractDurationFromInstant h Add t (Temporal (TemporalDuration d)) = Inr n"
  shows "AddDurationToOrSubtractDurationFromInstant h Subtract n (Temporal (TemporalDuration d)) = Inr t \<and>
    n - t = durationNs d \<and> years d = 0 \<and> months d = 0 \<and> weeks d = 0 \<and> days d = 0"
proof -
  have z: "years d = 0" "months d = 0" "weeks d = 0" "days d = 0"
    using assms(2) by (auto simp: AddDurationToOrSubtractDurationFromInstant_def ToLimitedTemporalDuration_def
        ToTemporalDurationRecord_def bindE_eq_Inr_iff)
  then have "n = t + durationNs d" using assms(2) by (simp add: Instant_sum newInstant_eq signOfSum_def split: if_splits)
  then show ?thesis using z assms(1) by (simp add: Instant_sum newInstant_eq signOfSum_def)
qed

theorem PlainDateTime_compare_correct_witness:
  "PlainDateTime_compare isoOnly (Temporal (PlainDateTime (datetimeOfNs 7) isoSlot)) (Temporal (PlainDateTime (datetimeOfNs (-5)) isoSlot)) = Inr 1"
  using PlainDateTime_compare_correct [of "datetimeOfNs 7" "datetimeOfNs (-5)" isoOnly isoSlot isoSlot] by simp

theorem instant_add_subtract_witness:
  "AddDurationToOrSubtractDurationFromInstant isoOnly Subtract 3600000000005 (Temporal (TemporalDuration (mkDuration 0 0 0 0 1 0 0 0 0 0))) = Inr 5"
proof -
  have "inRange 5" by (simp add: nsMin_def nsMax_def)
  moreover have "AddDurationToOrSubtractDurationFromInstant isoOnly Add 5 (Temporal (TemporalDuration (mkDuration 0 0 0 0 1 0 0 0 0 0))) = Inr 3600000000005"
    by (simp add: Instant_sum newInstant_eq signOfSum_def durationNs_def fieldsNs_def nsMin_def nsMax_def)
  ultimately show ?thesis using instant_add_subtract by blast
qed

section \<open>Dates\<close>

lemma isoHost_dateAdd:
  assumes "isoHost h"
  shows "CalendarDateAdd (hBuiltins h) isoSlot d v (plainObj []) = Calendar_dateAdd (hNow h) d v Constrain"
  using assms by (simp add: isoHost_def CalendarDateAdd_def isoBuiltin_def GetOptionsObject_def IsObject_def ToTemporalOverflow_def
      GetOption_def getProp_def decodeOverflow_def)

lemma isoHost_dateUntil:
  assumes "isoHost h" "u \<in> {Year, Month, Week, Day}"
  shows "CalendarDateUntil (hBuiltins h) isoSlot x y (plainObj [(''largestUnit'', Str (unitName u))]) = Calendar_dateUntil x y u"
proof -
  have "bindE (GetTemporalUnit (plainObj [(''largestUnit'', Str (unitName u))]) ''largestUnit'' ''date'' (Default ''auto'') [])
     (\<lambda>u. Inr (case Option.bind u unitOfName of Some v \<Rightarrow> v | None \<Rightarrow> Day)) = Inr u"
    using assms(2) by (elim insertE emptyE) (simp_all only:, code_simp+)
  then show ?thesis using assms(1)
    by (cases "GetTemporalUnit (plainObj [(''largestUnit'', Str (unitName u))]) ''largestUnit'' ''date'' (Default ''auto'') []")
      (simp_all add: isoHost_def CalendarDateUntil_def isoBuiltin_def GetOptionsObject_def IsObject_def)
qed

lemma dateSettings:
  assumes "u \<in> {Year, Month, Week, Day}"
  shows "GetDifferenceSettings Until (plainObj [(''largestUnit'', Str (unitName u))]) ''date'' [] Day Day
    = Inr \<lparr>largestUnit = u, roundingIncrement = 1, roundingMode = Trunc, smallestUnit = Day\<rparr>"
  using assms by (elim insertE emptyE) (simp_all only:, code_simp+)

text \<open>C2: for every two dates of the ISO calendar and every date unit, the duration that \<^verbatim>\<open>until\<close>
  returns, passed to \<^verbatim>\<open>add\<close>, leads from the first date to the second.\<close>

theorem until_then_add:
  assumes h: "isoHost h" and d: "dateInRange x" "dateInRange y" and u: "u \<in> {Year, Month, Week, Day}"
  shows "bindE (DifferenceTemporalPlainDate h Until x isoSlot (Temporal (PlainDate y isoSlot)) (plainObj [(''largestUnit'', Str (unitName u))]))
    (\<lambda>v. PlainDate_add h x isoSlot (Temporal (TemporalDuration v)) Undefined) = Inr y"
proof -
  have now: "clockOk (hNow h)" using h by (simp add: isoHost_def)
  obtain v where v: "calDateUntil (isoCalendar (hNow h)) x y u = Inr v" "calDateAdd (isoCalendar (hNow h)) x v Constrain = Inr y"
      "hours v = 0" "minutes v = 0" "seconds v = 0" "milliseconds v = 0" "microseconds v = 0" "nanoseconds v = 0"
    using iso.until_add [of "hNow h" x y u] now d u by auto
  have v1: "Calendar_dateUntil x y u = Inr v" "Calendar_dateAdd (hNow h) x v Constrain = Inr y" using v(1,2) by (simp_all add: isoCalendar_def)
  have c: "scaledDuration 1 (mkDuration (years v) (months v) (weeks v) (days v) 0 0 0 0 0 0) = Inr v"
  proof -
    have "v = mkDuration (years v) (months v) (weeks v) (days v) 0 0 0 0 0 0" using v(3-8) by (cases v) simp
    then show ?thesis using v1(1) by (auto simp: Calendar_dateUntil_def bindE_eq_Inr_iff scaledDuration_def CreateDuration_def)
  qed
  have "DifferenceTemporalPlainDate h Until x isoSlot (Temporal (PlainDate y isoSlot)) (plainObj [(''largestUnit'', Str (unitName u))]) = Inr v"
    using isoHost_dateUntil [OF h u, of x y] v1(1) c
    by (simp add: DifferenceTemporalPlainDate_def ToTemporalDate_def ThrowIfCalendarsNotEqual_def sameCalendar_def CopyOptions_def
        GetOptionsObject_def IsObject_def CopyDataProperties_def dateSettings [OF u] setProp_def signOfOp_def)
  then show ?thesis using v1(2) isoHost_dateAdd [OF h, of x v]
    by (simp add: PlainDate_add_def ToTemporalDuration_def GetOptionsObject_def)
qed

theorem until_then_add_witness:
  "bindE (DifferenceTemporalPlainDate isoOnly Until (mkDate 2024 1 31) isoSlot (Temporal (PlainDate (mkDate 2021 2 28) isoSlot))
      (plainObj [(''largestUnit'', Str (unitName Month))]))
    (\<lambda>v. PlainDate_add isoOnly (mkDate 2024 1 31) isoSlot (Temporal (TemporalDuration v)) Undefined) = Inr (mkDate 2021 2 28)"
  by (rule until_then_add [OF isoHost_isoOnly]) code_simp+

section \<open>Fields\<close>

lemma ToNumber_int [simp]: "ToNumber (Num n) = Inr n"
  by (simp add: ToNumber_def)

lemma truncRat_int [simp]: "truncRat (of_int n) = n"
  by (simp add: truncRat_def flip: of_int_minus)

lemma convert_int:
  "convert Truncation (Num (Fin (of_int n))) = Inr (Num (Fin (of_int n)))"
  "1 \<le> n \<Longrightarrow> convert PositiveTruncation (Num (Fin (of_int n))) = Inr (Num (Fin (of_int n)))"
  "convert StringOf (Str s) = Inr (Str s)"
  by (simp_all add: toNum_def ToIntegerWithTruncation_def ToPositiveIntegerWithTruncation_def ToString_def)

lemma conversions_date:
  "map_of conversions ''year'' = Some Truncation" "map_of conversions ''month'' = Some PositiveTruncation"
  "map_of conversions ''monthCode'' = Some StringOf" "map_of conversions ''day'' = Some PositiveTruncation"
  by code_simp+

lemma sort_dateFields: "sort [''day'', ''month'', ''monthCode'', ''year''] = [''day'', ''month'', ''monthCode'', ''year'']"
  by code_simp

definition dateObj :: "iso_date \<Rightarrow> jsval" where
  "dateObj d = plainObj [(''day'', Num (Fin (of_int (day d)))), (''month'', Num (Fin (of_int (month d)))),
     (''monthCode'', Str (iso8601_monthCode d)), (''year'', Num (Fin (of_int (year d))))]"

lemma prepare_date:
  assumes "1 \<le> month d" "1 \<le> day d"
    and "r ''day'' = Inr (Num (Fin (of_int (day d))))" "r ''month'' = Inr (Num (Fin (of_int (month d))))"
      "r ''monthCode'' = Inr (Str (iso8601_monthCode d))" "r ''year'' = Inr (Num (Fin (of_int (year d))))"
  shows "PrepareTemporalFields r [''day'', ''month'', ''monthCode'', ''year''] (Needs rs) = Inr (dateObj d)"
  using assms
  by (simp add: PrepareTemporalFields_def sort_dateFields conversions_date convert_int dateObj_def throwIf_def del: convert.simps)

lemma prepare_dateObj:
  "1 \<le> month d \<Longrightarrow> 1 \<le> day d \<Longrightarrow>
   PrepareTemporalFields (ownReads (dateObj d)) [''day'', ''month'', ''monthCode'', ''year''] (Needs rs) = Inr (dateObj d)"
  by (rule prepare_date) (simp_all add: ownReads_def getProp_def dateObj_def)

lemma dateObj_fields:
  "intField (dateObj d) ''month'' = Some (month d)" "strField (dateObj d) ''monthCode'' = Some (iso8601_monthCode d)"
  "numInt (getProp (dateObj d) ''year'') = year d" "numInt (getProp (dateObj d) ''day'') = day d"
  by (simp_all add: intField_def strField_def getProp_def dateObj_def numInt_def)

lemma buildMonthCode_digits:
  assumes "1 \<le> m" "m \<le> 12"
  shows "buildMonthCode (Fin (of_int m)) False = CHR ''M'' # digits 2 (nat m)"
proof -
  have "\<forall>m \<in> set [1..12]. padStart (decInt m) 2 CHR ''0'' = digits 2 (nat m)"
    by code_simp
  moreover have "m \<in> set [1..12]" using assms by simp
  ultimately have "padStart (decInt m) 2 CHR ''0'' = digits 2 (nat m)" by blast
  moreover have "numToString (Fin (of_int m)) = decInt m" using assms by (simp add: numToString_def)
  ultimately show ?thesis by (simp add: buildMonthCode_def)
qed

lemma monthCode_parts:
  assumes "1 \<le> m" "m \<le> 12"
  shows "monthCodeNumberPart (buildMonthCode (Fin (of_int m)) False) = Inr (Fin (of_int m))"
proof -
  have "StringToNumber (digits 2 (nat m)) = Fin (of_int m)"
    using assms StringToNumber_digits [of "digits 2 (nat m)"] by (simp add: digits_isDigit)
  then show ?thesis by (simp add: buildMonthCode_digits [OF assms] monthCodeNumberPart_def)
qed

lemma resolve_iso:
  assumes "1 \<le> m" "m \<le> 12"
  shows "resolveNonLunisolarMonth (Some m) (Some (buildMonthCode (Fin (of_int m)) False)) None 12
    = Inr (of_int m, buildMonthCode (Fin (of_int m)) False)"
  using assms by (simp add: resolveNonLunisolarMonth_def monthCode_parts throwIf_def)

lemma calendarFields_iso:
  assumes "isoHost h"
  shows "CalendarFields (hBuiltins h) isoSlot [''day'', ''month'', ''monthCode'', ''year''] = Inr [''day'', ''month'', ''monthCode'', ''year'']"
proof -
  have "Calendar_fields iso8601_fields (map Str [''day'', ''month'', ''monthCode'', ''year'']) = Inr [''day'', ''month'', ''monthCode'', ''year'']"
    by code_simp
  then show ?thesis using assms by (simp add: isoHost_def CalendarFields_def isoBuiltin_def)
qed

lemma create_raw:
  assumes "clockOk now" "dateInRange d"
  shows "CreateRaw now (year d, of_int (month d), Some (day d)) = Inr (year d, of_int (month d), Some (day d))"
proof -
  have "CreateTemporalDate now (year d) (month d) (day d) = Inr d" using CreateTemporalDate_eq [OF assms(1)] assms(2) by simp
  moreover have "truncRat (of_int (month d) - 1) = month d - 1"
    using truncRat_int [of "month d - 1"] by (simp only: of_int_diff of_int_1)
  ultimately show ?thesis
    by (auto simp: CreateRaw_def RejectRaw_def RejectRawRange_def CreateTemporalDate_def bindE_eq_Inr_iff)
qed

lemma RegulateISODate_valid: "validDate d \<Longrightarrow> RegulateISODate (year d) (month d) (day d) ov = Inr d"
  by (cases ov) (auto simp: RegulateISODate_def ConstrainISODate_def ConstrainToRange_def RejectISODate_eq throwIf_def validDate_def)

lemma iso8601_dateFromFields_date:
  assumes "clockOk now" "dateInRange d" "ToTemporalOverflow t = Inr ov"
  shows "iso8601_dateFromFields now (ownReads (dateObj d)) t = Inr (year d, of_int (month d), Some (day d))"
proof -
  have v: "validDate d" "1 \<le> month d" "month d \<le> 12" "1 \<le> day d"
    using dateInRange_bounds(1) [OF assms(2)] by (simp_all add: validDate_def)
  show ?thesis
    by (simp add: iso8601_dateFromFields_def prepare_dateObj v dateObj_fields assms(3) iso8601_monthCode_def resolve_iso
        RegulateRaw_def RegulateISODate_valid create_raw [OF assms(1,2)])
qed

lemma CalendarDateFromFields_date:
  assumes h: "isoHost h" and d: "dateInRange d"
  shows "CalendarDateFromFields (hBuiltins h) isoSlot (ownReads (dateObj d)) (plainObj []) = Inr d"
proof -
  have "ToTemporalOverflow (plainObj []) = Inr Constrain" by code_simp
  then show ?thesis using h iso8601_dateFromFields_date [OF _ d, of "hNow h" "plainObj []" Constrain]
    by (simp add: isoHost_def CalendarDateFromFields_def isoBuiltin_def GetOptionsObject_def IsObject_def wholeDate_def)
qed

lemma PlainDate_get_iso:
  assumes "isoHost h"
  shows "PlainDate_get (hBuiltins h) d isoSlot ''day'' = Inr (Num (Fin (of_int (day d))))"
    "PlainDate_get (hBuiltins h) d isoSlot ''month'' = Inr (Num (Fin (of_int (month d))))"
    "PlainDate_get (hBuiltins h) d isoSlot ''monthCode'' = Inr (Str (iso8601_monthCode d))"
    "PlainDate_get (hBuiltins h) d isoSlot ''year'' = Inr (Num (Fin (of_int (year d))))"
  using assms
  by (simp_all add: PlainDate_get_def calendarProperty_def isoHost_def intVal_def strVal_def CalendarDay_def CalendarMonth_def
      CalendarYear_def CalendarMonthCode_def isoBuiltin_def iso8601_number_def)

text \<open>C3: an object whose year, month, month code and day are those of a date in the ISO calendar
  is converted to that date, the month and its code being checked against each other.\<close>

theorem date_from_fields:
  assumes h: "isoHost h" and d: "dateInRange d" and r: "r ''calendar'' = Inr Undefined"
    "\<And>k. k \<in> {''day'', ''month'', ''monthCode'', ''year''} \<Longrightarrow> r k = PlainDate_get (hBuiltins h) d isoSlot k"
  shows "PlainDate_from h (Bag r s) Undefined = Inr (d, isoSlot)"
proof -
  have v: "1 \<le> month d" "1 \<le> day d" using dateInRange_bounds(1) [OF d] by (simp_all add: validDate_def)
  have "PrepareTemporalFields r [''day'', ''month'', ''monthCode'', ''year''] (Needs []) = Inr (dateObj d)"
    using r(2) PlainDate_get_iso [OF h] by (intro prepare_date v) simp_all
  then show ?thesis
    by (simp add: PlainDate_from_def GetOptionsObject_def ToTemporalDate_def GetTemporalCalendarSlotValueWithISODefault_def slotOfArg_def
        r(1) calendarFields_iso [OF h] CalendarDateFromFields_date [OF h d])
qed

theorem date_from_fields_witness:
  "PlainDate_from isoOnly (Bag (\<lambda>k. if k = ''calendar'' then Inr Undefined else PlainDate_get (hBuiltins isoOnly) (mkDate 2024 2 29) isoSlot k) (Inr [])) Undefined
    = Inr (mkDate 2024 2 29, isoSlot)"
proof (rule date_from_fields [OF isoHost_isoOnly])
  show "dateInRange (mkDate 2024 2 29)" by code_simp
qed auto

lemma fl_3_2: "fl (3 / 2) = 3 / 2"
  using fl_representable [of 3 "- 1"] by simp

lemma StringToNumber_1_5: "StringToNumber ''1.5'' = Fin (3 / 2)"
proof -
  have 1: "trimWhite ''1.5'' = ''1.5''" by code_simp
  have 2: "decimalLiteral ''1.5'' = Some (3 / 2)" by code_simp
  define N :: rat where "N = 2 ^ 1024"
  have "(2 :: rat) ^ 1 < N" unfolding N_def by (intro power_strict_increasing) auto
  then have "\<not> N \<le> 3 / 2" "\<not> 3 / 2 \<le> - N" by auto
  then have "numOfRat (3 / 2) = Fin (3 / 2)" unfolding numOfRat_def fl_3_2 Let_def N_def [symmetric] by simp
  then show ?thesis unfolding StringToNumber_def 1 by (simp add: signedLiteral_def 2)
qed

lemma numToString_1_5: "numToString (Fin (3 / 2)) = ''1.5''"
proof -
  have f: "\<lfloor>3 / 2 :: rat\<rfloor> = 1" by (simp add: floor_eq_iff)
  have "decNat (Suc 0) = ''1''" by code_simp
  then have e: "decExp (3 / 2) = 1" by (simp add: decExp_def f)
  have p: "pow10 0 = 1" "pow10 (- 1) = 1 / 10" by (simp_all add: pow10_def)
  have l: "leadingDigits (3 / 2) 1 = 2" "leadingDigits (3 / 2) 2 = 15"
    by (simp_all add: leadingDigits_def e p rne_def f)
  have "fl 2 = 2" using fl_of_int [of 2] by simp
  then have "digitCount (3 / 2) = 2"
    by (simp add: digitCount_def upt_rec [of _ 18] l e p fl_3_2 numeral_2_eq_2 [symmetric] del: One_nat_def)
  moreover have "decNat 15 = ''15''" by code_simp
  ultimately show ?thesis by (simp add: numToString_def posToString_def e l f)
qed

text \<open>C40: the month code \<^verbatim>\<open>M1.5\<close> passes the checks. With overflow \<^verbatim>\<open>reject\<close> every positive day is accepted in
  the month 1.5, for the table of month lengths has no entry for it, in every year but the first
  and the last one; a day that is not positive is a \<open>RangeError\<close> as in any month.\<close>

theorem fractional_month_accepted:
  assumes y: "yearMin < y" "y < yearMax"
  shows "iso8601_dateFromFields now (ownReads (plainObj [(''year'', Num (Fin (of_int y))), (''monthCode'', Str ''M1.5''), (''day'', Num (Fin (of_int d)))]))
     (plainObj [(''overflow'', Str ''reject'')]) = (if 1 \<le> d then Inr (y, 3 / 2, Some d) else Inl RangeError)"
proof (cases "1 \<le> d")
  case True
  have 1: "PrepareTemporalFields (ownReads (plainObj [(''year'', Num (Fin (of_int y))), (''monthCode'', Str ''M1.5''), (''day'', Num (Fin (of_int d)))]))
      [''day'', ''month'', ''monthCode'', ''year''] (Needs [''year'', ''day''])
    = Inr (plainObj [(''day'', Num (Fin (of_int d))), (''month'', Undefined), (''monthCode'', Str ''M1.5''), (''year'', Num (Fin (of_int y)))])"
    using True by (simp add: PrepareTemporalFields_def sort_dateFields conversions_date convert_int ownReads_def getProp_def throwIf_def
        fieldDefault_def del: convert.simps)
  have 2: "ToTemporalOverflow (plainObj [(''overflow'', Str ''reject'')]) = Inr Reject" by code_simp
  have 3: "monthCodeNumberPart ''M1.5'' = Inr (Fin (3 / 2))" by (simp add: monthCodeNumberPart_def StringToNumber_1_5)
  have "padStart ''1.5'' 2 CHR ''0'' = ''1.5''" by code_simp
  then have 4: "buildMonthCode (Fin (3 / 2)) False = ''M1.5''" by (simp add: buildMonthCode_def numToString_1_5)
  have f: "\<lfloor>3 / 2 :: rat\<rfloor> = 1" by (simp add: floor_eq_iff)
  have g: "\<lfloor>1 / 2 :: rat\<rfloor> = 0" by (simp add: floor_eq_iff)
  have "RejectDateRange now y 1 d = Inr ()"
    using y by (simp add: RejectDateRange_def RejectDateTimeRange_def RejectToRange_def throwIf_def)
  then have 5: "CreateRaw now (y, 3 / 2, Some d) = Inr (y, 3 / 2, Some d)"
    using True by (simp add: CreateRaw_def RejectRaw_def RejectRawRange_def f g truncRat_def)
  have 6: "RegulateRaw y (3 / 2) d Reject = Inr (y, 3 / 2, Some d)" using True by (simp add: RegulateRaw_def f)
  show ?thesis
    using 3 4 True
    by (simp add: 5 6 iso8601_dateFromFields_def 1 2 intField_def strField_def getProp_def numInt_def resolveNonLunisolarMonth_def throwIf_def)
next
  case False
  then have "convert PositiveTruncation (Num (Fin (of_int d))) = Inl RangeError"
    by (simp add: toNum_def ToIntegerWithTruncation_def ToPositiveIntegerWithTruncation_def ToNumber_def)
  then have "PrepareTemporalFields (ownReads (plainObj [(''year'', Num (Fin (of_int y))), (''monthCode'', Str ''M1.5''), (''day'', Num (Fin (of_int d)))]))
      [''day'', ''month'', ''monthCode'', ''year''] (Needs [''year'', ''day'']) = Inl RangeError"
    by (simp add: PrepareTemporalFields_def sort_dateFields conversions_date convert_int ownReads_def getProp_def throwIf_def
        fieldDefault_def del: convert.simps)
  then show ?thesis using False by (simp add: iso8601_dateFromFields_def)
qed

theorem fractional_month_accepted_witness:
  "iso8601_dateFromFields 0 (ownReads (plainObj [(''year'', Num (Fin 2020)), (''monthCode'', Str ''M1.5''), (''day'', Num (Fin 99))]))
     (plainObj [(''overflow'', Str ''reject'')]) = Inr (2020, 3 / 2, Some 99)"
  using fractional_month_accepted [of 2020 0 99] by (simp add: yearMin_def yearMax_def)

end
