(* ===== verification/Named_Zone_Props.thy ===== *)
theory Named_Zone_Props imports Named_Zones Iso_Parse_Props begin

text \<open>
  What the search for transitions finds, and the offsets and instants of a zone whose local time
  the host prints in the form the code reads.
\<close>

section \<open>Bisection\<close>



section \<open>Zones that change at most once in fourteen days\<close>




section \<open>The next transition\<close>







end
