(* ===== verification/Non_Iso_Base.thy ===== *)
theory Non_Iso_Base imports Iso8601_Calendar begin

text \<open>
  The class \<^verbatim>\<open>HelperBase\<close> of the calendars other than \<^verbatim>\<open>iso8601\<close>: conversion of ISO dates to
  calendar dates with what \<^verbatim>\<open>Intl.DateTimeFormat\<close> prints, the search for the ISO date of a
  calendar date, and arithmetic in the calendar. What a subclass overrides is a record of
  functions; what the host prints is a parameter of that record.
\<close>

section \<open>Calendar dates\<close>

text \<open>The object a helper passes around; an absent property is \<open>None\<close>.\<close>

record cal_fields =
  fYear :: "int option"
  fMonth :: "int option"
  fDay :: "int option"
  fMonthCode :: "string option"
  fEra :: "string option"
  fEraYear :: "int option"
  fMonthExtra :: "string option"

definition noFields :: cal_fields where
  "noFields = \<lparr>fYear = None, fMonth = None, fDay = None, fMonthCode = None, fEra = None, fEraYear = None, fMonthExtra = None\<rparr>"

definition yearMonthDay :: "int \<Rightarrow> int \<Rightarrow> int \<Rightarrow> cal_fields" where
  "yearMonthDay y m d = noFields\<lparr>fYear := Some y, fMonth := Some m, fDay := Some d\<rparr>"

section \<open>The cache\<close>

text \<open>
  A \<open>OneObjectCache\<close> as the helpers use it: a map from JSON keys. The keys are the calls, with
  the identifier of the calendar. A month of a Chinese year is its name, index and, once known,
  its length.
\<close>

type_synonym month_list = "(string \<times> int \<times> int option) list"

record cache =
  cCal :: "(string \<times> iso_date) \<rightharpoonup> cal_fields"
  cIso :: "(string \<times> int \<times> int \<times> int \<times> overflow) \<rightharpoonup> iso_date"
  cMonths :: "(string \<times> int) \<rightharpoonup> month_list"

definition emptyCache :: cache where
  "emptyCache = \<lparr>cCal = Map.empty, cIso = Map.empty, cMonths = Map.empty\<rparr>"

text \<open>Computations that may throw and that read and write the cache.\<close>

type_synonym 'a comp = "cache \<Rightarrow> ('a \<times> cache) result"

definition ret :: "'a \<Rightarrow> 'a comp" where
  "ret x s = Inr (x, s)"

definition lift :: "'a result \<Rightarrow> 'a comp" where
  "lift r s = bindE r (\<lambda>x. Inr (x, s))"

definition bindC :: "'a comp \<Rightarrow> ('a \<Rightarrow> 'b comp) \<Rightarrow> 'b comp" where
  "bindC f g s = bindE (f s) (\<lambda>(x, s'). g x s')"

text \<open>A loop in this setting.\<close>

definition loopC :: "(cache \<Rightarrow> ('a \<times> cache) result option) \<Rightarrow> 'a comp" where
  "loopC f s = loopResult (f s)"

definition field :: "'a option \<Rightarrow> 'a comp" where
  "field x = lift (orThrow AssertError x)"

section \<open>Helpers\<close>

text \<open>
  The properties of a helper, and the methods a subclass defines or overrides. \<open>hParts\<close> is
  \<^verbatim>\<open>formatToParts\<close> of the host for the ISO date: types and values.
\<close>

record helper_data =
  hId :: string
  hHasEra :: bool
  hConstantEra :: "string option"
  hErasMidYear :: bool
  hMonths :: "cal_fields \<Rightarrow> int comp"

record helper = helper_data +
  hParts :: "iso_date \<Rightarrow> (string \<times> string) list result"
  hAdjust :: "cal_fields \<Rightarrow> overflow \<Rightarrow> bool \<Rightarrow> cal_fields comp"
  hMinLength :: "cal_fields \<Rightarrow> int comp"
  hMaxLength :: "cal_fields \<Rightarrow> int comp"
  hEstimate :: "cal_fields \<Rightarrow> iso_date comp"
  hRevise :: "(cal_fields \<Rightarrow> iso_date \<Rightarrow> string option \<times> int option) option"
  hIcuBugs :: "iso_date \<Rightarrow> unit result"

section \<open>From ISO dates\<close>

text \<open>A number the host prints; one that is no integer is not followed.\<close>

definition printedInt :: "string \<Rightarrow> int result" where
  "printedInt s = (case StringToNumber s of Fin x \<Rightarrow> if x = of_int \<lfloor>x\<rfloor> then Inr \<lfloor>x\<rfloor> else Inl OutsideModel | _ \<Rightarrow> Inl OutsideModel)"

text \<open>The name of an era: up to a parenthesis, only letters, digits, hyphens and spaces, the first
  space a hyphen, in small letters. A name outside ASCII needs Unicode normalization and is not followed.\<close>

fun upToParen :: "string \<Rightarrow> string" where
  "upToParen (c # d # s) = (if c = CHR '' '' \<and> d = CHR ''('' then [] else c # upToParen (d # s))"
| "upToParen s = s"

fun firstSpace :: "string \<Rightarrow> string" where
  "firstSpace [] = []"
| "firstSpace (c # s) = (if c = CHR '' '' then CHR ''-'' # s else c # firstSpace s)"

definition eraName :: "string \<Rightarrow> string result" where
  "eraName v =
     (let s = upToParen v
      in if list_all (\<lambda>c. (of_char c :: nat) < 128) s
         then Inr (ASCIILowercase (firstSpace (filter (\<lambda>c. isAlpha c \<or> isDigit c \<or> c = CHR ''-'' \<or> c = CHR '' '') s)))
         else Inl OutsideModel)"

text \<open>The loop over the parts. A month is digits and a rest.\<close>

definition readPart :: "bool \<Rightarrow> (string \<times> string) \<Rightarrow> cal_fields \<Rightarrow> cal_fields result" where
  "readPart era p m = (case p of (ty, v) \<Rightarrow>
     if ty = ''year'' \<or> ty = ''relatedYear'' then bindE (printedInt v) (\<lambda>n. Inr (m\<lparr>fEraYear := Some n\<rparr>))
     else if ty = ''month'' then
       let ds = takeWhile isDigit v; r = dropWhile isDigit v
       in bindE (throwIf (ds = [] \<and> r = []) RangeError) (\<lambda>_.
          let n = (if ds \<noteq> [] then int (valNat ds) else 1)
          in bindE (throwIf (n < 1 \<or> n > 13) RangeError) (\<lambda>_.
             Inr (m\<lparr>fMonth := Some n, fMonthExtra := (if r \<noteq> [] then Some r else fMonthExtra m)\<rparr>)))
     else if ty = ''day'' then bindE (printedInt v) (\<lambda>n. Inr (m\<lparr>fDay := Some n\<rparr>))
     else if era \<and> ty = ''era'' \<and> v \<noteq> [] then bindE (eraName v) (\<lambda>s. Inr (m\<lparr>fEra := Some s\<rparr>))
     else Inr m)"

fun readParts :: "bool \<Rightarrow> (string \<times> string) list \<Rightarrow> cal_fields \<Rightarrow> cal_fields result" where
  "readParts era [] m = Inr m"
| "readParts era (p # ps) m = bindE (readPart era p m) (readParts era ps)"

text \<open>An error of the host is a RangeError. The entry for the way back is made for both overflows.\<close>

definition isoToCalendarDate :: "helper \<Rightarrow> iso_date \<Rightarrow> cal_fields comp" where
  "isoToCalendarDate H e s = (case cCal s (hId H, e) of
       Some c \<Rightarrow> Inr (c, s)
     | None \<Rightarrow>
         bindE (case hParts H e of Inl _ \<Rightarrow> Inl RangeError | Inr l \<Rightarrow> Inr l) (\<lambda>l.
         bindE (readParts (hHasEra H) l noFields) (\<lambda>m.
         bindE (throwIf (fEraYear m = None) RangeError) (\<lambda>_.
         let m = (case hRevise H of None \<Rightarrow> m | Some f \<Rightarrow> (case f m e of (r, y) \<Rightarrow> m\<lparr>fEra := r, fEraYear := y\<rparr>))
         in bindE (hIcuBugs H e) (\<lambda>_.
            bindE (hAdjust H m Constrain True s) (\<lambda>(c, s).
            bindE (orThrow RangeError (fYear c)) (\<lambda>y. bindE (orThrow RangeError (fMonth c)) (\<lambda>mo.
            bindE (orThrow RangeError (fDay c)) (\<lambda>d.
              Inr (c, s\<lparr>cCal := (cCal s)((hId H, e) \<mapsto> c),
                cIso := (cIso s)((hId H, y, mo, d, Constrain) \<mapsto> e, (hId H, y, mo, d, Reject) \<mapsto> e)\<rparr>))))))))))"

section \<open>Checks\<close>

text \<open>\<^verbatim>\<open>/^M([01]?\d)(L?)$/\<close>\<close>

definition validMonthCode :: "string \<Rightarrow> bool" where
  "validMonthCode s \<longleftrightarrow>
     (let t = drop 1 s; u = (if t \<noteq> [] \<and> last t = CHR ''L'' then butlast t else t)
      in take 1 s = ''M'' \<and> u \<noteq> [] \<and> list_all isDigit u \<and> (length u = 1 \<or> length u = 2 \<and> hd u \<in> {CHR ''0'', CHR ''1''}))"

definition validateCalendarDate :: "'a helper_data_scheme \<Rightarrow> cal_fields \<Rightarrow> unit result" where
  "validateCalendarDate H e =
     bindE (throwIf (fMonthExtra e \<noteq> None) RangeError) (\<lambda>_.
     bindE (throwIf (fYear e = None \<and> fEraYear e = None) TypeError) (\<lambda>_.
     bindE (throwIf (fMonth e = None \<and> fMonthCode e = None) TypeError) (\<lambda>_.
     bindE (throwIf (fDay e = None) RangeError) (\<lambda>_.
     bindE (throwIf (case fMonthCode e of None \<Rightarrow> False | Some c \<Rightarrow> \<not> validMonthCode c) RangeError) (\<lambda>_.
     bindE (throwIf (hConstantEra H \<noteq> None \<and> fEra e \<noteq> None \<and> fEra e \<noteq> hConstantEra H) RangeError) (\<lambda>_.
     bindE (throwIf (hConstantEra H \<noteq> None \<and> fEraYear e \<noteq> None \<and> fYear e \<noteq> None \<and> fEraYear e \<noteq> fYear e) RangeError) (\<lambda>_.
       throwIf (hHasEra H \<and> (fEra e = None) \<noteq> (fEraYear e = None)) RangeError)))))))"

definition orElse2 :: "'a option \<Rightarrow> 'a option \<Rightarrow> 'a option" where
  "orElse2 x y = (case x of None \<Rightarrow> y | _ \<Rightarrow> x)"

text \<open>The method of the base class, for calendars without leap months; a month of the result is whole,
  for the month code has been checked.\<close>

definition adjustCalendarDate :: "'a helper_data_scheme \<Rightarrow> cal_fields \<Rightarrow> overflow \<Rightarrow> cal_fields comp" where
  "adjustCalendarDate H e r =
     bindC (lift (validateCalendarDate H e)) (\<lambda>_.
     let n = (case hConstantEra H of None \<Rightarrow> e
              | Some c \<Rightarrow> e\<lparr>fEra := Some c, fYear := orElse2 (fYear e) (fEraYear e), fEraYear := orElse2 (fEraYear e) (fYear e)\<rparr>)
     in bindC (hMonths H n) (\<lambda>a.
        bindC (lift (resolveNonLunisolarMonth (fMonth n) (fMonthCode n) (Some r) a)) (\<lambda>(i, s).
          ret (n\<lparr>fMonth := Some \<lfloor>i\<rfloor>, fMonthCode := Some s\<rparr>))))"

definition regulateMonthDayNaive :: "helper \<Rightarrow> cal_fields \<Rightarrow> overflow \<Rightarrow> cal_fields comp" where
  "regulateMonthDayNaive H e t =
     bindC (hMonths H e) (\<lambda>o1. bindC (field (fMonth e)) (\<lambda>n. bindC (field (fDay e)) (\<lambda>a.
     case t of
       Reject \<Rightarrow>
         bindC (lift (RejectToRange n 1 o1)) (\<lambda>_. bindC (hMaxLength H e) (\<lambda>k.
         bindC (lift (RejectToRange a 1 k)) (\<lambda>_. ret e)))
     | Constrain \<Rightarrow>
         let n = ConstrainToRange n 1 o1
         in bindC (hMaxLength H (e\<lparr>fMonth := Some n\<rparr>)) (\<lambda>k.
            ret (e\<lparr>fMonth := Some n, fDay := Some (ConstrainToRange a 1 k)\<rparr>)))))"

section \<open>Comparing calendar dates\<close>

text \<open>\<^verbatim>\<open>PrepareTemporalFields\<close> with the day, the month and the year required.\<close>

definition comparedFields :: "cal_fields \<Rightarrow> (int \<times> int \<times> int) result" where
  "comparedFields e =
     bindE (orThrow TypeError (fDay e)) (\<lambda>d. bindE (throwIf (d \<le> 0) RangeError) (\<lambda>_.
     bindE (orThrow TypeError (fMonth e)) (\<lambda>m. bindE (throwIf (m \<le> 0) RangeError) (\<lambda>_.
     bindE (orThrow TypeError (fYear e)) (\<lambda>y. Inr (y, m, d))))))"

definition compareCalendarDates :: "cal_fields \<Rightarrow> cal_fields \<Rightarrow> int result" where
  "compareCalendarDates e t =
     bindE (comparedFields e) (\<lambda>(y, m, d). bindE (comparedFields t) (\<lambda>(y', m', d').
       Inr (CompareISODate y m d y' m' d')))"

text \<open>\<open>simpleDateDiff\<close>: years, months and days.\<close>

definition simpleDateDiff :: "cal_fields \<Rightarrow> cal_fields \<Rightarrow> (int \<times> int \<times> int) result" where
  "simpleDateDiff e t =
     (case (fYear e, fMonth e, fDay e, fYear t, fMonth t, fDay t) of
        (Some y, Some m, Some d, Some y', Some m', Some d') \<Rightarrow> Inr (nsub y y', nsub m m', nsub d d')
      | _ \<Rightarrow> Inl AssertError)"

definition addDaysIso :: "iso_date \<Rightarrow> int \<Rightarrow> iso_date result" where
  "addDaysIso e t = AddISODate (year e) (month e) (day e) 0 0 0 t Constrain"

section \<open>The search for an ISO date\<close>

text \<open>The month ends before the day: go back to its last day, or reject.\<close>

partial_function (option) sameMonthLoop ::
  "helper \<Rightarrow> overflow \<Rightarrow> int \<Rightarrow> int \<Rightarrow> iso_date \<Rightarrow> cal_fields \<Rightarrow> cache \<Rightarrow> (iso_date \<times> cache) result option" where
  "sameMonthLoop H t i a o1 e s =
     (if fMonth e \<noteq> Some i \<or> fYear e \<noteq> Some a
      then if t = Reject then Some (Inl RangeError)
           else (case bindE (addDaysIso o1 (-1)) (\<lambda>o2. bindE (isoToCalendarDate H o2 s) (\<lambda>(e2, s2). Inr (o2, e2, s2))) of
                   Inl x \<Rightarrow> Some (Inl x)
                 | Inr (o2, e2, s2) \<Rightarrow> sameMonthLoop H t i a o2 e2 s2)
      else Some (Inr (o1, s)))"

definition calculateSameMonthResult :: "helper \<Rightarrow> overflow \<Rightarrow> cal_fields \<Rightarrow> int \<Rightarrow> int \<Rightarrow> int \<Rightarrow> iso_date \<Rightarrow> int \<Rightarrow> iso_date comp" where
  "calculateSameMonthResult H t n a i d c k =
     bindC (lift (addDaysIso c k)) (\<lambda>o1. bindC (hMinLength H n) (\<lambda>l.
     if d > l then bindC (isoToCalendarDate H o1) (\<lambda>e. loopC (sameMonthLoop H t i a o1 e)) else ret o1))"

text \<open>The loop: steps of 8 days towards the date, halved when it is passed. The result is the ISO
  date, with a flag for a date of the same month that is adjusted by days.\<close>

partial_function (option) searchLoop ::
  "helper \<Rightarrow> overflow \<Rightarrow> cal_fields \<Rightarrow> int \<Rightarrow> int \<Rightarrow> int \<Rightarrow> int \<Rightarrow> int \<Rightarrow> iso_date \<Rightarrow> cal_fields \<Rightarrow> cache \<Rightarrow> (iso_date \<times> cache) result option" where
  "searchLoop H t n a i d h p c u s =
     (if h = 0 then Some (Inr (c, s))
      else case bindE (addDaysIso c (h * p)) (\<lambda>c'. bindE (isoToCalendarDate H c' s) (\<lambda>(u', s').
             bindE (compareCalendarDates n u') (\<lambda>h'. bindE (simpleDateDiff n u') (\<lambda>df. Inr (c', u', s', h', df))))) of
        Inl x \<Rightarrow> Some (Inl x)
      | Inr (c', u', s', h', ys, ms, ds) \<Rightarrow>
          if h' = 0 then Some (Inr (c', s'))
          else if ys = 0 \<and> ms = 0 then Some (calculateSameMonthResult H t n a i d c' ds s')
          else if h' \<noteq> h then
            if p > 1 then searchLoop H t n a i d h' (p div 2) c' u' s'
            else if t = Reject then Some (Inl RangeError)
            else Some (bindE (compareCalendarDates u' u) (\<lambda>k.
                   if k > 0 then bindE (addDaysIso c' (-1)) (\<lambda>c''. Inr (c'', s')) else Inr (c', s')))
          else searchLoop H t n a i d h' p c' u' s')"

definition findIsoDate :: "helper \<Rightarrow> overflow \<Rightarrow> cal_fields \<Rightarrow> int \<Rightarrow> int \<Rightarrow> int \<Rightarrow> iso_date comp" where
  "findIsoDate H t n a i d =
     bindC (hEstimate H (yearMonthDay a i d)) (\<lambda>c.
     bindC (isoToCalendarDate H c) (\<lambda>u.
     bindC (lift (simpleDateDiff n u)) (\<lambda>(ys, ms, ds).
     if ys = 0 \<and> ms = 0 \<and> ds = 0 then ret c
     else
       bindC (lift (addDaysIso c (nadd (nadd (nmul 365 ys) (nmul 30 ms)) ds))) (\<lambda>c.
       bindC (isoToCalendarDate H c) (\<lambda>u.
       bindC (lift (simpleDateDiff n u)) (\<lambda>(ys, ms, ds).
       if ys = 0 \<and> ms = 0 then calculateSameMonthResult H t n a i d c ds
       else bindC (lift (compareCalendarDates n u)) (\<lambda>h. loopC (searchLoop H t n a i d h 8 c u))))))))"

text \<open>The calendar date is adjusted and clamped; both it and the date as it was given are looked up
  in the cache and entered in it.\<close>

definition calendarToIsoDate :: "helper \<Rightarrow> cal_fields \<Rightarrow> overflow \<Rightarrow> iso_date comp" where
  "calendarToIsoDate H e t =
     bindC (hAdjust H e t False) (\<lambda>n. bindC (regulateMonthDayNaive H n t) (\<lambda>n.
     bindC (field (fYear n)) (\<lambda>a. bindC (field (fMonth n)) (\<lambda>i. bindC (field (fDay n)) (\<lambda>d s.
     let l = (hId H, a, i, d, t);
         given = (case (fYear e, fMonth e, fDay e) of
             (Some y, Some m, Some k) \<Rightarrow> if y \<noteq> a \<or> m \<noteq> i \<or> k \<noteq> d then Some (hId H, y, m, k, t) else None
           | _ \<Rightarrow> None)
     in case cIso s l of
          Some m \<Rightarrow> Inr (m, s)
        | None \<Rightarrow>
            (case Option.bind given (cIso s) of
               Some m \<Rightarrow> Inr (m, s)
             | None \<Rightarrow>
                 bindE (findIsoDate H t n a i d s) (\<lambda>(c, s).
                 let s = s\<lparr>cIso := (cIso s)(l \<mapsto> c)\<rparr>;
                     s = (case given of None \<Rightarrow> s | Some k \<Rightarrow> s\<lparr>cIso := (cIso s)(k \<mapsto> c)\<rparr>)
                 in bindE (throwIf (fMonthCode n = None \<or> hHasEra H \<and> (fEra n = None \<or> fEraYear n = None)) RangeError)
                      (\<lambda>_. Inr (c, s)))))))))"

definition regulateDate :: "helper \<Rightarrow> cal_fields \<Rightarrow> overflow \<Rightarrow> cal_fields comp" where
  "regulateDate H e t = bindC (calendarToIsoDate H e t) (isoToCalendarDate H)"

section \<open>Arithmetic in the calendar\<close>

definition addDaysCalendar :: "helper \<Rightarrow> cal_fields \<Rightarrow> int \<Rightarrow> cal_fields comp" where
  "addDaysCalendar H e t =
     bindC (calendarToIsoDate H e Constrain) (\<lambda>o1. bindC (lift (addDaysIso o1 t)) (isoToCalendarDate H))"

definition daysInMonth :: "helper \<Rightarrow> cal_fields \<Rightarrow> int comp" where
  "daysInMonth H e =
     bindC (field (fDay e)) (\<lambda>r. bindC (hMaxLength H e) (\<lambda>o1. bindC (hMinLength H e) (\<lambda>n.
     if n = o1 then ret n
     else
       let a = (if r \<le> o1 - n then o1 else n)
       in bindC (calendarToIsoDate H e Constrain) (\<lambda>i. bindC (lift (addDaysIso i a)) (\<lambda>s.
          bindC (isoToCalendarDate H s) (\<lambda>l. bindC (field (fDay l)) (\<lambda>k.
          bindC (lift (addDaysIso s (- k))) (\<lambda>d. bindC (isoToCalendarDate H d) (\<lambda>x. field (fDay x)))))))))) "

definition daysInPreviousMonth :: "helper \<Rightarrow> cal_fields \<Rightarrow> int comp" where
  "daysInPreviousMonth H e =
     bindC (field (fDay e)) (\<lambda>r. bindC (field (fMonth e)) (\<lambda>o1. bindC (field (fYear e)) (\<lambda>n.
     let a = yearMonthDay (if o1 > 1 then n else nsub n 1) o1 1
     in bindC (if o1 > 1 then ret (o1 - 1) else hMonths H a) (\<lambda>i.
        let a = a\<lparr>fMonth := Some i\<rparr>
        in bindC (hMinLength H a) (\<lambda>s. bindC (hMaxLength H a) (\<lambda>l.
           if s = l then ret l
           else bindC (calendarToIsoDate H e Constrain) (\<lambda>d. bindC (lift (addDaysIso d (- r))) (\<lambda>m.
                bindC (isoToCalendarDate H m) (\<lambda>x. field (fDay x)))))))))) "

text \<open>Back, day by day, to the month wanted.\<close>

partial_function (option) backToMonth ::
  "helper \<Rightarrow> int \<Rightarrow> iso_date \<Rightarrow> cal_fields \<Rightarrow> cache \<Rightarrow> (cal_fields \<times> cache) result option" where
  "backToMonth H w l n s =
     (case fMonth n of
        None \<Rightarrow> Some (Inl AssertError)
      | Some m \<Rightarrow>
          if m - 1 = w then Some (Inr (n, s))
          else (case bindE (addDaysIso l (-1)) (\<lambda>l'. bindE (isoToCalendarDate H l' s) (\<lambda>(n', s'). Inr (l', n', s'))) of
                  Inl x \<Rightarrow> Some (Inl x)
                | Inr (l', n', s') \<Rightarrow> backToMonth H w l' n' s'))"

text \<open>One month forwards or backwards; the day of the month \<open>a\<close> is restored.\<close>

definition addOneMonth :: "helper \<Rightarrow> bool \<Rightarrow> int \<Rightarrow> cal_fields \<Rightarrow> cal_fields comp" where
  "addOneMonth H back a n =
     bindC (field (fMonth n)) (\<lambda>e.
     bindC (if back then bindC (daysInPreviousMonth H n) (\<lambda>k. ret (- max a k)) else daysInMonth H n) (\<lambda>i.
     bindC (calendarToIsoDate H n Constrain) (\<lambda>s. bindC (lift (addDaysIso s i)) (\<lambda>l.
     bindC (isoToCalendarDate H l) (\<lambda>n'.
     bindC (if back then ret n' else bindC (hMonths H n) (\<lambda>t. loopC (backToMonth H (tmod e t) l n'))) (\<lambda>n'.
       if fDay n' \<noteq> Some a then regulateDate H (n'\<lparr>fDay := Some a\<rparr>) Constrain else ret n'))))))"

fun addMonthsLoop :: "helper \<Rightarrow> bool \<Rightarrow> int \<Rightarrow> nat \<Rightarrow> cal_fields \<Rightarrow> cal_fields comp" where
  "addMonthsLoop H back a 0 n = ret n"
| "addMonthsLoop H back a (Suc k) n = bindC (addOneMonth H back a n) (addMonthsLoop H back a k)"

definition addMonthsCalendar :: "helper \<Rightarrow> cal_fields \<Rightarrow> int \<Rightarrow> overflow \<Rightarrow> cal_fields comp" where
  "addMonthsCalendar H e t r =
     bindC (field (fDay e)) (\<lambda>a. bindC (addMonthsLoop H (t < 0) a (nat \<bar>t\<bar>) e) (\<lambda>n.
     if r = Reject \<and> fDay n \<noteq> Some a then lift (Inl RangeError) else ret n))"

definition addCalendar :: "helper \<Rightarrow> cal_fields \<Rightarrow> int \<Rightarrow> int \<Rightarrow> int \<Rightarrow> int \<Rightarrow> overflow \<Rightarrow> cal_fields comp" where
  "addCalendar H e t r o1 n a =
     bindC (field (fYear e)) (\<lambda>s.
     bindC (hAdjust H (noFields\<lparr>fYear := Some (nadd s t), fMonthCode := fMonthCode e, fDay := fDay e\<rparr>) Constrain False) (\<lambda>m.
     bindC (addMonthsCalendar H m r a) (\<lambda>c. addDaysCalendar H c (nadd n (nmul 7 o1)))))"

definition isoDaysUntil :: "iso_date \<Rightarrow> iso_date \<Rightarrow> int result" where
  "isoDaysUntil e t =
     bindE (DifferenceISODate (year e) (month e) (day e) (year t) (month t) (day t) Day) (\<lambda>d. Inr (days d))"

definition calendarDaysUntil :: "helper \<Rightarrow> cal_fields \<Rightarrow> cal_fields \<Rightarrow> int comp" where
  "calendarDaysUntil H e t =
     bindC (calendarToIsoDate H e Constrain) (\<lambda>o1. bindC (calendarToIsoDate H t Constrain) (\<lambda>n. lift (isoDaysUntil o1 n)))"

text \<open>\<^verbatim>\<open>do { ... } while (...)\<close>: the last date not past \<open>t\<close>, and the months to it.\<close>

partial_function (option) untilLoop ::
  "helper \<Rightarrow> cal_fields \<Rightarrow> cal_fields \<Rightarrow> int \<Rightarrow> int \<Rightarrow> cal_fields \<Rightarrow> cache \<Rightarrow> ((cal_fields \<times> int) \<times> cache) result option" where
  "untilLoop H e t a i m s =
     (case bindE (addMonthsCalendar H m a Constrain s) (\<lambda>(c, s).
             bindE (if fDay c \<noteq> fDay e then regulateDate H (c\<lparr>fDay := fDay e\<rparr>) Constrain s else Inr (c, s)) (\<lambda>(c, s).
             bindE (compareCalendarDates t c) (\<lambda>k. Inr (c, s, k)))) of
        Inl x \<Rightarrow> Some (Inl x)
      | Inr (c, s, k) \<Rightarrow> if k * a \<ge> 0 then untilLoop H e t a (i + a) c s else Some (Inr ((m, i), s)))"

text \<open>The years, months, weeks and days between calendar dates; month codes are compared as strings.\<close>

definition untilCalendar :: "helper \<Rightarrow> cal_fields \<Rightarrow> cal_fields \<Rightarrow> tunit \<Rightarrow> date_duration comp" where
  "untilCalendar H e t r = (case r of
       Day \<Rightarrow> bindC (calendarDaysUntil H e t) (\<lambda>n. ret (dateDuration 0 0 0 n))
     | Week \<Rightarrow> bindC (calendarDaysUntil H e t) (\<lambda>k. let n = tmod k 7 in ret (dateDuration 0 0 (tdiv (k - n) 7) n))
     | Month \<Rightarrow> bindC (lift (compareCalendarDates t e)) (\<lambda>a.
         if a = 0 then ret (dateDuration 0 0 0 0)
         else bindC (loopC (untilLoop H e t a 0 e)) (\<lambda>(m, i). bindC (calendarDaysUntil H m t) (\<lambda>n. ret (dateDuration 0 i 0 n))))
     | Year \<Rightarrow> bindC (lift (compareCalendarDates t e)) (\<lambda>a.
         if a = 0 then ret (dateDuration 0 0 0 0)
         else bindC (lift (simpleDateDiff t e)) (\<lambda>(l, _, d).
              let r = (case (fMonthCode t, fMonthCode e) of
                    (Some x, Some y) \<Rightarrow> if x > y then 1 else if x < y then -1 else sgn d
                  | _ \<Rightarrow> sgn d);
                  s = (if l = 0 then 0 else if r * a < 0 then l - a else l)
              in bindC (if s \<noteq> 0 then addCalendar H e s 0 0 0 Constrain else ret e) (\<lambda>c.
                 bindC (loopC (untilLoop H e t a 0 c)) (\<lambda>(m, i).
                 bindC (calendarDaysUntil H m t) (\<lambda>n. ret (dateDuration s i 0 n))))))
     | _ \<Rightarrow> ret (dateDuration 0 0 0 0))"

definition startOfCalendarYear :: "cal_fields \<Rightarrow> cal_fields" where
  "startOfCalendarYear e = noFields\<lparr>fYear := fYear e, fMonth := Some 1, fMonthCode := Some ''M01'', fDay := Some 1\<rparr>"

definition startOfCalendarMonth :: "cal_fields \<Rightarrow> cal_fields" where
  "startOfCalendarMonth e = noFields\<lparr>fYear := fYear e, fMonth := fMonth e, fDay := Some 1\<rparr>"

section \<open>Month and day\<close>

text \<open>The last hundred years before 1973 are tried; the best day of the month is kept for \<^verbatim>\<open>constrain\<close>.\<close>

fun recentYear ::
  "helper \<Rightarrow> overflow \<Rightarrow> string \<Rightarrow> int option \<Rightarrow> int \<Rightarrow> nat \<Rightarrow> (cal_fields \<times> iso_date) option \<Rightarrow> iso_date comp" where
  "recentYear H t l d y 0 best =
     (case best of Some (_, s) \<Rightarrow> if t = Constrain then ret s else lift (Inl RangeError) | None \<Rightarrow> lift (Inl RangeError))"
| "recentYear H t l d y (Suc k) best =
     bindC (hAdjust H (noFields\<lparr>fDay := d, fMonthCode := Some l, fYear := Some y\<rparr>) Constrain False) (\<lambda>m.
     bindC (calendarToIsoDate H m Constrain) (\<lambda>h. bindC (isoToCalendarDate H h) (\<lambda>u.
     if fMonthCode u = Some l \<and> fDay u = d then ret h
     else recentYear H t l d (y - 1) k
       (if t = Constrain \<and> (case best of None \<Rightarrow> True
          | Some (i, _) \<Rightarrow> fMonthCode u = fMonthCode i \<and> (case (fDay u, fDay i) of (Some x, Some z) \<Rightarrow> x > z | _ \<Rightarrow> False))
        then Some (u, h) else best))))"

definition helperMonthDayFromFields :: "helper \<Rightarrow> cal_fields \<Rightarrow> overflow \<Rightarrow> iso_date comp" where
  "helperMonthDayFromFields H e t =
     bindC (case fMonthCode e of
         Some l \<Rightarrow> ret (l, fDay e)
       | None \<Rightarrow>
           bindC (lift (throwIf (fYear e = None \<and> (fEra e = None \<or> fEraYear e = None)) TypeError)) (\<lambda>_.
           bindC (calendarToIsoDate H e t) (\<lambda>x. bindC (isoToCalendarDate H x) (\<lambda>c.
           bindC (field (fMonthCode c)) (\<lambda>l. ret (l, fDay c)))))) (\<lambda>(l, d).
     bindC (isoToCalendarDate H (mkDate 1972 12 31)) (\<lambda>m.
     bindC (field (fYear m)) (\<lambda>y. bindC (field (fMonthCode m)) (\<lambda>ml. bindC (field (fDay m)) (\<lambda>md.
       recentYear H t l d (if ml > l \<or> ml = l \<and> (case d of None \<Rightarrow> False | Some d \<Rightarrow> md \<ge> d) then y else y - 1) 100 None)))))"

end
