(* ===== verification/Non_Iso_Helpers.thy ===== *)
theory Non_Iso_Helpers imports Non_Iso_Base begin

text \<open>
  The helpers of the calendars with their own years: Hebrew, Islamic, Persian, Indian, Chinese
  and Dangi. What \<^verbatim>\<open>Intl.DateTimeFormat\<close> prints in a calendar is the argument \<open>pr\<close>.
\<close>

section \<open>Helpers from their parts\<close>

definition helperOf ::
  "helper_data \<Rightarrow> (iso_date \<Rightarrow> (string \<times> string) list result) \<Rightarrow> (cal_fields \<Rightarrow> overflow \<Rightarrow> bool \<Rightarrow> cal_fields comp) \<Rightarrow>
   (cal_fields \<Rightarrow> int comp) \<Rightarrow> (cal_fields \<Rightarrow> int comp) \<Rightarrow> (cal_fields \<Rightarrow> iso_date comp) \<Rightarrow>
   (cal_fields \<Rightarrow> iso_date \<Rightarrow> string option \<times> int option) option \<Rightarrow> (iso_date \<Rightarrow> unit result) \<Rightarrow> helper" where
  "helperOf D pr adjust mn mx estimate revise icu =
     \<lparr>hId = hId D, hHasEra = hHasEra D, hConstantEra = hConstantEra D, hErasMidYear = hErasMidYear D, hMonths = hMonths D,
      hParts = pr, hAdjust = adjust, hMinLength = mn, hMaxLength = mx, hEstimate = estimate, hRevise = revise, hIcuBugs = icu\<rparr>"

lemma helperOf_simps [simp]:
  "hId (helperOf D p a mn mx es rv icu) = hId D" "hHasEra (helperOf D p a mn mx es rv icu) = hHasEra D"
  "hConstantEra (helperOf D p a mn mx es rv icu) = hConstantEra D"
  "hErasMidYear (helperOf D p a mn mx es rv icu) = hErasMidYear D" "hMonths (helperOf D p a mn mx es rv icu) = hMonths D"
  "hParts (helperOf D p a mn mx es rv icu) = p" "hAdjust (helperOf D p a mn mx es rv icu) = a"
  "hMinLength (helperOf D p a mn mx es rv icu) = mn" "hMaxLength (helperOf D p a mn mx es rv icu) = mx"
  "hEstimate (helperOf D p a mn mx es rv icu) = es" "hRevise (helperOf D p a mn mx es rv icu) = rv"
  "hIcuBugs (helperOf D p a mn mx es rv icu) = icu"
  by (simp_all add: helperOf_def)

section \<open>\<^verbatim>\<open>HebrewHelper\<close>\<close>

text \<open>A month: its index in a leap year and in another, its code, its shortest and longest length.\<close>

record hebrew_month =
  hmLeap :: "int option"
  hmRegular :: "int option"
  hmCode :: string
  hmMin :: int
  hmMax :: int

definition hebrewMonths :: "(string \<times> hebrew_month) list" where
  "hebrewMonths =
     (let m = (\<lambda>l r c mn mx. \<lparr>hmLeap = l, hmRegular = r, hmCode = c, hmMin = mn, hmMax = mx\<rparr>)
      in [(''Tishri'', m (Some 1) (Some 1) ''M01'' 30 30),
          (''Heshvan'', m (Some 2) (Some 2) ''M02'' 29 30),
          (''Kislev'', m (Some 3) (Some 3) ''M03'' 29 30),
          (''Tevet'', m (Some 4) (Some 4) ''M04'' 29 29),
          (''Shevat'', m (Some 5) (Some 5) ''M05'' 30 30),
          (''Adar'', m None (Some 6) ''M06'' 29 29),
          (''Adar I'', m (Some 6) None ''M05L'' 30 30),
          (''Adar II'', m (Some 7) None ''M06'' 29 29),
          (''Nisan'', m (Some 8) (Some 7) ''M07'' 30 30),
          (''Iyar'', m (Some 9) (Some 8) ''M08'' 29 29),
          (''Sivan'', m (Some 10) (Some 9) ''M09'' 30 30),
          (''Tamuz'', m (Some 11) (Some 10) ''M10'' 29 29),
          (''Av'', m (Some 12) (Some 11) ''M11'' 30 30),
          (''Elul'', m (Some 13) (Some 12) ''M12'' 29 29)])"

definition hebrew_inLeapYear :: "int \<Rightarrow> bool" where
  "hebrew_inLeapYear t \<longleftrightarrow> tmod (nadd (nmul 7 t) 1) 19 < 7"

definition hebrew_monthsInYear :: "int \<Rightarrow> int" where
  "hebrew_monthsInYear y = (if hebrew_inLeapYear y then 13 else 12)"

definition codeOf :: "int \<Rightarrow> string" where
  "codeOf n = buildMonthCode (Fin (of_int n)) False"

definition hebrew_getMonthCode :: "int \<Rightarrow> int \<Rightarrow> string" where
  "hebrew_getMonthCode e t =
     (if hebrew_inLeapYear e then
        if 6 = t then buildMonthCode (Fin 5) True else codeOf (if t < 6 then t else nsub t 1)
      else codeOf t)"

definition hebrew_minMaxMonthLength :: "(hebrew_month \<Rightarrow> int) \<Rightarrow> int \<Rightarrow> int \<Rightarrow> int result" where
  "hebrew_minMaxMonthLength t y m =
     (case find (\<lambda>(_, e). hmCode e = hebrew_getMonthCode y m) hebrewMonths of
        None \<Rightarrow> Inl RangeError | Some (_, e) \<Rightarrow> Inr (t e))"

text \<open>The month of a name that the host prints; in a leap year an unknown index makes the code of \<open>NaN\<close>.\<close>

definition hebrew_fromHost :: "cal_fields \<Rightarrow> int \<Rightarrow> int option \<Rightarrow> cal_fields result" where
  "hebrew_fromHost e n a =
     bindE (case fMonthExtra e of
         None \<Rightarrow> Inr (fMonth e)
       | Some d \<Rightarrow> (case map_of hebrewMonths d of
           None \<Rightarrow> Inl RangeError
         | Some h \<Rightarrow> Inr (if hebrew_inLeapYear n then hmLeap h else hmRegular h))) (\<lambda>i.
     bindE (case i of
         Some i \<Rightarrow> Inr (hebrew_getMonthCode n i)
       | None \<Rightarrow> if hebrew_inLeapYear n then Inr (buildMonthCode NaN False) else Inl TypeError) (\<lambda>s.
       Inr (noFields\<lparr>fYear := Some n, fMonth := i, fDay := fDay e, fEraYear := a, fMonthCode := Some s\<rparr>)))"

text \<open>A month code without an index: \<open>M05L\<close> in a year without it is the month \<open>M06\<close>, or is rejected.\<close>

definition hebrew_monthOfCode :: "int \<Rightarrow> string \<Rightarrow> overflow \<Rightarrow> (int \<times> string) result" where
  "hebrew_monthOfCode n s r =
     (if last s = CHR ''L'' then
        bindE (throwIf (s \<noteq> ''M05L'') RangeError) (\<lambda>_.
        if \<not> hebrew_inLeapYear n
        then bindE (throwIf (r = Reject) RangeError) (\<lambda>_. Inr (6, ''M06''))
        else Inr (6, s))
      else
        bindE (monthCodeNumberPart s) (\<lambda>x.
        let i = (case x of Fin q \<Rightarrow> \<lfloor>q\<rfloor> | _ \<Rightarrow> 0);
            i = (if hebrew_inLeapYear n \<and> i \<ge> 6 then i + 1 else i)
        in bindE (throwIf (i < 1 \<or> i > hebrew_monthsInYear n) RangeError) (\<lambda>_. Inr (i, s))))"

text \<open>A month index is checked or clamped, then compared with the month code.\<close>

definition hebrew_monthOfIndex :: "int \<Rightarrow> int \<Rightarrow> int \<Rightarrow> string option \<Rightarrow> overflow \<Rightarrow> (int \<times> int \<times> string) result" where
  "hebrew_monthOfIndex n i l s r =
     bindE (case r of
         Reject \<Rightarrow>
           bindE (RejectToRange i 1 (hebrew_monthsInYear n)) (\<lambda>_.
           bindE (hebrew_minMaxMonthLength hmMax n i) (\<lambda>k. bindE (RejectToRange l 1 k) (\<lambda>_. Inr (i, l))))
       | Constrain \<Rightarrow>
           let i = ConstrainToRange i 1 (hebrew_monthsInYear n)
           in bindE (hebrew_minMaxMonthLength hmMax n i) (\<lambda>k. Inr (i, ConstrainToRange l 1 k))) (\<lambda>(i, l).
     case s of
       None \<Rightarrow> Inr (i, l, hebrew_getMonthCode n i)
     | Some s \<Rightarrow> bindE (throwIf (hebrew_getMonthCode n i \<noteq> s) RangeError) (\<lambda>_. Inr (i, l, s)))"

definition hebrew_data :: helper_data where
  "hebrew_data = \<lparr>hId = ''hebrew'', hHasEra = False, hConstantEra = None, hErasMidYear = False,
     hMonths = (\<lambda>e. bindC (field (fYear e)) (\<lambda>y. ret (hebrew_monthsInYear y)))\<rparr>"

definition hebrew_adjustCalendarDate :: "cal_fields \<Rightarrow> overflow \<Rightarrow> bool \<Rightarrow> cal_fields result" where
  "hebrew_adjustCalendarDate e r host =
     (let n = orElse2 (fYear e) (fEraYear e); a = orElse2 (fEraYear e) (fYear e)
      in if host then bindE (orThrow AssertError n) (\<lambda>n. hebrew_fromHost e n a)
         else
           bindE (validateCalendarDate hebrew_data e) (\<lambda>_.
           bindE (orThrow AssertError n) (\<lambda>y. bindE (orThrow AssertError (fDay e)) (\<lambda>l.
           bindE (case fMonth e of
               None \<Rightarrow> bindE (orThrow AssertError (fMonthCode e)) (\<lambda>s.
                 bindE (hebrew_monthOfCode y s r) (\<lambda>(i, s). Inr (i, l, s)))
             | Some i \<Rightarrow> hebrew_monthOfIndex y i l (fMonthCode e) r) (\<lambda>(i, l, s).
             Inr (e\<lparr>fDay := Some l, fMonth := Some i, fMonthCode := Some s, fYear := n, fEraYear := a\<rparr>))))))"

definition liftFields :: "(int \<Rightarrow> int \<Rightarrow> int result) \<Rightarrow> cal_fields \<Rightarrow> int comp" where
  "liftFields f e = bindC (field (fYear e)) (\<lambda>y. bindC (field (fMonth e)) (\<lambda>m. lift (f y m)))"

definition hebrew_estimateIsoDate :: "int \<Rightarrow> iso_date" where
  "hebrew_estimateIsoDate t = mkDate (nsub t 3760) 1 1"

definition HebrewHelper :: "(iso_date \<Rightarrow> (string \<times> string) list result) \<Rightarrow> helper" where
  "HebrewHelper pr = helperOf hebrew_data pr
      (\<lambda>e r host. lift (hebrew_adjustCalendarDate e r host))
       (liftFields (hebrew_minMaxMonthLength hmMin)) (liftFields (hebrew_minMaxMonthLength hmMax))
       (\<lambda>e. bindC (field (fYear e)) (\<lambda>y. ret (hebrew_estimateIsoDate y))) None (\<lambda>_. Inr ())"

definition hebrew_leap :: "cal_fields \<Rightarrow> bool comp" where
  "hebrew_leap e = bindC (field (fYear e)) (\<lambda>y. ret (hebrew_inLeapYear y))"

section \<open>Islamic calendars and \<^verbatim>\<open>PersianHelper\<close>\<close>

definition eraData :: "string \<Rightarrow> string \<Rightarrow> helper_data" where
  "eraData id1 era = \<lparr>hId = id1, hHasEra = True, hConstantEra = Some era, hErasMidYear = False, hMonths = (\<lambda>_. ret 12)\<rparr>"

text \<open>The Numbers 354 + 11/30 and 365.2425.\<close>

definition daysPerIslamicYear :: rat where
  "daysPerIslamicYear = fl (354 + fl (11 / 30))"

definition daysPerIsoYear :: rat where
  "daysPerIsoYear = fl (3652425 / 10000)"

definition islamic_estimateIsoDate :: "helper_data \<Rightarrow> cal_fields \<Rightarrow> iso_date comp" where
  "islamic_estimateIsoDate D e =
     bindC (adjustCalendarDate D e Constrain) (\<lambda>x. bindC (field (fYear x)) (\<lambda>t.
       ret (mkDate (nadd \<lfloor>fl (fl (of_int t * daysPerIslamicYear) / daysPerIsoYear)\<rfloor> 622) 1 1)))"

definition IslamicBaseHelper :: "string \<Rightarrow> (iso_date \<Rightarrow> (string \<times> string) list result) \<Rightarrow> helper" where
  "IslamicBaseHelper id1 pr =
     (let D = eraData id1 ''ah''
      in helperOf D pr (\<lambda>e r _. adjustCalendarDate D e r) (\<lambda>_. ret 29) (\<lambda>_. ret 30) (islamic_estimateIsoDate D)
             None (\<lambda>_. Inr ()))"

text \<open>\<^verbatim>\<open>PersianHelper\<close> has the same method.\<close>

definition islamic_inLeapYear :: "helper \<Rightarrow> cal_fields \<Rightarrow> bool comp" where
  "islamic_inLeapYear H e =
     bindC (daysInMonth H (noFields\<lparr>fYear := fYear e, fMonth := Some 12, fDay := Some 1\<rparr>)) (\<lambda>n. ret (30 = n))"

definition persian_minimumMonthLength :: "int \<Rightarrow> int" where
  "persian_minimumMonthLength t = (if 12 = t then 29 else if t \<le> 6 then 31 else 30)"

definition persian_maximumMonthLength :: "int \<Rightarrow> int" where
  "persian_maximumMonthLength t = (if 12 = t then 30 else if t \<le> 6 then 31 else 30)"

definition persian_estimateIsoDate :: "helper_data \<Rightarrow> cal_fields \<Rightarrow> iso_date comp" where
  "persian_estimateIsoDate D e =
     bindC (adjustCalendarDate D e Constrain) (\<lambda>x. bindC (field (fYear x)) (\<lambda>t. ret (mkDate (nadd t 621) 1 1)))"

definition PersianHelper :: "(iso_date \<Rightarrow> (string \<times> string) list result) \<Rightarrow> helper" where
  "PersianHelper pr =
     (let D = eraData ''persian'' ''ap''
      in helperOf D pr (\<lambda>e r _. adjustCalendarDate D e r)
             (\<lambda>e. bindC (field (fMonth e)) (\<lambda>m. ret (persian_minimumMonthLength m)))
             (\<lambda>e. bindC (field (fMonth e)) (\<lambda>m. ret (persian_maximumMonthLength m)))
             (persian_estimateIsoDate D) None (\<lambda>_. Inr ()))"

section \<open>\<^verbatim>\<open>IndianHelper\<close>\<close>

definition isGregorianLeapYear :: "int \<Rightarrow> bool" where
  "isGregorianLeapYear e \<longleftrightarrow> tmod e 4 = 0 \<and> (tmod e 100 \<noteq> 0 \<or> tmod e 400 = 0)"

record indian_month =
  imLength :: int
  imMonth :: int
  imDay :: int
  imNextYear :: bool

definition indianMonth :: "int \<Rightarrow> int \<Rightarrow> int \<Rightarrow> bool \<Rightarrow> indian_month" where
  "indianMonth l m d n = \<lparr>imLength = l, imMonth = m, imDay = d, imNextYear = n\<rparr>"

text \<open>The table: each month with the variant of a leap year.\<close>

definition indianMonths :: "(int \<times> indian_month \<times> indian_month option) list" where
  "indianMonths =
     [(1, indianMonth 30 3 22 False, Some (indianMonth 31 3 21 False)),
      (2, indianMonth 31 4 21 False, None),
      (3, indianMonth 31 5 22 False, None),
      (4, indianMonth 31 6 22 False, None),
      (5, indianMonth 31 7 23 False, None),
      (6, indianMonth 31 8 23 False, None),
      (7, indianMonth 30 9 23 False, None),
      (8, indianMonth 30 10 23 False, None),
      (9, indianMonth 30 11 22 False, None),
      (10, indianMonth 30 12 22 False, None),
      (11, indianMonth 30 1 21 True, None),
      (12, indianMonth 30 2 20 True, None)]"

definition indian_inLeapYear :: "int \<Rightarrow> bool" where
  "indian_inLeapYear y = isGregorianLeapYear (nadd y 78)"

definition indian_getMonthInfo :: "int \<Rightarrow> int \<Rightarrow> indian_month result" where
  "indian_getMonthInfo y t = (case map_of indianMonths t of
       None \<Rightarrow> Inl RangeError
     | Some (r, l) \<Rightarrow> Inr (case l of Some r' \<Rightarrow> if indian_inLeapYear y then r' else r | None \<Rightarrow> r))"

definition indian_monthLength :: "int \<Rightarrow> int \<Rightarrow> int result" where
  "indian_monthLength y m = bindE (indian_getMonthInfo y m) (\<lambda>r. Inr (imLength r))"

definition indian_data :: helper_data where
  "indian_data = eraData ''indian'' ''saka''"

definition indian_isoDate :: "int \<Rightarrow> int \<Rightarrow> int \<Rightarrow> iso_date result" where
  "indian_isoDate y m d =
     bindE (indian_getMonthInfo y m) (\<lambda>r.
       AddISODate (nadd (nadd y 78) (if imNextYear r then 1 else 0)) (imMonth r) (imDay r) 0 0 0 (nsub d 1) Constrain)"

definition indian_estimateIsoDate :: "cal_fields \<Rightarrow> iso_date comp" where
  "indian_estimateIsoDate e =
     bindC (adjustCalendarDate indian_data e Constrain) (\<lambda>t.
     bindC (field (fYear t)) (\<lambda>y. bindC (field (fMonth t)) (\<lambda>m. bindC (field (fDay t)) (\<lambda>d. lift (indian_isoDate y m d)))))"

text \<open>\<open>bceBug\<close>: what the constructor found out about the host.\<close>

definition indian_checkIcuBugs :: "bool \<Rightarrow> iso_date \<Rightarrow> unit result" where
  "indian_checkIcuBugs bceBug e = throwIf (bceBug \<and> year e < 1) RangeError"

definition IndianHelper :: "bool \<Rightarrow> (iso_date \<Rightarrow> (string \<times> string) list result) \<Rightarrow> helper" where
  "IndianHelper bceBug pr =
     helperOf indian_data pr (\<lambda>e r _. adjustCalendarDate indian_data e r)
         (liftFields indian_monthLength) (liftFields indian_monthLength) indian_estimateIsoDate
         None (indian_checkIcuBugs bceBug)"

definition indian_leap :: "cal_fields \<Rightarrow> bool comp" where
  "indian_leap e = bindC (field (fYear e)) (\<lambda>y. ret (indian_inLeapYear y))"

end
