(* ===== verification/Non_Iso_Eras.thy ===== *)
theory Non_Iso_Eras imports Non_Iso_Helpers begin

text \<open>
  The helpers of the calendars whose years are those of the ISO calendar or of the Coptic one,
  counted from eras: \<^verbatim>\<open>GregorianBaseHelper\<close>, \<^verbatim>\<open>OrthodoxBaseHelper\<close> and their subclasses.
\<close>

section \<open>Eras\<close>

text \<open>
  An era as its helper gives it. The month and the day of an anchor may be missing, and are 1
  after \<open>adjustEras\<close>. An absent name is empty.
\<close>

record era =
  eName :: string
  eIsoEpoch :: "(int \<times> int \<times> int) option"
  eAnchor :: "(int \<times> int \<times> int) option"
  eReverseOf :: "string option"
  eYearZero :: bool
  eIsAnchor :: bool
  eGeneric :: string

definition mkEra :: "string \<Rightarrow> (int \<times> int \<times> int) option \<Rightarrow> (int \<times> int \<times> int) option \<Rightarrow> string option \<Rightarrow> bool \<Rightarrow> era" where
  "mkEra n i a r z = \<lparr>eName = n, eIsoEpoch = i, eAnchor = a, eReverseOf = r, eYearZero = z, eIsAnchor = False, eGeneric = []\<rparr>"

text \<open>The first loop: the anchor era, and its epoch.\<close>

definition isAnchorEra :: "era \<Rightarrow> bool" where
  "isAnchorEra e \<longleftrightarrow> eIsAnchor e \<or> eAnchor e = None \<and> eReverseOf e = None"

fun markAnchor :: "era list \<Rightarrow> era option \<Rightarrow> (era list \<times> era option) result" where
  "markAnchor [] t = Inr ([], t)"
| "markAnchor (e # es) t =
     (if isAnchorEra e then
        let e' = e\<lparr>eAnchor := Some (if eYearZero e then 0 else 1, 1, 1)\<rparr>
        in bindE (throwIf (t \<noteq> None) RangeError) (\<lambda>_.
           bindE (markAnchor es (Some e')) (\<lambda>(l, a). Inr (e' # l, a)))
      else
        bindE (throwIf (eName e = []) RangeError) (\<lambda>_.
        bindE (markAnchor es t) (\<lambda>(l, a). Inr (e # l, a))))"

text \<open>The second loop: a reverse era takes the epochs of the era it reverses, as they are then.\<close>

fun resolveReverse :: "era list \<Rightarrow> era list \<Rightarrow> era list result" where
  "resolveReverse r [] = Inr []"
| "resolveReverse r (e # es) =
     bindE (case eReverseOf e of
         None \<Rightarrow> Inr e
       | Some t \<Rightarrow> (case find (\<lambda>x. eName x = t) r of
           None \<Rightarrow> Inl RangeError
         | Some x \<Rightarrow> Inr (e\<lparr>eAnchor := eAnchor x, eIsoEpoch := eIsoEpoch x\<rparr>))) (\<lambda>e'.
     bindE (resolveReverse r es) (\<lambda>l. Inr (e' # l)))"

text \<open>Sorted by the year of the ISO epoch, the latest first; a reverse era comes last.\<close>

definition sortEras :: "era list \<Rightarrow> era list result" where
  "sortEras r =
     (let f = filter (\<lambda>e. eReverseOf e = None) r; b = filter (\<lambda>e. eReverseOf e \<noteq> None) r
      in bindE (throwIf (length f > 1 \<and> (\<exists>e\<in>set f. eIsoEpoch e = None)) RangeError) (\<lambda>_.
         Inr (sort_key (\<lambda>e. case eIsoEpoch e of Some (y, _) \<Rightarrow> - y | None \<Rightarrow> 0) f @ b)))"

text \<open>The names of the eras are distinct, so that the era a last era reverses is known by its name.\<close>

definition adjustEras :: "era list \<Rightarrow> (era list \<times> era) result" where
  "adjustEras r =
     bindE (throwIf (r = []) RangeError) (\<lambda>_.
     bindE (throwIf (length r = 1 \<and> eReverseOf (hd r) \<noteq> None) RangeError) (\<lambda>_.
     bindE (throwIf (length r = 1 \<and> eName (hd r) = []) RangeError) (\<lambda>_.
     bindE (throwIf (length (filter (\<lambda>e. eReverseOf e \<noteq> None) r) > 1) RangeError) (\<lambda>_.
     bindE (markAnchor r None) (\<lambda>(r, t).
     let r = filter (\<lambda>e. eName e \<noteq> []) r
     in bindE (resolveReverse r r) (\<lambda>r. bindE (sortEras r) (\<lambda>r.
        bindE (throwIf (r = []) TypeError) (\<lambda>_.
        bindE (throwIf (case eReverseOf (last r) of None \<Rightarrow> False
                        | Some n \<Rightarrow> length r < 2 \<or> eName (last (butlast r)) \<noteq> n) RangeError) (\<lambda>_.
        let r = map (\<lambda>i. (r ! i)\<lparr>eGeneric := ''era'' @ decNat (length r - 1 - i)\<rparr>) [0..<length r]
        in Inr (r, case t of Some a \<Rightarrow> a | None \<Rightarrow> hd r)))))))))) "

section \<open>\<^verbatim>\<open>GregorianBaseHelper\<close>\<close>

definition sameOrAbsent :: "'a option \<Rightarrow> 'a option \<Rightarrow> bool" where
  "sameOrAbsent o1 r \<longleftrightarrow> o1 = None \<or> o1 = r"

definition anchorYear :: "era \<Rightarrow> int result" where
  "anchorYear e = (case eAnchor e of Some (y, _) \<Rightarrow> Inr y | None \<Rightarrow> Inl TypeError)"

text \<open>The first era whose epoch is not after the date; the last era takes what is left.\<close>

fun eraFromYear :: "era list \<Rightarrow> cal_fields \<Rightarrow> int \<Rightarrow> (int \<times> string) result" where
  "eraFromYear [] o1 t = Inl RangeError"
| "eraFromYear [e] o1 t =
     bindE (throwIf (eReverseOf e \<noteq> None \<and> t > 0) RangeError) (\<lambda>_.
     bindE (anchorYear e) (\<lambda>a.
       Inr (if eReverseOf e \<noteq> None then nsub a t else nadd (nsub t a) (if eYearZero e then 0 else 1), eName e)))"
| "eraFromYear (e # es) o1 t =
     (case eAnchor e of
        None \<Rightarrow> Inl TypeError
      | Some (y, m, d) \<Rightarrow>
          bindE (compareCalendarDates (o1\<lparr>fYear := Some t\<rparr>) (yearMonthDay y m d)) (\<lambda>c.
          if c \<ge> 0 then Inr (nadd (nsub t y) (if eYearZero e then 0 else 1), eName e)
          else eraFromYear es o1 t))"

definition completeEraYear :: "era list \<Rightarrow> cal_fields \<Rightarrow> cal_fields result" where
  "completeEraYear eras e = (case fYear e of
       Some t \<Rightarrow>
         bindE (eraFromYear eras e t) (\<lambda>(r, o1).
         bindE (throwIf (\<not> sameOrAbsent (fEra e) (Some o1)) RangeError) (\<lambda>_.
         bindE (throwIf (\<not> sameOrAbsent (fEraYear e) (Some r)) RangeError) (\<lambda>_.
           Inr (e\<lparr>fEraYear := Some r, fEra := Some o1\<rparr>))))
     | None \<Rightarrow>
         bindE (orThrow RangeError (fEraYear e)) (\<lambda>r.
         bindE (orThrow RangeError (Option.bind (fEra e) (\<lambda>o1. find (\<lambda>x. eName x = o1 \<or> eGeneric x = o1) eras))) (\<lambda>x.
         bindE (throwIf (r < 1 \<and> eReverseOf x \<noteq> None) RangeError) (\<lambda>_.
         bindE (anchorYear x) (\<lambda>a.
         let t = (if eReverseOf x \<noteq> None then nsub a r else nsub (nadd r a) (if eYearZero x then 0 else 1))
         in bindE (eraFromYear eras e t) (\<lambda>(r, o1).
              Inr (e\<lparr>fYear := Some t, fEraYear := Some r, fEra := Some o1\<rparr>)))))))"

text \<open>A month code with a fraction fails the check that follows.\<close>

definition gregorian_adjustCalendarDate :: "helper_data \<Rightarrow> era list \<Rightarrow> cal_fields \<Rightarrow> overflow \<Rightarrow> cal_fields comp" where
  "gregorian_adjustCalendarDate D eras e r =
     bindC (lift (case fMonth e of
         Some _ \<Rightarrow> Inr e
       | None \<Rightarrow> bindE (orThrow TypeError (fMonthCode e)) (\<lambda>a. bindE (monthCodeNumberPart a) (\<lambda>x.
           Inr (e\<lparr>fMonth := Some (case x of Fin q \<Rightarrow> \<lfloor>q\<rfloor> | _ \<Rightarrow> 0)\<rparr>))))) (\<lambda>o1.
     bindC (lift (validateCalendarDate D o1)) (\<lambda>_.
     bindC (lift (completeEraYear eras o1)) (\<lambda>o1. adjustCalendarDate D o1 r)))"

definition gregorian_estimateIsoDate :: "helper_data \<Rightarrow> era list \<Rightarrow> era \<Rightarrow> cal_fields \<Rightarrow> iso_date comp" where
  "gregorian_estimateIsoDate D eras anchor e =
     bindC (gregorian_adjustCalendarDate D eras e Constrain) (\<lambda>t.
     bindC (field (fYear t)) (\<lambda>r. bindC (field (fMonth t)) (\<lambda>o1. bindC (field (fDay t)) (\<lambda>n.
     bindC (lift (orThrow TypeError (eIsoEpoch anchor))) (\<lambda>(y, _).
       lift (RegulateISODate (nsub (nadd r y) (if eYearZero anchor then 0 else 1)) o1 n Constrain))))))"

definition gregorian_inLeapYear :: "helper_data \<Rightarrow> era list \<Rightarrow> era \<Rightarrow> cal_fields \<Rightarrow> bool comp" where
  "gregorian_inLeapYear D eras anchor e =
     bindC (gregorian_estimateIsoDate D eras anchor (noFields\<lparr>fMonth := Some 1, fDay := Some 1, fYear := fYear e\<rparr>)) (\<lambda>t.
       ret (isGregorianLeapYear (year t)))"

definition gregorian_minimumMonthLength :: "helper_data \<Rightarrow> era list \<Rightarrow> era \<Rightarrow> cal_fields \<Rightarrow> int comp" where
  "gregorian_minimumMonthLength D eras anchor e =
     bindC (field (fMonth e)) (\<lambda>t.
     if 2 = t then bindC (gregorian_inLeapYear D eras anchor e) (\<lambda>l. ret (if l then 29 else 28))
     else ret (if t \<in> {4, 6, 9, 11} then 30 else 31))"

text \<open>\<open>vulnerable\<close>: the calendar is; \<open>julianBug\<close>: the host is.\<close>

definition gregorian_checkIcuBugs :: "bool \<Rightarrow> bool \<Rightarrow> iso_date \<Rightarrow> unit result" where
  "gregorian_checkIcuBugs vulnerable julianBug e =
     throwIf (vulnerable \<and> julianBug \<and> CompareISODate (year e) (month e) (day e) 1582 10 15 < 0) RangeError"

text \<open>A constructor and its methods; the eras are adjusted when the object is made.\<close>

definition gregorianData :: "string \<Rightarrow> bool \<Rightarrow> int \<Rightarrow> helper_data" where
  "gregorianData id1 midYear n = \<lparr>hId = id1, hHasEra = True, hConstantEra = None, hErasMidYear = midYear, hMonths = (\<lambda>_. ret n)\<rparr>"

definition GregorianBaseHelper ::
  "string \<Rightarrow> bool \<Rightarrow> era list \<Rightarrow> bool \<Rightarrow> bool \<Rightarrow> (cal_fields \<Rightarrow> iso_date \<Rightarrow> string option \<times> int option) option \<Rightarrow>
   (iso_date \<Rightarrow> (string \<times> string) list result) \<Rightarrow> helper result" where
  "GregorianBaseHelper id1 midYear data vulnerable julianBug revise pr =
     bindE (adjustEras data) (\<lambda>(eras, anchor).
     let D = gregorianData id1 midYear 12
     in Inr (helperOf D pr (\<lambda>e r _. gregorian_adjustCalendarDate D eras e r)
          (gregorian_minimumMonthLength D eras anchor) (gregorian_minimumMonthLength D eras anchor)
          (gregorian_estimateIsoDate D eras anchor) revise (gregorian_checkIcuBugs vulnerable julianBug)))"

section \<open>\<^verbatim>\<open>OrthodoxBaseHelper\<close>\<close>

definition orthodox_inLeapYear :: "int \<Rightarrow> bool" where
  "orthodox_inLeapYear t \<longleftrightarrow> tmod (nadd t 1) 4 = 0"

definition orthodox_minimumMonthLength :: "cal_fields \<Rightarrow> int comp" where
  "orthodox_minimumMonthLength e =
     bindC (field (fMonth e)) (\<lambda>t.
     if 13 = t then bindC (field (fYear e)) (\<lambda>y. ret (if orthodox_inLeapYear y then 6 else 5)) else ret 30)"

definition OrthodoxBaseHelper :: "string \<Rightarrow> era list \<Rightarrow> (iso_date \<Rightarrow> (string \<times> string) list result) \<Rightarrow> helper result" where
  "OrthodoxBaseHelper id1 data pr =
     bindE (adjustEras data) (\<lambda>(eras, anchor).
     let D = gregorianData id1 False 13
     in Inr (helperOf D pr (\<lambda>e r _. gregorian_adjustCalendarDate D eras e r)
          orthodox_minimumMonthLength orthodox_minimumMonthLength
          (gregorian_estimateIsoDate D eras anchor) None (gregorian_checkIcuBugs False False)))"

section \<open>The calendars\<close>

definition EthioaaHelper where
  "EthioaaHelper = OrthodoxBaseHelper ''ethioaa'' [mkEra ''era0'' (Some (-5492, 7, 17)) None None False]"

definition CopticHelper where
  "CopticHelper = OrthodoxBaseHelper ''coptic''
     [mkEra ''era1'' (Some (284, 8, 29)) None None False, mkEra ''era0'' None None (Some ''era1'') False]"

definition EthiopicHelper where
  "EthiopicHelper = OrthodoxBaseHelper ''ethiopic''
     [mkEra ''era0'' (Some (-5492, 7, 17)) None None False, mkEra ''era1'' (Some (8, 8, 27)) (Some (5501, 1, 1)) None False]"

definition RocHelper where
  "RocHelper julianBug = GregorianBaseHelper ''roc'' False
     [mkEra ''minguo'' (Some (1912, 1, 1)) None None False, mkEra ''before-roc'' None None (Some ''minguo'') False]
     True julianBug None"

definition BuddhistHelper where
  "BuddhistHelper julianBug = GregorianBaseHelper ''buddhist'' False [mkEra ''be'' (Some (-543, 1, 1)) None None True] True julianBug None"

definition gregory_reviseIntlEra :: "cal_fields \<Rightarrow> iso_date \<Rightarrow> string option \<times> int option" where
  "gregory_reviseIntlEra e x =
     (let t = fEra e;
          t = (if t = Some ''bc'' \<or> t = Some ''b'' then Some ''bce'' else t);
          t = (if t = Some ''ad'' \<or> t = Some ''a'' then Some ''ce'' else t)
      in (t, fEraYear e))"

definition GregoryHelper where
  "GregoryHelper julianBug = GregorianBaseHelper ''gregory'' False
     [mkEra ''ce'' (Some (1, 1, 1)) None None False, mkEra ''bce'' None None (Some ''ce'') False]
     False julianBug (Some gregory_reviseIntlEra)"

definition japaneseEras :: "era list" where
  "japaneseEras =
     [mkEra ''reiwa'' (Some (2019, 5, 1)) (Some (2019, 5, 1)) None False,
      mkEra ''heisei'' (Some (1989, 1, 8)) (Some (1989, 1, 8)) None False,
      mkEra ''showa'' (Some (1926, 12, 25)) (Some (1926, 12, 25)) None False,
      mkEra ''taisho'' (Some (1912, 7, 30)) (Some (1912, 7, 30)) None False,
      mkEra ''meiji'' (Some (1868, 9, 8)) (Some (1868, 9, 8)) None False,
      mkEra ''ce'' (Some (1, 1, 1)) None None False,
      mkEra ''bce'' None None (Some ''ce'') False]"

definition japanese_reviseIntlEra :: "cal_fields \<Rightarrow> iso_date \<Rightarrow> string option \<times> int option" where
  "japanese_reviseIntlEra e t =
     (if \<exists>x\<in>set japaneseEras. Some (eName x) = fEra e then (fEra e, fEraYear e)
      else if year t < 1 then (Some ''bce'', Some (1 - year t)) else (Some ''ce'', Some (year t)))"

definition JapaneseHelper where
  "JapaneseHelper julianBug = GregorianBaseHelper ''japanese'' True japaneseEras True julianBug (Some japanese_reviseIntlEra)"

end
