(* ===== verification/Non_Iso_Calendars.thy ===== *)
theory Non_Iso_Calendars imports Non_Iso_Eras begin

text \<open>
  The helpers of the Chinese calendars, the class \<^verbatim>\<open>NonIsoCalendar\<close> and the table of the built-in
  calendars.
\<close>

section \<open>\<^verbatim>\<open>ChineseBaseHelper\<close>\<close>

text \<open>The month, the day and the year that the host prints \<open>t\<close> days after the first of February.\<close>

definition chinese_getCalendarDate :: "(iso_date \<Rightarrow> (string \<times> string) list result) \<Rightarrow> int \<Rightarrow> int \<Rightarrow> (string \<times> int \<times> int) result" where
  "chinese_getCalendarDate pr e t =
     bindE (case pr (dateOfDay (epochDay (mkDate e 2 1) + t)) of Inl _ \<Rightarrow> Inl RangeError | Inr a \<Rightarrow> Inr a) (\<lambda>a.
     bindE (orThrow TypeError (map_of a ''month'')) (\<lambda>i.
     bindE (orThrow TypeError (map_of a ''day'')) (\<lambda>s. bindE (printedInt s) (\<lambda>s.
     bindE (orThrow RangeError (map_of a ''relatedYear'')) (\<lambda>l. bindE (printedInt l) (\<lambda>l. Inr (i, s, l)))))))"

definition setDaysInMonth :: "string \<Rightarrow> int \<Rightarrow> month_list \<Rightarrow> month_list result" where
  "setDaysInMonth c n d = (case map_of d c of
       None \<Rightarrow> Inl TypeError | Some (h, _) \<Rightarrow> Inr (AList.update c (h, Some n) d))"

text \<open>From month to month while the year lasts; after the loop the length of the last name is set again.\<close>

partial_function (option) monthListLoop ::
  "(iso_date \<Rightarrow> (string \<times> string) list result) \<Rightarrow> int \<Rightarrow> int \<Rightarrow> int \<Rightarrow> (int \<times> string) option \<Rightarrow> month_list \<Rightarrow> month_list result option" where
  "monthListLoop pr e a h before d =
     (case chinese_getCalendarDate pr e a of
        Inl x \<Rightarrow> Some (Inl x)
      | Inr (i, s, l) \<Rightarrow>
          (case (case before of None \<Rightarrow> Inr d | Some (m, c) \<Rightarrow> if m = 0 then Inr d else setDaysInMonth c (m + 30 - s) d) of
             Inl x \<Rightarrow> Some (Inl x)
           | Inr d \<Rightarrow>
               if l \<noteq> e then Some (setDaysInMonth i (s + 30 - s) d)
               else monthListLoop pr e (a + 30) (h + 1) (Some (s, i)) (AList.update i (h, None) d)))"

definition chinese_getMonthList :: "string \<Rightarrow> (iso_date \<Rightarrow> (string \<times> string) list result) \<Rightarrow> int option \<Rightarrow> month_list comp" where
  "chinese_getMonthList id1 pr y st =
     bindE (orThrow TypeError y) (\<lambda>e.
     case cMonths st (id1, e) of
       Some o1 \<Rightarrow> Inr (o1, st)
     | None \<Rightarrow>
         bindE (chinese_getCalendarDate pr e 17) (\<lambda>(i, s, _).
         bindE (if i \<noteq> ''1'' then bindE (chinese_getCalendarDate pr e 46) (\<lambda>(_, s, _). Inr (46, s)) else Inr (17, s)) (\<lambda>(a, s).
         bindE (loopResult (monthListLoop pr e (a - (s - 5)) 1 None [])) (\<lambda>d.
           Inr (d, st\<lparr>cMonths := (cMonths st)((id1, e) \<mapsto> d)\<rparr>)))))"

definition chinese_inLeapYear :: "string \<Rightarrow> (iso_date \<Rightarrow> (string \<times> string) list result) \<Rightarrow> cal_fields \<Rightarrow> bool comp" where
  "chinese_inLeapYear id1 pr e = bindC (chinese_getMonthList id1 pr (fYear e)) (\<lambda>r. ret (13 = length r))"

definition chinese_monthsInYear :: "string \<Rightarrow> (iso_date \<Rightarrow> (string \<times> string) list result) \<Rightarrow> cal_fields \<Rightarrow> int comp" where
  "chinese_monthsInYear id1 pr e = bindC (chinese_inLeapYear id1 pr e) (\<lambda>l. ret (if l then 13 else 12))"

definition chinese_estimateIsoDate :: "cal_fields \<Rightarrow> iso_date comp" where
  "chinese_estimateIsoDate e =
     bindC (field (fYear e)) (\<lambda>t. bindC (field (fMonth e)) (\<lambda>r. ret (mkDate t (if r \<ge> 12 then 12 else r + 1) 1)))"

text \<open>Names of months: \<^verbatim>\<open>4bis\<close> for the month code \<^verbatim>\<open>M04L\<close>.\<close>

fun replaceFirst :: "string \<Rightarrow> string \<Rightarrow> string \<Rightarrow> string" where
  "replaceFirst p r [] = (if p = [] then r else [])"
| "replaceFirst p r (c # s) = (if take (length p) (c # s) = p then r @ drop (length p) (c # s) else c # replaceFirst p r s)"

fun containsText :: "string \<Rightarrow> string \<Rightarrow> bool" where
  "containsText p [] = (p = [])"
| "containsText p (c # s) = (take (length p) (c # s) = p \<or> containsText p s)"

definition dropZero :: "string \<Rightarrow> string" where
  "dropZero s = (if take 1 s = ''0'' then drop 1 s else s)"

definition monthKey :: "string \<Rightarrow> string" where
  "monthKey l = dropZero (drop 1 (replaceFirst ''L'' ''bis'' l))"

definition codeOfName :: "string \<Rightarrow> bool \<Rightarrow> string" where
  "codeOfName s leap = ''M'' @ padStart s 2 CHR ''0'' @ (if leap then ''L'' else [])"

text \<open>The three cases: only a month code, only an index, both.\<close>

definition chinese_monthOfCode :: "month_list \<Rightarrow> string \<Rightarrow> overflow \<Rightarrow> (int \<times> string) result" where
  "chinese_monthOfCode d l r = (case map_of d (monthKey l) of
       Some (a, _) \<Rightarrow> Inr (a, l)
     | None \<Rightarrow>
         if l \<noteq> [] \<and> last l = CHR ''L'' \<and> l \<noteq> ''M13L'' \<and> r = Constrain
         then let t = dropZero (butlast (drop 1 l))
              in (case map_of d t of Some (a, _) \<Rightarrow> Inr (a, codeOfName t False) | None \<Rightarrow> Inl RangeError)
         else Inl RangeError)"

definition chinese_monthOfIndex :: "month_list \<Rightarrow> int \<Rightarrow> int \<Rightarrow> overflow \<Rightarrow> (int \<times> int \<times> string) result" where
  "chinese_monthOfIndex d a s r =
     bindE (case r of
         Reject \<Rightarrow> bindE (RejectToRange a 1 (int (length d))) (\<lambda>_. bindE (RejectToRange s 1 30) (\<lambda>_. Inr (a, s)))
       | Constrain \<Rightarrow> Inr (ConstrainToRange a 1 (int (length d)), ConstrainToRange s 1 30)) (\<lambda>(a, s).
     case find (\<lambda>(_, i, _). i = a) d of
       None \<Rightarrow> Inl RangeError
     | Some (n, _) \<Rightarrow> Inr (a, s, codeOfName (replaceFirst ''bis'' [] n) (containsText ''bis'' n)))"

definition chinese_data :: "string \<Rightarrow> (iso_date \<Rightarrow> (string \<times> string) list result) \<Rightarrow> helper_data" where
  "chinese_data id1 pr = \<lparr>hId = id1, hHasEra = False, hConstantEra = None, hErasMidYear = False, hMonths = chinese_monthsInYear id1 pr\<rparr>"

definition chinese_fromHost :: "string \<Rightarrow> (iso_date \<Rightarrow> (string \<times> string) list result) \<Rightarrow> cal_fields \<Rightarrow> cal_fields comp" where
  "chinese_fromHost id1 pr e =
     (let n = fEraYear e; i = fMonthExtra e
      in bindC (lift (throwIf (i \<noteq> None \<and> i \<noteq> Some ''bis'') RangeError)) (\<lambda>_.
         bindC (lift (orThrow TypeError (fMonth e))) (\<lambda>a.
         bindC (chinese_getMonthList id1 pr n) (\<lambda>d.
         case map_of d (numToString (Fin (of_int a)) @ (case i of None \<Rightarrow> [] | Some x \<Rightarrow> x)) of
           None \<Rightarrow> lift (Inl RangeError)
         | Some (m, _) \<Rightarrow> ret (noFields\<lparr>fYear := n, fMonth := Some m, fDay := fDay e, fEraYear := n,
             fMonthCode := Some (buildMonthCode (Fin (of_int a)) (i \<noteq> None))\<rparr>)))))"

definition chinese_adjustCalendarDate ::
  "string \<Rightarrow> (iso_date \<Rightarrow> (string \<times> string) list result) \<Rightarrow> cal_fields \<Rightarrow> overflow \<Rightarrow> bool \<Rightarrow> cal_fields comp" where
  "chinese_adjustCalendarDate id1 pr e r host =
     (if host then chinese_fromHost id1 pr e
      else
        bindC (lift (validateCalendarDate (chinese_data id1 pr) e)) (\<lambda>_.
        let n = orElse2 (fYear e) (fEraYear e); y = orElse2 (fEraYear e) (fYear e)
        in bindC (field (fDay e)) (\<lambda>s. bindC (chinese_getMonthList id1 pr n) (\<lambda>d.
           bindC (lift (case (fMonth e, fMonthCode e) of
               (None, None) \<Rightarrow> Inl AssertError
             | (None, Some l) \<Rightarrow> bindE (chinese_monthOfCode d l r) (\<lambda>(a, l). Inr (a, s, l))
             | (Some a, None) \<Rightarrow> chinese_monthOfIndex d a s r
             | (Some a, Some l) \<Rightarrow> (case map_of d (monthKey l) of
                   None \<Rightarrow> Inl RangeError
                 | Some (i, _) \<Rightarrow> bindE (throwIf (a \<noteq> i) RangeError) (\<lambda>_. Inr (a, s, l))))) (\<lambda>(a, s, l).
             ret (e\<lparr>fYear := n, fEraYear := y, fMonth := Some a, fMonthCode := Some l, fDay := Some s\<rparr>))))))"

definition ChineseBaseHelper :: "string \<Rightarrow> (iso_date \<Rightarrow> (string \<times> string) list result) \<Rightarrow> helper" where
  "ChineseBaseHelper id1 pr =
     helperOf (chinese_data id1 pr) pr (chinese_adjustCalendarDate id1 pr) (\<lambda>_. ret 29) (\<lambda>_. ret 30) chinese_estimateIsoDate
       None (\<lambda>_. Inr ())"

section \<open>\<^verbatim>\<open>NonIsoCalendar\<close>\<close>

text \<open>
  The operations, on the cache of the receiver. A Temporal object is its ISO date; an infinite
  \<open>eraYear\<close> is not followed.
\<close>

definition nonIso_fields :: "string list \<Rightarrow> string list" where
  "nonIso_fields e = (if ''year'' \<in> set e then e @ [''era'', ''eraYear''] else e)"

definition calFieldsOf :: "jsval \<Rightarrow> cal_fields result" where
  "calFieldsOf n =
     bindE (case getProp n ''eraYear'' of
         Num x \<Rightarrow> (case x of Fin q \<Rightarrow> Inr (Some \<lfloor>q\<rfloor>) | _ \<Rightarrow> Inl OutsideModel) | _ \<Rightarrow> Inr None) (\<lambda>ey.
     Inr (noFields\<lparr>fYear := intField n ''year'', fMonth := intField n ''month'', fDay := intField n ''day'',
       fMonthCode := strField n ''monthCode'', fEra := strField n ''era'', fEraYear := ey\<rparr>))"

definition nonIso_dateFromFields :: "int \<Rightarrow> helper \<Rightarrow> reads \<Rightarrow> jsval \<Rightarrow> iso_date comp" where
  "nonIso_dateFromFields now H e t =
     bindC (lift (bindE (PrepareTemporalFields e (nonIso_fields [''day'', ''month'', ''monthCode'', ''year'']) (Needs [])) calFieldsOf)) (\<lambda>n.
     bindC (lift (ToTemporalOverflow t)) (\<lambda>a.
     bindC (calendarToIsoDate H n a) (\<lambda>x. lift (CreateTemporalDate now (year x) (month x) (day x)))))"

definition nonIso_yearMonthFromFields :: "helper \<Rightarrow> reads \<Rightarrow> jsval \<Rightarrow> iso_date comp" where
  "nonIso_yearMonthFromFields H e t =
     bindC (lift (bindE (PrepareTemporalFields e (nonIso_fields [''month'', ''monthCode'', ''year'']) (Needs [])) calFieldsOf)) (\<lambda>n.
     bindC (lift (ToTemporalOverflow t)) (\<lambda>a.
     bindC (calendarToIsoDate H (n\<lparr>fDay := Some 1\<rparr>) a) (\<lambda>x. lift (CreateTemporalYearMonth (year x) (month x) (day x)))))"

definition nonIso_monthDayFromFields :: "int \<Rightarrow> helper \<Rightarrow> reads \<Rightarrow> jsval \<Rightarrow> iso_date comp" where
  "nonIso_monthDayFromFields now H e t =
     bindC (lift (bindE (PrepareTemporalFields e (nonIso_fields [''day'', ''month'', ''monthCode'', ''year'']) (Needs [])) calFieldsOf)) (\<lambda>n.
     bindC (lift (ToTemporalOverflow t)) (\<lambda>a.
     bindC (helperMonthDayFromFields H n a) (\<lambda>x. lift (CreateTemporalMonthDay now (month x) (day x) (year x)))))"

definition nonIso_fieldKeysToIgnore :: "bool \<Rightarrow> string list \<Rightarrow> string list" where
  "nonIso_fieldKeysToIgnore midYear e =
     foldl (\<lambda>t o1. let t = addKey t o1; eras = (\<lambda>t. if midYear then addKey (addKey t ''era'') ''eraYear'' else t)
       in if o1 = ''era'' then addKey (addKey t ''eraYear'') ''year''
          else if o1 = ''eraYear'' then addKey (addKey t ''era'') ''year''
          else if o1 = ''year'' then addKey (addKey t ''era'') ''eraYear''
          else if o1 = ''month'' then eras (addKey t ''monthCode'')
          else if o1 = ''monthCode'' then eras (addKey t ''month'')
          else if o1 = ''day'' then eras t else t) [] e"

definition nonIso_dateAdd :: "int \<Rightarrow> helper \<Rightarrow> iso_date \<Rightarrow> int \<Rightarrow> int \<Rightarrow> int \<Rightarrow> int \<Rightarrow> overflow \<Rightarrow> iso_date comp" where
  "nonIso_dateAdd now H e t r o1 n a =
     bindC (isoToCalendarDate H e) (\<lambda>l. bindC (addCalendar H l t r o1 n a) (\<lambda>d.
     bindC (calendarToIsoDate H d Constrain) (\<lambda>x. lift (CreateTemporalDate now (year x) (month x) (day x)))))"

text \<open>The cache of the second date is another one; both start empty here.\<close>

definition nonIso_dateUntil :: "helper \<Rightarrow> iso_date \<Rightarrow> iso_date \<Rightarrow> tunit \<Rightarrow> date_duration comp" where
  "nonIso_dateUntil H e t r =
     bindC (isoToCalendarDate H e) (\<lambda>a.
     bindC (lift (bindE (isoToCalendarDate H t emptyCache) (\<lambda>(i, _). Inr i))) (\<lambda>i. untilCalendar H a i r))"

definition nonIso_year :: "helper \<Rightarrow> iso_date \<Rightarrow> int comp" where
  "nonIso_year H e = bindC (isoToCalendarDate H e) (\<lambda>x. field (fYear x))"

definition nonIso_month :: "helper \<Rightarrow> iso_date \<Rightarrow> int comp" where
  "nonIso_month H e = bindC (isoToCalendarDate H e) (\<lambda>x. field (fMonth x))"

definition nonIso_day :: "helper \<Rightarrow> iso_date \<Rightarrow> int comp" where
  "nonIso_day H e = bindC (isoToCalendarDate H e) (\<lambda>x. field (fDay x))"

definition nonIso_era :: "helper \<Rightarrow> iso_date \<Rightarrow> string option comp" where
  "nonIso_era H e = (if \<not> hHasEra H then ret None else bindC (isoToCalendarDate H e) (\<lambda>x. ret (fEra x)))"

definition nonIso_eraYear :: "helper \<Rightarrow> iso_date \<Rightarrow> int option comp" where
  "nonIso_eraYear H e = (if \<not> hHasEra H then ret None else bindC (isoToCalendarDate H e) (\<lambda>x. ret (fEraYear x)))"

definition nonIso_monthCode :: "helper \<Rightarrow> iso_date \<Rightarrow> string comp" where
  "nonIso_monthCode H e = bindC (isoToCalendarDate H e) (\<lambda>x. field (fMonthCode x))"

text \<open>
  The object itself goes to \<^verbatim>\<open>isoToCalendarDate\<close>, which reads its properties: those are the year,
  the month and the day in the calendar.
\<close>

definition nonIso_dayOfYear :: "helper \<Rightarrow> iso_date \<Rightarrow> int comp" where
  "nonIso_dayOfYear H e =
     bindC (nonIso_year H e) (\<lambda>y. bindC (nonIso_month H e) (\<lambda>m. bindC (nonIso_day H e) (\<lambda>d.
     bindC (isoToCalendarDate H (mkDate y m d)) (\<lambda>r.
     bindC (calendarDaysUntil H (startOfCalendarYear r) r) (\<lambda>n. ret (n + 1))))))"

definition nonIso_daysInMonth :: "helper \<Rightarrow> iso_date \<Rightarrow> int comp" where
  "nonIso_daysInMonth H e =
     bindC (isoToCalendarDate H e) (\<lambda>r. bindC (hMaxLength H r) (\<lambda>o1. bindC (hMinLength H r) (\<lambda>k.
     if o1 = k then ret o1
     else
       let n = startOfCalendarMonth r
       in bindC (addMonthsCalendar H n 1 Constrain) (\<lambda>a. calendarDaysUntil H n a))))"

definition nonIso_daysInYear :: "helper \<Rightarrow> iso_date \<Rightarrow> int comp" where
  "nonIso_daysInYear H e =
     bindC (isoToCalendarDate H e) (\<lambda>o1. let n = startOfCalendarYear o1
     in bindC (addCalendar H n 1 0 0 0 Constrain) (\<lambda>a. calendarDaysUntil H n a))"

definition nonIso_monthsInYear :: "helper \<Rightarrow> iso_date \<Rightarrow> int comp" where
  "nonIso_monthsInYear H e = bindC (isoToCalendarDate H e) (hMonths H)"

definition nonIso_inLeapYear :: "helper \<Rightarrow> (cal_fields \<Rightarrow> bool comp) \<Rightarrow> iso_date \<Rightarrow> bool comp" where
  "nonIso_inLeapYear H leap e = bindC (isoToCalendarDate H e) leap"

text \<open>The getters that give a number, by name.\<close>

definition nonIso_number :: "helper \<Rightarrow> string \<Rightarrow> iso_date \<Rightarrow> int comp" where
  "nonIso_number H k e =
     (if k = ''year'' then nonIso_year H e else if k = ''month'' then nonIso_month H e else if k = ''day'' then nonIso_day H e
      else if k = ''dayOfYear'' then nonIso_dayOfYear H e else if k = ''daysInMonth'' then nonIso_daysInMonth H e
      else if k = ''daysInYear'' then nonIso_daysInYear H e else if k = ''monthsInYear'' then nonIso_monthsInYear H e
      else lift (iso8601_number k e))"

section \<open>The built-in calendars\<close>

text \<open>Every call starts with an empty cache.\<close>

definition runCalendar :: "'a comp \<Rightarrow> 'a result" where
  "runCalendar f = bindE (f emptyCache) (\<lambda>(x, _). Inr x)"

definition nonIsoBuiltin :: "int \<Rightarrow> helper \<Rightarrow> (cal_fields \<Rightarrow> bool comp) \<Rightarrow> builtin_calendar" where
  "nonIsoBuiltin now H leap = \<lparr>
     bcNumber = (\<lambda>k e. runCalendar (nonIso_number H k e)),
     bcMonthCode = (\<lambda>e. runCalendar (nonIso_monthCode H e)),
     bcEra = (\<lambda>e. runCalendar (nonIso_era H e)), bcEraYear = (\<lambda>e. runCalendar (nonIso_eraYear H e)),
     bcInLeapYear = (\<lambda>e. runCalendar (nonIso_inLeapYear H leap e)),
     bcFields = (\<lambda>t. Calendar_fields nonIso_fields (map Str t)),
     bcMergeFields = Calendar_mergeFields (nonIso_fieldKeysToIgnore (hErasMidYear H)),
     bcDateAdd = (\<lambda>e n ov. bindE (GetOptionsObject ov) (\<lambda>r. bindE (ToTemporalOverflow r) (\<lambda>a.
       bindE (BalanceDurationPlain (days n) (hours n) (minutes n) (seconds n) (milliseconds n) (microseconds n) (nanoseconds n) Day) (\<lambda>b.
         runCalendar (nonIso_dateAdd now H e (years n) (months n) (weeks n) (bDays b) a))))),
     bcDateUntil = (\<lambda>x y ov. bindE (GetOptionsObject ov) (\<lambda>r.
       bindE (GetTemporalUnit r ''largestUnit'' ''date'' (Default ''auto'') []) (\<lambda>u.
       bindE (runCalendar (nonIso_dateUntil H x y (case Option.bind u unitOfName of Some v \<Rightarrow> v | None \<Rightarrow> Day))) (\<lambda>d.
         CreateDuration (years d) (months d) (weeks d) (days d) 0 0 0 0 0 0)))),
     bcDateFromFields = (\<lambda>e ov. bindE (GetOptionsObject ov) (\<lambda>r. runCalendar (nonIso_dateFromFields now H e r))),
     bcYearMonthFromFields = (\<lambda>e ov. bindE (GetOptionsObject ov) (\<lambda>r. runCalendar (nonIso_yearMonthFromFields H e r))),
     bcMonthDayFromFields = (\<lambda>e ov. bindE (GetOptionsObject ov) (\<lambda>r. runCalendar (nonIso_monthDayFromFields now H e r)))\<rparr>"

text \<open>What the calendars use of \<^verbatim>\<open>Intl\<close>: the parts printed in each calendar, and the bugs of the host
  that the constructors look for.\<close>

record intl =
  iParts :: "string \<Rightarrow> iso_date \<Rightarrow> (string \<times> string) list result"
  iBceBug :: bool
  iJulianBug :: bool

text \<open>The loop that makes the calendars, in its order. A constructor that throws stops it.\<close>

definition calendarHelpers :: "intl \<Rightarrow> (string \<times> helper result \<times> (helper \<Rightarrow> cal_fields \<Rightarrow> bool comp)) list" where
  "calendarHelpers I =
     (let p = iParts I; b = iJulianBug I;
          greg = (\<lambda>H e. bindC (hEstimate H (noFields\<lparr>fMonth := Some 1, fDay := Some 1, fYear := fYear e\<rparr>)) (\<lambda>t. ret (isGregorianLeapYear (year t))));
          orth = (\<lambda>H e. bindC (field (fYear e)) (\<lambda>y. ret (orthodox_inLeapYear y)));
          isl = (\<lambda>i. (i, Inr (IslamicBaseHelper i (p i)), islamic_inLeapYear));
          chin = (\<lambda>i. (i, Inr (ChineseBaseHelper i (p i)), \<lambda>H. chinese_inLeapYear i (p i)))
      in [(''hebrew'', Inr (HebrewHelper (p ''hebrew'')), \<lambda>H. hebrew_leap),
          (''persian'', Inr (PersianHelper (p ''persian'')), islamic_inLeapYear),
          (''ethiopic'', EthiopicHelper (p ''ethiopic''), orth),
          (''ethioaa'', EthioaaHelper (p ''ethioaa''), orth),
          (''coptic'', CopticHelper (p ''coptic''), orth),
          chin ''chinese'', chin ''dangi'',
          (''roc'', RocHelper b (p ''roc''), greg),
          (''indian'', Inr (IndianHelper (iBceBug I) (p ''indian'')), \<lambda>H. indian_leap),
          (''buddhist'', BuddhistHelper b (p ''buddhist''), greg),
          (''gregory'', GregoryHelper b (p ''gregory''), greg),
          (''japanese'', JapaneseHelper b (p ''japanese''), greg),
          isl ''islamic'', isl ''islamic-umalqura'', isl ''islamic-tbla'', isl ''islamic-civil'', isl ''islamic-rgsa'', isl ''islamicc''])"

fun loadCalendars :: "int \<Rightarrow> (string \<times> helper result \<times> (helper \<Rightarrow> cal_fields \<Rightarrow> bool comp)) list \<Rightarrow> (string \<times> builtin_calendar) list result" where
  "loadCalendars now [] = Inr []"
| "loadCalendars now ((i, r, leap) # cs) =
     bindE r (\<lambda>H. bindE (loadCalendars now cs) (\<lambda>l. Inr ((hId H, nonIsoBuiltin now H (leap H)) # l)))"

text \<open>The table \<^verbatim>\<open>Ot\<close>.\<close>

definition builtinTable :: "int \<Rightarrow> intl \<Rightarrow> (string \<times> builtin_calendar) list result" where
  "builtinTable now I = bindE (loadCalendars now (calendarHelpers I)) (\<lambda>l. Inr ((''iso8601'', isoBuiltin now) # l))"

end
