(* ===== verification/Non_Iso_Props.thy ===== *)
theory Non_Iso_Props imports Non_Iso_Calendars begin

text \<open>
  The tables of the calendars: every identifier has a calendar, the leap years of the Hebrew
  calendar, the months of the Indian calendar.
\<close>

section \<open>Every built-in calendar is made\<close>

lemma eras_accepted:
  "\<exists>r. adjustEras [mkEra ''era0'' (Some (-5492, 7, 17)) None None False] = Inr r"
  "\<exists>r. adjustEras [mkEra ''era1'' (Some (284, 8, 29)) None None False, mkEra ''era0'' None None (Some ''era1'') False] = Inr r"
  "\<exists>r. adjustEras [mkEra ''era0'' (Some (-5492, 7, 17)) None None False, mkEra ''era1'' (Some (8, 8, 27)) (Some (5501, 1, 1)) None False] = Inr r"
  "\<exists>r. adjustEras [mkEra ''minguo'' (Some (1912, 1, 1)) None None False, mkEra ''before-roc'' None None (Some ''minguo'') False] = Inr r"
  "\<exists>r. adjustEras [mkEra ''be'' (Some (-543, 1, 1)) None None True] = Inr r"
  "\<exists>r. adjustEras [mkEra ''ce'' (Some (1, 1, 1)) None None False, mkEra ''bce'' None None (Some ''ce'') False] = Inr r"
  "\<exists>r. adjustEras japaneseEras = Inr r"
  by (rule exI, code_simp)+

lemma GregorianBaseHelper_made:
  "\<exists>r. adjustEras l = Inr r \<Longrightarrow> \<exists>H. GregorianBaseHelper i md l v b rv pr = Inr H \<and> hId H = i"
  by (auto simp: GregorianBaseHelper_def gregorianData_def Let_def)

lemma OrthodoxBaseHelper_made:
  "\<exists>r. adjustEras l = Inr r \<Longrightarrow> \<exists>H. OrthodoxBaseHelper i l pr = Inr H \<and> hId H = i"
  by (auto simp: OrthodoxBaseHelper_def gregorianData_def Let_def)

lemma helpers_made:
  "\<exists>H. EthioaaHelper pr = Inr H \<and> hId H = ''ethioaa''" "\<exists>H. CopticHelper pr = Inr H \<and> hId H = ''coptic''"
  "\<exists>H. EthiopicHelper pr = Inr H \<and> hId H = ''ethiopic''" "\<exists>H. RocHelper b pr = Inr H \<and> hId H = ''roc''"
  "\<exists>H. BuddhistHelper b pr = Inr H \<and> hId H = ''buddhist''" "\<exists>H. GregoryHelper b pr = Inr H \<and> hId H = ''gregory''"
  "\<exists>H. JapaneseHelper b pr = Inr H \<and> hId H = ''japanese''"
  unfolding EthioaaHelper_def CopticHelper_def EthiopicHelper_def RocHelper_def BuddhistHelper_def GregoryHelper_def JapaneseHelper_def
  by (rule OrthodoxBaseHelper_made GregorianBaseHelper_made, rule eras_accepted)+

lemma loadCalendars_ids:
  assumes "\<forall>(i, r, f) \<in> set cs. \<exists>H. r = Inr H \<and> hId H = i"
  shows "\<exists>l. loadCalendars now cs = Inr l \<and> map fst l = map fst cs"
  using assms
proof (induction cs)
  case (Cons c cs)
  obtain i r f where c: "c = (i, r, f)" by (cases c)
  then obtain H where "r = Inr H" "hId H = i" using Cons.prems by auto
  with c Cons show ?case by auto
qed simp

text \<open>C7: the era tables of all calendars are accepted by the constructors, so that loading the
  program makes a calendar for every identifier that \<^verbatim>\<open>IsBuiltinCalendar\<close> knows, and for no other.\<close>

theorem builtin_calendars_load:
  "\<exists>l. builtinTable now I = Inr l \<and> distinct (map fst l) \<and> (\<forall>i. i \<in> fst ` set l \<longleftrightarrow> i \<in> set builtinCalendars)"
proof -
  have "\<exists>l. loadCalendars now (calendarHelpers I) = Inr l \<and> map fst l = map fst (calendarHelpers I)"
    by (rule loadCalendars_ids)
      (use helpers_made in \<open>auto simp: calendarHelpers_def Let_def HebrewHelper_def hebrew_data_def PersianHelper_def
         IslamicBaseHelper_def ChineseBaseHelper_def chinese_data_def IndianHelper_def indian_data_def eraData_def\<close>)
  then obtain l where l: "loadCalendars now (calendarHelpers I) = Inr l" "map fst l = map fst (calendarHelpers I)" by blast
  have f: "map fst (calendarHelpers I) = [''hebrew'', ''persian'', ''ethiopic'', ''ethioaa'', ''coptic'', ''chinese'', ''dangi'',
      ''roc'', ''indian'', ''buddhist'', ''gregory'', ''japanese'', ''islamic'', ''islamic-umalqura'', ''islamic-tbla'',
      ''islamic-civil'', ''islamic-rgsa'', ''islamicc'']"
    by (simp add: calendarHelpers_def Let_def)
  have s: "fst ` set l = set (map fst l)" by simp
  show ?thesis
    by (rule exI [of _ "(''iso8601'', isoBuiltin now) # l"])
      (auto simp: builtinTable_def l(1) l(2) s f builtinCalendars_def)
qed

section \<open>The Hebrew calendar\<close>

text \<open>C9: from the year 0 on the leap years of the Hebrew calendar are the seven years of each
  cycle of 19 that tradition has, but because the remainder of a negative Number is negative, every
  year before is a leap year with 13 months.\<close>

theorem hebrew_leap_years:
  assumes "\<bar>y\<bar> \<le> 2 ^ 49"
  shows "hebrew_inLeapYear y \<longleftrightarrow> y < 0 \<or> y mod 19 \<in> {0, 3, 6, 8, 11, 14, 17}"
proof -
  have n: "nadd (nmul 7 y) 1 = 7 * y + 1"
    using assms by (simp add: nmul_safe nadd_safe)
  show ?thesis
  proof (cases "y < 0")
    case True
    then have "tmod (7 * y + 1) 19 \<le> 0" by (intro tmod_bounds(4)) simp_all
    then show ?thesis using True by (simp add: hebrew_inLeapYear_def n)
  next
    case False
    then have "hebrew_inLeapYear y \<longleftrightarrow> (7 * y + 1) mod 19 < 7" by (simp add: hebrew_inLeapYear_def n)
    also have "(7 * y + 1) mod 19 = (7 * (y mod 19) + 1) mod 19"
      by (metis mod_add_left_eq mod_mult_right_eq)
    finally have e: "hebrew_inLeapYear y \<longleftrightarrow> (7 * (y mod 19) + 1) mod 19 < 7" .
    have "0 \<le> y mod 19" "y mod 19 < 19" by simp_all
    then have "y mod 19 \<in> {0, 1, 2, 3, 4, 5, 6, 7, 8, 9, 10, 11, 12, 13, 14, 15, 16, 17, 18}"
      unfolding insert_iff empty_iff by presburger
    then show ?thesis using False unfolding e insert_iff empty_iff by (elim disjE) simp_all
  qed
qed

theorem hebrew_leap_years_witness: "hebrew_inLeapYear (-1) \<and> \<not> hebrew_inLeapYear 18"
  using hebrew_leap_years [of "-1"] hebrew_leap_years [of 18] by simp

section \<open>The Indian calendar\<close>

lemma isGregorianLeapYear_iff: "isGregorianLeapYear y \<longleftrightarrow> InLeapYear y"
  by (simp add: isGregorianLeapYear_def InLeapYear_def tmod_eq_0_iff)

definition indianRow :: "int \<Rightarrow> int \<Rightarrow> indian_month" where
  "indianRow y m = (case indian_getMonthInfo y m of Inr r \<Rightarrow> r | Inl _ \<Rightarrow> indianMonth 0 0 0 False)"

text \<open>The ISO date of the first of a month.\<close>

definition indianStart :: "int \<Rightarrow> int \<Rightarrow> iso_date" where
  "indianStart y m = (let r = indianRow y m in mkDate (y + 78 + (if imNextYear r then 1 else 0)) (imMonth r) (imDay r))"

lemma year_size:
  assumes "\<bar>k\<bar> \<le> 2 ^ 40"
  shows "\<bar>year (dateOfDay k)\<bar> \<le> 2 ^ 40"
proof -
  have "DayFromYear (2 ^ 40 + 1) > 2 ^ 40" "DayFromYear (- (2 ^ 40)) \<le> - (2 ^ 40)" by code_simp+
  then show ?thesis
    using epochDay_year_less [of "dateOfDay k" "2 ^ 40 + 1"] epochDay_year_less [of "dateOfDay k" "- (2 ^ 40)"] assms
    by (auto simp: abs_le_iff intro: leI ccontr)
qed

lemma month_cases_1:
  fixes m :: int
  assumes "1 \<le> m" "m \<le> 12"
  obtains "m = 1" | "m = 2" | "m = 3" | "m = 4" | "m = 5" | "m = 6" | "m = 7" | "m = 8" | "m = 9" | "m = 10" | "m = 11" | "m = 12"
proof -
  have "m = 1 \<or> m = 2 \<or> m = 3 \<or> m = 4 \<or> m = 5 \<or> m = 6 \<or> m = 7 \<or> m = 8 \<or> m = 9 \<or> m = 10 \<or> m = 11 \<or> m = 12"
    using assms by arith
  then show ?thesis using that by blast
qed

lemma indian_info:
  assumes "\<bar>y\<bar> \<le> 300000" "1 \<le> m" "m \<le> 12"
  shows "indian_getMonthInfo y m = Inr (indianRow y m)" "indian_inLeapYear y = InLeapYear (y + 78)"
    "validDate (indianStart y m)" "\<bar>year (indianStart y m)\<bar> \<le> 400000"
    "year (indianStart y m) = y + 78 + (if imNextYear (indianRow y m) then 1 else 0)"
    "month (indianStart y m) = imMonth (indianRow y m)" "day (indianStart y m) = imDay (indianRow y m)"
proof -
  show l: "indian_inLeapYear y = InLeapYear (y + 78)"
    using assms(1) by (simp add: indian_inLeapYear_def isGregorianLeapYear_iff nadd_safe)
  show i: "indian_getMonthInfo y m = Inr (indianRow y m)"
    using assms(2,3) by (cases rule: month_cases_1) (simp_all add: indianRow_def indian_getMonthInfo_def indianMonths_def)
  show "validDate (indianStart y m)"
    using assms(2,3)
    by (cases rule: month_cases_1)
      (simp_all add: indianStart_def indianRow_def indian_getMonthInfo_def indianMonths_def indianMonth_def validDate_def
        ISODaysInMonth_eq MonthLength_def)
  show "year (indianStart y m) = y + 78 + (if imNextYear (indianRow y m) then 1 else 0)"
    "month (indianStart y m) = imMonth (indianRow y m)" "day (indianStart y m) = imDay (indianRow y m)"
    by (simp_all add: indianStart_def Let_def)
  show "\<bar>year (indianStart y m)\<bar> \<le> 400000"
    using assms(1) unfolding indianStart_def Let_def iso_date.simps by (cases "imNextYear (indianRow y m)") auto
qed

lemma indian_isoDate_eq:
  assumes "\<bar>y\<bar> \<le> 300000" "1 \<le> m" "m \<le> 12" "1 \<le> d" "d \<le> 100"
  shows "indian_isoDate y m d = Inr (dateOfDay (epochDay (indianStart y m) + (d - 1)))"
proof -
  note i = indian_info [OF assms(1-3)]
  have "indian_isoDate y m d =
      AddISODate (year (indianStart y m)) (month (indianStart y m)) (day (indianStart y m)) 0 0 0 (d - 1) Constrain"
    using assms by (simp add: indian_isoDate_def i(1) i(5-7) nadd_safe nsub_safe)
  also have "\<dots> = Inr (dateOfDay (epochDay (indianStart y m) + (d - 1)))"
    by (subst AddISODate_constrain) (use assms i(3,4) in simp_all)
  finally show ?thesis .
qed

text \<open>Each month starts where the one before ends.\<close>

lemma indian_consecutive:
  assumes "\<bar>y\<bar> \<le> 299999" "1 \<le> m" "m \<le> 12"
  shows "epochDay (indianStart y m) + imLength (indianRow y m)
    = epochDay (if m = 12 then indianStart (y + 1) 1 else indianStart y (m + 1))"
proof -
  have y: "\<bar>y\<bar> \<le> 300000" "\<bar>y + 1\<bar> \<le> 300000" using assms(1) by simp_all
  have l: "indian_inLeapYear y = InLeapYear (y + 78)" "indian_inLeapYear (y + 1) = InLeapYear (79 + y)"
    using y by (simp_all add: indian_inLeapYear_def isGregorianLeapYear_iff nadd_safe algebra_simps)
  have s: "DayFromYear (79 + y) = DayFromYear (y + 78) + (if InLeapYear (y + 78) then 366 else 365)"
    using DayFromYear_Suc [of "y + 78"] by (simp add: DaysInYear_def add.commute)
  show ?thesis
    using assms(2,3)
    by (cases rule: month_cases_1)
      (simp_all add: indianStart_def indianRow_def indian_getMonthInfo_def indianMonths_def indianMonth_def epochDay_def
        MakeDay_month MonthStart_def l s)
qed

text \<open>C8: in the Indian calendar the days of a year follow each other: the ISO date of each day
  of a month is the day after that of the day before, and the day after the last of a month is the first
  of the next month, or of the next year.\<close>

theorem indian_days_follow:
  assumes "\<bar>y\<bar> \<le> 299999" "1 \<le> m" "m \<le> 12" "1 \<le> d" "indian_monthLength y m = Inr n" "d \<le> n"
  shows "bindE (indian_isoDate y m d) (\<lambda>x. addDaysIso x 1) =
    (if d < n then indian_isoDate y m (d + 1) else if m = 12 then indian_isoDate (y + 1) 1 1 else indian_isoDate y (m + 1) 1)"
proof -
  have y: "\<bar>y\<bar> \<le> 300000" "\<bar>y + 1\<bar> \<le> 300000" using assms(1) by simp_all
  have n: "n = imLength (indianRow y m)"
    using assms(5) by (simp add: indian_monthLength_def indian_info(1) [OF y(1) assms(2,3)])
  have "n \<le> 31"
    unfolding n using assms(2,3)
    by (cases rule: month_cases_1) (simp_all add: indianRow_def indian_getMonthInfo_def indianMonths_def indianMonth_def)
  then have d: "d \<le> 100" "d + 1 \<le> 100" using assms(6) by simp_all
  define k where "k = epochDay (indianStart y m) + (d - 1)"
  have k: "indian_isoDate y m d = Inr (dateOfDay k)"
    unfolding k_def by (rule indian_isoDate_eq) (use y assms d in simp_all)
  have "\<bar>DayFromYear (year (indianStart y m))\<bar> \<le> 366 * 500000"
    using DayFromYear_le_iff [of "-400000" "year (indianStart y m)"] DayFromYear_le_iff [of "year (indianStart y m)" 400000]
      indian_info(4) [OF y(1) assms(2,3)] by (simp add: DayFromYear_def [of "-400000"] DayFromYear_def [of 400000] abs_le_iff)
  then have "\<bar>epochDay (indianStart y m)\<bar> \<le> 366 * 500000 + 366"
    using validDate_year_bounds [OF indian_info(3) [OF y(1) assms(2,3)]] DayFromYear_Suc [of "year (indianStart y m)"]
      DaysInYear_range [of "year (indianStart y m)"] by linarith
  then have b: "\<bar>year (dateOfDay k)\<bar> \<le> 2 ^ 40" using d assms(4) by (intro year_size) (simp add: k_def)
  have "addDaysIso (dateOfDay k) 1 = Inr (dateOfDay (k + 1))"
    unfolding addDaysIso_def by (subst AddISODate_constrain) (use b in simp_all)
  with k have "bindE (indian_isoDate y m d) (\<lambda>x. addDaysIso x 1) = Inr (dateOfDay (epochDay (indianStart y m) + d))"
    by (simp add: k_def)
  moreover have "indian_isoDate y m (d + 1) = Inr (dateOfDay (epochDay (indianStart y m) + d))"
    using indian_isoDate_eq [OF y(1) assms(2,3) _ d(2)] assms(4) by simp
  moreover have "m = 12 \<Longrightarrow> indian_isoDate (y + 1) 1 1 = Inr (dateOfDay (epochDay (indianStart (y + 1) 1)))"
    using indian_isoDate_eq [OF y(2), of 1 1] by simp
  moreover have "m \<noteq> 12 \<Longrightarrow> indian_isoDate y (m + 1) 1 = Inr (dateOfDay (epochDay (indianStart y (m + 1))))"
    using indian_isoDate_eq [OF y(1), of "m + 1" 1] assms(2,3) by simp
  ultimately show ?thesis
    using indian_consecutive [OF assms(1-3)] assms(6) by (auto simp: n)
qed

theorem indian_days_follow_witness:
  "bindE (indian_isoDate 1941 12 30) (\<lambda>x. addDaysIso x 1) = indian_isoDate 1942 1 1"
  using indian_days_follow [of 1941 12 30 30] by (simp add: indian_monthLength_def indian_getMonthInfo_def indianMonths_def indianMonth_def)

end
