(* ===== verification/Non_Iso_Search.thy ===== *)
theory Non_Iso_Search imports Non_Iso_Props begin

text \<open>
  The search for the ISO date of a calendar date: when the host prints the days of a calendar in
  order, the search returns, and returns the day that is printed as the date, whatever the cache holds
  that the calendar has put into it.
\<close>

section \<open>The days of a calendar\<close>

text \<open>The year, month and day of a day number, as the helper reads them.\<close>

definition ymd :: "cal_fields \<Rightarrow> (int \<times> int \<times> int) option" where
  "ymd c = (case (fYear c, fMonth c, fDay c) of (Some y, Some m, Some d) \<Rightarrow> Some (y, m, d) | _ \<Rightarrow> None)"

definition view :: "helper \<Rightarrow> int \<Rightarrow> (int \<times> int \<times> int) option" where
  "view H k = (case runCalendar (isoToCalendarDate H (dateOfDay k)) of Inl _ \<Rightarrow> None | Inr c \<Rightarrow> ymd c)"

text \<open>The next day of the month, or a day of a later month.\<close>

fun follows :: "int \<times> int \<times> int \<Rightarrow> int \<times> int \<times> int \<Rightarrow> bool" where
  "follows (y, m, d) (y', m', d') \<longleftrightarrow> (y', m', d') = (y, m, d + 1) \<or> y < y' \<or> y = y' \<and> m < m'"

text \<open>The order of calendar dates, and the bounds within which Numbers are exact.\<close>

fun before :: "int \<times> int \<times> int \<Rightarrow> int \<times> int \<times> int \<Rightarrow> bool" where
  "before (y, m, d) (y', m', d') \<longleftrightarrow> y < y' \<or> y = y' \<and> (m < m' \<or> m = m' \<and> d < d')"

fun smallDate :: "int \<times> int \<times> int \<Rightarrow> bool" where
  "smallDate (y, m, d) \<longleftrightarrow> \<bar>y\<bar> \<le> 2 ^ 32 \<and> 1 \<le> m \<and> m \<le> 2 ^ 16 \<and> 1 \<le> d \<and> d \<le> 2 ^ 16"

definition dayCalendar :: "helper \<Rightarrow> int \<Rightarrow> int \<Rightarrow> bool" where
  "dayCalendar H lo hi \<longleftrightarrow>
     - (2 ^ 39) \<le> lo \<and> hi \<le> 2 ^ 39 \<and>
     (\<forall>k. lo \<le> k \<and> k \<le> hi \<longrightarrow> (\<exists>x. view H k = Some x \<and> smallDate x)) \<and>
     (\<forall>k x y. lo \<le> k \<and> k < hi \<and> view H k = Some x \<and> view H (k + 1) = Some y \<longrightarrow> follows x y) \<and>
     (\<forall>m s. hAdjust H m Constrain True s = bindE (hAdjust H m Constrain True emptyCache) (\<lambda>(c, _). Inr (c, s)))"

lemma dayCalendar_bounds: "dayCalendar H lo hi \<Longrightarrow> lo \<le> k \<Longrightarrow> k \<le> hi \<Longrightarrow> \<bar>k\<bar> \<le> 2 ^ 39"
  unfolding dayCalendar_def abs_le_iff by linarith

lemma dayCalendar_view:
  "dayCalendar H lo hi \<Longrightarrow> lo \<le> k \<Longrightarrow> k \<le> hi \<Longrightarrow> \<exists>x. view H k = Some x \<and> smallDate x"
  unfolding dayCalendar_def by blast

lemma dayCalendar_follows:
  "dayCalendar H lo hi \<Longrightarrow> lo \<le> k \<Longrightarrow> k < hi \<Longrightarrow> view H k = Some x \<Longrightarrow> view H (k + 1) = Some y \<Longrightarrow> follows x y"
  unfolding dayCalendar_def by blast

lemma dayCalendar_adjust:
  "dayCalendar H lo hi \<Longrightarrow> hAdjust H m Constrain True s = bindE (hAdjust H m Constrain True emptyCache) (\<lambda>(c, _). Inr (c, s))"
  unfolding dayCalendar_def by blast

text \<open>Days are in order, and the days of one month are consecutive.\<close>

lemma view_order:
  assumes H: "dayCalendar H lo hi" and "lo \<le> j" "j < k" "k \<le> hi" and j: "view H j = Some (y, m, d)"
  shows "view H k = Some (y', m', d') \<Longrightarrow>
    before (y, m, d) (y', m', d') \<and> ((y', m') = (y, m) \<longrightarrow> d' - d = k - j)"
proof -
  have "j + 1 \<le> k" using assms(3) by simp
  then have "k \<le> hi \<Longrightarrow> view H k = Some (y', m', d') \<Longrightarrow>
      before (y, m, d) (y', m', d') \<and> ((y', m') = (y, m) \<longrightarrow> d' - d = k - j)"
  proof (induction k arbitrary: y' m' d' rule: int_ge_induct)
    case base
    then show ?case using dayCalendar_follows [OF H assms(2) _ j base(2)] by auto
  next
    case (step i)
    obtain a b c where i: "view H i = Some (a, b, c)"
      using dayCalendar_view [OF H, of i] step assms(2) by auto
    have f: "follows (a, b, c) (y', m', d')"
      by (rule dayCalendar_follows [OF H _ _ i step(4)]) (use step assms(2) in simp_all)
    have "before (y, m, d) (a, b, c) \<and> ((a, b) = (y, m) \<longrightarrow> c - d = i - j)"
      by (rule step.IH [OF _ i]) (use step in simp)
    then show ?case using f by auto
  qed
  then show "view H k = Some (y', m', d') \<Longrightarrow> ?thesis" using assms(4) by blast
qed

lemma view_unique:
  assumes H: "dayCalendar H lo hi" and k: "lo \<le> j" "j \<le> hi" "lo \<le> k" "k \<le> hi"
    and v: "view H k = Some (y, m, d)" "view H j = Some (y, m, d)"
  shows "j = k"
  using view_order [OF H k(1) _ k(4) v(2,1)] view_order [OF H k(3) _ k(2) v] by (cases j k rule: linorder_cases) auto

text \<open>Comparing calendar dates compares the days.\<close>

lemma compare_days:
  assumes H: "dayCalendar H lo hi" and k: "lo \<le> j" "j \<le> hi" "lo \<le> k" "k \<le> hi"
    and c: "view H j = Some x" "view H k = Some y" "ymd n = Some x" "ymd u = Some y"
  shows "compareCalendarDates n u = Inr (sgn (j - k))"
proof -
  obtain a b e where x: "x = (a, b, e)" by (cases x)
  obtain a' b' e' where y: "y = (a', b', e')" by (cases y)
  have s: "smallDate x" "smallDate y" using dayCalendar_view [OF H] k c by (metis option.inject)+
  have n: "fYear n = Some a" "fMonth n = Some b" "fDay n = Some e" "fYear u = Some a'" "fMonth u = Some b'" "fDay u = Some e'"
    using c(3,4) x y by (auto simp: ymd_def split: option.splits)
  have "CompareISODate a b e a' b' e' = sgn (j - k)"
  proof (cases j k rule: linorder_cases)
    case less
    then have "before (a, b, e) (a', b', e')" using view_order [OF H k(1) less k(4)] c x y by blast
    then show ?thesis using less by (auto simp: CompareISODate_def ComparisonResult_def)
  next
    case equal
    then show ?thesis using c x y by (simp add: CompareISODate_def ComparisonResult_def)
  next
    case greater
    then have "before (a', b', e') (a, b, e)" using view_order [OF H k(3) greater k(2)] c x y by blast
    then show ?thesis using greater by (auto simp: CompareISODate_def ComparisonResult_def)
  qed
  moreover have "\<not> b \<le> 0" "\<not> e \<le> 0" "\<not> b' \<le> 0" "\<not> e' \<le> 0" using s x y by auto
  ultimately show ?thesis by (simp add: compareCalendarDates_def comparedFields_def n orThrow_def)
qed

lemma simpleDateDiff_eq:
  "ymd n = Some (y, m, d) \<Longrightarrow> ymd u = Some (y', m', d') \<Longrightarrow> smallDate (y, m, d) \<Longrightarrow> smallDate (y', m', d') \<Longrightarrow>
    simpleDateDiff n u = Inr (y - y', m - m', d - d')"
  by (auto simp: simpleDateDiff_def ymd_def nsub_safe split: option.splits)

lemma addDaysIso_eq:
  assumes "\<bar>k\<bar> \<le> 2 ^ 39" "\<bar>t\<bar> \<le> 2 ^ 49"
  shows "addDaysIso (dateOfDay k) t = Inr (dateOfDay (k + t))"
proof -
  have "\<bar>year (dateOfDay k)\<bar> \<le> 2 ^ 40" by (rule year_size) (use assms in simp)
  then show ?thesis unfolding addDaysIso_def by (subst AddISODate_constrain) (use assms in simp_all)
qed

section \<open>What the cache holds\<close>

text \<open>Conversions of ISO dates, and for a calendar date that exists its day.\<close>

definition cacheOk :: "helper \<Rightarrow> int \<Rightarrow> int \<Rightarrow> cache \<Rightarrow> bool" where
  "cacheOk H lo hi s \<longleftrightarrow>
     (\<forall>e c. cCal s (hId H, e) = Some c \<longrightarrow> runCalendar (isoToCalendarDate H e) = Inr c) \<and>
     (\<forall>y m d t x k. cIso s (hId H, y, m, d, t) = Some x \<and> lo \<le> k \<and> k \<le> hi \<and> view H k = Some (y, m, d) \<longrightarrow> x = dateOfDay k)"

lemma cacheOk_empty [simp]: "cacheOk H lo hi emptyCache"
  by (simp add: cacheOk_def emptyCache_def)

lemma bind_pair: "bindE (bindE r (\<lambda>x. Inr (x, s))) f = bindE r (\<lambda>x. f (x, s))"
  by (cases r) auto

text \<open>A conversion that is not in the cache does not depend on it.\<close>

lemma isoToCalendarDate_miss:
  assumes H: "dayCalendar H lo hi" and "cCal s (hId H, e) = None"
    and c: "runCalendar (isoToCalendarDate H e) = Inr c" and y: "ymd c = Some (y, m, d)"
  shows "isoToCalendarDate H e s = Inr (c, s\<lparr>cCal := (cCal s)((hId H, e) \<mapsto> c),
      cIso := (cIso s)((hId H, y, m, d, Constrain) \<mapsto> e, (hId H, y, m, d, Reject) \<mapsto> e)\<rparr>)"
proof -
  have f: "fYear c = Some y" "fMonth c = Some m" "fDay c = Some d"
    using y by (auto simp: ymd_def split: option.splits)
  define rv where "rv m = (case hRevise H of None \<Rightarrow> m | Some f \<Rightarrow> (case f m e of (r, y) \<Rightarrow> m\<lparr>fEra := r, fEraYear := y\<rparr>))" for m
  define hp :: "(string \<times> string) list result" where "hp = (case hParts H e of Inl _ \<Rightarrow> Inl RangeError | Inr l \<Rightarrow> Inr l)"
  note unf = isoToCalendarDate_def rv_def [symmetric] hp_def [symmetric] Let_def
  have "cCal emptyCache (hId H, e) = None" by (simp add: emptyCache_def)
  then obtain l m' s' where u: "hp = Inr l" "readParts (hHasEra H) l noFields = Inr m'" "fEraYear m' \<noteq> None"
      "hIcuBugs H e = Inr ()" "hAdjust H (rv m') Constrain True emptyCache = Inr (c, s')"
    using c by (auto simp: runCalendar_def unf bindE_eq_Inr_iff)
  moreover have "hAdjust H (rv m') Constrain True s = Inr (c, s)"
    using u(5) by (subst dayCalendar_adjust [OF H]) simp
  moreover obtain ey where "fEraYear m' = Some ey" using u(3) by auto
  ultimately show ?thesis using assms(2) f by (simp add: unf orThrow_def)
qed

lemma isoToCalendarDate_same:
  assumes H: "dayCalendar H lo hi" and k: "lo \<le> k" "k \<le> hi" and s: "cacheOk H lo hi s"
    and c: "runCalendar (isoToCalendarDate H (dateOfDay k)) = Inr c"
  shows "\<exists>s'. isoToCalendarDate H (dateOfDay k) s = Inr (c, s') \<and> cacheOk H lo hi s'"
proof -
  obtain y m d where v: "view H k = Some (y, m, d)" using dayCalendar_view [OF H k] by auto
  then have x: "ymd c = Some (y, m, d)" using c by (simp add: view_def)
  show ?thesis
  proof (cases "cCal s (hId H, dateOfDay k)")
    case (Some c')
    then have "c' = c" using s c by (auto simp: cacheOk_def)
    then show ?thesis using Some s by (auto simp: isoToCalendarDate_def)
  next
    case None
    let ?s = "s\<lparr>cCal := (cCal s)((hId H, dateOfDay k) \<mapsto> c),
      cIso := (cIso s)((hId H, y, m, d, Constrain) \<mapsto> dateOfDay k, (hId H, y, m, d, Reject) \<mapsto> dateOfDay k)\<rparr>"
    have "j = k" if "lo \<le> j" "j \<le> hi" "view H j = Some (y, m, d)" for j
      using view_unique [OF H that(1,2) k v that(3)] .
    then have "cacheOk H lo hi ?s" using s c by (auto simp: cacheOk_def split: if_splits)
    then show ?thesis using isoToCalendarDate_miss [OF H None c x] by blast
  qed
qed

lemma isoToCalendarDate_day:
  assumes H: "dayCalendar H lo hi" and k: "lo \<le> k" "k \<le> hi" and v: "view H k = Some x" and s: "cacheOk H lo hi s"
  shows "\<exists>c s'. isoToCalendarDate H (dateOfDay k) s = Inr (c, s') \<and> ymd c = Some x \<and> cacheOk H lo hi s'"
proof -
  obtain c where "runCalendar (isoToCalendarDate H (dateOfDay k)) = Inr c" "ymd c = Some x"
    using v by (auto simp: view_def split: sum.splits)
  then show ?thesis using isoToCalendarDate_same [OF H k s] by blast
qed

section \<open>The search\<close>

text \<open>Within the month of the date the days are counted.\<close>

lemma sameMonth_found:
  assumes H: "dayCalendar H lo hi" and k: "lo \<le> j" "j \<le> hi" "lo \<le> k" "k \<le> hi"
    and v: "view H k = Some (a, i, d)" "view H j = Some (a, i, d')"
    and mn: "\<forall>s. \<exists>l. hMinLength H n s = Inr (l, s)" and s: "cacheOk H lo hi s"
  shows "\<exists>s'. calculateSameMonthResult H t n a i d (dateOfDay j) (d - d') s = Inr (dateOfDay k, s') \<and> cacheOk H lo hi s'"
proof -
  have "d - d' = k - j"
    using view_order [OF H k(1) _ k(4) v(2) v(1)] view_order [OF H k(3) _ k(2) v(1) v(2)] v
    by (cases j k rule: linorder_cases) auto
  moreover have "\<bar>j\<bar> \<le> 2 ^ 39" "\<bar>k\<bar> \<le> 2 ^ 39" using dayCalendar_bounds [OF H] k by blast+
  ultimately have a: "addDaysIso (dateOfDay j) (d - d') = Inr (dateOfDay k)"
    by (subst addDaysIso_eq) (simp_all add: abs_le_iff)
  obtain l where l: "hMinLength H n s = Inr (l, s)" using mn by blast
  obtain c s' where c: "isoToCalendarDate H (dateOfDay k) s = Inr (c, s')" "ymd c = Some (a, i, d)" "cacheOk H lo hi s'"
    using isoToCalendarDate_day [OF H k(3,4) v(1) s] by blast
  have "fMonth c = Some i" "fYear c = Some a" using c(2) by (auto simp: ymd_def split: option.splits)
  then have "sameMonthLoop H t i a (dateOfDay k) c s' = Some (Inr (dateOfDay k, s'))"
    by (simp add: sameMonthLoop.simps)
  then show ?thesis
    using a l c s by (auto simp: calculateSameMonthResult_def bindC_def lift_def ret_def loopC_def)
qed

text \<open>One step of the loop ends the search, goes on, or turns around with half the step. At a step of
  one day the loop cannot pass the date.\<close>

lemma searchLoop_found:
  assumes H: "dayCalendar H lo hi" and k: "lo + 8 \<le> k" "k + 8 \<le> hi" and v: "view H k = Some (a, i, d)"
    and n: "ymd n = Some (a, i, d)" and mn: "\<forall>s. \<exists>l. hMinLength H n s = Inr (l, s)"
  shows "lo \<le> j \<Longrightarrow> j \<le> hi \<Longrightarrow> p \<in> {1, 2, 4, 8} \<Longrightarrow> cacheOk H lo hi s \<Longrightarrow>
    \<exists>s'. searchLoop H t n a i d (sgn (k - j)) p (dateOfDay j) u s = Some (Inr (dateOfDay k, s')) \<and> cacheOk H lo hi s'"
proof (induction "(nat p, nat \<bar>k - j\<bar>)" arbitrary: p j u s
    rule: wf_induct_rule [OF wf_lex_prod [OF wf_less_than wf_less_than]])
  case 1
  note IH = 1(1) and j = 1(2,3) and p = 1(4) and s = 1(5)
  show ?case
  proof (cases "j = k")
    case True
    then show ?thesis using s by (simp add: searchLoop.simps)
  next
    case False
    define h where "h = sgn (k - j)"
    define j' where "j' = j + h * p"
    have h: "h = 1 \<and> j < k \<or> h = -1 \<and> k < j" using False by (auto simp: h_def sgn_if)
    have p8: "1 \<le> p" "p \<le> 8" using p by auto
    have j': "lo \<le> j'" "j' \<le> hi" using h p8 j k by (auto simp: j'_def)
    have b: "\<bar>j\<bar> \<le> 2 ^ 39" using dayCalendar_bounds [OF H j] .
    have step: "addDaysIso (dateOfDay j) (h * p) = Inr (dateOfDay j')"
      unfolding j'_def by (rule addDaysIso_eq) (use h p8 b in auto)
    obtain y m e where x: "view H j' = Some (y, m, e)" "smallDate (y, m, e)"
      using dayCalendar_view [OF H j'] by auto
    have sm: "smallDate (a, i, d)" using dayCalendar_view [OF H, of k] v k by auto
    obtain c s' where c: "isoToCalendarDate H (dateOfDay j') s = Inr (c, s')" "ymd c = Some (y, m, e)" "cacheOk H lo hi s'"
      using isoToCalendarDate_day [OF H j' x(1) s] by blast
    have cmp: "compareCalendarDates n c = Inr (sgn (k - j'))"
      by (rule compare_days [OF H _ _ j' v x(1) n c(2)]) (use k in simp_all)
    have diff: "simpleDateDiff n c = Inr (a - y, i - m, d - e)"
      by (rule simpleDateDiff_eq [OF n c(2) sm x(2)])
    have eq: "searchLoop H t n a i d h p (dateOfDay j) u s =
        (if sgn (k - j') = 0 then Some (Inr (dateOfDay j', s'))
         else if a - y = 0 \<and> i - m = 0 then Some (calculateSameMonthResult H t n a i d (dateOfDay j') (d - e) s')
         else if sgn (k - j') \<noteq> h then
           if p > 1 then searchLoop H t n a i d (sgn (k - j')) (p div 2) (dateOfDay j') c s'
           else if t = Reject then Some (Inl RangeError)
           else Some (bindE (compareCalendarDates c u) (\<lambda>k.
                  if k > 0 then bindE (addDaysIso (dateOfDay j') (-1)) (\<lambda>c''. Inr (c'', s')) else Inr (dateOfDay j', s')))
         else searchLoop H t n a i d (sgn (k - j')) p (dateOfDay j') c s')"
      using h by (subst searchLoop.simps) (auto simp: step c(1) cmp diff)
    consider "j' = k" | "a = y" "i = m" "j' \<noteq> k" | "sgn (k - j') \<noteq> h" "j' \<noteq> k" "\<not> (a = y \<and> i = m)"
      | "sgn (k - j') = h" "j' \<noteq> k" "\<not> (a = y \<and> i = m)" by blast
    then show ?thesis
    proof cases
      case 1
      then show ?thesis using eq c(3) by (simp add: h_def)
    next
      case 2
      have "\<exists>s''. calculateSameMonthResult H t n a i d (dateOfDay j') (d - e) s' = Inr (dateOfDay k, s'') \<and> cacheOk H lo hi s''"
        by (rule sameMonth_found [OF H j' _ _ v _ mn c(3)]) (use k x 2 in auto)
      then show ?thesis using eq 2 by (auto simp: h_def sgn_0_0)
    next
      case 3
      have "p > 1" using 3 h p8 by (auto simp: j'_def sgn_if split: if_splits)
      then have "\<exists>s''. searchLoop H t n a i d (sgn (k - j')) (p div 2) (dateOfDay j') c s' = Some (Inr (dateOfDay k, s'')) \<and> cacheOk H lo hi s''"
        by (intro IH) (use p j' c(3) in auto)
      then show ?thesis using eq 3 \<open>p > 1\<close> by (auto simp: h_def sgn_0_0)
    next
      case 4
      have "nat \<bar>k - j'\<bar> < nat \<bar>k - j\<bar>" using 4 h p8 by (auto simp: j'_def sgn_if split: if_splits)
      then have "\<exists>s''. searchLoop H t n a i d (sgn (k - j')) p (dateOfDay j') c s' = Some (Inr (dateOfDay k, s'')) \<and> cacheOk H lo hi s''"
        by (intro IH) (use p j' c(3) in auto)
      then show ?thesis using eq 4 by (auto simp: h_def sgn_0_0)
    qed
  qed
qed

text \<open>The estimate, and the estimate corrected once, must be days that the host prints.\<close>

definition reaches :: "helper \<Rightarrow> int \<Rightarrow> int \<Rightarrow> int \<times> int \<times> int \<Rightarrow> int \<Rightarrow> bool" where
  "reaches H lo hi x e \<longleftrightarrow> lo \<le> e \<and> e \<le> hi \<and>
     (case x of (a, i, d) \<Rightarrow> case view H e of
        None \<Rightarrow> False
      | Some (y, m, f) \<Rightarrow> let c = e + 365 * (a - y) + 30 * (i - m) + (d - f) in lo \<le> c \<and> c \<le> hi)"

lemma findIsoDate_found:
  assumes H: "dayCalendar H lo hi" and k: "lo + 8 \<le> k" "k + 8 \<le> hi" and v: "view H k = Some (a, i, d)"
    and n: "ymd n = Some (a, i, d)" and mn: "\<forall>s. \<exists>l. hMinLength H n s = Inr (l, s)"
    and est: "\<forall>s. hEstimate H (yearMonthDay a i d) s = Inr (dateOfDay e, s)" and r: "reaches H lo hi (a, i, d) e"
    and s: "cacheOk H lo hi s"
  shows "\<exists>s'. findIsoDate H t n a i d s = Inr (dateOfDay k, s') \<and> cacheOk H lo hi s'"
proof -
  have e: "lo \<le> e" "e \<le> hi" using r by (simp_all add: reaches_def)
  obtain y m f where x: "view H e = Some (y, m, f)" "smallDate (y, m, f)"
    using dayCalendar_view [OF H e] by auto
  have sm: "smallDate (a, i, d)" using dayCalendar_view [OF H, of k] v k by auto
  define c where "c = e + 365 * (a - y) + 30 * (i - m) + (d - f)"
  have c: "lo \<le> c" "c \<le> hi" using r x(1) by (simp_all add: reaches_def c_def Let_def)
  obtain u s1 where u: "isoToCalendarDate H (dateOfDay e) s = Inr (u, s1)" "ymd u = Some (y, m, f)" "cacheOk H lo hi s1"
    using isoToCalendarDate_day [OF H e x(1) s] by blast
  have d1: "simpleDateDiff n u = Inr (a - y, i - m, d - f)" by (rule simpleDateDiff_eq [OF n u(2) sm x(2)])
  have b: "\<bar>e\<bar> \<le> 2 ^ 39" using dayCalendar_bounds [OF H e] .
  have sz: "\<bar>365 * (a - y)\<bar> \<le> 2 ^ 45" "\<bar>30 * (i - m)\<bar> \<le> 2 ^ 30" "\<bar>d - f\<bar> \<le> 2 ^ 17" using sm x(2) by auto
  have nm: "nmul 365 (a - y) = 365 * (a - y)" "nmul 30 (i - m) = 30 * (i - m)"
    using sz by (intro nmul_safe; simp)+
  have na: "nadd (nadd (nmul 365 (a - y)) (nmul 30 (i - m))) (d - f) = 365 * (a - y) + 30 * (i - m) + (d - f)"
    unfolding nm using sz by (subst nadd_safe; (subst nadd_safe)?; simp add: abs_le_iff)
  have st: "addDaysIso (dateOfDay e) (nadd (nadd (nmul 365 (a - y)) (nmul 30 (i - m))) (d - f)) = Inr (dateOfDay c)"
    unfolding na by (subst addDaysIso_eq) (use b sz in \<open>simp_all add: c_def abs_le_iff algebra_simps\<close>)
  obtain y' m' f' where x': "view H c = Some (y', m', f')" "smallDate (y', m', f')"
    using dayCalendar_view [OF H c] by auto
  obtain u' s2 where u': "isoToCalendarDate H (dateOfDay c) s1 = Inr (u', s2)" "ymd u' = Some (y', m', f')" "cacheOk H lo hi s2"
    using isoToCalendarDate_day [OF H c x'(1) u(3)] by blast
  have d2: "simpleDateDiff n u' = Inr (a - y', i - m', d - f')" by (rule simpleDateDiff_eq [OF n u'(2) sm x'(2)])
  have cmp: "compareCalendarDates n u' = Inr (sgn (k - c))"
    by (rule compare_days [OF H _ _ c v x'(1) n u'(2)]) (use k in simp_all)
  have eq: "findIsoDate H t n a i d s =
      (if a - y = 0 \<and> i - m = 0 \<and> d - f = 0 then Inr (dateOfDay e, s1)
       else if a - y' = 0 \<and> i - m' = 0 then calculateSameMonthResult H t n a i d (dateOfDay c) (d - f') s2
       else loopResult (searchLoop H t n a i d (sgn (k - c)) 8 (dateOfDay c) u' s2))"
    by (simp only: findIsoDate_def bindC_def lift_def ret_def loopC_def est [rule_format] u(1) d1 bindE_Inr prod.case
      if_distribR st u'(1) d2 cmp)
  consider "a = y \<and> i = m \<and> d = f" | "\<not> (a = y \<and> i = m \<and> d = f)" "a = y' \<and> i = m'"
    | "\<not> (a = y \<and> i = m \<and> d = f)" "\<not> (a = y' \<and> i = m')" by blast
  then show ?thesis
  proof cases
    case 1
    then have "e = k"
      using view_order [OF H e(1) _ _ x(1), of k a i d] view_order [OF H _ _ e(2) v, of y m f] k v x(1)
      by (cases e k rule: linorder_cases) auto
    then show ?thesis using eq 1 u(3) by auto
  next
    case 2
    have "\<exists>s'. calculateSameMonthResult H t n a i d (dateOfDay c) (d - f') s2 = Inr (dateOfDay k, s') \<and> cacheOk H lo hi s'"
      by (rule sameMonth_found [OF H c _ _ v _ mn u'(3)]) (use k x' 2 in auto)
    then show ?thesis using eq 2 by auto
  next
    case 3
    obtain s' where "searchLoop H t n a i d (sgn (k - c)) 8 (dateOfDay c) u' s2 = Some (Inr (dateOfDay k, s'))" "cacheOk H lo hi s'"
      using searchLoop_found [OF H k v n mn c _ u'(3), of 8] by auto
    then show ?thesis using eq 3 by auto
  qed
qed

text \<open>The whole conversion, for a date that needs no adjustment.\<close>

lemma calendarToIsoDate_found:
  assumes H: "dayCalendar H lo hi" and k: "lo + 8 \<le> k" "k + 8 \<le> hi" and v: "view H k = Some (a, i, d)"
    and n: "ymd n = Some (a, i, d)" and x: "ymd x = Some (a, i, d)"
    and adj: "\<forall>s. hAdjust H x ov False s = Inr (n, s)" and reg: "\<forall>s. regulateMonthDayNaive H n ov s = Inr (n, s)"
    and fields: "fMonthCode n \<noteq> None" "hHasEra H \<Longrightarrow> fEra n \<noteq> None \<and> fEraYear n \<noteq> None"
    and mn: "\<forall>s. \<exists>l. hMinLength H n s = Inr (l, s)"
    and est: "\<forall>s. hEstimate H (yearMonthDay a i d) s = Inr (dateOfDay e, s)" and r: "reaches H lo hi (a, i, d) e"
    and s: "cacheOk H lo hi s"
  shows "\<exists>s'. calendarToIsoDate H x ov s = Inr (dateOfDay k, s') \<and> cacheOk H lo hi s'"
proof -
  have nf: "fYear n = Some a" "fMonth n = Some i" "fDay n = Some d" and xf: "fYear x = Some a" "fMonth x = Some i" "fDay x = Some d"
    using n x by (auto simp: ymd_def split: option.splits)
  show ?thesis
  proof (cases "cIso s (hId H, a, i, d, ov)")
    case None
    obtain s' where f: "findIsoDate H ov n a i d s = Inr (dateOfDay k, s')" and s': "cacheOk H lo hi s'"
      using findIsoDate_found [OF H k v n mn est r s] by blast
    have "calendarToIsoDate H x ov s = Inr (dateOfDay k, s'\<lparr>cIso := (cIso s')((hId H, a, i, d, ov) \<mapsto> dateOfDay k)\<rparr>)"
      using None fields f
      by (cases "hHasEra H") (auto simp: calendarToIsoDate_def bindC_def lift_def field_def orThrow_def adj reg nf xf Let_def)
    moreover have "cacheOk H lo hi (s'\<lparr>cIso := (cIso s')((hId H, a, i, d, ov) \<mapsto> dateOfDay k)\<rparr>)"
      using s' view_unique [OF H _ _ _ _ v] k by (auto simp: cacheOk_def split: if_splits)
    ultimately show ?thesis by blast
  next
    case (Some z)
    then have "z = dateOfDay k" using s v k by (auto simp: cacheOk_def)
    then show ?thesis
      using Some s by (auto simp: calendarToIsoDate_def bindC_def lift_def field_def orThrow_def adj reg nf xf Let_def)
  qed
qed

end
