(* ===== verification/Printed_Calendars.thy ===== *)
theory Printed_Calendars imports Non_Iso_Search Class_Props begin

text \<open>
  The search on the Islamic calendars and the Persian calendar: for every host that prints the
  days in order, a date is found again from its year, month and day.
\<close>

section \<open>Reading what the host prints\<close>

definition printed :: "string \<Rightarrow> int \<times> int \<times> int \<Rightarrow> (string \<times> string) list" where
  "printed era x = (case x of (y, m, d) \<Rightarrow>
     [(''month'', decInt m), (''literal'', ''/''), (''day'', decInt d), (''literal'', ''/''), (''year'', decInt y),
      (''literal'', '' ''), (''era'', era)])"

lemma printedInt_decInt:
  assumes "\<bar>n\<bar> \<le> 2 ^ 53"
  shows "printedInt (decInt n) = Inr n"
proof -
  have v: "valNat (decNat (nat \<bar>n\<bar>)) \<le> 2 ^ 53" using assms by simp
  note d = StringToNumber_digits [OF decNat_digits decNat_not_Nil v]
  have "StringToNumber (decInt n) = Fin (of_int n)"
  proof (cases "n < 0")
    case True
    then have "nat \<bar>n\<bar> = nat (- n)" by simp
    then show ?thesis using d(2) True by (simp add: decInt_def)
  next
    case False
    then show ?thesis using d(1) by (simp add: decInt_def)
  qed
  then show ?thesis by (simp add: printedInt_def)
qed

lemma readMonth:
  assumes "1 \<le> m" "m \<le> 13"
  shows "readPart b (''month'', decInt m) c = Inr (c\<lparr>fMonth := Some m\<rparr>)"
proof -
  have t: "takeWhile isDigit (decNat (nat m)) = decNat (nat m)" "dropWhile isDigit (decNat (nat m)) = []"
    using decNat_digits by (auto simp: list_all_iff takeWhile_eq_all_conv dropWhile_eq_Nil_conv)
  moreover have "\<forall>x \<in> set (decNat (nat m)). isDigit x" using decNat_digits by (simp add: list_all_iff)
  ultimately show ?thesis using assms by (simp add: readPart_def decInt_def Let_def t)
qed

lemma readPrinted:
  assumes "1 \<le> m" "m \<le> 13" "\<bar>y\<bar> \<le> 2 ^ 53" "\<bar>d\<bar> \<le> 2 ^ 53" "era \<noteq> []"
  shows "readParts True (printed era (y, m, d)) noFields
    = bindE (eraName era) (\<lambda>s. Inr (noFields\<lparr>fYear := None, fMonth := Some m, fDay := Some d, fEra := Some s, fEraYear := Some y\<rparr>))"
proof -
  note r = readMonth [OF assms(1,2)] printedInt_decInt [OF assms(3)] printedInt_decInt [OF assms(4)]
  have "readPart True (''day'', decInt d) c = Inr (c\<lparr>fDay := Some d\<rparr>)"
    "readPart True (''year'', decInt y) c = Inr (c\<lparr>fEraYear := Some y\<rparr>)"
    "readPart True (''literal'', v) c = Inr c"
    "readPart True (''era'', era) c = bindE (eraName era) (\<lambda>s. Inr (c\<lparr>fEra := Some s\<rparr>))" for c v
    using r assms(5) by (simp_all add: readPart_def)
  then show ?thesis using r(1) by (cases "eraName era") (simp_all add: printed_def noFields_def)
qed

section \<open>Helpers with one era\<close>

definition oneEra ::
  "string \<Rightarrow> string \<Rightarrow> (iso_date \<Rightarrow> (string \<times> string) list result) \<Rightarrow> (cal_fields \<Rightarrow> int comp) \<Rightarrow> (cal_fields \<Rightarrow> int comp) \<Rightarrow>
   (cal_fields \<Rightarrow> iso_date comp) \<Rightarrow> helper" where
  "oneEra i c pr mn mx es =
     helperOf (eraData i c) pr (\<lambda>e r _. adjustCalendarDate (eraData i c) e r) mn mx es None (\<lambda>_. Inr ())"

text \<open>The fields of a date after adjustment.\<close>

definition eraFields :: "string \<Rightarrow> int \<Rightarrow> int \<Rightarrow> int \<Rightarrow> cal_fields" where
  "eraFields c y m d = noFields\<lparr>fYear := Some y, fMonth := Some m, fDay := Some d, fMonthCode := Some (codeOf m),
     fEra := Some c, fEraYear := Some y\<rparr>"

lemma hHasEra_eraData [simp]: "hHasEra (eraData i c)" "hId (eraData i c) = i"
  by (simp_all add: eraData_def)

lemma resolve_index:
  "1 \<le> m \<Longrightarrow> m \<le> 12 \<Longrightarrow> resolveNonLunisolarMonth (Some m) None (Some r) 12 = Inr (of_int m, codeOf m)"
  by (cases r) (simp_all add: resolveNonLunisolarMonth_def codeOf_def RejectToRange_def ConstrainToRange_def)

lemma adjust_eraFields:
  assumes "1 \<le> m" "m \<le> 12"
  shows "adjustCalendarDate (eraData i c) (noFields\<lparr>fYear := None, fMonth := Some m, fDay := Some d, fEra := Some c, fEraYear := Some y\<rparr>) r s
      = Inr (eraFields c y m d, s)"
    and "adjustCalendarDate (eraData i c) (yearMonthDay y m d) r s = Inr (eraFields c y m d, s)"
  using resolve_index [OF assms, of r]
  by (simp_all add: adjustCalendarDate_def validateCalendarDate_def eraData_def noFields_def yearMonthDay_def bindC_def lift_def
      ret_def orElse2_def eraFields_def)

lemma adjust_pure:
  "adjustCalendarDate (eraData i c) m r s = bindE (adjustCalendarDate (eraData i c) m r emptyCache) (\<lambda>(c, _). Inr (c, s))"
  by (cases "validateCalendarDate (eraData i c) m";
      cases "resolveNonLunisolarMonth (fMonth m) (fMonthCode m) (Some r) 12")
    (simp_all add: adjustCalendarDate_def bindC_def lift_def ret_def eraData_def split_def)

definition printsDays :: "string \<Rightarrow> (iso_date \<Rightarrow> (string \<times> string) list result) \<Rightarrow> (int \<Rightarrow> int \<times> int \<times> int) \<Rightarrow> int \<Rightarrow> int \<Rightarrow> bool" where
  "printsDays era pr f lo hi \<longleftrightarrow> - (2 ^ 39) \<le> lo \<and> hi \<le> 2 ^ 39 \<and>
     (\<forall>k. lo \<le> k \<and> k \<le> hi \<longrightarrow> pr (dateOfDay k) = Inr (printed era (f k)) \<and>
        (case f k of (y, m, d) \<Rightarrow> \<bar>y\<bar> \<le> 2 ^ 32 \<and> 1 \<le> m \<and> m \<le> 12 \<and> 1 \<le> d \<and> d \<le> 31)) \<and>
     (\<forall>k. lo \<le> k \<and> k < hi \<longrightarrow> follows (f k) (f (k + 1)))"

lemma oneEra_convert:
  assumes p: "printsDays era pr f lo hi" and k: "lo \<le> k" "k \<le> hi" and f: "f k = (y, m, d)"
    and e: "eraName era = Inr c" "era \<noteq> []"
  shows "runCalendar (isoToCalendarDate (oneEra i c pr mn mx es) (dateOfDay k)) = Inr (eraFields c y m d)"
proof -
  have b: "pr (dateOfDay k) = Inr (printed era (y, m, d))" "\<bar>y\<bar> \<le> 2 ^ 32" "1 \<le> m" "m \<le> 12" "1 \<le> d" "d \<le> 31"
    using p k f unfolding printsDays_def by (metis (no_types, lifting) case_prod_conv)+
  have "readParts True (printed era (y, m, d)) noFields
      = Inr (noFields\<lparr>fYear := None, fMonth := Some m, fDay := Some d, fEra := Some c, fEraYear := Some y\<rparr>)"
    using b e by (subst readPrinted) simp_all
  then show ?thesis
    using b(1) adjust_eraFields(1) [OF b(3,4), where i = i and c = c and d = d and y = y and r = Constrain]
    by (simp add: runCalendar_def isoToCalendarDate_def oneEra_def emptyCache_def eraFields_def orThrow_def)
qed

section \<open>The days of such a calendar\<close>

lemma ymd_eraFields [simp]: "ymd (eraFields c y m d) = Some (y, m, d)"
  by (simp add: eraFields_def ymd_def)

lemma oneEra_view:
  assumes "printsDays era pr f lo hi" "lo \<le> k" "k \<le> hi" "eraName era = Inr c" "era \<noteq> []"
  shows "view (oneEra i c pr mn mx es) k = Some (f k)"
proof -
  obtain y m d where f: "f k = (y, m, d)" by (cases "f k")
  show ?thesis by (simp add: view_def oneEra_convert [OF assms(1-3) f assms(4,5)] f)
qed

lemma oneEra_days:
  assumes p: "printsDays era pr f lo hi" and e: "eraName era = Inr c" "era \<noteq> []"
  shows "dayCalendar (oneEra i c pr mn mx es) lo hi"
  unfolding dayCalendar_def
proof (intro conjI allI impI)
  show "- (2 ^ 39) \<le> lo" "hi \<le> 2 ^ 39" using p by (simp_all add: printsDays_def)
  fix k assume k: "lo \<le> k \<and> k \<le> hi"
  obtain y m d where f: "f k = (y, m, d)" by (cases "f k")
  have "smallDate (f k)" using p k f unfolding printsDays_def by fastforce
  then show "\<exists>x. view (oneEra i c pr mn mx es) k = Some x \<and> smallDate x"
    using oneEra_view [OF p _ _ e] k by blast
next
  fix k x y
  assume a: "lo \<le> k \<and> k < hi \<and> view (oneEra i c pr mn mx es) k = Some x \<and> view (oneEra i c pr mn mx es) (k + 1) = Some y"
  then have "x = f k" "y = f (k + 1)"
    using oneEra_view [OF p _ _ e, of k i mn mx es] oneEra_view [OF p _ _ e, of "k + 1" i mn mx es] by auto
  then show "follows x y" using p a by (auto simp: printsDays_def)
next
  fix m s
  show "hAdjust (oneEra i c pr mn mx es) m Constrain True s =
      bindE (hAdjust (oneEra i c pr mn mx es) m Constrain True emptyCache) (\<lambda>(c, _). Inr (c, s))"
    using adjust_pure [of i c m Constrain s] by (simp add: oneEra_def)
qed

text \<open>The estimate and the corrected estimate are days the host prints.\<close>

definition reachesDay :: "(int \<Rightarrow> int \<times> int \<times> int) \<Rightarrow> int \<Rightarrow> int \<Rightarrow> int \<times> int \<times> int \<Rightarrow> int \<Rightarrow> bool" where
  "reachesDay f lo hi x e \<longleftrightarrow> lo \<le> e \<and> e \<le> hi \<and>
     (case (x, f e) of ((a, i, d), (y, m, g)) \<Rightarrow>
        let c = e + 365 * (a - y) + 30 * (i - m) + (d - g) in lo \<le> c \<and> c \<le> hi)"

lemma oneEra_found:
  assumes p: "printsDays era pr f lo hi" and e: "eraName era = Inr c" "era \<noteq> []"
    and k: "lo + 8 \<le> k" "k + 8 \<le> hi" and f: "f k = (a, i, d)" and r: "reachesDay f lo hi (a, i, d) b"
    and mn: "\<forall>s. \<exists>l. mn (eraFields c a i d) s = Inr (l, s)"
    and mx: "\<forall>s. mx (eraFields c a i d) s = Inr (l, s)" "d \<le> l"
    and est: "\<forall>s. es (yearMonthDay a i d) s = Inr (dateOfDay b, s)"
    and x: "ymd x = Some (a, i, d)" "\<forall>s. adjustCalendarDate (eraData id1 c) x ov s = Inr (eraFields c a i d, s)"
  shows "runCalendar (calendarToIsoDate (oneEra id1 c pr mn mx es) x ov) = Inr (dateOfDay k)"
proof -
  let ?H = "oneEra id1 c pr mn mx es"
  have days: "dayCalendar ?H lo hi" by (rule oneEra_days [OF p e])
  have kk: "lo \<le> k" "k \<le> hi" using k by simp_all
  have b: "1 \<le> i" "i \<le> 12" "1 \<le> d" using p kk f unfolding printsDays_def by fastforce+
  have reg: "regulateMonthDayNaive ?H (eraFields c a i d) ov s = Inr (eraFields c a i d, s)" for s
    using b mx
    by (cases ov) (simp_all add: regulateMonthDayNaive_def oneEra_def eraData_def bindC_def lift_def ret_def field_def orThrow_def
        eraFields_def noFields_def RejectToRange_def ConstrainToRange_def throwIf_def)
  have rr: "reaches ?H lo hi (a, i, d) b"
    using r oneEra_view [OF p _ _ e, of b id1 mn mx es] by (auto simp: reaches_def reachesDay_def split: prod.splits)
  have "\<exists>s'. calendarToIsoDate ?H x ov emptyCache = Inr (dateOfDay k, s') \<and> cacheOk ?H lo hi s'"
  proof (rule calendarToIsoDate_found [OF days k _ ymd_eraFields x(1) _ _ _ _ _ _ rr cacheOk_empty])
    show "view ?H k = Some (a, i, d)" using oneEra_view [OF p kk e] f by simp
    show "\<forall>s. hAdjust ?H x ov False s = Inr (eraFields c a i d, s)" using x(2) by (simp add: oneEra_def)
    show "\<forall>s. regulateMonthDayNaive ?H (eraFields c a i d) ov s = Inr (eraFields c a i d, s)" using reg by blast
    show "fMonthCode (eraFields c a i d) \<noteq> None" "fEra (eraFields c a i d) \<noteq> None \<and> fEraYear (eraFields c a i d) \<noteq> None"
      by (simp_all add: eraFields_def)
    show "\<forall>s. \<exists>l. hMinLength ?H (eraFields c a i d) s = Inr (l, s)" using mn by (simp add: oneEra_def)
    show "\<forall>s. hEstimate ?H (yearMonthDay a i d) s = Inr (dateOfDay b, s)" using est by (simp add: oneEra_def)
  qed
  then show ?thesis by (auto simp: runCalendar_def)
qed

section \<open>Dates from fields\<close>

definition dateBag :: "int \<Rightarrow> int \<Rightarrow> int \<Rightarrow> jsval" where
  "dateBag y m d = plainObj [(''day'', Num (Fin (of_int d))), (''month'', Num (Fin (of_int m))), (''year'', Num (Fin (of_int y)))]"

lemma fields_dateBag:
  assumes "1 \<le> m" "1 \<le> d"
  shows "bindE (PrepareTemporalFields (ownReads (dateBag y m d)) (nonIso_fields [''day'', ''month'', ''monthCode'', ''year'']) (Needs [])) calFieldsOf
    = Inr (yearMonthDay y m d)"
proof -
  have "sort (nonIso_fields [''day'', ''month'', ''monthCode'', ''year'']) = [''day'', ''era'', ''eraYear'', ''month'', ''monthCode'', ''year'']"
    by code_simp
  then show ?thesis
    using assms
    by (simp add: PrepareTemporalFields_def ownReads_def getProp_def dateBag_def conversions_date convert_int throwIf_def fieldDefault_def
        calFieldsOf_def intField_def strField_def numInt_def yearMonthDay_def noFields_def del: convert.simps)
qed

lemma nonIso_dateFromFields_bag:
  assumes "1 \<le> m" "1 \<le> d" "ToTemporalOverflow t = Inr ov" "clockOk now" "dateInRange x"
    and "runCalendar (calendarToIsoDate H (yearMonthDay y m d) ov) = Inr x"
  shows "runCalendar (nonIso_dateFromFields now H (ownReads (dateBag y m d)) t) = Inr x"
  using assms(6) CreateTemporalDate_eq [OF assms(4), of x] assms(5)
  by (auto simp: nonIso_dateFromFields_def bindC_def lift_def fields_dateBag [OF assms(1,2)] assms(3) runCalendar_def bindE_eq_Inr_iff)

lemma oneEra_getters:
  assumes "runCalendar (isoToCalendarDate H x) = Inr (eraFields c a i d)"
  shows "runCalendar (nonIso_year H x) = Inr a" "runCalendar (nonIso_month H x) = Inr i" "runCalendar (nonIso_day H x) = Inr d"
    "runCalendar (nonIso_monthCode H x) = Inr (codeOf i)"
  using assms
  by (auto simp: nonIso_year_def nonIso_month_def nonIso_day_def nonIso_monthCode_def runCalendar_def bindC_def field_def lift_def
      orThrow_def eraFields_def bindE_eq_Inr_iff)

lemma firstOfYear [simp]: "dateOfDay (epochDay (mkDate y 1 1)) = mkDate y 1 1"
  by (rule dateOfDay_epochDay) (simp add: validDate_def ISODaysInMonth_def)

lemma eraNames: "eraName ''AP'' = Inr ''ap''" "eraName ''AH'' = Inr ''ah''"
  by code_simp+

text \<open>A host with months of 30 days, in years of 360 days from the day \<open>b\<close>.\<close>

definition plainYears :: "int \<Rightarrow> int \<Rightarrow> int \<times> int \<times> int" where
  "plainYears b k = (let q = k - b in (1 + q div 360, 1 + (q mod 360) div 30, 1 + q mod 30))"

lemma plainYears_follow: "follows (plainYears b k) (plainYears b (k + 1))"
proof -
  define q where "q = k - b"
  define y where "y = q div 360"
  define r where "r = q mod 360"
  define m where "m = r div 30"
  define d where "d = r mod 30"
  have q: "q = 360 * y + r" "r = 30 * m + d" by (simp_all add: y_def r_def m_def d_def)
  have d: "0 \<le> d" "d < 30" by (simp_all add: d_def)
  have "0 \<le> r" "r < 360" by (simp_all add: r_def)
  then have m: "0 \<le> m" "m < 12" using q(2) d by simp_all
  have q30: "q mod 30 = d"
    using q by (simp add: d_def mod_mod_cancel r_def)
  have k: "k + 1 - b = q + 1" by (simp add: q_def)
  consider "d < 29" | "d = 29" "m < 11" | "d = 29" "m = 11" using d m by linarith
  then show ?thesis
  proof cases
    case 1
    have "(q + 1) div 360 = y" using q d m 1 by (intro int_div_pos_eq [where r = "r + 1"]) auto
    moreover have "(q + 1) mod 360 = r + 1" using q d m 1 by (intro int_mod_pos_eq [where q = y]) auto
    moreover have "(r + 1) div 30 = m" using q d 1 by (intro int_div_pos_eq [where r = "d + 1"]) auto
    moreover have "(q + 1) mod 30 = d + 1" using q d m 1 by (intro int_mod_pos_eq [where q = "12 * y + m"]) auto
    ultimately show ?thesis by (simp add: plainYears_def Let_def k q30 flip: q_def y_def r_def m_def)
  next
    case 2
    have "(q + 1) div 360 = y" using q d m 2 by (intro int_div_pos_eq [where r = "r + 1"]) auto
    moreover have "(q + 1) mod 360 = r + 1" using q d m 2 by (intro int_mod_pos_eq [where q = y]) auto
    moreover have "(r + 1) div 30 = m + 1" using q d 2 by (intro int_div_pos_eq [where r = 0]) auto
    ultimately show ?thesis by (simp add: plainYears_def Let_def k flip: q_def y_def r_def m_def)
  next
    case 3
    have "(q + 1) div 360 = y + 1" using q 3 by (intro int_div_pos_eq [where r = 0]) auto
    then show ?thesis by (simp add: plainYears_def Let_def k flip: q_def y_def)
  qed
qed

lemma plainYears_prints:
  assumes "\<bar>b\<bar> \<le> 2 ^ 30"
  shows "printsDays era (\<lambda>x. Inr (printed era (plainYears b (epochDay x)))) (plainYears b) (b - 5000) (b + 5000)"
  unfolding printsDays_def
proof (intro conjI allI impI)
  show "- (2 ^ 39) \<le> b - 5000" "b + 5000 \<le> 2 ^ 39" using assms by (simp_all add: abs_le_iff)
  fix k assume k: "b - 5000 \<le> k \<and> k \<le> b + 5000"
  show "Inr (printed era (plainYears b (epochDay (dateOfDay k)))) = Inr (printed era (plainYears b k))" by simp
  have "\<bar>(k - b) div 360\<bar> \<le> 14"
    using div_bounds [of 360 "k - b"] k by linarith
  moreover have "0 \<le> ((k - b) mod 360) div 30" "((k - b) mod 360) div 30 < 12"
    using pos_mod_sign [of 360 "k - b"] pos_mod_bound [of 360 "k - b"] by (simp_all add: pos_imp_zdiv_nonneg_iff div_less_iff_less_mult)
  moreover have "(k - b) mod 30 < 30" "0 \<le> (k - b) mod 30" by simp_all
  ultimately show "case plainYears b k of (y, m, d) \<Rightarrow> \<bar>y\<bar> \<le> 2 ^ 32 \<and> 1 \<le> m \<and> m \<le> 12 \<and> 1 \<le> d \<and> d \<le> 31"
    by (simp add: plainYears_def Let_def abs_le_iff)
next
  fix k show "follows (plainYears b k) (plainYears b (k + 1))" by (rule plainYears_follow)
qed

text \<open>C5: when the host prints the days of the Persian calendar one after the other, the
  search for the ISO date of a calendar date ends and finds the day: the date made from a year, a month
  and a day is the date whose getters have these values, for either overflow.\<close>

theorem persian_date_found:
  assumes "printsDays ''AP'' pr f lo hi" "lo + 8 \<le> k" "k + 8 \<le> hi" "f k = (a, i, d)" "d \<le> persian_maximumMonthLength i"
    and "reachesDay f lo hi (a, i, d) (epochDay (mkDate (a + 621) 1 1))"
    and "clockOk now" "dateInRange (dateOfDay k)" "ToTemporalOverflow t = Inr ov"
  shows "runCalendar (nonIso_year (PersianHelper pr) (dateOfDay k)) = Inr a \<and>
    runCalendar (nonIso_month (PersianHelper pr) (dateOfDay k)) = Inr i \<and>
    runCalendar (nonIso_day (PersianHelper pr) (dateOfDay k)) = Inr d \<and>
    runCalendar (nonIso_dateFromFields now (PersianHelper pr) (ownReads (dateBag a i d)) t) = Inr (dateOfDay k)"
proof -
  define mn :: "cal_fields \<Rightarrow> int comp" where "mn = (\<lambda>e. bindC (field (fMonth e)) (\<lambda>m. ret (persian_minimumMonthLength m)))"
  define mx :: "cal_fields \<Rightarrow> int comp" where "mx = (\<lambda>e. bindC (field (fMonth e)) (\<lambda>m. ret (persian_maximumMonthLength m)))"
  define es where "es = persian_estimateIsoDate (eraData ''persian'' ''ap'')"
  have H: "PersianHelper pr = oneEra ''persian'' ''ap'' pr mn mx es"
    by (simp add: PersianHelper_def oneEra_def mn_def mx_def es_def Let_def)
  have kk: "lo \<le> k" "k \<le> hi" using assms(2,3) by simp_all
  have b: "1 \<le> i" "i \<le> 12" "1 \<le> d" "\<bar>a\<bar> \<le> 2 ^ 32" using assms(1,4) kk unfolding printsDays_def by fastforce+
  note adj = adjust_eraFields(2) [OF b(1,2)]
  have "runCalendar (calendarToIsoDate (oneEra ''persian'' ''ap'' pr mn mx es) (yearMonthDay a i d) ov) = Inr (dateOfDay k)"
  proof (rule oneEra_found [OF assms(1) eraNames(1) _ assms(2-4,6) _ _ assms(5)])
    show "\<forall>s. es (yearMonthDay a i d) s = Inr (dateOfDay (epochDay (mkDate (a + 621) 1 1)), s)"
      using b by (simp add: es_def persian_estimateIsoDate_def bindC_def adj field_def lift_def orThrow_def ret_def eraFields_def nadd_safe)
  qed (simp_all add: mn_def mx_def bindC_def field_def lift_def orThrow_def ret_def eraFields_def yearMonthDay_def noFields_def ymd_def
      adj [unfolded eraFields_def yearMonthDay_def noFields_def, simplified])
  then have "runCalendar (nonIso_dateFromFields now (PersianHelper pr) (ownReads (dateBag a i d)) t) = Inr (dateOfDay k)"
    unfolding H by (rule nonIso_dateFromFields_bag [OF b(1,3) assms(9,7,8)])
  then show ?thesis
    using oneEra_getters [OF oneEra_convert [OF assms(1) kk assms(4) eraNames(1), of "''persian''" mn mx es]] by (simp add: H)
qed

theorem persian_date_found_witness:
  "runCalendar (nonIso_dateFromFields 1700000000000
     (PersianHelper (\<lambda>x. Inr (printed ''AP'' (plainYears (epochDay (mkDate 622 3 22)) (epochDay x))))) (ownReads (dateBag 1 4 11)) (plainObj []))
   = Inr (mkDate 622 6 30)"
proof -
  define b where "b = epochDay (mkDate 622 3 22)"
  have d: "dateOfDay (b + 100) = mkDate 622 6 30" unfolding b_def by code_simp
  have "runCalendar (nonIso_dateFromFields 1700000000000 (PersianHelper (\<lambda>x. Inr (printed ''AP'' (plainYears b (epochDay x)))))
      (ownReads (dateBag 1 4 11)) (plainObj [])) = Inr (dateOfDay (b + 100))"
  proof (rule persian_date_found [THEN conjunct2, THEN conjunct2, THEN conjunct2])
    have "\<bar>b\<bar> \<le> 2 ^ 30" unfolding b_def by code_simp
    then show "printsDays ''AP'' (\<lambda>x. Inr (printed ''AP'' (plainYears b (epochDay x)))) (plainYears b) (b - 5000) (b + 5000)"
      by (rule plainYears_prints)
    show "plainYears b (b + 100) = (1, 4, 11)" by (simp add: plainYears_def)
    have "epochDay (mkDate (1 + 621) 1 1) = b - 80" unfolding b_def by code_simp
    then show "reachesDay (plainYears b) (b - 5000) (b + 5000) (1, 4, 11) (epochDay (mkDate (1 + 621) 1 1))"
      by (simp add: reachesDay_def plainYears_def)
    show "dateInRange (dateOfDay (b + 100))" unfolding d by code_simp
    show "ToTemporalOverflow (plainObj []) = Inr Constrain" by code_simp
    show "clockOk 1700000000000" by code_simp
  qed (simp_all add: persian_maximumMonthLength_def)
  then show ?thesis unfolding b_def [symmetric] by (simp only: d)
qed

text \<open>The year of the estimate of an Islamic calendar.\<close>

definition islamicYear :: "int \<Rightarrow> int" where
  "islamicYear a = nadd \<lfloor>fl (fl (of_int a * daysPerIslamicYear) / daysPerIsoYear)\<rfloor> 622"

text \<open>The same for the six Islamic calendars: their days need not follow any arithmetic rule
  for the search to end with the day that the host prints.\<close>

theorem islamic_date_found:
  assumes "printsDays ''AH'' pr f lo hi" "lo + 8 \<le> k" "k + 8 \<le> hi" "f k = (a, i, d)" "d \<le> 30"
    and "reachesDay f lo hi (a, i, d) (epochDay (mkDate (islamicYear a) 1 1))"
    and "clockOk now" "dateInRange (dateOfDay k)" "ToTemporalOverflow t = Inr ov"
  shows "runCalendar (nonIso_dateFromFields now (IslamicBaseHelper i1 pr) (ownReads (dateBag a i d)) t) = Inr (dateOfDay k) \<and>
    runCalendar (nonIso_day (IslamicBaseHelper i1 pr) (dateOfDay k)) = Inr d"
proof -
  define mn :: "cal_fields \<Rightarrow> int comp" where "mn = (\<lambda>_. ret 29)"
  define mx :: "cal_fields \<Rightarrow> int comp" where "mx = (\<lambda>_. ret 30)"
  define es where "es = islamic_estimateIsoDate (eraData i1 ''ah'')"
  have H: "IslamicBaseHelper i1 pr = oneEra i1 ''ah'' pr mn mx es"
    by (simp add: IslamicBaseHelper_def oneEra_def mn_def mx_def es_def Let_def)
  have kk: "lo \<le> k" "k \<le> hi" using assms(2,3) by simp_all
  have b: "1 \<le> i" "i \<le> 12" "1 \<le> d" using assms(1,4) kk unfolding printsDays_def by fastforce+
  note adj = adjust_eraFields(2) [OF b(1,2)]
  have "runCalendar (calendarToIsoDate (oneEra i1 ''ah'' pr mn mx es) (yearMonthDay a i d) ov) = Inr (dateOfDay k)"
  proof (rule oneEra_found [OF assms(1) eraNames(2) _ assms(2-4,6) _ _ assms(5)])
    show "\<forall>s. es (yearMonthDay a i d) s = Inr (dateOfDay (epochDay (mkDate (islamicYear a) 1 1)), s)"
      by (simp add: es_def islamic_estimateIsoDate_def bindC_def adj field_def lift_def orThrow_def ret_def eraFields_def islamicYear_def)
  qed (simp_all add: mn_def mx_def ret_def yearMonthDay_def noFields_def ymd_def adj [unfolded yearMonthDay_def noFields_def, simplified])
  then have "runCalendar (nonIso_dateFromFields now (IslamicBaseHelper i1 pr) (ownReads (dateBag a i d)) t) = Inr (dateOfDay k)"
    unfolding H by (rule nonIso_dateFromFields_bag [OF b(1,3) assms(9,7,8)])
  then show ?thesis
    using oneEra_getters(3) [OF oneEra_convert [OF assms(1) kk assms(4) eraNames(2), of i1 mn mx es]] by (simp add: H)
qed

theorem islamic_date_found_witness:
  "runCalendar (nonIso_dateFromFields 1700000000000
     (IslamicBaseHelper ''islamic-civil'' (\<lambda>x. Inr (printed ''AH'' (plainYears (epochDay (mkDate 622 7 16)) (epochDay x)))))
     (ownReads (dateBag 0 4 21)) (plainObj [])) = Inr (mkDate 621 11 8)"
proof -
  define b where "b = epochDay (mkDate 622 7 16)"
  have d: "dateOfDay (b - 250) = mkDate 621 11 8" unfolding b_def by code_simp
  have y: "islamicYear 0 = 622" by (simp add: islamicYear_def nadd_safe)
  have "runCalendar (nonIso_dateFromFields 1700000000000
      (IslamicBaseHelper ''islamic-civil'' (\<lambda>x. Inr (printed ''AH'' (plainYears b (epochDay x)))))
      (ownReads (dateBag 0 4 21)) (plainObj [])) = Inr (dateOfDay (b - 250))"
  proof (rule islamic_date_found [THEN conjunct1])
    have "\<bar>b\<bar> \<le> 2 ^ 30" unfolding b_def by code_simp
    then show "printsDays ''AH'' (\<lambda>x. Inr (printed ''AH'' (plainYears b (epochDay x)))) (plainYears b) (b - 5000) (b + 5000)"
      by (rule plainYears_prints)
    show "plainYears b (b - 250) = (0, 4, 21)" by (simp add: plainYears_def)
    have "epochDay (mkDate (islamicYear 0) 1 1) = b - 196" unfolding b_def y by code_simp
    then show "reachesDay (plainYears b) (b - 5000) (b + 5000) (0, 4, 21) (epochDay (mkDate (islamicYear 0) 1 1))"
      by (simp add: reachesDay_def plainYears_def)
    show "dateInRange (dateOfDay (b - 250))" unfolding d by code_simp
    show "ToTemporalOverflow (plainObj []) = Inr Constrain" by code_simp
    show "clockOk 1700000000000" by code_simp
  qed simp_all
  then show ?thesis unfolding b_def [symmetric] by (simp only: d)
qed

end
