(* ===== verification/Buddhist_Calendar.thy ===== *)
theory Buddhist_Calendar imports Printed_Calendars begin

text \<open>
  The Buddhist calendar on a host that prints its dates: every date is found again, and the day
  of the year is counted in another year than that of the date.
\<close>

section \<open>The helper\<close>

definition beEra :: "string \<Rightarrow> era" where
  "beEra g = \<lparr>eName = ''be'', eIsoEpoch = Some (-543, 1, 1), eAnchor = Some (0, 1, 1), eReverseOf = None, eYearZero = True,
     eIsAnchor = False, eGeneric = g\<rparr>"

abbreviation beData :: helper_data where
  "beData \<equiv> gregorianData ''buddhist'' False 12"

definition beHelper :: "(iso_date \<Rightarrow> (string \<times> string) list result) \<Rightarrow> helper" where
  "beHelper pr = helperOf beData pr (\<lambda>e r _. gregorian_adjustCalendarDate beData [beEra ''era0''] e r)
     (gregorian_minimumMonthLength beData [beEra ''era0''] (beEra [])) (gregorian_minimumMonthLength beData [beEra ''era0''] (beEra []))
     (gregorian_estimateIsoDate beData [beEra ''era0''] (beEra [])) None (gregorian_checkIcuBugs True False)"

lemma BuddhistHelper_eq: "BuddhistHelper False pr = Inr (beHelper pr)"
proof -
  have "adjustEras [mkEra ''be'' (Some (-543, 1, 1)) None None True] = Inr ([beEra ''era0''], beEra [])"
    unfolding beEra_def by code_simp
  then show ?thesis by (simp add: BuddhistHelper_def GregorianBaseHelper_def beHelper_def Let_def)
qed

section \<open>Adjusting\<close>

lemma codeOf_valid:
  assumes "1 \<le> m" "m \<le> 12"
  shows "validMonthCode (codeOf m)" "resolveNonLunisolarMonth (Some m) (Some (codeOf m)) r 12 = Inr (of_int m, codeOf m)"
    "monthCodeNumberPart (codeOf m) = Inr (Fin (of_int m))"
proof -
  have "\<forall>m \<in> set [1..12]. validMonthCode (CHR ''M'' # digits 2 (nat m))" by code_simp
  then show "validMonthCode (codeOf m)" using assms by (simp add: codeOf_def buildMonthCode_digits)
  show p: "monthCodeNumberPart (codeOf m) = Inr (Fin (of_int m))" using monthCode_parts [OF assms] by (simp add: codeOf_def)
  then show "resolveNonLunisolarMonth (Some m) (Some (codeOf m)) r 12 = Inr (of_int m, codeOf m)"
    using assms by (simp add: resolveNonLunisolarMonth_def codeOf_def throwIf_def)
qed

definition beYear :: "cal_fields \<Rightarrow> int \<Rightarrow> bool" where
  "beYear e y \<longleftrightarrow> fYear e = Some y \<and> (fEra e = None \<and> fEraYear e = None \<or> fEra e = Some ''be'' \<and> fEraYear e = Some y)
     \<or> fYear e = None \<and> fEra e = Some ''be'' \<and> fEraYear e = Some y"

definition beMonth :: "cal_fields \<Rightarrow> int \<Rightarrow> bool" where
  "beMonth e m \<longleftrightarrow> fMonth e = Some m \<and> (fMonthCode e = None \<or> fMonthCode e = Some (codeOf m))
     \<or> fMonth e = None \<and> fMonthCode e = Some (codeOf m)"

lemma be_complete:
  assumes "beYear e y" "\<bar>y\<bar> \<le> 2 ^ 50"
  shows "completeEraYear [beEra ''era0''] e = Inr (e\<lparr>fYear := Some y, fEraYear := Some y, fEra := Some ''be''\<rparr>)"
  using assms by (auto simp: beYear_def completeEraYear_def anchorYear_def beEra_def sameOrAbsent_def nsub_safe nadd_safe orThrow_def)

lemma be_adjust:
  assumes y: "beYear e y" "\<bar>y\<bar> \<le> 2 ^ 50" and m: "beMonth e m" "1 \<le> m" "m \<le> 12" and d: "fDay e = Some d" "fMonthExtra e = None"
  shows "gregorian_adjustCalendarDate beData [beEra ''era0''] e r s = Inr (eraFields ''be'' y m d, s)"
proof -
  let ?e = "e\<lparr>fMonth := Some m\<rparr>"
  have 1: "(case fMonth e of Some _ \<Rightarrow> Inr e
       | None \<Rightarrow> bindE (orThrow TypeError (fMonthCode e)) (\<lambda>a. bindE (monthCodeNumberPart a) (\<lambda>x.
           Inr (e\<lparr>fMonth := Some (case x of Fin q \<Rightarrow> \<lfloor>q\<rfloor> | _ \<Rightarrow> 0)\<rparr>)))) = Inr ?e"
    using m codeOf_valid(3) [OF m(2,3)] by (auto simp: beMonth_def orThrow_def)
  have v: "validateCalendarDate beData ?e = Inr ()"
    using y m d codeOf_valid(1) [OF m(2,3)]
    by (auto simp: validateCalendarDate_def gregorianData_def beYear_def beMonth_def)
  let ?f = "?e\<lparr>fYear := Some y, fEraYear := Some y, fEra := Some ''be''\<rparr>"
  have c: "completeEraYear [beEra ''era0''] ?e = Inr ?f"
    by (rule be_complete) (use y in \<open>auto simp: beYear_def\<close>)
  have v': "validateCalendarDate beData ?f = Inr ()"
    using y m d codeOf_valid(1) [OF m(2,3)] by (auto simp: validateCalendarDate_def gregorianData_def beMonth_def)
  have "resolveNonLunisolarMonth (fMonth ?f) (fMonthCode ?f) (Some r) 12 = Inr (of_int m, codeOf m)"
    using m codeOf_valid(2) [OF m(2,3)] resolve_index [OF m(2,3)] by (auto simp: beMonth_def)
  then have a: "adjustCalendarDate beData ?f r s = Inr (?f\<lparr>fMonthCode := Some (codeOf m)\<rparr>, s)"
    using v' by (simp add: adjustCalendarDate_def bindC_def lift_def ret_def gregorianData_def)
  have "?f\<lparr>fMonthCode := Some (codeOf m)\<rparr> = eraFields ''be'' y m d"
    using d by (simp add: eraFields_def noFields_def)
  then show ?thesis
    unfolding gregorian_adjustCalendarDate_def bindC_def lift_def 1 bindE_Inr prod.case v c a by simp
qed

section \<open>The days\<close>

definition beDate :: "int \<Rightarrow> int \<times> int \<times> int" where
  "beDate k = (let x = dateOfDay k in (year x + 543, month x, day x))"

definition printsBuddhist :: "(iso_date \<Rightarrow> (string \<times> string) list result) \<Rightarrow> int \<Rightarrow> int \<Rightarrow> bool" where
  "printsBuddhist pr lo hi \<longleftrightarrow> - (2 ^ 30) \<le> lo \<and> hi \<le> 2 ^ 30 \<and>
     (\<forall>k. lo \<le> k \<and> k \<le> hi \<longrightarrow> pr (dateOfDay k) = Inr (printed ''BE'' (beDate k)))"

lemma beDate_follows: "follows (beDate k) (beDate (k + 1))"
proof -
  let ?x = "dateOfDay k" and ?y = "dateOfDay (k + 1)"
  have l: "\<not> (year ?y < year ?x \<or> year ?y = year ?x \<and> (month ?y < month ?x \<or> month ?y = month ?x \<and> day ?y < day ?x))"
    using epochDay_less [of ?y ?x] by auto
  have "epochDay ?y = epochDay ?x + (day ?y - day ?x)" if "year ?y = year ?x" "month ?y = month ?x"
    using validDate_epochDay [of ?x] validDate_epochDay [of ?y] that by simp
  then show ?thesis using l by (auto simp: beDate_def Let_def)
qed

lemma small_year:
  assumes "\<bar>k\<bar> \<le> 2 ^ 30"
  shows "\<bar>year (dateOfDay k)\<bar> \<le> 2 ^ 30"
proof -
  have "DayFromYear (2 ^ 30 + 1) > 2 ^ 30" "DayFromYear (- (2 ^ 30)) \<le> - (2 ^ 30)" by code_simp+
  then show ?thesis
    using epochDay_year_less [of "dateOfDay k" "2 ^ 30 + 1"] epochDay_year_less [of "dateOfDay k" "- (2 ^ 30)"] assms
    by (auto simp: abs_le_iff intro: leI ccontr)
qed

lemma dateOfDay_parts:
  "1 \<le> month (dateOfDay k)" "month (dateOfDay k) \<le> 12" "1 \<le> day (dateOfDay k)" "day (dateOfDay k) \<le> 31"
  "day (dateOfDay k) \<le> ISODaysInMonth (year (dateOfDay k)) (month (dateOfDay k))"
proof -
  show "1 \<le> month (dateOfDay k)" "month (dateOfDay k) \<le> 12" "1 \<le> day (dateOfDay k)"
    and d: "day (dateOfDay k) \<le> ISODaysInMonth (year (dateOfDay k)) (month (dateOfDay k))"
    using validDate_dateOfDay [of k] by (simp_all add: validDate_def)
  then show "day (dateOfDay k) \<le> 31"
    using ISODaysInMonth_range(2) [of "month (dateOfDay k)" "year (dateOfDay k)"] by linarith
qed

definition beFields :: "int \<Rightarrow> cal_fields" where
  "beFields k = (let x = dateOfDay k in eraFields ''be'' (year x + 543) (month x) (day x))"

lemma be_convert:
  assumes p: "printsBuddhist pr lo hi" and k: "lo \<le> k" "k \<le> hi"
  shows "runCalendar (isoToCalendarDate (beHelper pr) (dateOfDay k)) = Inr (beFields k)"
proof -
  let ?x = "dateOfDay k"
  let ?e = "noFields\<lparr>fYear := None, fMonth := Some (month ?x), fDay := Some (day ?x), fEra := Some ''be'', fEraYear := Some (year ?x + 543)\<rparr>"
  have y: "\<bar>year ?x\<bar> \<le> 2 ^ 30" by (rule small_year) (use p k in \<open>simp add: printsBuddhist_def abs_le_iff\<close>)
  have n: "eraName ''BE'' = Inr ''be''" by code_simp
  have r: "readParts True (printed ''BE'' (beDate k)) noFields = Inr ?e"
    unfolding beDate_def Let_def using dateOfDay_parts [of k] y by (subst readPrinted) (simp_all add: n)
  have "gregorian_adjustCalendarDate beData [beEra ''era0''] ?e Constrain s = Inr (beFields k, s)" for s
    unfolding beFields_def Let_def
    by (rule be_adjust) (use dateOfDay_parts [of k] y in \<open>simp_all add: beYear_def beMonth_def noFields_def\<close>)
  then show ?thesis
    using p k r
    by (simp add: runCalendar_def isoToCalendarDate_def beHelper_def gregorianData_def emptyCache_def gregorian_checkIcuBugs_def
        printsBuddhist_def beFields_def eraFields_def orThrow_def Let_def)
qed

lemma be_view:
  "printsBuddhist pr lo hi \<Longrightarrow> lo \<le> k \<Longrightarrow> k \<le> hi \<Longrightarrow> view (beHelper pr) k = Some (beDate k)"
  by (simp add: view_def be_convert beFields_def beDate_def Let_def)

lemma gregorian_pure:
  "gregorian_adjustCalendarDate D es m r s = bindE (gregorian_adjustCalendarDate D es m r emptyCache) (\<lambda>(c, _). Inr (c, s))"
  if "hMonths D = (\<lambda>_. ret n)"
proof -
  have a: "adjustCalendarDate D e r s = bindE (adjustCalendarDate D e r emptyCache) (\<lambda>(c, _). Inr (c, s))" for e
    unfolding adjustCalendarDate_def Let_def that bindC_def lift_def ret_def
    by (cases "validateCalendarDate D e") (auto simp: bindE_def split: sum.splits option.splits)
  show ?thesis
    unfolding gregorian_adjustCalendarDate_def bindC_def lift_def
    by (auto simp: bindE_def a split: sum.splits)
qed

lemma be_days:
  assumes p: "printsBuddhist pr lo hi"
  shows "dayCalendar (beHelper pr) lo hi"
  unfolding dayCalendar_def
proof (intro conjI allI impI)
  show "- (2 ^ 39) \<le> lo" "hi \<le> 2 ^ 39" using p by (simp_all add: printsBuddhist_def)
  fix k assume k: "lo \<le> k \<and> k \<le> hi"
  have "\<bar>year (dateOfDay k)\<bar> \<le> 2 ^ 30" by (rule small_year) (use p k in \<open>simp add: printsBuddhist_def abs_le_iff\<close>)
  then have "smallDate (beDate k)" using dateOfDay_parts [of k] by (simp add: beDate_def Let_def abs_le_iff)
  then show "\<exists>x. view (beHelper pr) k = Some x \<and> smallDate x" using be_view [OF p] k by blast
next
  fix k x y
  assume a: "lo \<le> k \<and> k < hi \<and> view (beHelper pr) k = Some x \<and> view (beHelper pr) (k + 1) = Some y"
  then have "x = beDate k" "y = beDate (k + 1)" using be_view [OF p, of k] be_view [OF p, of "k + 1"] by auto
  then show "follows x y" using beDate_follows by simp
next
  fix m s
  show "hAdjust (beHelper pr) m Constrain True s = bindE (hAdjust (beHelper pr) m Constrain True emptyCache) (\<lambda>(c, _). Inr (c, s))"
    using gregorian_pure [of beData 12 "[beEra ''era0'']" m Constrain s] by (simp add: beHelper_def gregorianData_def)
qed

section \<open>Finding a day again\<close>

lemma be_estimate:
  assumes p: "printsBuddhist pr lo hi" and k: "lo \<le> k" "k \<le> hi" and e: "beYear e (year (dateOfDay k) + 543)"
    "beMonth e (month (dateOfDay k))" "fDay e = Some (day (dateOfDay k))" "fMonthExtra e = None"
  shows "gregorian_estimateIsoDate beData [beEra ''era0''] (beEra []) e s = Inr (dateOfDay k, s)"
proof -
  have y: "\<bar>year (dateOfDay k)\<bar> \<le> 2 ^ 30" by (rule small_year) (use p k in \<open>simp add: printsBuddhist_def abs_le_iff\<close>)
  have "gregorian_adjustCalendarDate beData [beEra ''era0''] e Constrain s = Inr (beFields k, s)"
    unfolding beFields_def Let_def by (rule be_adjust) (use dateOfDay_parts [of k] y e in simp_all)
  moreover have "RegulateISODate (year (dateOfDay k)) (month (dateOfDay k)) (day (dateOfDay k)) Constrain = Inr (dateOfDay k)"
    by (rule RegulateISODate_valid) simp
  ultimately show ?thesis
    using y by (simp add: gregorian_estimateIsoDate_def bindC_def lift_def field_def orThrow_def beFields_def eraFields_def beEra_def
        Let_def nadd_safe nsub_safe)
qed

text \<open>The first of January of a Buddhist year.\<close>

definition yearDay :: "int \<Rightarrow> int" where
  "yearDay y = epochDay (mkDate y 1 1)"

lemma yearDay_date [simp]: "dateOfDay (yearDay y) = mkDate y 1 1"
  by (simp add: yearDay_def)

lemma monthLength_cases:
  assumes "1 \<le> m" "m \<le> 12"
  shows "ISODaysInMonth y m = (if m = 2 then if InLeapYear y then 29 else 28 else if m \<in> {4, 6, 9, 11} then 30 else 31)"
  using assms by (cases rule: month_cases_1) (simp_all add: ISODaysInMonth_def LeapYear_iff)

lemma be_monthLength:
  assumes p: "printsBuddhist pr lo hi" and k: "lo \<le> k" "k \<le> hi" and j: "lo \<le> yearDay (year (dateOfDay k))" "yearDay (year (dateOfDay k)) \<le> hi"
  shows "gregorian_minimumMonthLength beData [beEra ''era0''] (beEra []) (beFields k) s
    = Inr (ISODaysInMonth (year (dateOfDay k)) (month (dateOfDay k)), s)"
proof -
  let ?x = "dateOfDay k"
  have "gregorian_estimateIsoDate beData [beEra ''era0''] (beEra []) (noFields\<lparr>fMonth := Some 1, fDay := Some 1, fYear := Some (year ?x + 543)\<rparr>) s
      = Inr (mkDate (year ?x) 1 1, s)"
    using be_estimate [OF p j] by (simp add: beYear_def beMonth_def noFields_def)
  then have l: "gregorian_inLeapYear beData [beEra ''era0''] (beEra []) (beFields k) s = Inr (InLeapYear (year ?x), s)"
    by (simp add: gregorian_inLeapYear_def bindC_def ret_def beFields_def eraFields_def isGregorianLeapYear_iff Let_def)
  have f: "fMonth (beFields k) = Some (month ?x)" by (simp add: beFields_def eraFields_def Let_def)
  show ?thesis
    unfolding gregorian_minimumMonthLength_def bindC_def f field_def lift_def orThrow_def option.case bindE_Inr prod.case
    using dateOfDay_parts(1,2) [of k] l by (cases "month ?x = 2") (auto simp: ret_def monthLength_cases)
qed

lemma be_found:
  assumes p: "printsBuddhist pr lo hi" and k: "lo + 8 \<le> k" "k + 8 \<le> hi"
    and j: "lo \<le> yearDay (year (dateOfDay k))" "yearDay (year (dateOfDay k)) \<le> hi"
    and x: "beYear x (year (dateOfDay k) + 543)" "beMonth x (month (dateOfDay k))" "ymd x = Some (beDate k)" "fMonthExtra x = None"
    and s: "cacheOk (beHelper pr) lo hi s"
  shows "\<exists>s'. calendarToIsoDate (beHelper pr) x ov s = Inr (dateOfDay k, s') \<and> cacheOk (beHelper pr) lo hi s'"
proof -
  let ?x = "dateOfDay k" and ?H = "beHelper pr"
  have kk: "lo \<le> k" "k \<le> hi" using k by simp_all
  have y: "\<bar>year ?x\<bar> \<le> 2 ^ 30" by (rule small_year) (use p kk in \<open>simp add: printsBuddhist_def abs_le_iff\<close>)
  have d: "fDay x = Some (day ?x)" using x(3) by (auto simp: ymd_def beDate_def Let_def split: option.splits)
  have bd: "beDate k = (year ?x + 543, month ?x, day ?x)" by (simp add: beDate_def Let_def)
  have ln: "hMaxLength ?H (beFields k) s = Inr (ISODaysInMonth (year ?x) (month ?x), s)" "hMinLength ?H (beFields k) s = Inr (ISODaysInMonth (year ?x) (month ?x), s)" for s
    using be_monthLength [OF p kk j] by (simp_all add: beHelper_def)
  have reg: "regulateMonthDayNaive ?H (beFields k) ov s = Inr (beFields k, s)" for s
  proof -
    have h: "hMonths ?H = (\<lambda>_. ret 12)" by (simp add: beHelper_def gregorianData_def)
    have f: "fMonth (beFields k) = Some (month ?x)" "fDay (beFields k) = Some (day ?x)" by (simp_all add: beFields_def eraFields_def Let_def)
    have u: "beFields k\<lparr>fMonth := Some (month ?x)\<rparr> = beFields k" "beFields k\<lparr>fMonth := Some (month ?x), fDay := Some (day ?x)\<rparr> = beFields k"
      by (simp_all add: beFields_def eraFields_def noFields_def Let_def)
    have c: "ConstrainToRange (month ?x) 1 12 = month ?x" "ConstrainToRange (day ?x) 1 (ISODaysInMonth (year ?x) (month ?x)) = day ?x"
      using dateOfDay_parts [of k] by (simp_all add: ConstrainToRange_def)
    show ?thesis
      using dateOfDay_parts [of k]
      by (cases ov) (simp_all add: regulateMonthDayNaive_def h f u c ln bindC_def lift_def ret_def field_def orThrow_def RejectToRange_def throwIf_def)
  qed
  have r: "reaches ?H lo hi (year ?x + 543, month ?x, day ?x) k"
    using be_view [OF p kk] kk by (simp add: reaches_def bd)
  show ?thesis
  proof (rule calendarToIsoDate_found [OF be_days [OF p] k _ _ _ _ _ _ _ _ _ r s])
    show "view ?H k = Some (year ?x + 543, month ?x, day ?x)" using be_view [OF p kk] by (simp add: bd)
    show "ymd (beFields k) = Some (year ?x + 543, month ?x, day ?x)" by (simp add: beFields_def Let_def)
    show "ymd x = Some (year ?x + 543, month ?x, day ?x)" using x(3) by (simp add: bd)
    have "gregorian_adjustCalendarDate beData [beEra ''era0''] x ov s = Inr (beFields k, s)" for s
      unfolding beFields_def Let_def by (rule be_adjust [OF x(1) _ x(2) _ _ d x(4)]) (use dateOfDay_parts [of k] y in simp_all)
    then show "\<forall>s. hAdjust ?H x ov False s = Inr (beFields k, s)" by (simp add: beHelper_def)
    show "\<forall>s. regulateMonthDayNaive ?H (beFields k) ov s = Inr (beFields k, s)" using reg by blast
    show "fMonthCode (beFields k) \<noteq> None" "fEra (beFields k) \<noteq> None \<and> fEraYear (beFields k) \<noteq> None"
      by (simp_all add: beFields_def eraFields_def Let_def)
    show "\<forall>s. \<exists>l. hMinLength ?H (beFields k) s = Inr (l, s)" using ln by blast
    show "\<forall>s. hEstimate ?H (yearMonthDay (year ?x + 543) (month ?x) (day ?x)) s = Inr (dateOfDay k, s)"
      using be_estimate [OF p kk] by (simp add: beHelper_def beYear_def beMonth_def yearMonthDay_def noFields_def)
  qed
qed

text \<open>The days from the first of January.\<close>

lemma be_daysFromStart:
  assumes p: "printsBuddhist pr lo hi" and k: "lo + 8 \<le> k" "k + 8 \<le> hi"
    and j: "lo + 8 \<le> yearDay (year (dateOfDay k))" "yearDay (year (dateOfDay k)) + 8 \<le> hi"
    and s: "cacheOk (beHelper pr) lo hi s"
  shows "\<exists>s'. calendarDaysUntil (beHelper pr) (startOfCalendarYear (beFields k)) (beFields k) s
      = Inr (k - yearDay (year (dateOfDay k)), s') \<and> cacheOk (beHelper pr) lo hi s'"
proof -
  let ?x = "dateOfDay k" and ?j = "yearDay (year (dateOfDay k))"
  have c1: "codeOf 1 = ''M01''" using buildMonthCode_digits [of 1] by (simp add: codeOf_def digits_def, code_simp)
  have 1: "\<exists>s'. calendarToIsoDate (beHelper pr) (startOfCalendarYear (beFields k)) Constrain s = Inr (dateOfDay ?j, s') \<and> cacheOk (beHelper pr) lo hi s'"
    by (rule be_found [OF p j _ _ _ _ _ _ s])
      (use j in \<open>simp_all add: startOfCalendarYear_def beFields_def eraFields_def noFields_def beYear_def beMonth_def beDate_def ymd_def Let_def c1\<close>)
  then obtain s1 where s1: "calendarToIsoDate (beHelper pr) (startOfCalendarYear (beFields k)) Constrain s = Inr (dateOfDay ?j, s1)"
    "cacheOk (beHelper pr) lo hi s1" by blast
  have "\<exists>s'. calendarToIsoDate (beHelper pr) (beFields k) Constrain s1 = Inr (dateOfDay k, s') \<and> cacheOk (beHelper pr) lo hi s'"
    by (rule be_found [OF p k _ _ _ _ _ _ s1(2)])
      (use j in \<open>simp_all add: beFields_def eraFields_def noFields_def beYear_def beMonth_def beDate_def ymd_def Let_def\<close>)
  then obtain s2 where s2: "calendarToIsoDate (beHelper pr) (beFields k) Constrain s1 = Inr (dateOfDay k, s2)" "cacheOk (beHelper pr) lo hi s2" by blast
  have "isoDaysUntil (dateOfDay ?j) (dateOfDay k) = Inr (k - ?j)"
    unfolding isoDaysUntil_def by (subst DifferenceISODate_week_day) (simp_all del: yearDay_date)
  then show ?thesis using s1 s2 by (simp add: calendarDaysUntil_def bindC_def lift_def del: yearDay_date)
qed

text \<open>C6: on a host that prints the Buddhist calendar, the year of a date is the ISO year plus
  543, but the day of the year is counted in the ISO year of that number: the code reads the year,
  month and day of the object, which are those of the calendar, as an ISO date.\<close>

theorem buddhist_dayOfYear:
  assumes p: "printsBuddhist pr lo hi" and k: "lo + 8 \<le> k" "k + 8 \<le> hi"
    and x: "validDate (mkDate (year (dateOfDay k) + 543) (month (dateOfDay k)) (day (dateOfDay k)))"
    and r: "lo + 8 \<le> yearDay (year (dateOfDay k) + 543)"
      "epochDay (mkDate (year (dateOfDay k) + 543) (month (dateOfDay k)) (day (dateOfDay k))) + 8 \<le> hi"
  shows "bindE (BuddhistHelper False pr) (\<lambda>H. runCalendar (nonIso_year H (dateOfDay k))) = Inr (year (dateOfDay k) + 543) \<and>
    bindE (BuddhistHelper False pr) (\<lambda>H. runCalendar (nonIso_dayOfYear H (dateOfDay k)))
      = Inr (DayOfYear (year (dateOfDay k) + 543) (month (dateOfDay k)) (day (dateOfDay k)))"
proof -
  let ?x = "dateOfDay k" and ?H = "beHelper pr"
  define z where "z = mkDate (year ?x + 543) (month ?x) (day ?x)"
  define j where "j = epochDay z"
  have dj: "dateOfDay j = z" using x by (simp add: j_def z_def)
  have b: "yearDay (year z) \<le> j" using validDate_year_bounds(1) [of z] x
    by (simp add: j_def z_def yearDay_def epochDay_def MakeDay_month)
  have jr: "lo + 8 \<le> j" "j + 8 \<le> hi" "lo + 8 \<le> yearDay (year z)" "yearDay (year z) + 8 \<le> hi"
    using r b by (simp_all add: j_def z_def)
  have kk: "lo \<le> k" "k \<le> hi" "lo \<le> j" "j \<le> hi" using k jr by simp_all
  note same = isoToCalendarDate_same [OF be_days [OF p]]
  obtain s1 where s1: "isoToCalendarDate ?H ?x emptyCache = Inr (beFields k, s1)" "cacheOk ?H lo hi s1"
    using same [OF kk(1,2) cacheOk_empty be_convert [OF p kk(1,2)]] by blast
  obtain s2 where s2: "isoToCalendarDate ?H ?x s1 = Inr (beFields k, s2)" "cacheOk ?H lo hi s2"
    using same [OF kk(1,2) s1(2) be_convert [OF p kk(1,2)]] by blast
  obtain s3 where s3: "isoToCalendarDate ?H ?x s2 = Inr (beFields k, s3)" "cacheOk ?H lo hi s3"
    using same [OF kk(1,2) s2(2) be_convert [OF p kk(1,2)]] by blast
  obtain s4 where s4: "isoToCalendarDate ?H z s3 = Inr (beFields j, s4)" "cacheOk ?H lo hi s4"
    using same [OF kk(3,4) s3(2) be_convert [OF p kk(3,4)]] by (auto simp: dj)
  obtain s5 where s5: "calendarDaysUntil ?H (startOfCalendarYear (beFields j)) (beFields j) s4 = Inr (j - yearDay (year z), s5)"
    using be_daysFromStart [OF p jr(1,2) _ _ s4(2)] jr by (auto simp: dj)
  have f: "fYear (beFields k) = Some (year ?x + 543)" "fMonth (beFields k) = Some (month ?x)" "fDay (beFields k) = Some (day ?x)"
    by (simp_all add: beFields_def eraFields_def Let_def)
  have o1: "runCalendar (nonIso_dayOfYear ?H ?x) = Inr (j - yearDay (year z) + 1)"
    using s4(1) by (simp add: runCalendar_def nonIso_dayOfYear_def nonIso_year_def nonIso_month_def nonIso_day_def bindC_def field_def lift_def
        ret_def orThrow_def s1(1) s2(1) s3(1) f s5 z_def)
  have "DayOfYear (year z) (month z) (day z) = j - yearDay (year z) + 1"
    using DayOfYear_epochDay [of z] x by (simp add: j_def z_def yearDay_def epochDay_def MakeDay_month)
  then show ?thesis
    using o1 by (simp add: BuddhistHelper_eq nonIso_year_def bindC_def field_def lift_def orThrow_def s1(1) f runCalendar_def z_def)
qed

theorem buddhist_dayOfYear_witness:
  "bindE (BuddhistHelper False (\<lambda>x. Inr (printed ''BE'' (beDate (epochDay x))))) (\<lambda>H. runCalendar (nonIso_dayOfYear H (mkDate 2020 12 31))) = Inr 365
   \<and> DayOfYear 2020 12 31 = 366"
proof
  have k: "dateOfDay 18627 = mkDate 2020 12 31" by code_simp
  have p: "printsBuddhist (\<lambda>x. Inr (printed ''BE'' (beDate (epochDay x)))) 0 1000000" by (simp add: printsBuddhist_def)
  have "bindE (BuddhistHelper False (\<lambda>x. Inr (printed ''BE'' (beDate (epochDay x))))) (\<lambda>H. runCalendar (nonIso_dayOfYear H (dateOfDay 18627)))
      = Inr (DayOfYear (year (dateOfDay 18627) + 543) (month (dateOfDay 18627)) (day (dateOfDay 18627)))"
  proof (rule buddhist_dayOfYear [OF p, THEN conjunct2])
    show "validDate (mkDate (year (dateOfDay 18627) + 543) (month (dateOfDay 18627)) (day (dateOfDay 18627)))" by code_simp
    show "0 + 8 \<le> yearDay (year (dateOfDay 18627) + 543)" by code_simp
    show "epochDay (mkDate (year (dateOfDay 18627) + 543) (month (dateOfDay 18627)) (day (dateOfDay 18627))) + 8 \<le> 1000000" by code_simp
  qed simp_all
  moreover have "DayOfYear 2563 12 31 = 365" by code_simp
  ultimately show "bindE (BuddhistHelper False (\<lambda>x. Inr (printed ''BE'' (beDate (epochDay x))))) (\<lambda>H. runCalendar (nonIso_dayOfYear H (mkDate 2020 12 31))) = Inr 365"
    by (simp add: k)
  show "DayOfYear 2020 12 31 = 366" by code_simp
qed

end
