(* ===== verification/Spec2Isabelle.thy ===== *)
theory Spec2Isabelle imports Duration_Props Int_Math_Props Bigstring Strftime_Props Iso_Parse_Props Class_Props Named_Zone_Props Buddhist_Calendar begin

text \<open>
  A model of the JavaScript of this repository, and what is proved of it.

  The repository is a collection of OCaml packages under \<^verbatim>\<open>src/packages\<close>. Compiled to JavaScript, some
  of their primitives are JavaScript files that are linked beside the compiled code:

  \<^item> \<^verbatim>\<open>core/core/src/temporal-polyfill/temporal-polyfill.js\<close>, the classes of \<^verbatim>\<open>Temporal\<close> (dates, times,
    instants, durations, time zones, calendars). By far the largest file; most theories model it.
  \<^item> \<^verbatim>\<open>core/core/src/strftime.js\<close>, formatting of dates by a format string.
  \<^item> \<^verbatim>\<open>base/src/runtime.js\<close>, bit counts and powers of integers.
  \<^item> \<^verbatim>\<open>base_bigstring/src/runtime.js\<close>, \<^verbatim>\<open>core/core/src/runtime.js\<close>, \<^verbatim>\<open>bin_prot/src/runtime.js\<close>, the loops
    over the bytes of bigstrings.

  The files do not call each other: OCaml code calls each of them. Inside the polyfill the layers are,
  from the bottom: arithmetic on the fields of ISO dates and times; instants and ECMAScript's \<open>Date\<close>;
  durations; time zones and calendars, which are built in or objects of the program and are called
  through a small protocol; conversion of arguments, property bags, options and strings; and the
  classes, whose methods convert their arguments and call the layers below. The theories follow these
  layers. A definition bears the name of the function it models. The polyfill is minified: its
  parameters are called \<open>e\<close>, \<open>t\<close>, \<open>r\<close> in the order of the code, and so are those of the model.

  \<^bold>\<open>How the language is modelled.\<close>
  A BigInt is an \<open>int\<close>. A Number with an integral value is an \<open>int\<close> whose arithmetic rounds to 53
  bits (\<open>nadd\<close>, \<open>nsub\<close>, \<open>nmul\<close> of \<open>Js_Number\<close>); a fractional Number is a \<open>rat\<close>, rounded by \<open>fl\<close>. In
  \<open>Js_Value\<close> a Number may also be NaN or infinite. Where the code has checked that its operands are safe
  integers, exact arithmetic is used. Exceptions are values: a \<open>result\<close> is an error or a value, and
  \<open>bindE\<close> is sequencing. A loop without a bound in the code is a \<open>partial_function\<close> in the option
  monad; \<open>None\<close>, a loop that does not end, becomes the error \<open>NoReturn\<close>, so that a theorem that a call
  returns excludes it. Loops that the code bounds are recursions with a termination proof. The only
  constant bound is the code's own: \<open>recentYear\<close> tries 100 years as \<^verbatim>\<open>HelperBase.monthDayFromFields\<close> does.
  In \<open>Strftime\<close> the depth of nested formats is a parameter, the stack of the host, and running out of it is
  a \<open>RangeError\<close>; four calls are proved to be enough for the default locale.
  A string is a list of Latin-1 characters.

  \<^bold>\<open>The theories, from the bottom.\<close>

  \<^item> \<open>Prelude\<close>: outcomes, the lemma collections, lemmas on lists and integers.
  \<^item> \<open>Js_Number\<close>, \<open>Js_Date\<close>, \<open>Js_String\<close>, \<open>Js_Value\<close>, \<open>Js_Regex\<close>: Numbers, the abstract operations of
    \<open>Date\<close>, strings, values and their conversions, the backtracking matcher of regular expressions.
  \<^item> \<open>Iso_Date\<close>, \<open>Iso_Balance\<close>, \<open>Iso_Difference\<close>: \<^verbatim>\<open>LeapYear\<close>, \<^verbatim>\<open>ISODaysInMonth\<close>, \<^verbatim>\<open>WeekOfYear\<close>,
    \<^verbatim>\<open>BalanceISODate\<close>, \<^verbatim>\<open>AddISODate\<close>, \<^verbatim>\<open>DifferenceISODate\<close> and their neighbours. The reference is the day
    number of ECMAScript: addition moves a month index, clamps the day and moves the day number; the
    difference counts the most whole months that fit. A day count of \<open>2 ^ 200\<close> is a loop that does not end.
  \<^item> \<open>Units\<close>, \<open>Rounding\<close>, \<open>Iso_Time\<close>, \<open>Epoch\<close>: the units, \<^verbatim>\<open>RoundNumberToIncrement\<close> with its modes, the
    time of day, nanoseconds since the epoch. The reference of the last two is a number of nanoseconds.
    The locale \<open>increment_rounding\<close> is what callers rely on of a rounding.
  \<^item> \<open>Duration_Balance\<close>, \<open>Iso_Calendar\<close>, \<open>Date_Time\<close>, \<open>Options\<close>, \<open>Zoned\<close>, \<open>Duration_Round\<close>,
    \<open>Duration_Props\<close>: durations with and without a reference point, the arithmetic of date-times over any
    calendar and of zoned date-times over any time zone, the options they are called with. The laws a calendar
    and a zone must obey are the locales \<open>calendar_laws\<close> and \<open>zone_laws\<close>; the ISO calendar and the zones with a
    fixed offset are proved to obey them.
  \<^item> \<open>Iso_String\<close>, \<open>Iso_Parse\<close>, \<open>Iso_Parse_Props\<close>: printing the objects, the grammar of ISO 8601
    strings and the parsers; instants and date-times are read back from their strings, and what the
    parser returns is an existing date.
  \<^item> \<open>Named_Zones\<close>, \<open>Named_Zone_Props\<close>: the offset of a named zone from what \<^verbatim>\<open>Intl.DateTimeFormat\<close>
    prints, and the search for transitions, which finds the first one if the zone changes at most once in
    fourteen days.
  \<^item> \<open>Calendar_Protocol\<close>, \<open>Temporal_Fields\<close>, \<open>Iso8601_Calendar\<close>, \<open>Temporal_Objects\<close>,
    \<open>Temporal_Conversions\<close>, \<open>Temporal_Operations\<close>: how calendars are called and what is checked of an
    object's answers, property bags, the table \<^verbatim>\<open>Ot.iso8601\<close> and the class \<^verbatim>\<open>Calendar\<close>, conversion of
    arguments, and the functions behind \<^verbatim>\<open>until\<close>, \<^verbatim>\<open>since\<close>, \<^verbatim>\<open>add\<close> and \<^verbatim>\<open>subtract\<close>.
  \<^item> \<open>Plain_Classes\<close>, \<open>Exact_Classes\<close>, \<open>Class_Props\<close>: the methods of the eight classes of objects, of
    \<^verbatim>\<open>TimeZone\<close> and of \<^verbatim>\<open>Temporal.Now\<close>, and properties from the arguments of a method to its result.
  \<^item> \<open>Non_Iso_Base\<close>, \<open>Non_Iso_Helpers\<close>, \<open>Non_Iso_Eras\<close>, \<open>Non_Iso_Calendars\<close>: the other calendars. The class
    \<^verbatim>\<open>HelperBase\<close> is a group of functions over a record \<open>helper\<close> of what subclasses override; the cache
    \<^verbatim>\<open>OneObjectCache\<close> is a state that every operation takes and returns. \<open>loadCalendars\<close> is the loop that
    fills the table of calendars.
  \<^item> \<open>Non_Iso_Props\<close>, \<open>Non_Iso_Search\<close>, \<open>Printed_Calendars\<close>, \<open>Buddhist_Calendar\<close>: the tables of the
    calendars; the search of \<^verbatim>\<open>calendarToIsoDate\<close>, which returns the right day when the host prints the
    days in order (\<open>dayCalendar\<close>) and the cache holds what the calendar has put into it (\<open>cacheOk\<close>); the
    Islamic, Persian and Buddhist calendars on hosts that print them in the documented form.
  \<^item> \<open>Strftime\<close>, \<open>Strftime_Props\<close>: a formatter with its closure variables as a record.
  \<^item> \<open>Int_Math\<close>, \<open>Int_Math_Props\<close>, \<open>Bigstring\<close>: the integer primitives on words, with the 64-bit integers
    of the OCaml runtime as the locale \<open>int64_primitives\<close>; the loops over bytes, with what a failed
    access leaves behind.

  \<^bold>\<open>Parameters.\<close>
  What the host knows is an argument: the record \<open>host\<close> (built-in calendars and zones, names of zones, the
  clock), the record \<open>intl\<close> (the parts \<^verbatim>\<open>Intl.DateTimeFormat\<close> prints for a date in a calendar), the
  \<open>formatter\<close> of a time zone (what it prints for an instant), the local time of \<open>Strftime\<close>. Calendars and zones that are objects of the program are functions.
  Two readings of the clock within one call are equal.

  \<^bold>\<open>What is not modelled.\<close>

  \<^item> The wrapper around \<^verbatim>\<open>Intl.DateTimeFormat\<close> and \<^verbatim>\<open>toLocaleString\<close>: they pass values on to the host.
  \<^item> The methods \<^verbatim>\<open>valueOf\<close>, which always throw; \<^verbatim>\<open>getCalendar\<close> and \<^verbatim>\<open>getTimeZone\<close>, which wrap an
    identifier in an object; calls of a method on a receiver of another class.
  \<^item> What a cache keeps between the calls of a program: each call starts with an empty one, and so does the
    second date of \<^verbatim>\<open>dateUntil\<close>; the 1000 entries to which a copied cache is cut, and its statistics.
  \<^item> Functions, arrays and objects with conversions of their own as values of options, and methods that are
    read as \<^verbatim>\<open>undefined\<close>; a calendar that is an object sees the ISO date of the object it is asked about.
  \<^item> Characters above U+00FF: the minus sign U+2212, names of eras. An infinite \<^verbatim>\<open>eraYear\<close>. \<^verbatim>\<open>dayOfYear\<close> of
    the other calendars is modelled for objects of the same calendar.
  \<^item> Dates with a fractional month: that the ISO calendar makes them is modelled and proved, what happens to
    them later is the outcome \<open>OutsideModel\<close>.
  \<^item> Helpers that the compiler of the polyfill adds, the loader of time zones, clocks, test and build
    support: one-line calls of the js_of_ocaml runtime or of the host.
\<close>

end
